(* ===== verification/Sass_Prelude.thy ===== *)
theory Sass_Prelude
  imports Main "HOL-Library.Word" "HOL-Library.Multiset" "HOL-Library.Monad_Syntax"
begin

text \<open>
  Shared vocabulary of the development: the machine integer types of the C++ sources, the
  theorem collections that the component theories extend, bounds-checked array reads, C's
  truncating division, and the generic list facts that the component proofs use.
\<close>

unbundle bit_operations_syntax

section \<open>Types\<close>

type_synonym u8 = "8 word"
type_synonym u16 = "16 word"
type_synonym u32 = "32 word"
type_synonym u64 = "64 word"

text \<open>Facts that say which fields of a state an operation leaves alone.\<close>

named_theorems frame

text \<open>Unfolding facts of the small accessors of a component.\<close>

named_theorems model_defs

section \<open>Array reads and C division\<close>

text \<open>
  A read of \<open>ptr[i]\<close> of an array that holds \<open>length xs\<close> live elements: \<open>None\<close> stands for
  a read outside of them, which C++ leaves undefined.
\<close>

definition nth_opt :: "'a list \<Rightarrow> nat \<Rightarrow> 'a option" where
  "nth_opt xs i = (if i < length xs then Some (xs ! i) else None)"

text \<open>C's signed division truncates towards zero.\<close>

definition c_div :: "int \<Rightarrow> int \<Rightarrow> int" where
  "c_div a b = sgn a * sgn b * (\<bar>a\<bar> div \<bar>b\<bar>)"

text \<open>The two's complement reading of a 64 bit difference or sum (\<open>int64_t\<close>).\<close>

definition to_i64 :: "int \<Rightarrow> int" where
  "to_i64 x = sint (word_of_int x :: u64)"

section \<open>Ranked insertion\<close>

text \<open>
  The reference definition of inserting into a list ranked by a strict order: before the first
  element that does not outrank the new one.
\<close>

fun ins_rank :: "('a \<Rightarrow> 'a \<Rightarrow> bool) \<Rightarrow> 'a \<Rightarrow> 'a list \<Rightarrow> 'a list" where
  "ins_rank gt p [] = [p]"
| "ins_rank gt p (x # xs) = (if gt x p then x # ins_rank gt p xs else p # x # xs)"

section \<open>Generic facts\<close>

lemma nth_opt_Some_iff [simp]: "nth_opt xs i = Some x \<longleftrightarrow> i < length xs \<and> xs ! i = x"
  by (auto simp: nth_opt_def)

lemma nth_opt_None_iff [simp]: "nth_opt xs i = None \<longleftrightarrow> length xs \<le> i"
  by (auto simp: nth_opt_def)

lemma nth_opt_in_set: "nth_opt xs i = Some x \<Longrightarrow> x \<in> set xs"
  by auto

lemma c_div_one [simp]: "c_div a 1 = a"
  by (simp add: c_div_def sgn_mult_abs)

lemma to_i64_id: "- (2 ^ 63) \<le> x \<Longrightarrow> x < 2 ^ 63 \<Longrightarrow> to_i64 x = x"
  by (simp add: to_i64_def sint_sbintrunc' signed_take_bit_int_eq_self)

lemma filter_length_remove1:
  "x \<in> set xs \<Longrightarrow> distinct xs \<Longrightarrow>
   length (filter P xs) = length (filter P (remove1 x xs)) + (if P x then 1 else 0)"
  by (induction xs) auto

lemma length_filter_eq_card: "distinct xs \<Longrightarrow> length (filter P xs) = card {x \<in> set xs. P x}"
  by (metis distinct_card distinct_filter set_filter)

lemma sorted_wrt_remove1: "sorted_wrt P xs \<Longrightarrow> sorted_wrt P (remove1 x xs)"
  by (induction xs) (auto dest: notin_set_remove1 [rotated] subsetD [OF set_remove1_subset])

lemma set_ins_rank [simp]: "set (ins_rank gt p xs) = insert p (set xs)"
  by (induction xs) auto

lemma length_ins_rank [simp]: "length (ins_rank gt p xs) = Suc (length xs)"
  by (induction xs) auto

lemma ins_rank_snoc_ge: "\<not> gt z p \<Longrightarrow> ins_rank gt p (xs @ [z]) = ins_rank gt p xs @ [z]"
  by (induction xs) auto

lemma ins_rank_all: "\<forall>x\<in>set xs. gt x p \<Longrightarrow> ins_rank gt p xs = xs @ [p]"
  by (induction xs) auto

text \<open>
  What a client of a ranking relies on: a strict order that compares any two elements whose keys
  differ.
\<close>

locale ranking =
  fixes gt :: "'a \<Rightarrow> 'a \<Rightarrow> bool"
    and key :: "'a \<Rightarrow> 'k"
  assumes gt_irrefl: "\<not> gt a a"
    and gt_trans: "gt a b \<Longrightarrow> gt b c \<Longrightarrow> gt a c"
    and gt_total: "key a \<noteq> key b \<Longrightarrow> gt a b \<or> gt b a"
begin

lemma gt_asym: "gt a b \<Longrightarrow> \<not> gt b a"
  using gt_irrefl gt_trans by blast

lemma ins_rank_sorted:
  "sorted_wrt gt xs \<Longrightarrow> key p \<notin> key ` set xs \<Longrightarrow> sorted_wrt gt (ins_rank gt p xs)"
proof (induction xs)
  case (Cons x xs)
  show ?case
  proof (cases "gt x p")
    case True
    with Cons show ?thesis by auto
  next
    case False
    with Cons.prems gt_total [of x p] have "gt p x" by auto
    with Cons.prems False show ?thesis by (auto intro: gt_trans)
  qed
qed simp

lemma head_outranks: "sorted_wrt gt (x # xs) \<Longrightarrow> y \<in> set xs \<Longrightarrow> gt x y \<and> \<not> gt y x"
  by (simp add: gt_asym)

lemma sorted_distinct: "sorted_wrt gt xs \<Longrightarrow> distinct xs"
  by (induction xs) (auto simp: gt_irrefl)

text \<open>A ranked list is determined by its elements.\<close>

lemma sorted_unique:
  "sorted_wrt gt xs \<Longrightarrow> sorted_wrt gt ys \<Longrightarrow> set xs = set ys \<Longrightarrow> xs = ys"
proof (induction xs arbitrary: ys)
  case (Cons x xs)
  then obtain y ys' where ys: "ys = y # ys'" by (cases ys) auto
  have "x = y"
  proof (rule ccontr)
    assume "x \<noteq> y"
    with Cons.prems ys have "gt x y" and "gt y x" by auto
    then show False using gt_asym by blast
  qed
  moreover from Cons.prems ys have "x \<notin> set xs" and "y \<notin> set ys'"
    using gt_irrefl by auto
  ultimately have "set xs = set ys'" using Cons.prems(3) ys by auto
  then show ?case using Cons ys \<open>x = y\<close> by auto
qed simp

end

end
