(* ===== verification/Ft_Queue.thy ===== *)
theory Ft_Queue
  imports Sass_Prelude
begin

text \<open>
  The data structures under the fault tolerance protocol (\<open>include/sassrv/ft.h\<close> and the second
  half of \<open>src/ft.cpp\<close>): the peer record \<open>FtPeer\<close> with its rank order, the counters
  \<open>FtStateCount\<close>, the ranked array \<open>FtQueue\<close> with the position every peer stores of itself, and
  the slot allocator \<open>FtPeerFree\<close>.
\<close>

section \<open>Peers\<close>

datatype ft_state =
    STATE_LISTEN | STATE_JOIN | STATE_PRIMARY | STATE_SECONDARY | STATE_FINISH

fun ft_state_code :: "ft_state \<Rightarrow> nat" where
  "ft_state_code STATE_LISTEN = 0"
| "ft_state_code STATE_JOIN = 1"
| "ft_state_code STATE_PRIMARY = 2"
| "ft_state_code STATE_SECONDARY = 3"
| "ft_state_code STATE_FINISH = 4"

text \<open>The comparisons of the source are on the enum's codes.\<close>

instantiation ft_state :: linorder
begin

definition less_eq_ft_state :: "ft_state \<Rightarrow> ft_state \<Rightarrow> bool" where
  "less_eq_ft_state a b \<longleftrightarrow> ft_state_code a \<le> ft_state_code b"

definition less_ft_state :: "ft_state \<Rightarrow> ft_state \<Rightarrow> bool" where
  "less_ft_state a b \<longleftrightarrow> ft_state_code a < ft_state_code b"

instance
proof
  fix a b :: ft_state
  show "a \<le> b \<Longrightarrow> b \<le> a \<Longrightarrow> a = b"
    by (cases a; cases b) (simp_all add: less_eq_ft_state_def)
qed (auto simp: less_eq_ft_state_def less_ft_state_def)

end

text \<open>
  A pointer to a peer: the member's own record, or the record in a slot of the allocator. The
  pointers stay fixed while the peer lives, so they are the identities the queue holds.
\<close>

datatype peer_ref = Me | Slot nat

record ft_peer =
  p_start_ns :: u64
  p_weight :: u64
  p_last_rcv_ns :: u64
  p_latency_accum :: int
  p_pos :: nat
  p_latency_cnt :: u32
  p_state :: ft_state
  p_old_state :: ft_state
  p_user :: string
  p_sync_inbox :: string

definition peer_zero :: ft_peer where
  "peer_zero = \<lparr>p_start_ns = 0, p_weight = 0, p_last_rcv_ns = 0, p_latency_accum = 0, p_pos = 0,
     p_latency_cnt = 0, p_state = STATE_LISTEN, p_old_state = STATE_LISTEN, p_user = [],
     p_sync_inbox = []\<rparr>"

datatype ft_msg_type =
    ANNOUNCE | HEARTBEAT | KEEPALIVE | ACTIVATE | DEACTIVATE | ACK | FINISH | EXITING

record ft_peer_msg =
  m_type :: ft_msg_type
  m_state :: ft_state
  m_member_cnt :: u32
  m_hb_ival :: u32
  m_act_ival :: u32
  m_prep_ival :: u32
  m_start_ns :: u64
  m_weight :: u64
  m_cur_time :: u64
  m_fin_time :: u64
  m_reply :: string
  m_user :: string
  m_sync_inbox :: string

subsection \<open>State counters\<close>

record ft_state_count =
  c_primary :: u32
  c_secondary :: u32
  c_join :: u32

definition count_init :: ft_state_count where
  "count_init = \<lparr>c_primary = 0, c_secondary = 0, c_join = 0\<rparr>"

definition member_count :: "ft_state_count \<Rightarrow> u32" where
  "member_count c = c_primary c + c_secondary c + c_join c"

fun count_dec :: "ft_state \<Rightarrow> ft_state_count \<Rightarrow> ft_state_count" where
  "count_dec STATE_JOIN c = c\<lparr>c_join := c_join c - 1\<rparr>"
| "count_dec STATE_PRIMARY c = c\<lparr>c_primary := c_primary c - 1\<rparr>"
| "count_dec STATE_SECONDARY c = c\<lparr>c_secondary := c_secondary c - 1\<rparr>"
| "count_dec _ c = c"

fun count_inc :: "ft_state \<Rightarrow> ft_state_count \<Rightarrow> ft_state_count" where
  "count_inc STATE_JOIN c = c\<lparr>c_join := c_join c + 1\<rparr>"
| "count_inc STATE_PRIMARY c = c\<lparr>c_primary := c_primary c + 1\<rparr>"
| "count_inc STATE_SECONDARY c = c\<lparr>c_secondary := c_secondary c + 1\<rparr>"
| "count_inc _ c = c"

definition count_update :: "ft_state \<Rightarrow> ft_state \<Rightarrow> ft_state_count \<Rightarrow> ft_state_count" where
  "count_update old_state new_state c = count_inc new_state (count_dec old_state c)"

subsection \<open>Operations of a peer\<close>

definition peer_set :: "ft_peer_msg \<Rightarrow> ft_peer \<times> ft_state_count \<Rightarrow> ft_peer \<times> ft_state_count" where
  "peer_set m = (\<lambda>(p, c).
     (p\<lparr>p_start_ns := m_start_ns m, p_weight := m_weight m, p_old_state := p_state p,
        p_state := m_state m, p_user := m_user m, p_sync_inbox := m_sync_inbox m\<rparr>,
      count_update (p_state p) (m_state m) c))"

definition peer_update_state ::
  "ft_state \<Rightarrow> ft_peer \<times> ft_state_count \<Rightarrow> ft_peer \<times> ft_state_count" where
  "peer_update_state new_state = (\<lambda>(p, c).
     (p\<lparr>p_old_state := p_state p, p_state := new_state\<rparr>,
      count_update (p_state p) new_state c))"

definition latency :: "ft_peer \<Rightarrow> int" where
  "latency p =
     (if p_latency_cnt p mod 256 = 0 then 0
      else c_div (p_latency_accum p) (uint (p_latency_cnt p mod 256)))"

definition accum_latency :: "int \<Rightarrow> ft_peer \<Rightarrow> ft_peer" where
  "accum_latency lat p =
     (let p1 = (if (p_latency_cnt p + 1) mod 256 = 0
                then p\<lparr>p_latency_accum := latency p, p_latency_cnt := p_latency_cnt p + 1\<rparr>
                else p)
      in p1\<lparr>p_latency_accum := to_i64 (p_latency_accum p1 + lat),
            p_latency_cnt := p_latency_cnt p1 + 1\<rparr>)"

definition is_greater_weight :: "ft_peer \<Rightarrow> ft_peer \<Rightarrow> bool" where
  "is_greater_weight p1 p2 =
     (if p_weight p1 > p_weight p2 then True
      else if p_weight p1 = p_weight p2 then
        (if p_start_ns p1 < p_start_ns p2 then True else False)
      else False)"

definition is_greater :: "ft_peer \<Rightarrow> ft_peer \<Rightarrow> bool" where
  "is_greater p1 p2 =
     (let s1 = (if p_state p1 > STATE_JOIN then 1 else 0 :: nat);
          s2 = (if p_state p2 > STATE_JOIN then 1 else 0)
      in if s1 > s2 then True
         else if s1 = s2 then is_greater_weight p1 p2
         else False)"

section \<open>The ranked queue\<close>

text \<open>
  \<open>peers\<close> is the memory of the peer records, \<open>q_ptr\<close> the array \<open>ptr[0 .. count - 1]\<close> of pointers
  to them. Ranks and array indices are \<open>nat\<close>: a queue of \<open>2 ^ 32\<close> peers does not fit in memory.
\<close>

record ft_mem =
  peers :: "peer_ref \<Rightarrow> ft_peer"
  q_ptr :: "peer_ref list"
  q_seqno :: u64

abbreviation gt_at :: "(peer_ref \<Rightarrow> ft_peer) \<Rightarrow> peer_ref \<Rightarrow> peer_ref \<Rightarrow> bool" where
  "gt_at st a b \<equiv> is_greater (st a) (st b)"

definition set_pos :: "peer_ref \<Rightarrow> nat \<Rightarrow> (peer_ref \<Rightarrow> ft_peer) \<Rightarrow> (peer_ref \<Rightarrow> ft_peer)" where
  "set_pos r n st = st(r := (st r)\<lparr>p_pos := n\<rparr>)"

text \<open>The loop that moves \<open>p\<close> up from index \<open>j\<close> past the elements that do not outrank it.\<close>

fun reorder_loop ::
  "(peer_ref \<Rightarrow> ft_peer) \<Rightarrow> peer_ref \<Rightarrow> peer_ref list \<Rightarrow> nat \<Rightarrow> peer_ref list \<times> nat" where
  "reorder_loop st p xs 0 = (xs, 0)"
| "reorder_loop st p xs (Suc j) =
     (if is_greater (st (xs ! j)) (st p) then (xs, Suc j)
      else reorder_loop st p ((xs[Suc j := xs ! j])[j := p]) j)"

text \<open>The loop that stores \<open>j + 1\<close> in the peer at every index from \<open>j\<close> on.\<close>

definition renumber ::
  "peer_ref list \<Rightarrow> nat \<Rightarrow> (peer_ref \<Rightarrow> ft_peer) \<Rightarrow> (peer_ref \<Rightarrow> ft_peer)" where
  "renumber xs j = fold (\<lambda>i. set_pos (xs ! i) (Suc i)) [j ..< length xs]"

text \<open>\<open>reorder\<close> runs on a queue that holds at least the peer just stored at its end.\<close>

definition ftq_reorder :: "'a ft_mem_scheme \<Rightarrow> 'a ft_mem_scheme" where
  "ftq_reorder m =
     (let (xs, j) = reorder_loop (peers m) (last (q_ptr m)) (q_ptr m) (length (q_ptr m) - 1)
      in m\<lparr>q_ptr := xs, peers := renumber xs j (peers m)\<rparr>)"

definition ftq_insert :: "peer_ref \<Rightarrow> 'a ft_mem_scheme \<Rightarrow> 'a ft_mem_scheme" where
  "ftq_insert p m =
     (let m1 = ftq_reorder (m\<lparr>q_ptr := q_ptr m @ [p]\<rparr>)
      in m1\<lparr>q_seqno := q_seqno m1 + 1\<rparr>)"

text \<open>The index at which a search of the array stops: the length when \<open>p\<close> is not in it.\<close>

fun find_index :: "'a \<Rightarrow> 'a list \<Rightarrow> nat" where
  "find_index p [] = 0"
| "find_index p (x # xs) = (if x = p then 0 else Suc (find_index p xs))"

definition ftq_get_pos :: "peer_ref \<Rightarrow> 'a ft_mem_scheme \<Rightarrow> nat" where
  "ftq_get_pos p m =
     (let j = p_pos (peers m p)
      in if j > 0 \<and> nth_opt (q_ptr m) (j - 1) = Some p then j - 1
         else find_index p (q_ptr m))"

text \<open>
  The loop of \<open>remove\<close> and \<open>update\<close> that closes the gap at \<open>j\<close>: \<open>n\<close> iterations are left, the
  last element stays in place twice.
\<close>

fun shift_loop ::
  "(peer_ref \<Rightarrow> ft_peer) \<Rightarrow> peer_ref list \<Rightarrow> nat \<Rightarrow> nat \<Rightarrow> (peer_ref \<Rightarrow> ft_peer) \<times> peer_ref list" where
  "shift_loop st xs j 0 = (st, xs)"
| "shift_loop st xs j (Suc n) =
     (let ys = xs[j := xs ! Suc j] in shift_loop (set_pos (ys ! j) (Suc j) st) ys (Suc j) n)"

definition ftq_remove :: "peer_ref \<Rightarrow> 'a ft_mem_scheme \<Rightarrow> 'a ft_mem_scheme" where
  "ftq_remove p m =
     (let j = ftq_get_pos p m; n = length (q_ptr m)
      in if p_pos (peers m p) = 0 \<or> j = n then m
         else let (st, xs) = shift_loop (peers m) (q_ptr m) j (n - Suc j)
              in m\<lparr>peers := set_pos p 0 st, q_ptr := butlast xs, q_seqno := q_seqno m + 1\<rparr>)"

definition ftq_in_order2 :: "peer_ref \<Rightarrow> 'a ft_mem_scheme \<Rightarrow> bool" where
  "ftq_in_order2 p m =
     (let j = p_pos (peers m p) - 1; xs = q_ptr m; st = peers m
      in if p_pos (st p) = 0 \<or> nth_opt xs j \<noteq> Some p then False
         else (j = 0 \<or> is_greater (st (xs ! (j - 1))) (st p)) \<and>
              (Suc j = length xs \<or> is_greater (st p) (st (xs ! Suc j))))"

definition ftq_in_order :: "peer_ref \<Rightarrow> 'a ft_mem_scheme \<Rightarrow> bool" where
  "ftq_in_order p m = (if p_pos (peers m p) = 0 then False else ftq_in_order2 p m)"

definition ftq_update :: "peer_ref \<Rightarrow> 'a ft_mem_scheme \<Rightarrow> 'a ft_mem_scheme" where
  "ftq_update p m =
     (let j = ftq_get_pos p m; n = length (q_ptr m)
      in if p_pos (peers m p) = 0 \<or> j = n then ftq_insert p m
         else if ftq_in_order2 p m then m
         else let (st, xs) = shift_loop (peers m) (q_ptr m) j (n - Suc j);
                  m1 = ftq_reorder (m\<lparr>peers := st, q_ptr := xs[n - 1 := p]\<rparr>)
              in m1\<lparr>q_seqno := q_seqno m1 + 1\<rparr>)"

section \<open>The slot allocator\<close>

text \<open>
  The blocks of 16 slots, newest first, each with the index it was made with and its mask of used
  slots. The slot \<open>k\<close> of block \<open>b\<close> is \<open>Slot (16 * b + k)\<close>.
\<close>

type_synonym ft_pool = "(nat \<times> u16) list"

fun is_all_used :: "ft_pool \<Rightarrow> bool" where
  "is_all_used [] = True"
| "is_all_used ((b, used_mask) # fs) = (if used_mask \<noteq> 0xffff then False else is_all_used fs)"

function first_free_bit :: "u16 \<Rightarrow> nat \<Rightarrow> nat option" where
  "first_free_bit used_mask k =
     (if k \<ge> 16 then None
      else if used_mask AND push_bit k 1 = 0 then Some k
      else first_free_bit used_mask (Suc k))"
  by pat_completeness auto
termination
  by (relation "measure (\<lambda>(used_mask, k). 16 - k)") auto

declare first_free_bit.simps [simp del]

text \<open>\<open>FtPeerFree::make_peer\<close>; \<open>None\<close> is the walk past the last block.\<close>

fun pool_make :: "ft_pool \<Rightarrow> (nat \<times> ft_pool) option" where
  "pool_make [] = None"
| "pool_make ((b, used_mask) # fs) =
     (if used_mask \<noteq> 0xffff then
        (case first_free_bit used_mask 0 of
           None \<Rightarrow> None
         | Some k \<Rightarrow> Some (16 * b + k, (b, used_mask OR push_bit k 1) # fs))
      else (case pool_make fs of None \<Rightarrow> None | Some (i, fs') \<Rightarrow> Some (i, (b, used_mask) # fs')))"

text \<open>\<open>FtPeerFree::release_peer\<close>; \<open>None\<close> is the walk past the last block.\<close>

fun pool_release :: "nat \<Rightarrow> ft_pool \<Rightarrow> ft_pool option" where
  "pool_release i [] = None"
| "pool_release i ((b, used_mask) # fs) =
     (if i < 16 * b \<or> i \<ge> 16 * b + 16
      then map_option (\<lambda>fs'. (b, used_mask) # fs') (pool_release i fs)
      else Some ((b, used_mask AND NOT (push_bit (i - 16 * b) 1)) # fs))"

text \<open>The block list as \<open>RvFt::make_peer\<close> grows it.\<close>

definition pool_grow :: "ft_pool \<Rightarrow> ft_pool" where
  "pool_grow fs = (if is_all_used fs then (length fs, 0) # fs else fs)"

text \<open>The slots in use.\<close>

definition pool_used :: "ft_pool \<Rightarrow> nat set" where
  "pool_used fs = {i. \<exists>used_mask. (i div 16, used_mask) \<in> set fs \<and> bit used_mask (i mod 16)}"

text \<open>Block indices count down to the oldest block.\<close>

definition pool_ok :: "ft_pool \<Rightarrow> bool" where
  "pool_ok fs \<longleftrightarrow> map fst fs = rev [0 ..< length fs]"

section \<open>The rank order\<close>

lemma is_greater_weight_iff:
  "is_greater_weight p q \<longleftrightarrow>
     p_weight p > p_weight q \<or> p_weight p = p_weight q \<and> p_start_ns p < p_start_ns q"
  by (simp add: is_greater_weight_def)

lemma is_greater_iff:
  "is_greater p q \<longleftrightarrow>
     (STATE_JOIN < p_state p \<and> \<not> STATE_JOIN < p_state q) \<or>
     ((STATE_JOIN < p_state p \<longleftrightarrow> STATE_JOIN < p_state q) \<and> is_greater_weight p q)"
  by (auto simp: is_greater_def Let_def)

lemma is_greater_weight_trans:
  "is_greater_weight a b \<Longrightarrow> is_greater_weight b c \<Longrightarrow> is_greater_weight a c"
  by (auto simp: is_greater_weight_iff)

interpretation weight_rank: ranking is_greater_weight p_start_ns
  by unfold_locales (auto simp: is_greater_weight_iff)

interpretation peer_rank: ranking is_greater p_start_ns
proof
  fix a b c :: ft_peer
  show "\<not> is_greater a a" by (simp add: is_greater_iff weight_rank.gt_irrefl)
  show "is_greater a b \<Longrightarrow> is_greater b c \<Longrightarrow> is_greater a c"
    by (auto simp: is_greater_iff intro: is_greater_weight_trans)
  show "p_start_ns a \<noteq> p_start_ns b \<Longrightarrow> is_greater a b \<or> is_greater b a"
    using weight_rank.gt_total by (auto simp: is_greater_iff)
qed

text \<open>The same order on pointers, read through the memory of the peers.\<close>

interpretation ref_rank: ranking "gt_at st" "\<lambda>r. p_start_ns (st r)" for st :: "peer_ref \<Rightarrow> ft_peer"
  by unfold_locales
    (auto simp: peer_rank.gt_irrefl peer_rank.gt_total intro: peer_rank.gt_trans)

section \<open>The array loops\<close>

lemma reorder_loop_spec:
  "reorder_loop st p xs j = (ys, k) \<Longrightarrow> j < length xs \<Longrightarrow> xs ! j = p \<Longrightarrow>
   mset ys = mset xs \<and> length ys = length xs \<and> k \<le> j \<and> take k ys = take k xs"
proof (induction j arbitrary: xs)
  case (Suc j)
  show ?case
  proof (cases "is_greater (st (xs ! j)) (st p)")
    case True
    with Suc.prems show ?thesis by auto
  next
    case False
    let ?zs = "xs[Suc j := xs ! j, j := p]"
    have "mset ?zs = mset xs"
      using Suc.prems mset_swap [of j xs "Suc j"] by simp
    moreover from False Suc.prems have
      "mset ys = mset ?zs \<and> length ys = length ?zs \<and> k \<le> j \<and> take k ys = take k ?zs"
      by (intro Suc.IH) auto
    moreover have "take k ?zs = take k xs" if "k \<le> j" using that by simp
    ultimately show ?thesis by auto
  qed
qed auto

lemma reorder_loop_ins_rank:
  "sorted_wrt (gt_at st) xs \<Longrightarrow>
   reorder_loop st p (xs @ p # ys) (length xs) =
     (ins_rank (gt_at st) p xs @ ys, length (takeWhile (\<lambda>x. gt_at st x p) xs))"
proof (induction xs arbitrary: ys rule: rev_induct)
  case (snoc z zs)
  show ?case
  proof (cases "gt_at st z p")
    case True
    with snoc.prems have "\<forall>x\<in>set (zs @ [z]). gt_at st x p"
      by (auto simp: sorted_wrt_append intro: peer_rank.gt_trans)
    then show ?thesis using True by (simp add: nth_append ins_rank_all)
  next
    case False
    have "(zs @ [z]) @ p # ys = zs @ z # p # ys" by simp
    then have "reorder_loop st p ((zs @ [z]) @ p # ys) (length (zs @ [z])) =
      reorder_loop st p (zs @ p # z # ys) (length zs)"
      using False by (simp add: nth_append list_update_append)
    with snoc show ?thesis using False
      by (simp add: sorted_wrt_append ins_rank_snoc_ge takeWhile_append list_update_append
          takeWhile_eq_all_conv [THEN iffD2])
  qed
qed simp

definition nopos :: "ft_peer \<Rightarrow> ft_peer" where
  "nopos p = p\<lparr>p_pos := 0\<rparr>"

lemma nopos_set_pos [simp]: "nopos (set_pos a n st r) = nopos (st r)"
  by (simp add: nopos_def set_pos_def)

lemma pos_set_pos [simp]: "p_pos (set_pos r n st r) = n"
  by (simp add: set_pos_def)

lemma nopos_fields:
  assumes "nopos p = nopos q"
  shows "p_start_ns p = p_start_ns q" "p_weight p = p_weight q"
    "p_last_rcv_ns p = p_last_rcv_ns q" "p_latency_accum p = p_latency_accum q"
    "p_latency_cnt p = p_latency_cnt q" "p_state p = p_state q" "p_old_state p = p_old_state q"
    "p_user p = p_user q" "p_sync_inbox p = p_sync_inbox q"
  using assms by (simp_all add: nopos_def ft_peer.simps; cases p; cases q; simp)+

lemma is_greater_nopos:
  "nopos a = nopos a' \<Longrightarrow> nopos b = nopos b' \<Longrightarrow> is_greater a b = is_greater a' b'"
  by (simp add: is_greater_iff is_greater_weight_iff nopos_fields [of a a'] nopos_fields [of b b'])

lemma fold_set_pos_nopos [simp]:
  "nopos (fold (\<lambda>i. set_pos (f i) (g i)) is st r) = nopos (st r)"
  by (induction "is" arbitrary: st) simp_all

lemma fold_set_pos_other:
  "\<forall>i\<in>set is. f i \<noteq> r \<Longrightarrow> fold (\<lambda>i. set_pos (f i) (g i)) is st r = st r"
  by (induction "is" arbitrary: st) (auto simp: set_pos_def)

lemma fold_set_pos_at:
  "inj_on f (set is) \<Longrightarrow> distinct is \<Longrightarrow> i \<in> set is \<Longrightarrow>
   p_pos (fold (\<lambda>i. set_pos (f i) (g i)) is st (f i)) = g i"
proof (induction "is" arbitrary: st)
  case (Cons k ks)
  show ?case
  proof (cases "i = k")
    case True
    with Cons.prems have "\<forall>j\<in>set ks. f j \<noteq> f i" by (auto simp: inj_on_def)
    then show ?thesis using True by (simp add: fold_set_pos_other)
  next
    case False
    with Cons show ?thesis by auto
  qed
qed simp

lemma renumber_pos:
  "distinct xs \<Longrightarrow> j \<le> i \<Longrightarrow> i < length xs \<Longrightarrow> p_pos (renumber xs j st (xs ! i)) = Suc i"
  unfolding renumber_def
  using fold_set_pos_at [of "(!) xs" "[j..<length xs]" i Suc st]
  by (auto simp: inj_on_def nth_eq_iff_index_eq)

lemma renumber_other: "r \<notin> set (drop j xs) \<Longrightarrow> renumber xs j st r = st r"
  unfolding renumber_def
proof (rule fold_set_pos_other, rule ballI, rule notI)
  fix i
  assume r: "r \<notin> set (drop j xs)" and "i \<in> set [j ..< length xs]" and "xs ! i = r"
  then have "drop j xs ! (i - j) = r" and "i - j < length (drop j xs)" by auto
  with r show False by (metis nth_mem)
qed

lemma shift_loop_eq:
  "j + n < length xs \<Longrightarrow>
   shift_loop st xs j n =
     (fold (\<lambda>i. set_pos (xs ! Suc i) (Suc i)) [j ..< j + n] st,
      take j xs @ take n (drop (Suc j) xs) @ drop (j + n) xs)"
proof (induction n arbitrary: st xs j)
  case 0
  then show ?case by simp
next
  case (Suc n)
  let ?ys = "xs[j := xs ! Suc j]"
  have "shift_loop st xs j (Suc n) = shift_loop (set_pos (xs ! Suc j) (Suc j) st) ?ys (Suc j) n"
    using Suc.prems by (simp add: Let_def)
  also have "\<dots> = (fold (\<lambda>i. set_pos (?ys ! Suc i) (Suc i)) [Suc j ..< Suc j + n]
        (set_pos (xs ! Suc j) (Suc j) st),
      take (Suc j) ?ys @ take n (drop (Suc (Suc j)) ?ys) @ drop (Suc j + n) ?ys)"
    using Suc.prems by (intro Suc.IH) simp
  also have "fold (\<lambda>i. set_pos (?ys ! Suc i) (Suc i)) [Suc j ..< Suc j + n]
        (set_pos (xs ! Suc j) (Suc j) st) =
      fold (\<lambda>i. set_pos (xs ! Suc i) (Suc i)) [j ..< j + Suc n] st"
  proof -
    have "[j ..< j + Suc n] = j # [Suc j ..< Suc j + n]"
      using upt_conv_Cons [of j "j + Suc n"] by simp
    then show ?thesis by (simp only: fold_simps) (rule fold_cong, auto)
  qed
  also have "take (Suc j) ?ys @ take n (drop (Suc (Suc j)) ?ys) @ drop (Suc j + n) ?ys =
      take j xs @ take (Suc n) (drop (Suc j) xs) @ drop (j + Suc n) xs"
    using Suc.prems by (simp add: take_Suc_conv_app_nth flip: Cons_nth_drop_Suc)
  finally show ?case .
qed

subsection \<open>What the queue operations leave alone\<close>

lemma shift_loop_nopos: "nopos (fst (shift_loop st xs j n) r) = nopos (st r)"
  by (induction n arbitrary: st xs j) (simp_all add: Let_def)

lemma ftq_reorder_nopos [frame]: "nopos (peers (ftq_reorder m) r) = nopos (peers m r)"
  by (simp add: ftq_reorder_def renumber_def split: prod.split)

lemma ftq_insert_nopos [frame]: "nopos (peers (ftq_insert p m) r) = nopos (peers m r)"
  by (simp add: ftq_insert_def Let_def ftq_reorder_nopos)

lemma ftq_remove_nopos [frame]: "nopos (peers (ftq_remove p m) r) = nopos (peers m r)"
  using shift_loop_nopos [of "peers m"]
  by (simp add: ftq_remove_def Let_def split: prod.split) (metis fst_conv)

lemma ftq_update_nopos [frame]: "nopos (peers (ftq_update p m) r) = nopos (peers m r)"
  using shift_loop_nopos [of "peers m"]
  by (simp add: ftq_update_def Let_def ftq_insert_nopos ftq_reorder_nopos split: prod.split)
    (metis fst_conv)

lemmas ftq_insert_fields [frame] = nopos_fields [OF ftq_insert_nopos]
lemmas ftq_remove_fields [frame] = nopos_fields [OF ftq_remove_nopos]
lemmas ftq_update_fields [frame] = nopos_fields [OF ftq_update_nopos]

lemma ftq_reorder_shape:
  "ftq_reorder m = m\<lparr>peers := peers (ftq_reorder m), q_ptr := q_ptr (ftq_reorder m)\<rparr>"
  by (simp add: ftq_reorder_def split: prod.split)

lemma ftq_insert_shape:
  "ftq_insert p m = m\<lparr>peers := peers (ftq_insert p m), q_ptr := q_ptr (ftq_insert p m),
     q_seqno := q_seqno (ftq_insert p m)\<rparr>"
  by (simp add: ftq_insert_def Let_def) (subst ftq_reorder_shape, simp)

lemma ftq_remove_shape:
  "ftq_remove p m = m\<lparr>peers := peers (ftq_remove p m), q_ptr := q_ptr (ftq_remove p m),
     q_seqno := q_seqno (ftq_remove p m)\<rparr>"
  by (simp add: ftq_remove_def Let_def split: prod.split)

lemma ftq_update_shape:
  "ftq_update p m = m\<lparr>peers := peers (ftq_update p m), q_ptr := q_ptr (ftq_update p m),
     q_seqno := q_seqno (ftq_update p m)\<rparr>"
proof -
  have "(ftq_reorder (m\<lparr>peers := a, q_ptr := b\<rparr>))\<lparr>q_seqno := c\<rparr> =
    m\<lparr>peers := peers (ftq_reorder (m\<lparr>peers := a, q_ptr := b\<rparr>)),
      q_ptr := q_ptr (ftq_reorder (m\<lparr>peers := a, q_ptr := b\<rparr>)), q_seqno := c\<rparr>" for a b c
    by (subst ftq_reorder_shape) simp
  then show ?thesis
    by (auto simp: ftq_update_def Let_def intro: ftq_insert_shape split: prod.split)
qed

section \<open>The queue invariant\<close>

text \<open>
  Every queued peer knows its position, every other record has position 0 and no pointer is
  queued twice. \<open>queue_sorted\<close> adds that the array is in rank order.
\<close>

definition queue_ok :: "'a ft_mem_scheme \<Rightarrow> bool" where
  "queue_ok m \<longleftrightarrow> distinct (q_ptr m) \<and>
     (\<forall>i < length (q_ptr m). p_pos (peers m (q_ptr m ! i)) = Suc i) \<and>
     (\<forall>r. r \<notin> set (q_ptr m) \<longrightarrow> p_pos (peers m r) = 0)"

definition queue_sorted :: "'a ft_mem_scheme \<Rightarrow> bool" where
  "queue_sorted m \<longleftrightarrow> sorted_wrt (gt_at (peers m)) (q_ptr m)"

lemma queue_ok_pos_iff: "queue_ok m \<Longrightarrow> p_pos (peers m p) = 0 \<longleftrightarrow> p \<notin> set (q_ptr m)"
  by (auto simp: queue_ok_def in_set_conv_nth)

lemma queue_ok_at:
  assumes "queue_ok m" "p \<in> set (q_ptr m)"
  obtains i where "i < length (q_ptr m)" "q_ptr m ! i = p" "p_pos (peers m p) = Suc i"
  using assms by (auto simp: queue_ok_def in_set_conv_nth)

lemma ftq_get_pos_index:
  "queue_ok m \<Longrightarrow> i < length (q_ptr m) \<Longrightarrow> q_ptr m ! i = p \<Longrightarrow> ftq_get_pos p m = i"
  by (auto simp: ftq_get_pos_def queue_ok_def Let_def)

lemma sorted_wrt_nopos:
  "\<forall>r. nopos (st' r) = nopos (st r) \<Longrightarrow> sorted_wrt (gt_at st') xs = sorted_wrt (gt_at st) xs"
proof -
  assume "\<forall>r. nopos (st' r) = nopos (st r)"
  then have "gt_at st' = gt_at st" by (intro ext is_greater_nopos) auto
  then show ?thesis by simp
qed

lemma ins_rank_nopos:
  "\<forall>r. nopos (st' r) = nopos (st r) \<Longrightarrow> ins_rank (gt_at st') p xs = ins_rank (gt_at st) p xs"
proof -
  assume "\<forall>r. nopos (st' r) = nopos (st r)"
  then have "gt_at st' = gt_at st" by (intro ext is_greater_nopos) auto
  then show ?thesis by simp
qed

text \<open>\<open>reorder\<close> on an array whose positions are right but for the peer at its end.\<close>

lemma ftq_reorder_spec:
  fixes m :: "'a ft_mem_scheme"
  assumes q: "q_ptr m = xs @ [p]" and d: "distinct (xs @ [p])"
    and pos: "\<forall>i < length xs. p_pos (peers m (xs ! i)) = Suc i"
    and out: "\<forall>r. r \<notin> set (xs @ [p]) \<longrightarrow> p_pos (peers m r) = 0"
  shows "queue_ok (ftq_reorder m)"
    and "set (q_ptr (ftq_reorder m)) = set (xs @ [p])"
    and "nopos (peers (ftq_reorder m) r) = nopos (peers m r)"
    and "sorted_wrt (gt_at (peers m)) xs \<Longrightarrow>
         q_ptr (ftq_reorder m) = ins_rank (gt_at (peers m)) p xs"
proof -
  obtain ys k where loop: "reorder_loop (peers m) p (xs @ [p]) (length xs) = (ys, k)"
    by fastforce
  from reorder_loop_spec [OF this] have
    ys: "mset ys = mset (xs @ [p])" "length ys = Suc (length xs)" "k \<le> length xs"
      "take k ys = take k (xs @ [p])"
    by simp_all
  have m': "ftq_reorder m = m\<lparr>q_ptr := ys, peers := renumber ys k (peers m)\<rparr>"
    using q loop by (simp add: ftq_reorder_def)
  from ys(1) have sys: "set ys = set (xs @ [p])" by (metis mset_eq_setD)
  from ys(1) d have dys: "distinct ys" using mset_eq_imp_distinct_iff by blast
  have "p_pos (renumber ys k (peers m) (ys ! i)) = Suc i" if "i < length ys" for i
  proof (cases "k \<le> i")
    case True
    with that dys show ?thesis by (simp add: renumber_pos)
  next
    case False
    with that dys have "ys ! i \<notin> set (drop k ys)"
      by (auto simp: in_set_conv_nth nth_eq_iff_index_eq)
    moreover have "ys ! i = xs ! i"
      using False ys(3,4) by (metis leI nth_append nth_take order_less_le_trans)
    ultimately show ?thesis using False pos ys(3) by (simp add: renumber_other)
  qed
  moreover have "p_pos (renumber ys k (peers m) r) = 0" if "r \<notin> set ys" for r
    using that out sys by (metis in_set_dropD renumber_other)
  ultimately show "queue_ok (ftq_reorder m)"
    using dys by (simp add: m' queue_ok_def)
  show "set (q_ptr (ftq_reorder m)) = set (xs @ [p])" using sys by (simp add: m')
  show "nopos (peers (ftq_reorder m) r) = nopos (peers m r)"
    by (simp add: m' renumber_def)
  show "sorted_wrt (gt_at (peers m)) xs \<Longrightarrow>
      q_ptr (ftq_reorder m) = ins_rank (gt_at (peers m)) p xs"
    using reorder_loop_ins_rank [of "peers m" xs p "[]"] loop by (simp add: m')
qed

lemma ftq_insert_spec:
  fixes m :: "'a ft_mem_scheme"
  assumes ok: "queue_ok m" and new: "p \<notin> set (q_ptr m)"
  shows "queue_ok (ftq_insert p m)"
    and "set (q_ptr (ftq_insert p m)) = insert p (set (q_ptr m))"
    and "nopos (peers (ftq_insert p m) r) = nopos (peers m r)"
    and "queue_sorted m \<Longrightarrow> q_ptr (ftq_insert p m) = ins_rank (gt_at (peers m)) p (q_ptr m)"
proof -
  let ?m = "m\<lparr>q_ptr := q_ptr m @ [p]\<rparr>"
  note spec = ftq_reorder_spec [where m = ?m and xs = "q_ptr m" and p = p]
  have pre: "q_ptr ?m = q_ptr m @ [p]" "distinct (q_ptr m @ [p])"
    "\<forall>i < length (q_ptr m). p_pos (peers ?m (q_ptr m ! i)) = Suc i"
    "\<forall>r. r \<notin> set (q_ptr m @ [p]) \<longrightarrow> p_pos (peers ?m r) = 0"
    using ok new by (auto simp: queue_ok_def)
  from spec(1) [OF pre] show "queue_ok (ftq_insert p m)"
    by (simp add: ftq_insert_def Let_def queue_ok_def)
  from spec(2) [OF pre] show "set (q_ptr (ftq_insert p m)) = insert p (set (q_ptr m))"
    by (simp add: ftq_insert_def Let_def)
  from spec(3) [OF pre, of r] show "nopos (peers (ftq_insert p m) r) = nopos (peers m r)"
    by (simp add: ftq_insert_def Let_def)
  assume "queue_sorted m"
  with spec(4) [OF pre] show "q_ptr (ftq_insert p m) = ins_rank (gt_at (peers m)) p (q_ptr m)"
    by (simp add: ftq_insert_def Let_def queue_sorted_def)
qed

text \<open>Closing the gap that a peer leaves behind.\<close>

lemma shift_gap:
  fixes m :: "'a ft_mem_scheme"
  assumes ok: "queue_ok m" and q: "q_ptr m = as @ p # bs"
  obtains st where
    "shift_loop (peers m) (q_ptr m) (length as) (length bs) = (st, (as @ bs) @ [last (p # bs)])"
    "\<forall>i < length (as @ bs). p_pos (st ((as @ bs) ! i)) = Suc i"
    "\<forall>r. r \<notin> set (q_ptr m) \<longrightarrow> p_pos (st r) = 0"
    "\<forall>r. nopos (st r) = nopos (peers m r)"
proof
  let ?xs = "q_ptr m"
  let ?is = "[length as ..< length as + length bs]"
  let ?st = "fold (\<lambda>i. set_pos (?xs ! Suc i) (Suc i)) ?is (peers m)"
  have d: "distinct ?xs" using ok by (simp add: queue_ok_def)
  have len: "length ?xs = Suc (length as + length bs)" using q by simp
  show "shift_loop (peers m) ?xs (length as) (length bs) = (?st, (as @ bs) @ [last (p # bs)])"
    using q shift_loop_eq [of "length as" "length bs" ?xs "peers m"]
    by (cases bs rule: rev_cases) simp_all
  show "\<forall>r. r \<notin> set ?xs \<longrightarrow> p_pos (?st r) = 0"
  proof (intro allI impI)
    fix r
    assume r: "r \<notin> set ?xs"
    then have "\<forall>i\<in>set ?is. ?xs ! Suc i \<noteq> r" using len by auto
    then have "?st r = peers m r" by (rule fold_set_pos_other)
    with r ok show "p_pos (?st r) = 0" by (simp add: queue_ok_def)
  qed
  show "\<forall>r. nopos (?st r) = nopos (peers m r)" by simp
  show "\<forall>i < length (as @ bs). p_pos (?st ((as @ bs) ! i)) = Suc i"
  proof (intro allI impI)
    fix i
    assume i: "i < length (as @ bs)"
    show "p_pos (?st ((as @ bs) ! i)) = Suc i"
    proof (cases "i < length as")
      case True
      then have eq: "(as @ bs) ! i = ?xs ! i" using q by (simp add: nth_append)
      have "\<forall>k\<in>set ?is. ?xs ! Suc k \<noteq> ?xs ! i"
        using True d len by (auto simp: nth_eq_iff_index_eq)
      then have "?st (?xs ! i) = peers m (?xs ! i)" by (rule fold_set_pos_other)
      with eq ok True len show ?thesis by (simp add: queue_ok_def)
    next
      case False
      then have eq: "(as @ bs) ! i = ?xs ! Suc i" using q i by (simp add: nth_append)
      have "inj_on (\<lambda>i. ?xs ! Suc i) (set ?is)"
        using d len by (auto simp: inj_on_def nth_eq_iff_index_eq)
      then show ?thesis unfolding eq
        by (rule fold_set_pos_at) (use False i in auto)
    qed
  qed
qed

lemma ftq_remove_spec:
  fixes m :: "'a ft_mem_scheme"
  assumes ok: "queue_ok m"
  shows "queue_ok (ftq_remove p m)"
    and "q_ptr (ftq_remove p m) = remove1 p (q_ptr m)"
    and "nopos (peers (ftq_remove p m) r) = nopos (peers m r)"
proof -
  have "queue_ok (ftq_remove p m) \<and> q_ptr (ftq_remove p m) = remove1 p (q_ptr m) \<and>
    (\<forall>r. nopos (peers (ftq_remove p m) r) = nopos (peers m r))"
  proof (cases "p \<in> set (q_ptr m)")
    case False
    then show ?thesis using ok
      by (simp add: ftq_remove_def Let_def queue_ok_pos_iff remove1_idem)
  next
    case True
    then obtain as bs where q: "q_ptr m = as @ p # bs" by (meson split_list)
    have d: "distinct (q_ptr m)" using ok by (simp add: queue_ok_def)
    have pos: "ftq_get_pos p m = length as" using ok q by (simp add: ftq_get_pos_index)
    obtain st where st:
      "shift_loop (peers m) (q_ptr m) (length as) (length bs) = (st, (as @ bs) @ [last (p # bs)])"
      "\<forall>i < length (as @ bs). p_pos (st ((as @ bs) ! i)) = Suc i"
      "\<forall>r. r \<notin> set (q_ptr m) \<longrightarrow> p_pos (st r) = 0"
      "\<forall>r. nopos (st r) = nopos (peers m r)"
      using shift_gap [OF ok q] by blast
    have n: "length (q_ptr m) - Suc (length as) = length bs" using q by simp
    have "p_pos (peers m p) \<noteq> 0" using True ok by (simp add: queue_ok_pos_iff)
    then have m': "ftq_remove p m =
      m\<lparr>peers := set_pos p 0 st, q_ptr := as @ bs, q_seqno := q_seqno m + 1\<rparr>"
      using pos q st(1) n by (simp add: ftq_remove_def Let_def butlast_append)
    have "p_pos (set_pos p 0 st ((as @ bs) ! i)) = Suc i" if "i < length (as @ bs)" for i
    proof -
      have "p \<notin> set (as @ bs)" using d q by simp
      then have "(as @ bs) ! i \<noteq> p" using that nth_mem by blast
      then show ?thesis using that st(2) by (simp add: set_pos_def)
    qed
    moreover have "p_pos (set_pos p 0 st r) = 0" if "r \<notin> set (as @ bs)" for r
      using that st(3) q by (cases "r = p") (auto simp: set_pos_def)
    ultimately have "queue_ok (ftq_remove p m)"
      using d q by (simp add: m' queue_ok_def)
    moreover have "remove1 p (q_ptr m) = as @ bs" using d q by (simp add: remove1_append)
    ultimately show ?thesis using st(4) by (simp add: m')
  qed
  then show "queue_ok (ftq_remove p m)" "q_ptr (ftq_remove p m) = remove1 p (q_ptr m)"
    "nopos (peers (ftq_remove p m) r) = nopos (peers m r)" by auto
qed

lemma in_order_sorted:
  assumes s: "sorted_wrt (gt_at st) (as @ bs)"
    and a: "as = [] \<or> gt_at st (last as) p" and b: "bs = [] \<or> gt_at st p (hd bs)"
  shows "ins_rank (gt_at st) p (as @ bs) = as @ p # bs"
proof -
  have "\<forall>x\<in>set as. gt_at st x p"
  proof (cases as rule: rev_cases)
    case (snoc as' x)
    with s a show ?thesis by (auto simp: sorted_wrt_append intro: peer_rank.gt_trans)
  qed simp
  then have "ins_rank (gt_at st) p (as @ bs) = as @ ins_rank (gt_at st) p bs"
    by (induction as) auto
  then show ?thesis using b by (cases bs) (auto simp: peer_rank.gt_asym)
qed

lemma ftq_update_spec:
  fixes m :: "'a ft_mem_scheme"
  assumes ok: "queue_ok m"
  shows "queue_ok (ftq_update p m)"
    and "set (q_ptr (ftq_update p m)) = insert p (set (q_ptr m))"
    and "nopos (peers (ftq_update p m) r) = nopos (peers m r)"
    and "sorted_wrt (gt_at (peers m)) (remove1 p (q_ptr m)) \<Longrightarrow>
         q_ptr (ftq_update p m) = ins_rank (gt_at (peers m)) p (remove1 p (q_ptr m))"
proof -
  have "queue_ok (ftq_update p m) \<and> set (q_ptr (ftq_update p m)) = insert p (set (q_ptr m)) \<and>
    (\<forall>r. nopos (peers (ftq_update p m) r) = nopos (peers m r)) \<and>
    (sorted_wrt (gt_at (peers m)) (remove1 p (q_ptr m)) \<longrightarrow>
     q_ptr (ftq_update p m) = ins_rank (gt_at (peers m)) p (remove1 p (q_ptr m)))"
    (is "?P (ftq_update p m)")
  proof (cases "p \<in> set (q_ptr m)")
    case False
    then have "ftq_update p m = ftq_insert p m"
      using ok by (simp add: ftq_update_def Let_def queue_ok_pos_iff)
    with ftq_insert_spec [OF ok False] False show ?thesis
      by (simp add: queue_sorted_def remove1_idem)
  next
    case True
    then obtain as bs where q: "q_ptr m = as @ p # bs" by (meson split_list)
    have d: "distinct (q_ptr m)" using ok by (simp add: queue_ok_def)
    have rem: "remove1 p (q_ptr m) = as @ bs" using d q by (simp add: remove1_append)
    have pos: "ftq_get_pos p m = length as" using ok q by (simp add: ftq_get_pos_index)
    have ppos: "p_pos (peers m p) = Suc (length as)"
      using ok q by (auto simp: queue_ok_def nth_append dest: spec [of _ "length as"])
    show ?thesis
    proof (cases "ftq_in_order2 p m")
      case in_order: True
      then have "ftq_update p m = m" using pos ppos q by (simp add: ftq_update_def Let_def)
      moreover have "as = [] \<or> gt_at (peers m) (last as) p"
        using in_order ppos q
        by (cases as rule: rev_cases) (auto simp: ftq_in_order2_def Let_def nth_append)
      moreover have "bs = [] \<or> gt_at (peers m) p (hd bs)"
        using in_order ppos q by (cases bs) (auto simp: ftq_in_order2_def Let_def nth_append)
      ultimately show ?thesis using ok True rem q in_order_sorted by auto
    next
      case False
      obtain st where st:
        "shift_loop (peers m) (q_ptr m) (length as) (length bs) = (st, (as @ bs) @ [last (p # bs)])"
        "\<forall>i < length (as @ bs). p_pos (st ((as @ bs) ! i)) = Suc i"
        "\<forall>r. r \<notin> set (q_ptr m) \<longrightarrow> p_pos (st r) = 0"
        "\<forall>r. nopos (st r) = nopos (peers m r)"
        using shift_gap [OF ok q] by blast
      let ?m = "m\<lparr>peers := st, q_ptr := (as @ bs) @ [p]\<rparr>"
      have m': "ftq_update p m = (ftq_reorder ?m)\<lparr>q_seqno := q_seqno (ftq_reorder ?m) + 1\<rparr>"
        using False pos ppos q st(1) by (simp add: ftq_update_def Let_def list_update_append)
      have pre: "q_ptr ?m = (as @ bs) @ [p]" "distinct ((as @ bs) @ [p])"
        "\<forall>i < length (as @ bs). p_pos (peers ?m ((as @ bs) ! i)) = Suc i"
        "\<forall>r. r \<notin> set ((as @ bs) @ [p]) \<longrightarrow> p_pos (peers ?m r) = 0"
        using d q st(2,3) by auto
      note spec = ftq_reorder_spec [OF pre]
      have "queue_ok (ftq_update p m)" using spec(1) by (simp add: m' queue_ok_def)
      moreover have "set (q_ptr (ftq_update p m)) = insert p (set (q_ptr m))"
        using spec(2) q by (auto simp: m')
      moreover have "nopos (peers (ftq_update p m) r) = nopos (peers m r)" for r
        using spec(3) [of r] st(4) by (simp add: m')
      ultimately show ?thesis
        using spec(4) rem sorted_wrt_nopos [OF st(4)] ins_rank_nopos [OF st(4)]
        by (simp add: m')
    qed
  qed
  then show "queue_ok (ftq_update p m)"
    "set (q_ptr (ftq_update p m)) = insert p (set (q_ptr m))"
    "nopos (peers (ftq_update p m) r) = nopos (peers m r)"
    "sorted_wrt (gt_at (peers m)) (remove1 p (q_ptr m)) \<Longrightarrow>
     q_ptr (ftq_update p m) = ins_rank (gt_at (peers m)) p (remove1 p (q_ptr m))"
    by auto
qed

lemma ftq_remove_sorted:
  "queue_ok m \<Longrightarrow> queue_sorted m \<Longrightarrow> queue_sorted (ftq_remove p m)"
proof -
  assume ok: "queue_ok m" and s: "queue_sorted m"
  have "sorted_wrt (gt_at (peers m)) (remove1 p (q_ptr m))"
    using s by (simp add: queue_sorted_def sorted_wrt_remove1)
  then show ?thesis
    using ftq_remove_spec [OF ok] sorted_wrt_nopos [of "peers (ftq_remove p m)" "peers m"]
    by (simp add: queue_sorted_def)
qed

section \<open>The allocator's contract\<close>

text \<open>
  What \<open>RvFt\<close> relies on when it makes and releases peers: a slot that is handed out was free, and
  a release frees exactly its slot.
\<close>

locale slot_allocator =
  fixes make :: "'p \<Rightarrow> (nat \<times> 'p) option"
    and release :: "nat \<Rightarrow> 'p \<Rightarrow> 'p option"
    and used :: "'p \<Rightarrow> nat set"
    and ok :: "'p \<Rightarrow> bool"
  assumes make_some: "ok s \<Longrightarrow> \<exists>i s'. make s = Some (i, s')"
    and make_fresh: "ok s \<Longrightarrow> make s = Some (i, s') \<Longrightarrow>
      i \<notin> used s \<and> used s' = insert i (used s) \<and> ok s'"
    and release_used: "ok s \<Longrightarrow> i \<in> used s \<Longrightarrow>
      \<exists>s'. release i s = Some s' \<and> used s' = used s - {i} \<and> ok s'"
begin

lemma make_make_distinct:
  "ok s \<Longrightarrow> make s = Some (i, s1) \<Longrightarrow> make s1 = Some (j, s2) \<Longrightarrow> i \<noteq> j"
  using make_fresh [of s i s1] make_fresh [of s1 j s2] by auto

lemma make_release_used:
  assumes "ok s" "make s = Some (i, s1)"
  obtains s2 where "release i s1 = Some s2" "used s2 = used s" "ok s2"
  using make_fresh [OF assms] release_used [of s1 i] that by auto

end

lemma first_free_bit_Some:
  "first_free_bit m k = Some j \<Longrightarrow> k \<le> j \<and> j < 16 \<and> \<not> bit m j"
proof (induction m k rule: first_free_bit.induct)
  case (1 m k)
  show ?case
  proof (cases "k < 16 \<and> bit m k")
    case True
    with 1 have "Suc k \<le> j \<and> j < 16 \<and> \<not> bit m j"
      by (auto simp: first_free_bit.simps [of m k] bit_iff_and_push_bit_not_eq_0)
    then show ?thesis by simp
  next
    case False
    with "1.prems" show ?thesis
      by (auto simp: first_free_bit.simps [of m k] bit_iff_and_push_bit_not_eq_0 split: if_splits)
  qed
qed

lemma first_free_bit_None:
  "first_free_bit m k = None \<Longrightarrow> k \<le> j \<Longrightarrow> j < 16 \<Longrightarrow> bit m j"
proof (induction m k rule: first_free_bit.induct)
  case (1 m k)
  then have k: "k < 16" "bit m k" "first_free_bit m (Suc k) = None"
    by (auto simp: first_free_bit.simps [of m k] bit_iff_and_push_bit_not_eq_0 split: if_splits)
  then show ?case using 1 by (cases "j = k") (auto simp: bit_iff_and_push_bit_not_eq_0)
qed

lemma first_free_bit_total: "m \<noteq> 0xffff \<Longrightarrow> \<exists>k. first_free_bit m 0 = Some k"
proof (rule ccontr)
  assume "m \<noteq> 0xffff" and "\<nexists>k. first_free_bit m 0 = Some k"
  then have all: "\<forall>j<16. bit m j" using first_free_bit_None [of m 0] by auto
  have "m = mask 16"
    by (rule bit_word_eqI) (use all in \<open>auto simp: bit_mask_iff\<close>)
  then show False using \<open>m \<noteq> 0xffff\<close> by (simp add: mask_eq_exp_minus_1)
qed

lemma slot_eq: "i = j \<longleftrightarrow> i div 16 = j div 16 \<and> i mod 16 = (j mod 16 :: nat)"
  by (metis div_mult_mod_eq)

lemma slot_block: "(i < 16 * b \<or> i \<ge> 16 * b + 16) \<longleftrightarrow> i div 16 \<noteq> (b :: nat)"
proof -
  have "i mod 16 < 16" and "i = 16 * (i div 16) + i mod 16" by simp_all
  then show ?thesis by arith
qed

lemma pool_used_Nil [simp]: "pool_used [] = {}"
  by (simp add: pool_used_def)

lemma pool_used_Cons:
  "pool_used ((b, m) # fs) = {i. i div 16 = b \<and> bit m (i mod 16)} \<union> pool_used fs"
  by (auto simp: pool_used_def)

lemma pool_used_block: "i \<in> pool_used fs \<Longrightarrow> i div 16 \<in> fst ` set fs"
  by (force simp: pool_used_def)

lemma pool_make_spec:
  "distinct (map fst fs) \<Longrightarrow> pool_make fs = Some (i, fs') \<Longrightarrow>
   i \<notin> pool_used fs \<and> pool_used fs' = insert i (pool_used fs) \<and> map fst fs' = map fst fs"
proof (induction fs arbitrary: i fs' rule: pool_make.induct)
  case (2 b m fs)
  show ?case
  proof (cases "m = 0xffff")
    case True
    with "2.prems" obtain fs1 where fs1: "pool_make fs = Some (i, fs1)" "fs' = (b, m) # fs1"
      by (auto split: option.splits)
    with 2 True have IH: "i \<notin> pool_used fs" "pool_used fs1 = insert i (pool_used fs)"
      "map fst fs1 = map fst fs" by auto
    then have "i div 16 \<in> fst ` set fs"
      using pool_used_block [of i fs1] by (metis insertI1 list.set_map)
    with "2.prems"(1) have "i div 16 \<noteq> b" by auto
    with IH fs1 show ?thesis by (auto simp: pool_used_Cons)
  next
    case False
    with "2.prems" obtain k where k: "first_free_bit m 0 = Some k" "i = 16 * b + k"
      "fs' = (b, m OR push_bit k 1) # fs" by (auto split: option.splits)
    then have k': "k < 16" "\<not> bit m k" using first_free_bit_Some by auto
    then have i: "i div 16 = b" "i mod 16 = k" using k by auto
    then have "i \<notin> pool_used fs" using "2.prems"(1) pool_used_block [of i fs] by auto
    moreover have "(j div 16 = b \<and> bit (m OR push_bit k 1) (j mod 16)) \<longleftrightarrow>
      j = i \<or> j div 16 = b \<and> bit m (j mod 16)" for j
      using k' i slot_eq [of j i] by (auto simp: bit_or_iff bit_exp_iff)
    ultimately show ?thesis using k i k' by (auto simp: pool_used_Cons)
  qed
qed simp

lemma pool_make_grow: "\<exists>i fs'. pool_make (pool_grow fs) = Some (i, fs')"
proof -
  have "\<exists>i fs'. pool_make fs = Some (i, fs')" if "\<not> is_all_used fs" for fs
    using that
    by (induction fs rule: is_all_used.induct) (auto dest: first_free_bit_total split: if_splits)
  moreover have "\<not> is_all_used (pool_grow fs)" by (simp add: pool_grow_def)
  ultimately show ?thesis by blast
qed

lemma pool_grow_spec: "pool_ok fs \<Longrightarrow> pool_ok (pool_grow fs) \<and> pool_used (pool_grow fs) = pool_used fs"
  by (auto simp: pool_grow_def pool_ok_def pool_used_Cons)

lemma pool_release_spec:
  "distinct (map fst fs) \<Longrightarrow> i \<in> pool_used fs \<Longrightarrow>
   \<exists>fs'. pool_release i fs = Some fs' \<and> pool_used fs' = pool_used fs - {i} \<and>
     map fst fs' = map fst fs"
proof (induction fs)
  case (Cons f fs)
  obtain b m where f: "f = (b, m)" by fastforce
  show ?case
  proof (cases "i div 16 = b")
    case True
    then have rng: "\<not> (i < 16 * b \<or> i \<ge> 16 * b + 16)" using slot_block [of i b] by blast
    have off: "i - 16 * b = i mod 16" using True by (simp flip: minus_mult_div_eq_mod)
    have "i \<notin> pool_used fs" using Cons.prems(1) True f pool_used_block [of i fs] by auto
    moreover have "(j div 16 = b \<and> bit (m AND NOT (push_bit (i mod 16) 1)) (j mod 16)) \<longleftrightarrow>
      j \<noteq> i \<and> j div 16 = b \<and> bit m (j mod 16)" for j
      using True slot_eq [of j i] by (auto simp: bit_and_iff bit_not_iff bit_exp_iff)
    ultimately have "pool_used ((b, m AND NOT (push_bit (i mod 16) 1)) # fs) =
      pool_used ((b, m) # fs) - {i}" by (auto simp: pool_used_Cons)
    with rng off f show ?thesis by simp
  next
    case False
    then have rng: "i < 16 * b \<or> i \<ge> 16 * b + 16" using slot_block [of i b] by blast
    have "i \<in> pool_used fs" using Cons.prems(2) False f by (simp add: pool_used_Cons)
    then obtain fs' where "pool_release i fs = Some fs'" "pool_used fs' = pool_used fs - {i}"
      "map fst fs' = map fst fs" using Cons by auto
    with rng f False show ?thesis by (auto simp: pool_used_Cons)
  qed
qed simp

interpretation peer_pool: slot_allocator "\<lambda>fs. pool_make (pool_grow fs)" pool_release pool_used pool_ok
proof
  fix fs :: ft_pool and fs' i
  have d: "distinct (map fst fs)" if "pool_ok fs" for fs :: ft_pool
    using that by (simp add: pool_ok_def)
  have same: "pool_ok fs'" if "pool_ok fs" "map fst fs' = map fst fs" for fs fs' :: ft_pool
    using that by (metis pool_ok_def length_map)
  show "\<exists>i fs'. pool_make (pool_grow fs) = Some (i, fs')" by (rule pool_make_grow)
  show "i \<notin> pool_used fs \<and> pool_used fs' = insert i (pool_used fs) \<and> pool_ok fs'"
    if "pool_ok fs" "pool_make (pool_grow fs) = Some (i, fs')"
    using that pool_grow_spec [of fs] pool_make_spec [of "pool_grow fs"] d same by metis
  show "\<exists>fs'. pool_release i fs = Some fs' \<and> pool_used fs' = pool_used fs - {i} \<and> pool_ok fs'"
    if "pool_ok fs" "i \<in> pool_used fs"
    using that pool_release_spec [OF d] same by metis
qed
end
