(* ===== verification/Rv_Subject.thy ===== *)
theory Rv_Subject
  imports Sass_Prelude
begin

text \<open>
  Subjects and inboxes: the wildcard tests \<open>match_rv_wildcard\<close> and \<open>is_rv_wildcard\<close>
  (\<open>include/sassrv/ev_rv_client.h\<close>), the segment count and the restricted subjects
  (\<open>include/sassrv/ev_rv.h\<close>), and the inbox names of a client, \<open>EvRvClient::make_inbox\<close> and
  \<open>EvRvClient::is_inbox\<close>. The decimal conversions \<open>uint32_to_string\<close> and \<open>string_to_uint64\<close> belong
  to the library raikv: they are arguments.
\<close>

section \<open>Wildcards\<close>

abbreviation dot :: char where "dot \<equiv> CHR ''.''"
abbreviation star :: char where "star \<equiv> CHR ''*''"
abbreviation gtc :: char where "gtc \<equiv> CHR ''>''"

text \<open>
  The two guards of the scanners at position \<open>w\<close> of the pattern: a \<open>>\<close> that is a whole last
  segment, a \<open>*\<close> that is a whole segment.
\<close>

definition at_start :: "string \<Rightarrow> nat \<Rightarrow> bool" where
  "at_start wild w \<longleftrightarrow> w = 0 \<or> wild ! (w - 1) = dot"

definition is_gt_at :: "string \<Rightarrow> nat \<Rightarrow> bool" where
  "is_gt_at wild w \<longleftrightarrow> wild ! w = gtc \<and> at_start wild w \<and> Suc w = length wild"

definition is_star_at :: "string \<Rightarrow> nat \<Rightarrow> bool" where
  "is_star_at wild w \<longleftrightarrow> wild ! w = star \<and> at_start wild w \<and>
     (Suc w = length wild \<or> wild ! Suc w = dot)"

text \<open>The inner loop of the match: skip to the end of the current segment of the subject.\<close>

function skip_segment :: "string \<Rightarrow> nat \<Rightarrow> nat" where
  "skip_segment sub k =
     (if k \<ge> length sub \<or> sub ! k = dot then k else skip_segment sub (Suc k))"
  by pat_completeness auto
termination
  by (relation "measure (\<lambda>(sub, k). length sub - k)") auto

declare skip_segment.simps [simp del]

text \<open>The loop of \<open>match_rv_wildcard\<close> from position \<open>w\<close> of the pattern and \<open>k\<close> of the subject.\<close>

function match_loop :: "string \<Rightarrow> string \<Rightarrow> nat \<Rightarrow> nat \<Rightarrow> bool" where
  "match_loop wild sub w k =
     (if k \<ge> length sub \<or> w \<ge> length wild then k \<ge> length sub \<and> w \<ge> length wild
      else if is_gt_at wild w then True
      else if is_star_at wild w then match_loop wild sub (Suc w) (skip_segment sub k)
      else if wild ! w \<noteq> sub ! k then False
      else match_loop wild sub (Suc w) (Suc k))"
  by pat_completeness auto
termination
  by (relation "measure (\<lambda>(wild, sub, w, k). length wild - w)") auto

declare match_loop.simps [simp del]

definition match_rv_wildcard :: "string \<Rightarrow> string \<Rightarrow> bool" where
  "match_rv_wildcard wild sub = match_loop wild sub 0 0"

text \<open>\<open>is_rv_wildcard\<close> returns the position of the first wildcard.\<close>

function wild_loop :: "string \<Rightarrow> nat \<Rightarrow> nat option" where
  "wild_loop wild w =
     (if w \<ge> length wild then None
      else if is_gt_at wild w then Some w
      else if is_star_at wild w then Some w
      else wild_loop wild (Suc w))"
  by pat_completeness auto
termination
  by (relation "measure (\<lambda>(wild, w). length wild - w)") auto

declare wild_loop.simps [simp del]

definition is_rv_wildcard :: "string \<Rightarrow> nat option" where
  "is_rv_wildcard wild = wild_loop wild 0"

section \<open>Segments and restricted subjects\<close>

text \<open>
  \<open>count_segments\<close>: one more than the number of dots, a \<open>uint16_t\<close> that starts at 1 and steps at
  every dot that \<open>memchr\<close> finds.
\<close>

fun count_dots :: "string \<Rightarrow> u16 \<Rightarrow> u16" where
  "count_dots [] n = n"
| "count_dots (c # cs) n = count_dots cs (if c = dot then n + 1 else n)"

definition count_segments :: "string \<Rightarrow> u16" where
  "count_segments value = count_dots value 1"

definition is_inbox_subject :: "string \<Rightarrow> bool" where
  "is_inbox_subject sub \<longleftrightarrow> length sub > 7 \<and> take 7 sub = ''_INBOX.''"

definition is_restricted_subject :: "string \<Rightarrow> bool" where
  "is_restricted_subject sub \<longleftrightarrow>
     (if length sub > 4 \<and> take 4 sub = ''_RV.'' then True else is_inbox_subject sub)"

section \<open>Inboxes of a client\<close>

definition make_inbox :: "(u32 \<Rightarrow> string) \<Rightarrow> string \<Rightarrow> u32 \<Rightarrow> string" where
  "make_inbox uint32_to_string session num =
     ''_INBOX.'' @ session @ (if length session > 0 then [dot] else []) @ uint32_to_string num"

definition is_digit :: "char \<Rightarrow> bool" where
  "is_digit c \<longleftrightarrow> CHR ''0'' = c \<or> c \<in> set ''123456789''"

text \<open>
  \<open>control\<close> is the client's inbox number 1. With an empty \<open>control\<close> the offset wraps around to the
  largest \<open>size_t\<close>, which no subject reaches.
\<close>

definition is_inbox :: "(string \<Rightarrow> u64) \<Rightarrow> string \<Rightarrow> string \<Rightarrow> u64" where
  "is_inbox string_to_uint64 control sub =
     (let off = length control - 1
      in if control = [] \<or> off \<ge> length sub \<or> \<not> is_digit (sub ! off) \<or>
            take off sub \<noteq> take off control
         then 0
         else string_to_uint64 (drop off sub))"

section \<open>The meaning of a pattern\<close>

text \<open>A subject as its list of segments.\<close>

fun segs :: "string \<Rightarrow> string list" where
  "segs [] = [[]]"
| "segs (c # cs) =
     (if c = dot then [] # segs cs
      else (case segs cs of [] \<Rightarrow> [[c]] | s # ss \<Rightarrow> (c # s) # ss))"

text \<open>
  The documented meaning of a pattern on segments: \<open>*\<close> stands for any one segment, a last \<open>>\<close>
  for the rest of the subject.
\<close>

fun seg_match :: "string list \<Rightarrow> string list \<Rightarrow> bool" where
  "seg_match [] ss = (ss = [])"
| "seg_match (p # ps) [] = False"
| "seg_match (p # ps) (s # ss) =
     (if p = [gtc] \<and> ps = [] then True
      else (p = [star] \<or> p = s) \<and> seg_match ps ss)"

section \<open>The scanners compute the meaning\<close>

text \<open>The match on the unread suffixes; \<open>st\<close> says that a segment of the pattern starts.\<close>

fun match_suffix :: "bool \<Rightarrow> string \<Rightarrow> string \<Rightarrow> bool" where
  "match_suffix st [] s = (s = [])"
| "match_suffix st (c # w) [] = False"
| "match_suffix st (c # w) (d # s) =
     (if c = gtc \<and> st \<and> w = [] then True
      else if c = star \<and> st \<and> (w = [] \<or> hd w = dot)
      then match_suffix False w (dropWhile (\<lambda>x. x \<noteq> dot) (d # s))
      else c = d \<and> match_suffix (c = dot) w s)"

lemma skip_segment_drop:
  "k \<le> length sub \<Longrightarrow> drop (skip_segment sub k) sub = dropWhile (\<lambda>x. x \<noteq> dot) (drop k sub) \<and>
     skip_segment sub k \<le> length sub"
proof (induction sub k rule: skip_segment.induct)
  case (1 sub k)
  show ?case
  proof (cases "k < length sub")
    case True
    then have "drop k sub = sub ! k # drop (Suc k) sub" by (simp add: Cons_nth_drop_Suc)
    then show ?thesis using 1 True by (subst (1 2) skip_segment.simps) auto
  qed (use 1 in \<open>simp add: skip_segment.simps\<close>)
qed

lemma match_loop_suffix:
  "w \<le> length wild \<Longrightarrow> k \<le> length sub \<Longrightarrow>
   match_loop wild sub w k = match_suffix (at_start wild w) (drop w wild) (drop k sub)"
proof (induction wild sub w k rule: match_loop.induct)
  case (1 wild sub w k)
  show ?case
  proof (cases "k < length sub \<and> w < length wild")
    case True
    then have d: "drop w wild = wild ! w # drop (Suc w) wild" "drop k sub = sub ! k # drop (Suc k) sub"
      by (simp_all add: Cons_nth_drop_Suc)
    have next_dot: "hd (drop (Suc w) wild) = wild ! Suc w" if "Suc w \<noteq> length wild"
    proof -
      from that True have "Suc w < length wild" by linarith
      then show ?thesis by (rule hd_drop_conv_nth)
    qed
    have star: "is_star_at wild w \<longleftrightarrow> wild ! w = star \<and> at_start wild w \<and>
        (drop (Suc w) wild = [] \<or> hd (drop (Suc w) wild) = dot)"
      using True next_dot by (cases "Suc w = length wild") (auto simp: is_star_at_def)
    have gt: "is_gt_at wild w \<longleftrightarrow> wild ! w = gtc \<and> at_start wild w \<and> drop (Suc w) wild = []"
      using True by (auto simp: is_gt_at_def)
    have at: "at_start wild (Suc w) \<longleftrightarrow> wild ! w = dot" by (simp add: at_start_def)
    note skip = skip_segment_drop [of k sub]
    have ne: "\<not> (k \<ge> length sub \<or> w \<ge> length wild)" using True by simp
    have not_start: "at_start wild (Suc w) = False" if "wild ! w = star" using that by (simp add: at)
    consider "is_gt_at wild w" | "\<not> is_gt_at wild w" "is_star_at wild w"
      | "\<not> is_gt_at wild w" "\<not> is_star_at wild w" by blast
    then show ?thesis
    proof cases
      case 1
      then show ?thesis using ne gt by (simp add: match_loop.simps [of wild sub w k] d)
    next
      case 2
      have "match_loop wild sub (Suc w) (skip_segment sub k) =
        match_suffix False (drop (Suc w) wild) (dropWhile (\<lambda>x. x \<noteq> dot) (drop k sub))"
        using "1.IH"(1) [OF ne 2] skip True 2(2) star not_start by simp
      then show ?thesis using ne 2 star gt
        by (simp add: match_loop.simps [of wild sub w k] d del: dropWhile.simps)
    next
      case 3
      then have suf: "match_suffix (at_start wild w) (drop w wild) (drop k sub) \<longleftrightarrow> wild ! w = sub ! k \<and>
          match_suffix (wild ! w = dot) (drop (Suc w) wild) (drop (Suc k) sub)"
        unfolding d match_suffix.simps star gt by argo
      show ?thesis
      proof (cases "wild ! w = sub ! k")
        case eq: True
        then have "match_loop wild sub (Suc w) (Suc k) =
          match_suffix (wild ! w = dot) (drop (Suc w) wild) (drop (Suc k) sub)"
          using "1.IH"(2) [OF ne 3] True at by simp
        then show ?thesis
          by (simp only: suf match_loop.simps [of wild sub w k] ne 3 eq if_True if_False simp_thms)
      next
        case False
        then show ?thesis
          by (simp only: suf match_loop.simps [of wild sub w k] ne 3 if_True if_False simp_thms)
      qed
    qed
  next
    case False
    then have over: "k \<ge> length sub \<or> w \<ge> length wild" by auto
    then have "match_loop wild sub w k \<longleftrightarrow> k \<ge> length sub \<and> w \<ge> length wild"
      by (subst match_loop.simps) (simp only: if_True)
    moreover have "match_suffix b (drop w wild) (drop k sub) \<longleftrightarrow>
        drop k sub = [] \<and> drop w wild = []" for b
      using over by (cases "drop w wild"; cases "drop k sub") auto
    ultimately show ?thesis by simp
  qed
qed

lemma segs_ne [simp]: "segs s \<noteq> []"
  by (induction s) (auto split: list.splits)

lemma segs_Cons:
  "segs (c # s) = (if c = dot then [] # segs s else (c # hd (segs s)) # tl (segs s))"
  using segs_ne [of s] by (auto split: list.splits)

lemma segs_single: "segs s = [[]] \<longleftrightarrow> s = []"
  by (cases s) (auto simp: segs_Cons simp del: segs.simps(2))

lemma segs_Nil_iff: "hd (segs s) = [] \<and> tl (segs s) = [] \<longleftrightarrow> s = []"
  by (cases s) (auto simp: segs_Cons simp del: segs.simps(2))

lemma hd_segs_Nil: "hd (segs s) = [] \<longleftrightarrow> s = [] \<or> hd s = dot"
  by (cases s) (auto simp: segs_Cons simp del: segs.simps(2))

lemma segs_dropWhile:
  "tl (segs (dropWhile (\<lambda>x. x \<noteq> dot) s)) = tl (segs s)"
  "hd (segs (dropWhile (\<lambda>x. x \<noteq> dot) s)) = []"
  by (induction s) (auto simp: segs_Cons simp del: segs.simps(2))

lemma last_dropWhile: "dropWhile P s \<noteq> [] \<Longrightarrow> last (dropWhile P s) = last s"
  by (induction s) auto

lemma seg_match_split: "xs \<noteq> [] \<Longrightarrow> ys \<noteq> [] \<Longrightarrow> seg_match xs ys \<longleftrightarrow>
   (hd xs = [gtc] \<and> tl xs = []) \<or> ((hd xs = [star] \<or> hd xs = hd ys) \<and> seg_match (tl xs) (tl ys))"
  by (cases xs; cases ys) auto

lemma seg_match_Nil [simp]: "seg_match xs [] \<longleftrightarrow> xs = []"
  by (cases xs) auto

lemma match_suffix_segs:
  "(s \<noteq> [] \<longrightarrow> last s \<noteq> dot) \<Longrightarrow> match_suffix False w s \<longleftrightarrow>
     hd (segs w) = hd (segs s) \<and> seg_match (tl (segs w)) (tl (segs s))"
  "s \<noteq> [] \<Longrightarrow> last s \<noteq> dot \<Longrightarrow> match_suffix True w s = seg_match (segs w) (segs s)"
proof (induction w arbitrary: s)
  case Nil
  {
    case 1
    show ?case using segs_Nil_iff [of s] by auto
  next
    case 2
    then show ?case by (cases s) (auto simp: segs_Cons simp del: segs.simps(2))
  }
next
  case (Cons c w)
  have mid: "match_suffix False (c # w) s \<longleftrightarrow>
    hd (segs (c # w)) = hd (segs s) \<and> seg_match (tl (segs (c # w))) (tl (segs s))"
    if l: "s \<noteq> [] \<longrightarrow> last s \<noteq> dot" for s
  proof (cases s)
    case Nil
    then show ?thesis by (auto simp: segs_Cons simp del: segs.simps(2))
  next
    case (Cons d t)
    then have t: "t \<noteq> [] \<longrightarrow> last t \<noteq> dot" "d = dot \<Longrightarrow> t \<noteq> []" using l by auto
    show ?thesis
      using Cons.IH(1) [OF t(1)] Cons.IH(2) [of t] t unfolding Cons
      by (auto simp: segs_Cons simp del: segs.simps(2))
  qed
  {
    case 1
    then show ?case by (rule mid)
  next
    case 2
    obtain d t where s: "s = d # t" using 2(1) by (cases s) auto
    show ?case
    proof (cases "c = star \<and> (w = [] \<or> hd w = dot)")
      case True
      let ?r = "dropWhile (\<lambda>x. x \<noteq> dot) s"
      have "?r \<noteq> [] \<longrightarrow> last ?r \<noteq> dot" using 2 last_dropWhile by metis
      from Cons.IH(1) [OF this] have "match_suffix False w ?r = seg_match (tl (segs w)) (tl (segs s))"
        using True segs_dropWhile [of s] hd_segs_Nil [of w] by auto
      moreover have "match_suffix True (c # w) s = match_suffix False w ?r"
        using True s by (auto simp del: dropWhile.simps)
      moreover have "segs (c # w) = [star] # tl (segs w)"
        using True hd_segs_Nil [of w] by (auto simp: segs_Cons simp del: segs.simps(2))
      ultimately show ?thesis by (simp add: seg_match_split del: segs.simps(2))
    next
      case False
      show ?thesis
      proof (cases "c = gtc \<and> w = []")
        case True
        then show ?thesis using s by (simp add: segs_Cons seg_match_split del: segs.simps(2))
      next
        case not_gt: False
        have "match_suffix True (c # w) s = match_suffix False (c # w) s"
          using False not_gt by (auto simp: s)
        moreover have "hd (segs (c # w)) \<noteq> [star]"
          using False hd_segs_Nil [of w] by (auto simp: segs_Cons simp del: segs.simps(2))
        moreover have "\<not> (hd (segs (c # w)) = [gtc] \<and> tl (segs (c # w)) = [])"
          using not_gt segs_Nil_iff [of w] by (auto simp: segs_Cons simp del: segs.simps(2))
        ultimately show ?thesis
          using mid [of s] 2 by (auto simp: seg_match_split simp del: segs.simps(2) match_suffix.simps)
      qed
    qed
  }
qed

lemma plain_loop:
  "wild_loop wild w = None \<Longrightarrow> w \<le> length wild \<Longrightarrow> k \<le> length sub \<Longrightarrow>
   match_loop wild sub w k \<longleftrightarrow> drop w wild = drop k sub"
proof (induction "length wild - w" arbitrary: w k)
  case 0
  then have "match_loop wild sub w k \<longleftrightarrow> k \<ge> length sub"
    by (subst match_loop.simps) auto
  then show ?case using 0 by auto
next
  case (Suc n)
  then have w: "w < length wild" by simp
  then have plain: "\<not> is_gt_at wild w" "\<not> is_star_at wild w" "wild_loop wild (Suc w) = None"
    using Suc.prems(1) by (auto simp: wild_loop.simps [of wild w] split: if_splits)
  show ?case
  proof (cases "k < length sub")
    case True
    have "match_loop wild sub (Suc w) (Suc k) \<longleftrightarrow> drop (Suc w) wild = drop (Suc k) sub"
      using Suc.hyps plain(3) w True by (intro Suc.hyps(1)) auto
    moreover have "drop w wild = wild ! w # drop (Suc w) wild" "drop k sub = sub ! k # drop (Suc k) sub"
      using w True by (simp_all add: Cons_nth_drop_Suc)
    moreover have "match_loop wild sub w k \<longleftrightarrow> wild ! w = sub ! k \<and> match_loop wild sub (Suc w) (Suc k)"
      using w True plain by (subst match_loop.simps) auto
    ultimately show ?thesis by simp
  next
    case False
    then have "\<not> match_loop wild sub w k" using w by (subst match_loop.simps) auto
    then show ?thesis using False w by simp
  qed
qed

section \<open>Properties\<close>

text \<open>
  C32: The one-pass wildcard match decides the meaning of a pattern on segments: on a subject that
  is not empty and does not end in a dot, \<open>*\<close> matches any one segment, a last \<open>>\<close> matches one or
  more segments, and every other segment matches itself only.
\<close>

theorem match_rv_wildcard_meaning:
  assumes "sub \<noteq> []" "last sub \<noteq> dot"
  shows "match_rv_wildcard wild sub \<longleftrightarrow> seg_match (segs wild) (segs sub)"
proof -
  have "at_start wild 0" by (simp add: at_start_def)
  then show ?thesis
    using match_loop_suffix [of 0 wild 0 sub] match_suffix_segs(2) [OF assms]
    by (simp add: match_rv_wildcard_def)
qed

theorem match_rv_wildcard_meaning_witness:
  "match_rv_wildcard ''A.*.>'' ''A.B.C.D'' \<and> \<not> match_rv_wildcard ''A.*'' ''A.B.C''"
  using match_rv_wildcard_meaning [of "''A.B.C.D''" "''A.*.>''"]
    match_rv_wildcard_meaning [of "''A.B.C''" "''A.*''"] by simp

text \<open>
  A subject in which no wildcard is found is matched by itself only, so it can be looked up as
  a plain subscription.
\<close>

lemma no_wildcard_matches_itself:
  assumes "is_rv_wildcard wild = None"
  shows "match_rv_wildcard wild sub \<longleftrightarrow> wild = sub"
  using plain_loop [of wild 0 0 sub] assms
  by (simp add: match_rv_wildcard_def is_rv_wildcard_def)

lemma no_wildcard_matches_itself_witness:
  "match_rv_wildcard ''A.B*'' ''A.B*'' \<and> \<not> match_rv_wildcard ''A.B*'' ''A.BC''"
proof -
  have "is_rv_wildcard ''A.B*'' = None" by code_simp
  from no_wildcard_matches_itself [OF this] show ?thesis by simp
qed

text \<open>
  The inbox numbers of a client round trip: the number of an inbox that the client made is read
  back from its name, given the control inbox number 1 and decimal conversions that write a digit
  first, write 1 as one digit and read back what they write.
\<close>

lemma inbox_round_trip:
  assumes "length (to_string 1) = 1"
    and "to_string num \<noteq> []" "is_digit (hd (to_string num))"
    and "of_string (to_string num) = ucast num"
  shows "is_inbox of_string (make_inbox to_string session 1) (make_inbox to_string session num) =
    ucast num"
proof -
  let ?p = "''_INBOX.'' @ session @ (if length session > 0 then [dot] else [])"
  have m: "make_inbox to_string session n = ?p @ to_string n" for n by (simp add: make_inbox_def)
  have off: "length (make_inbox to_string session 1) - 1 = length ?p" using assms(1) by (simp add: m)
  have "(?p @ to_string num) ! length ?p = hd (to_string num)"
    using assms(2) by (simp only: nth_append_length_plus [of _ _ 0, simplified]) (simp add: hd_conv_nth)
  then have "is_digit (make_inbox to_string session num ! length ?p)" using assms(3) by (simp only: m)
  then show ?thesis
    using assms(2,4) unfolding is_inbox_def Let_def off by (simp add: m)
qed

lemma inbox_round_trip_example:
  "is_inbox (\<lambda>s. if s = ''25'' then 25 else 1)
     (make_inbox (\<lambda>n. if n = 25 then ''25'' else ''1'') ''AB.7'' 1)
     (make_inbox (\<lambda>n. if n = 25 then ''25'' else ''1'') ''AB.7'' 25) = 25"
  using inbox_round_trip [of "\<lambda>n. if n = 25 then ''25'' else ''1''" 25
      "\<lambda>s. if s = ''25'' then 25 else 1" "''AB.7''"]
  by (simp add: is_digit_def)

end
