(* ===== verification/Ft_Member.thy ===== *)
theory Ft_Member
  imports Ft_Queue Rv_Subject
begin

text \<open>
  A member of a fault tolerance group (\<open>struct RvFt\<close> of \<open>include/sassrv/ft.h\<close>, \<open>src/ft.cpp\<close>): its
  timers, its states LISTEN, JOIN, PRIMARY, SECONDARY and FINISH, the messages of its peers and the
  takeover of the primary. The event loop's clock and the client connection are fields of the
  state; what the member does to its environment (messages sent, callbacks, timers) is appended to
  \<open>out\<close>. \<open>None\<close> is a read outside the queue or a walk past the allocator's blocks.
\<close>

section \<open>State\<close>

datatype ft_action =
    ACTION_LISTEN | ACTION_JOIN | ACTION_ACTIVATE | ACTION_DEACTIVATE | ACTION_HEARTBEAT
  | ACTION_PREPARE | ACTION_FINISH | ACTION_UPDATE

fun ft_action_code :: "ft_action \<Rightarrow> nat" where
  "ft_action_code ACTION_LISTEN = 0"
| "ft_action_code ACTION_JOIN = 1"
| "ft_action_code ACTION_ACTIVATE = 2"
| "ft_action_code ACTION_DEACTIVATE = 3"
| "ft_action_code ACTION_HEARTBEAT = 4"
| "ft_action_code ACTION_PREPARE = 5"
| "ft_action_code ACTION_FINISH = 6"
| "ft_action_code ACTION_UPDATE = 7"

record ft_parameters =
  par_weight :: u64
  par_join_ms :: u32
  par_heartbeat_ms :: u32
  par_activate_ms :: u32
  par_prepare_ms :: u32
  par_finish_ms :: u32
  par_inbox_num :: u32
  par_sync_inbox_num :: u32
  par_ft_sub :: string
  par_user :: string

definition ft_parameters_default :: ft_parameters where
  "ft_parameters_default = \<lparr>par_weight = 20, par_join_ms = 500, par_heartbeat_ms = 3000,
     par_activate_ms = 7000, par_prepare_ms = 6500, par_finish_ms = 500, par_inbox_num = 10,
     par_sync_inbox_num = 11, par_ft_sub = ''_FT.GRP'', par_user = ''none''\<rparr>"

text \<open>A message as \<open>send_msg\<close> writes it; \<open>w_reply\<close> is the inbox of an ANNOUNCE.\<close>

record ft_wire =
  w_dest :: string
  w_reply :: string
  w_type :: ft_msg_type
  w_state :: ft_state
  w_start_ns :: u64
  w_weight :: u64
  w_cur_time :: u64
  w_hb_ival :: u32
  w_act_ival :: u32
  w_prep_ival :: u32
  w_fin_time :: "u64 option"
  w_sync_inbox :: string
  w_member_cnt :: u32
  w_user :: string

datatype ft_out =
    Publish ft_wire
  | OnFtChange ft_action
  | OnFtSync
  | AddTimerMillis u32 u64 ft_action
  | AddTimerMicros u32 u64 ft_action
  | RemoveTimer u64 ft_action
  | Subscribe string
  | Unsubscribe string

text \<open>
  The constant and the functions of the libraries that the member uses: the largest microsecond
  timer and the decimal conversions.
\<close>

record ft_env =
  max_timer_range :: u64
  env_u32_string :: "u32 \<Rightarrow> string"
  env_string_u64 :: "string \<Rightarrow> u64"

record rvft = ft_mem +
  peer_ht :: "u64 \<Rightarrow> peer_ref option"
  tid :: u64
  state_ns :: u64
  start_mono :: u64
  last_rcv_ns :: u64
  last_hb_ns :: u64
  activate_ns :: u64
  deactivate_ns :: u64
  prepare_origin :: u64
  prepare_expires :: u64
  activate_origin :: u64
  activate_expires :: u64
  oldest_peer :: u64
  last_seqno :: u64
  accuracy_warn :: int
  join_ms :: u32
  heartbeat_ms :: u32
  activate_ms :: u32
  prepare_ms :: u32
  finish_ms :: u32
  inbox_num :: u32
  sync_inbox_num :: u32
  timer_mask :: u32
  state_count :: ft_state_count
  ft_free :: ft_pool
  ft_sub :: string
  sync_inbox :: string
  last_warn :: u64
  poll_now_ns :: u64
  poll_mono_ns :: u64
  client_session :: string
  client_control :: string
  out :: "ft_out list"

abbreviation me :: "rvft \<Rightarrow> ft_peer" where
  "me s \<equiv> peers s Me"

abbreviation my_state :: "rvft \<Rightarrow> ft_state" where
  "my_state s \<equiv> p_state (peers s Me)"

definition rvft_new :: "string \<Rightarrow> string \<Rightarrow> rvft" where
  "rvft_new session control = \<lparr>peers = (\<lambda>_. peer_zero), q_ptr = [], q_seqno = 0,
     peer_ht = (\<lambda>_. None), tid = 0, state_ns = 0, start_mono = 0, last_rcv_ns = 0,
     last_hb_ns = 0, activate_ns = 0, deactivate_ns = 0, prepare_origin = 0, prepare_expires = 0,
     activate_origin = 0, activate_expires = 0, oldest_peer = 0, last_seqno = 0,
     accuracy_warn = 0, join_ms = 0, heartbeat_ms = 0, activate_ms = 0, prepare_ms = 0,
     finish_ms = 0, inbox_num = 0, sync_inbox_num = 0, timer_mask = 0, state_count = count_init,
     ft_free = [], ft_sub = [], sync_inbox = [], last_warn = 0, poll_now_ns = 0,
     poll_mono_ns = 0, client_session = session, client_control = control, out = []\<rparr>"

definition rvft_release :: "rvft \<Rightarrow> rvft" where
  "rvft_release s = s\<lparr>peer_ht := (\<lambda>_. None), q_ptr := [], ft_free := []\<rparr>"

section \<open>Effects, timers and peers\<close>

definition emit :: "ft_out \<Rightarrow> rvft \<Rightarrow> rvft" where
  "emit e s = s\<lparr>out := out s @ [e]\<rparr>"

definition upd_peer :: "peer_ref \<Rightarrow> (ft_peer \<Rightarrow> ft_peer) \<Rightarrow> rvft \<Rightarrow> rvft" where
  "upd_peer r f s = s\<lparr>peers := (peers s)(r := f (peers s r))\<rparr>"

definition update_state :: "peer_ref \<Rightarrow> ft_state \<Rightarrow> rvft \<Rightarrow> rvft" where
  "update_state r new_state s =
     (let (p, c) = peer_update_state new_state (peers s r, state_count s)
      in s\<lparr>peers := (peers s)(r := p), state_count := c\<rparr>)"

definition set_from_msg :: "peer_ref \<Rightarrow> ft_peer_msg \<Rightarrow> rvft \<Rightarrow> rvft" where
  "set_from_msg r m s =
     (let (p, c) = peer_set m (peers s r, state_count s)
      in s\<lparr>peers := (peers s)(r := p), state_count := c\<rparr>)"

definition notify_change :: "ft_action \<Rightarrow> rvft \<Rightarrow> rvft" where
  "notify_change action s = (emit (OnFtChange action) s)\<lparr>last_seqno := q_seqno s\<rparr>"

definition notify_update :: "rvft \<Rightarrow> rvft" where
  "notify_update s =
     (if last_seqno s \<noteq> q_seqno s
      then (emit (OnFtChange ACTION_UPDATE) s)\<lparr>last_seqno := q_seqno s\<rparr>
      else s)"

definition action_bit :: "ft_action \<Rightarrow> u32" where
  "action_bit action = push_bit (ft_action_code action) 1"

definition timer_active :: "ft_action \<Rightarrow> rvft \<Rightarrow> rvft" where
  "timer_active action s = s\<lparr>timer_mask := timer_mask s OR action_bit action\<rparr>"

definition timer_is_set :: "ft_action \<Rightarrow> rvft \<Rightarrow> bool" where
  "timer_is_set action s \<longleftrightarrow> timer_mask s AND action_bit action \<noteq> 0"

definition timer_clear :: "ft_action \<Rightarrow> rvft \<Rightarrow> bool \<times> rvft" where
  "timer_clear action s =
     (timer_mask s AND action_bit action \<noteq> 0,
      s\<lparr>timer_mask := timer_mask s AND NOT (action_bit action)\<rparr>)"

definition timer_test_set :: "ft_action \<Rightarrow> rvft \<Rightarrow> bool \<times> rvft" where
  "timer_test_set action s =
     (timer_mask s AND action_bit action \<noteq> 0,
      s\<lparr>timer_mask := timer_mask s OR action_bit action\<rparr>)"

text \<open>The idiom \<open>if ( timer_clear( X ) ) timer.remove_timer_cb( *this, tid, X )\<close>.\<close>

definition cancel_timer :: "ft_action \<Rightarrow> rvft \<Rightarrow> rvft" where
  "cancel_timer action s =
     (let (was_set, s1) = timer_clear action s
      in if was_set then emit (RemoveTimer (tid s1) action) s1 else s1)"

definition stop_timers :: "rvft \<Rightarrow> rvft" where
  "stop_timers s =
     cancel_timer ACTION_FINISH (cancel_timer ACTION_PREPARE
       (cancel_timer ACTION_ACTIVATE (cancel_timer ACTION_JOIN s)))"

text \<open>
  \<open>send_msg\<close>. The finish time is computed from a \<open>uint32_t\<close> product, as the source writes it.
\<close>

definition send_msg :: "ft_env \<Rightarrow> ft_msg_type \<Rightarrow> string \<Rightarrow> rvft \<Rightarrow> rvft" where
  "send_msg env type dest s =
     emit (Publish
       \<lparr>w_dest = (if length dest = 0 then ft_sub s else dest),
        w_reply = (if type = ANNOUNCE
                   then make_inbox (env_u32_string env) (client_session s) (inbox_num s)
                   else []),
        w_type = type, w_state = my_state s, w_start_ns = p_start_ns (me s),
        w_weight = p_weight (me s), w_cur_time = poll_now_ns s, w_hb_ival = heartbeat_ms s,
        w_act_ival = activate_ms s, w_prep_ival = prepare_ms s,
        w_fin_time = (if type = FINISH then Some (poll_now_ns s + ucast (finish_ms s * 1000000))
                      else None),
        w_sync_inbox = sync_inbox s, w_member_cnt = of_nat (length (q_ptr s)),
        w_user = p_user (me s)\<rparr>) s"

definition finish :: "ft_env \<Rightarrow> rvft \<Rightarrow> rvft" where
  "finish env s =
     (let s1 = (if my_state s \<noteq> STATE_LISTEN then send_msg env EXITING [] s else s);
          s2 = stop_timers (cancel_timer ACTION_HEARTBEAT s1)
      in notify_change ACTION_FINISH (emit (Unsubscribe (ft_sub s2)) s2))"

definition expired_delta_ms :: "u64 \<Rightarrow> u64 \<Rightarrow> rvft \<Rightarrow> int" where
  "expired_delta_ms stamp_ns delta_ms s =
     (let now = poll_mono_ns s; delta = stamp_ns + delta_ms * 1000 * 1000
      in if delta < now then - uint ((now - delta) div 1000 div 1000)
         else uint ((delta - now) div 1000 div 1000))"

text \<open>\<open>set_timer\<close> returns the updated origin and expire stamps of the action's timer.\<close>

definition set_timer ::
  "ft_env \<Rightarrow> ft_action \<Rightarrow> u64 \<Rightarrow> u64 \<Rightarrow> u64 \<Rightarrow> rvft \<Rightarrow> (u64 \<times> u64 \<times> rvft) option" where
  "set_timer env action delta_ms ori_ns exp_ns s =
     do {
       p \<leftarrow> nth_opt (q_ptr s) 0;
       let now = poll_mono_ns s;
       let origin_ns = (if my_state s \<noteq> STATE_JOIN \<and> p \<noteq> Me then p_last_rcv_ns (peers s p)
                        else start_mono s);
       let sum_ns = origin_ns + delta_ms * 1000 * 1000;
       let expire_ns = (if sum_ns > now then sum_ns - now else 0);
       if timer_is_set action s \<and> ori_ns + exp_ns = origin_ns + expire_ns
       then Some (ori_ns, exp_ns, s)
       else do {
         let s1 = (if timer_is_set action s then emit (RemoveTimer (tid s) action) s else s);
         let s2 = timer_active action s1;
         let expire_us = (ucast ((expire_ns + 999) div 1000 + 1000) :: u32);
         let s3 = (if ucast expire_us \<le> max_timer_range env
                   then emit (AddTimerMicros expire_us (tid s2) action) s2
                   else emit (AddTimerMillis (ucast ((expire_ns + 999999) div (1000 * 1000) + 1))
                               (tid s2) action) s2);
         Some (origin_ns, expire_ns, s3)
       }
     }"

definition set_prepare_timer :: "ft_env \<Rightarrow> rvft \<Rightarrow> rvft option" where
  "set_prepare_timer env s =
     do {
       (ori, exp, s1) \<leftarrow> set_timer env ACTION_PREPARE (ucast (prepare_ms s))
                            (prepare_origin s) (prepare_expires s) s;
       Some (s1\<lparr>prepare_origin := ori, prepare_expires := exp\<rparr>)
     }"

definition set_activate_timer :: "ft_env \<Rightarrow> rvft \<Rightarrow> rvft option" where
  "set_activate_timer env s =
     do {
       (ori, exp, s1) \<leftarrow> set_timer env ACTION_ACTIVATE (ucast (activate_ms s))
                            (activate_origin s) (activate_expires s) s;
       Some (s1\<lparr>activate_origin := ori, activate_expires := exp\<rparr>)
     }"

definition release_peer :: "peer_ref \<Rightarrow> rvft \<Rightarrow> rvft option" where
  "release_peer r s =
     (case r of
        Me \<Rightarrow> None
      | Slot i \<Rightarrow> map_option (\<lambda>fs. s\<lparr>ft_free := fs\<rparr>) (pool_release i (ft_free s)))"

text \<open>
  The sequence by which \<open>on_peer_msg\<close> and \<open>trim_ft_queue\<close> let go of a peer: its new state is
  counted, then it leaves the queue, the index and the allocator.
\<close>

definition drop_peer :: "ft_state \<Rightarrow> peer_ref \<Rightarrow> rvft \<Rightarrow> rvft option" where
  "drop_peer new_state p s =
     (let s1 = ftq_remove p (update_state p new_state s);
          s2 = (case peer_ht s1 (p_start_ns (peers s1 p)) of
                  Some _ \<Rightarrow> s1\<lparr>peer_ht := (peer_ht s1)(p_start_ns (peers s1 p) := None)\<rparr>
                | None \<Rightarrow> s1)
      in release_peer p s2)"

text \<open>\<open>RvFt::make_peer\<close>: the slot, with a zeroed record set from the message.\<close>

definition make_peer :: "ft_peer_msg \<Rightarrow> rvft \<Rightarrow> (peer_ref \<times> rvft) option" where
  "make_peer m s =
     do {
       (i, fs) \<leftarrow> pool_make (pool_grow (ft_free s));
       Some (Slot i, set_from_msg (Slot i) m (upd_peer (Slot i) (\<lambda>_. peer_zero) (s\<lparr>ft_free := fs\<rparr>)))
     }"

text \<open>The loop of \<open>trim_ft_queue\<close>, from the last peer down.\<close>

fun trim_loop :: "nat \<Rightarrow> rvft \<Rightarrow> rvft option" where
  "trim_loop 0 s = Some s"
| "trim_loop (Suc i) s =
     do {
       p \<leftarrow> nth_opt (q_ptr s) i;
       s1 \<leftarrow> (if p \<noteq> Me \<and>
                  expired_delta_ms (p_last_rcv_ns (peers s p)) (ucast (activate_ms s)) s \<le> 0
               then drop_peer STATE_FINISH p s else Some s);
       trim_loop i s1
     }"

definition trim_ft_queue :: "rvft \<Rightarrow> rvft option" where
  "trim_ft_queue s = trim_loop (length (q_ptr s)) s"


section \<open>Entering a state\<close>

text \<open>
  The effects change neither the peers nor the queue: what the termination proof and the
  invariants need of them.
\<close>

lemma emit_frame [frame]:
  "peers (emit e s) = peers s" "q_ptr (emit e s) = q_ptr s" "q_seqno (emit e s) = q_seqno s"
  "peer_ht (emit e s) = peer_ht s" "ft_free (emit e s) = ft_free s"
  "state_count (emit e s) = state_count s" "timer_mask (emit e s) = timer_mask s"
  by (simp_all add: emit_def)

lemma send_msg_frame [frame]:
  "peers (send_msg env t d s) = peers s" "q_ptr (send_msg env t d s) = q_ptr s"
  "q_seqno (send_msg env t d s) = q_seqno s"
  "peer_ht (send_msg env t d s) = peer_ht s" "ft_free (send_msg env t d s) = ft_free s"
  "state_count (send_msg env t d s) = state_count s"
  "timer_mask (send_msg env t d s) = timer_mask s"
  by (simp_all add: send_msg_def frame)

lemma notify_change_frame [frame]:
  "peers (notify_change a s) = peers s" "q_ptr (notify_change a s) = q_ptr s"
  "q_seqno (notify_change a s) = q_seqno s"
  "peer_ht (notify_change a s) = peer_ht s" "ft_free (notify_change a s) = ft_free s"
  "state_count (notify_change a s) = state_count s"
  "timer_mask (notify_change a s) = timer_mask s"
  by (simp_all add: notify_change_def frame)

lemma my_state_update_state [simp]: "my_state (update_state Me st s) = st"
  by (simp add: update_state_def peer_update_state_def)

text \<open>The first part of \<open>set_state\<close>: record the new state, leaving JOIN changes the rank.\<close>

definition enter_state :: "ft_state \<Rightarrow> rvft \<Rightarrow> rvft" where
  "enter_state st s =
     (let old_state = my_state s
      in if st \<noteq> old_state then
           (let s1 = (update_state Me st s)\<lparr>state_ns := poll_mono_ns s\<rparr>
            in if old_state = STATE_JOIN \<and> st > STATE_JOIN \<and> st < STATE_FINISH
               then ftq_update Me s1 else s1)
         else s)"

lemma my_state_enter_state [simp]: "my_state (enter_state st s) = st"
  by (simp add: enter_state_def Let_def frame)

section \<open>States and takeover\<close>

text \<open>The end of \<open>prepare_takeover\<close>: wait for the prepare time, or start the activation.\<close>

definition prepare_wait :: "ft_env \<Rightarrow> ft_action \<Rightarrow> peer_ref \<Rightarrow> u64 \<Rightarrow> rvft \<Rightarrow> rvft option" where
  "prepare_wait env action p origin_ns s =
     (if prepare_ms s > 0 \<and> expired_delta_ms origin_ns (ucast (prepare_ms s)) s > 0
      then set_prepare_timer env s
      else
        let notify = \<not> (my_state s = STATE_JOIN \<and> p \<noteq> Me \<and> is_greater_weight (peers s p) (me s));
            s1 = (if action = ACTION_PREPARE \<and> notify then notify_change ACTION_PREPARE s else s)
        in set_activate_timer env s1)"

text \<open>
  \<open>set_state\<close> calls \<open>prepare_takeover\<close> in the states JOIN and SECONDARY only, which calls back
  with SECONDARY only from JOIN, and otherwise with PRIMARY, which does not call.
\<close>

definition takeover_rank :: "rvft \<Rightarrow> nat" where
  "takeover_rank s = (if my_state s = STATE_JOIN then 5 else 3)"

fun state_rank :: "ft_state \<Rightarrow> nat" where
  "state_rank STATE_JOIN = 6"
| "state_rank STATE_SECONDARY = 4"
| "state_rank _ = 2"

function prepare_takeover :: "ft_env \<Rightarrow> ft_action \<Rightarrow> u64 \<Rightarrow> rvft \<Rightarrow> rvft option"
  and set_state :: "ft_env \<Rightarrow> ft_state \<Rightarrow> rvft \<Rightarrow> rvft option" where
  "prepare_takeover env action deadline s =
     do {
       p \<leftarrow> nth_opt (q_ptr s) 0;
       if p = Me \<or> my_state s = STATE_JOIN then
         (if expired_delta_ms (start_mono s) (ucast (activate_ms s)) s \<le> 0 then
            do {
              s1 \<leftarrow> (if p = Me \<or>
                         my_state s = STATE_JOIN \<and> is_greater_weight (me s) (peers s p)
                      then set_state env STATE_PRIMARY s
                      else set_state env STATE_SECONDARY s);
              Some (notify_update s1)
            }
          else prepare_wait env action p (start_mono s) s)
       else
         do {
           p1 \<leftarrow> nth_opt (q_ptr s) 1;
           if p1 \<noteq> Me then Some s
           else if deadline \<noteq> 0 then
             (let s1 = cancel_timer ACTION_ACTIVATE (cancel_timer ACTION_PREPARE s)
              in Some (if prepare_ms s1 > 0 then notify_change ACTION_PREPARE s1 else s1))
           else prepare_wait env action p (p_last_rcv_ns (peers s p)) s
         }
     }"
| "set_state env st s =
     (let old_state = my_state s;
          s1 = enter_state st s
      in case st of
           STATE_LISTEN \<Rightarrow> Some (send_msg env ANNOUNCE [] s1)
         | STATE_JOIN \<Rightarrow>
             do {
               s2 \<leftarrow> prepare_takeover env ACTION_JOIN 0
                       (send_msg env ANNOUNCE [] (ftq_insert Me s1));
               Some (notify_change ACTION_JOIN s2)
             }
         | STATE_PRIMARY \<Rightarrow>
             Some (send_msg env ACTIVATE []
               (notify_change ACTION_ACTIVATE (s1\<lparr>activate_ns := state_ns s1\<rparr>)))
         | STATE_SECONDARY \<Rightarrow>
             prepare_takeover env ACTION_DEACTIVATE 0
               (if old_state \<noteq> STATE_SECONDARY
                then notify_change ACTION_DEACTIVATE
                       (send_msg env DEACTIVATE [] (s1\<lparr>deactivate_ns := state_ns s1\<rparr>))
                else s1)
         | STATE_FINISH \<Rightarrow> Some (finish env s1))"
  by pat_completeness auto

termination
  by (relation "measure (\<lambda>x. case x of
        Inl (env, action, deadline, s) \<Rightarrow> takeover_rank s
      | Inr (env, st, s) \<Rightarrow> state_rank st)")
    (auto simp: takeover_rank_def frame Let_def)

declare prepare_takeover.simps [simp del] set_state.simps [simp del]

section \<open>Heartbeats and timers\<close>

text \<open>
  The intervals that \<open>start_hb\<close> settles on, and whether it changed any: the nonzero ones are taken
  over, then the activation time is kept above the heartbeat and the prepare time between them.
\<close>

definition hb_intervals ::
  "u32 \<Rightarrow> u32 \<Rightarrow> u32 \<Rightarrow> u32 \<times> u32 \<times> u32 \<Rightarrow> bool \<times> u32 \<times> u32 \<times> u32" where
  "hb_intervals hb_ival act_ival prep_ival = (\<lambda>(hb0, act0, prep0).
     (let (ch1, hb) = (if hb_ival \<noteq> 0 \<and> hb0 \<noteq> hb_ival then (True, hb_ival) else (False, hb0));
          (ch2, act1) = (if act_ival \<noteq> 0 \<and> act0 \<noteq> act_ival then (True, act_ival) else (ch1, act0));
          (ch3, prep1) = (if prep_ival \<noteq> 0 \<and> prep0 \<noteq> prep_ival then (True, prep_ival)
                          else (ch2, prep0));
          (ch4, act) = (if act1 \<le> hb then (True, hb * 2 + hb div 10) else (ch3, act1));
          (ch5, prep) = (if prep1 \<noteq> 0 \<and> (prep1 < hb \<or> prep1 \<ge> act) then (True, (hb + act) div 2)
                         else (ch4, prep1))
      in (ch5, hb, act, prep)))"

definition start_hb :: "u32 \<Rightarrow> u32 \<Rightarrow> u32 \<Rightarrow> rvft \<Rightarrow> rvft" where
  "start_hb hb_ival act_ival prep_ival s =
     (let (change, hb, act, prep) = hb_intervals hb_ival act_ival prep_ival
                                      (heartbeat_ms s, activate_ms s, prepare_ms s);
          s5 = s\<lparr>heartbeat_ms := hb, activate_ms := act, prepare_ms := prep\<rparr>;
          s6 = (if change then cancel_timer ACTION_HEARTBEAT (cancel_timer ACTION_PREPARE
                                 (cancel_timer ACTION_ACTIVATE s5))
                else s5);
          (was_set, s7) = timer_test_set ACTION_HEARTBEAT s6
      in if \<not> was_set
         then emit (AddTimerMillis (heartbeat_ms s7) (tid s7) ACTION_HEARTBEAT)
                (s7\<lparr>last_hb_ns := poll_mono_ns s7\<rparr>)
         else s7)"

text \<open>A timer that fires within 100 ms of its time is accurate.\<close>

definition is_accurate :: "int \<Rightarrow> bool" where
  "is_accurate ival \<longleftrightarrow> ival > -100 \<and> ival < 100"

text \<open>The heartbeat of \<open>timer_cb\<close>: a timer off by more than the last warned interval warns again.\<close>

definition warn_accuracy :: "int \<Rightarrow> rvft \<Rightarrow> rvft" where
  "warn_accuracy ival s =
     (if \<not> is_accurate ival \<and> (ival \<ge> accuracy_warn s \<or> ival \<le> - accuracy_warn s)
      then s\<lparr>accuracy_warn := accuracy_warn s + 100\<rparr> else s)"

definition send_alive :: "ft_env \<Rightarrow> bool \<Rightarrow> rvft \<Rightarrow> rvft option" where
  "send_alive env accurate s =
     (if my_state s = STATE_PRIMARY then Some (send_msg env HEARTBEAT [] s)
      else if my_state s \<noteq> STATE_LISTEN then
        do {
          t \<leftarrow> (if accurate then prepare_takeover env ACTION_HEARTBEAT 0 s else Some s);
          Some (send_msg env KEEPALIVE [] t)
        }
      else Some s)"

definition heartbeat_cb :: "ft_env \<Rightarrow> rvft \<Rightarrow> rvft option" where
  "heartbeat_cb env s =
     do {
       let ival = expired_delta_ms (last_hb_ns s) (ucast (heartbeat_ms s)) s;
       let s1 = warn_accuracy ival s;
       s2 \<leftarrow> (if is_accurate ival then trim_ft_queue s1 else Some s1);
       s3 \<leftarrow> send_alive env (is_accurate ival) s2;
       Some (notify_update (s3\<lparr>last_hb_ns := poll_mono_ns s3\<rparr>))
     }"

text \<open>\<open>timer_cb\<close> returns whether the timer repeats.\<close>

definition timer_cb :: "ft_env \<Rightarrow> u64 \<Rightarrow> ft_action \<Rightarrow> rvft \<Rightarrow> (bool \<times> rvft) option" where
  "timer_cb env timer_id action s =
     (if timer_id \<noteq> tid s then Some (False, s)
      else if action = ACTION_ACTIVATE \<or> action = ACTION_PREPARE then
        do {
          let ival = (if action = ACTION_ACTIVATE
                      then expired_delta_ms (activate_origin s) (ucast (activate_ms s)) s
                      else expired_delta_ms (prepare_origin s) (ucast (prepare_ms s)) s);
          let s1 = snd (timer_clear action s);
          s2 \<leftarrow> (if is_accurate ival \<and> (my_state s1 = STATE_SECONDARY \<or> my_state s1 = STATE_JOIN)
                  then do { t \<leftarrow> trim_ft_queue s1; prepare_takeover env action 0 t }
                  else Some s1);
          Some (False, notify_update s2)
        }
      else if action = ACTION_HEARTBEAT then do { s1 \<leftarrow> heartbeat_cb env s; Some (True, s1) }
      else if action = ACTION_JOIN then
        do { s1 \<leftarrow> set_state env STATE_JOIN (snd (timer_clear ACTION_JOIN s)); Some (False, s1) }
      else if action = ACTION_FINISH then
        do { s1 \<leftarrow> set_state env STATE_FINISH (snd (timer_clear ACTION_FINISH s)); Some (False, s1) }
      else Some (False, s))"

section \<open>Entry points\<close>

text \<open>
  \<open>start\<close> reads the clock: \<open>now\<close> and \<open>mono_t\<close> are what \<open>poll.update_time_ns()\<close> stores. The buffers
  of the subject and the user name hold 63 characters and a terminator.
\<close>

definition start_member :: "ft_env \<Rightarrow> ft_parameters \<Rightarrow> u64 \<Rightarrow> u64 \<Rightarrow> rvft \<Rightarrow> rvft option" where
  "start_member env param now mono_t s =
     (let s1 = update_state Me STATE_LISTEN
                 (upd_peer Me (\<lambda>_. peer_zero\<lparr>p_start_ns := now, p_weight := par_weight param\<rparr>)
                   (s\<lparr>poll_now_ns := now, poll_mono_ns := mono_t, state_count := count_init\<rparr>));
          s2 = s1\<lparr>tid := now, state_ns := mono_t, start_mono := mono_t,
                  join_ms := par_join_ms param, heartbeat_ms := par_heartbeat_ms param,
                  activate_ms := par_activate_ms param, prepare_ms := par_prepare_ms param,
                  finish_ms := par_finish_ms param, inbox_num := par_inbox_num param,
                  sync_inbox_num := par_sync_inbox_num param,
                  sync_inbox := make_inbox (env_u32_string env) (client_session s1)
                                  (par_sync_inbox_num param),
                  ft_sub := take 63 (par_ft_sub param), accuracy_warn := 100\<rparr>;
          s3 = upd_peer Me (\<lambda>p. p\<lparr>p_user := take 63 (par_user param)\<rparr>) s2;
          s4 = emit (Subscribe (ft_sub s3)) s3;
          s5 = (if join_ms s4 \<noteq> 0
                then emit (AddTimerMillis (join_ms s4) (tid s4) ACTION_JOIN)
                       (timer_active ACTION_JOIN s4)
                else s4);
          s6 = start_hb (par_heartbeat_ms param) (par_activate_ms param) (par_prepare_ms param) s5
      in do { s7 \<leftarrow> set_state env STATE_LISTEN s6; Some (notify_change ACTION_LISTEN s7) })"

definition stop_member :: "ft_env \<Rightarrow> rvft \<Rightarrow> (u32 \<times> rvft) option" where
  "stop_member env s =
     (if finish_ms s = 0 then do { s1 \<leftarrow> set_state env STATE_FINISH s; Some (0, s1) }
      else
        let (was_set, s1) = timer_test_set ACTION_FINISH s;
            s2 = (if \<not> was_set
                  then emit (AddTimerMillis (finish_ms s1) (tid s1) ACTION_FINISH)
                         (send_msg env FINISH [] s1)
                  else s1)
        in Some (finish_ms s2, s2))"

definition activate :: "ft_env \<Rightarrow> rvft \<Rightarrow> rvft option" where
  "activate env s =
     (if my_state s = STATE_LISTEN
      then set_state env STATE_JOIN
             (cancel_timer ACTION_JOIN (s\<lparr>start_mono := poll_mono_ns s\<rparr>))
      else Some s)"

definition deactivate :: "ft_env \<Rightarrow> rvft \<Rightarrow> rvft option" where
  "deactivate env s =
     (if my_state s \<noteq> STATE_LISTEN
      then do {
        s1 \<leftarrow> set_state env STATE_LISTEN (stop_timers (ftq_remove Me s));
        Some (notify_change ACTION_LISTEN s1)
      }
      else Some s)"

section \<open>Messages\<close>

definition check_latency :: "peer_ref \<Rightarrow> int \<Rightarrow> rvft \<Rightarrow> bool \<times> rvft" where
  "check_latency r ns s =
     (let skew0 = latency (peers s r);
          ms = c_div ns (1000 * 1000);
          act_ms = uint (activate_ms s);
          hb_ms = uint (heartbeat_ms s);
          skew = c_div skew0 (1000 * 1000);
          warned = s\<lparr>last_warn := poll_mono_ns s div (1000 * 1000 * 1000)\<rparr>
      in if skew0 \<noteq> 0 \<and> (ms < - (act_ms - skew) \<or> ms > act_ms + skew) then (False, warned)
         else if skew0 \<noteq> 0 \<and> (ms < - (hb_ms - skew) \<or> ms > hb_ms + skew) then (True, warned)
         else (True, upd_peer r (accum_latency ns) s))"

text \<open>The end of \<open>on_peer_msg\<close>: announcements are acknowledged.\<close>

definition ack_announce :: "ft_env \<Rightarrow> ft_peer_msg \<Rightarrow> rvft \<Rightarrow> rvft" where
  "ack_announce env m s =
     (if m_type m = ANNOUNCE \<and> my_state s \<noteq> STATE_LISTEN then send_msg env ACK (m_reply m) s
      else s)"

text \<open>\<open>check if I am primary or secondary\<close>.\<close>

definition check_primary :: "ft_env \<Rightarrow> rvft \<Rightarrow> rvft option" where
  "check_primary env s =
     (if my_state s = STATE_SECONDARY then
        do {
          p \<leftarrow> nth_opt (q_ptr s) 0;
          if p \<noteq> Me then set_state env STATE_SECONDARY s else set_state env STATE_PRIMARY s
        }
      else if my_state s = STATE_PRIMARY then
        do {
          p \<leftarrow> nth_opt (q_ptr s) 0;
          if p \<noteq> Me then set_state env STATE_SECONDARY s else Some s
        }
      else Some s)"

text \<open>
  The lookup of the sender: a new record, or the known one after the latency check. \<open>Inl\<close> is the
  early return for a message outside the activation time.
\<close>

definition find_sender :: "ft_peer_msg \<Rightarrow> rvft \<Rightarrow> (rvft + peer_ref \<times> rvft) option" where
  "find_sender m s =
     (let ns = sint (poll_now_ns s - m_cur_time m)
      in case peer_ht s (m_start_ns m) of
           None \<Rightarrow>
             do {
               (p, s1) \<leftarrow> make_peer m s;
               let s2 = upd_peer p (accum_latency ns) s1;
               Some (Inr (p, s2\<lparr>peer_ht := (peer_ht s2)(m_start_ns m := Some p)\<rparr>))
             }
         | Some p \<Rightarrow>
             (let (ok, s1) = check_latency p ns s
              in if \<not> ok then Some (Inl s1) else Some (Inr (p, set_from_msg p m s1))))"

text \<open>The part of \<open>on_peer_msg\<close> after the sender was found.\<close>

definition peer_msg_found :: "ft_env \<Rightarrow> ft_peer_msg \<Rightarrow> peer_ref \<Rightarrow> rvft \<Rightarrow> rvft option" where
  "peer_msg_found env m p s3 =
     (if m_type m \<noteq> EXITING then
        (let s4 = ftq_update p s3
         in if my_state s4 = STATE_LISTEN then Some (notify_update s4)
            else if m_type m = FINISH then
              do {
                h \<leftarrow> nth_opt (q_ptr s4) 0;
                s5 \<leftarrow> (if p = h then prepare_takeover env ACTION_FINISH (m_fin_time m) s4
                        else Some s4);
                Some (notify_update s5)
              }
            else do { s5 \<leftarrow> check_primary env s4; Some (ack_announce env m (notify_update s5)) })
      else
        do {
          s4 \<leftarrow> drop_peer STATE_FINISH p s3;
          s5 \<leftarrow> check_primary env s4;
          Some (ack_announce env m (notify_update s5))
        })"

text \<open>The begin of \<open>on_peer_msg\<close>: a listener adopts the intervals of the oldest peer.\<close>

definition adopt_intervals :: "ft_peer_msg \<Rightarrow> rvft \<Rightarrow> rvft" where
  "adopt_intervals m s =
     (if my_state s = STATE_LISTEN \<and> m_start_ns m < p_start_ns (me s) \<and>
         (oldest_peer s = 0 \<or> m_start_ns m < oldest_peer s)
      then start_hb (m_hb_ival m) (m_act_ival m) (m_prep_ival m) (s\<lparr>oldest_peer := m_start_ns m\<rparr>)
      else s)"

definition on_peer_msg :: "ft_env \<Rightarrow> ft_peer_msg \<Rightarrow> rvft \<Rightarrow> rvft option" where
  "on_peer_msg env m s =
     (let s1 = adopt_intervals m (s\<lparr>last_rcv_ns := poll_mono_ns s\<rparr>)
      in if m_state m = STATE_LISTEN then
           do {
             s2 \<leftarrow> (case peer_ht s1 (m_start_ns m) of
                       Some p \<Rightarrow> drop_peer STATE_LISTEN p s1
                     | None \<Rightarrow> Some s1);
             Some (ack_announce env m (notify_update s2))
           }
         else
           do {
             r \<leftarrow> find_sender m s1;
             case r of
               Inl s2 \<Rightarrow> Some s2
             | Inr (p, s2) \<Rightarrow>
                 peer_msg_found env m p (upd_peer p (\<lambda>x. x\<lparr>p_last_rcv_ns := last_rcv_ns s2\<rparr>) s2)
           })"

text \<open>
  A message as it is unpacked: the numeric type and state are range checked by \<open>process_pub\<close>
  before they are read as enums.
\<close>

record ft_raw_msg =
  r_type :: u8
  r_state :: u8
  r_msg :: ft_peer_msg

fun msg_type_of :: "nat \<Rightarrow> ft_msg_type" where
  "msg_type_of n =
     (if n = 0 then ANNOUNCE else if n = 1 then HEARTBEAT else if n = 2 then KEEPALIVE
      else if n = 3 then ACTIVATE else if n = 4 then DEACTIVATE else if n = 5 then ACK
      else if n = 6 then FINISH else EXITING)"

fun state_of :: "nat \<Rightarrow> ft_state" where
  "state_of n =
     (if n = 0 then STATE_LISTEN else if n = 1 then STATE_JOIN else if n = 2 then STATE_PRIMARY
      else if n = 3 then STATE_SECONDARY else STATE_FINISH)"

text \<open>
  \<open>process_pub\<close>. \<open>unpack\<close> stands for \<open>RvMsg::unpack_rv\<close>, \<open>get_map\<close> for \<open>MDIterMap::get_map\<close>
  with the number of fields it found, both of the library raimd.
\<close>

definition process_pub ::
  "ft_env \<Rightarrow> (u8 list \<Rightarrow> 'm option) \<Rightarrow> ('m \<Rightarrow> string \<Rightarrow> nat \<times> ft_raw_msg) \<Rightarrow>
   string \<Rightarrow> string \<Rightarrow> u8 list \<Rightarrow> rvft \<Rightarrow> (bool \<times> rvft) option" where
  "process_pub env unpack get_map subject reply msg s =
     (let i = (ucast (is_inbox (env_string_u64 env) (client_control s) subject) :: u32)
      in if subject \<noteq> ft_sub s \<and> i \<noteq> inbox_num s then
           (if i = sync_inbox_num s then Some (True, emit OnFtSync s) else Some (False, s))
         else if length msg > 0 then
           (case unpack msg of
              None \<Rightarrow> Some (False, s)
            | Some m \<Rightarrow>
                (let (n, raw) = get_map m reply
                 in if n > 0 \<and> r_type raw < 8 \<and> r_state raw < 5 \<and> m_start_ns (r_msg raw) \<noteq> 0 then
                      (if m_start_ns (r_msg raw) = p_start_ns (me s) then Some (True, s)
                       else do {
                         s1 \<leftarrow> on_peer_msg env
                                 ((r_msg raw)\<lparr>m_type := msg_type_of (unat (r_type raw)),
                                    m_state := state_of (unat (r_state raw)), m_reply := reply\<rparr>) s;
                         Some (True, s1)
                       })
                    else Some (False, s)))
         else Some (False, s))"
end
