(* ===== verification/Ft_Invariant.thy ===== *)
theory Ft_Invariant
  imports Ft_Member
begin

text \<open>
  The invariant of a fault tolerance member and its preservation by every handler: the queue, the
  index by start time and the allocator agree, the state counters count the live peers, the queue
  is in rank order, and the member is queued exactly while it takes part. The handlers are the
  steps of a relation; the invariant holds in every state it reaches.
\<close>

section \<open>The invariant\<close>

text \<open>The records that exist: the member's own and those in used slots.\<close>

definition refs :: "rvft \<Rightarrow> peer_ref set" where
  "refs s = insert Me (Slot ` pool_used (ft_free s))"

definition count_ok :: "(peer_ref \<Rightarrow> ft_peer) \<Rightarrow> peer_ref set \<Rightarrow> ft_state_count \<Rightarrow> bool" where
  "count_ok st R c \<longleftrightarrow>
     c_join c = of_nat (card {r \<in> R. p_state (st r) = STATE_JOIN}) \<and>
     c_primary c = of_nat (card {r \<in> R. p_state (st r) = STATE_PRIMARY}) \<and>
     c_secondary c = of_nat (card {r \<in> R. p_state (st r) = STATE_SECONDARY})"

text \<open>
  The index maps the start times of exactly the used slots, the queue holds existing records
  only, and every used slot but those in \<open>E\<close> is queued.
\<close>

definition ft_struct :: "peer_ref set \<Rightarrow> rvft \<Rightarrow> bool" where
  "ft_struct E s \<longleftrightarrow> queue_ok s \<and> pool_ok (ft_free s) \<and>
     (\<forall>k r. peer_ht s k = Some r \<longrightarrow>
        r \<in> Slot ` pool_used (ft_free s) \<and> p_start_ns (peers s r) = k) \<and>
     (\<forall>i \<in> pool_used (ft_free s). peer_ht s (p_start_ns (peers s (Slot i))) = Some (Slot i)) \<and>
     set (q_ptr s) \<subseteq> refs s \<and> Slot ` pool_used (ft_free s) \<subseteq> set (q_ptr s) \<union> E \<and>
     peer_ht s (p_start_ns (me s)) = None"

definition timers :: "rvft \<Rightarrow> ft_action set" where
  "timers s = {a. timer_is_set a s}"

definition in_group :: "ft_state \<Rightarrow> bool" where
  "in_group st \<longleftrightarrow> st = STATE_JOIN \<or> st = STATE_PRIMARY \<or> st = STATE_SECONDARY"

definition ft_me :: "rvft \<Rightarrow> bool" where
  "ft_me s \<longleftrightarrow> (my_state s = STATE_LISTEN \<longrightarrow> Me \<notin> set (q_ptr s)) \<and>
     (in_group (my_state s) \<longrightarrow> Me \<in> set (q_ptr s)) \<and>
     (ACTION_JOIN \<in> timers s \<longrightarrow> my_state s = STATE_LISTEN) \<and>
     (ACTION_HEARTBEAT \<in> timers s \<longrightarrow> my_state s \<noteq> STATE_FINISH)"

definition ft_inv :: "rvft \<Rightarrow> bool" where
  "ft_inv s \<longleftrightarrow> ft_struct {} s \<and> count_ok (peers s) (refs s) (state_count s) \<and> ft_me s \<and>
     (my_state s \<noteq> STATE_FINISH \<longrightarrow> queue_sorted s)"

section \<open>Counting\<close>

lemma finite_pool_used [simp]: "finite (pool_used fs)"
proof -
  have "pool_used fs \<subseteq> (\<lambda>(b, k). 16 * b + k) ` (fst ` set fs \<times> {..< 16})"
  proof
    fix i
    assume "i \<in> pool_used fs"
    then have "i div 16 \<in> fst ` set fs" by (rule pool_used_block)
    then show "i \<in> (\<lambda>(b, k). 16 * b + k) ` (fst ` set fs \<times> {..< 16})"
      by (auto intro!: image_eqI [where x = "(i div 16, i mod 16)"])
  qed
  then show ?thesis by (rule finite_subset) auto
qed

lemma finite_refs [simp]: "finite (refs s)"
  by (simp add: refs_def)

lemma card_upd:
  assumes "finite R" "r \<in> R"
  shows "(of_nat (card {x \<in> R. p_state ((st(r := p)) x) = X}) :: u32) =
    of_nat (card {x \<in> R. p_state (st x) = X}) - (if p_state (st r) = X then 1 else 0) +
    (if p_state p = X then 1 else 0)"
proof -
  let ?A = "{x \<in> R. p_state (st x) = X}"
  have B: "{x \<in> R. p_state ((st(r := p)) x) = X} =
    (if p_state p = X then insert r (?A - {r}) else ?A - {r})"
    using assms(2) by (auto split: if_splits)
  have fin: "finite ?A" using assms(1) by simp
  have del: "(of_nat (card (?A - {r})) :: u32) =
    of_nat (card ?A) - (if p_state (st r) = X then 1 else 0)"
  proof (cases "r \<in> ?A")
    case True
    with fin have "card ?A = Suc (card (?A - {r}))" by (metis card_Suc_Diff1)
    with True show ?thesis by simp
  next
    case False
    with assms(2) show ?thesis by simp
  qed
  show ?thesis unfolding B using assms(2) fin del by (simp add: card_insert_if add.commute)
qed

lemma count_ok_upd:
  "finite R \<Longrightarrow> r \<in> R \<Longrightarrow> count_ok st R c \<Longrightarrow>
   count_ok (st(r := p)) R (count_update (p_state (st r)) (p_state p) c)"
  unfolding count_ok_def
  by (cases "p_state (st r)"; cases "p_state p")
    (simp_all add: card_upd count_update_def del: fun_upd_apply)

lemma count_ok_insert:
  "finite R \<Longrightarrow> \<not> in_group (p_state (st r)) \<Longrightarrow> count_ok st (insert r R) c = count_ok st R c"
proof -
  assume "\<not> in_group (p_state (st r))"
  then have "{x \<in> insert r R. p_state (st x) = X} = {x \<in> R. p_state (st x) = X}"
    if "in_group X" for X using that by auto
  then show ?thesis by (simp add: count_ok_def in_group_def)
qed

lemma count_ok_cong:
  "(\<And>r. r \<in> R \<Longrightarrow> p_state (st r) = p_state (st' r)) \<Longrightarrow> count_ok st R c = count_ok st' R c"
proof -
  assume "\<And>r. r \<in> R \<Longrightarrow> p_state (st r) = p_state (st' r)"
  then have "{x \<in> R. p_state (st x) = X} = {x \<in> R. p_state (st' x) = X}" for X by auto
  then show ?thesis by (simp add: count_ok_def)
qed

lemma count_ok_nopos:
  "\<forall>r. nopos (st r) = nopos (st' r) \<Longrightarrow> count_ok st R c = count_ok st' R c"
  by (rule count_ok_cong) (blast intro: nopos_fields(6))

section \<open>Timers and effects\<close>

lemma action_bit_eq: "action_bit a = action_bit b \<longleftrightarrow> a = b"
  by (cases a; cases b) (simp_all add: action_bit_def)

lemma timer_is_set_iff: "timer_is_set a s \<longleftrightarrow> bit (timer_mask s) (ft_action_code a)"
  by (simp add: timer_is_set_def action_bit_def bit_iff_and_push_bit_not_eq_0)

lemma ft_action_code_eq [simp]: "ft_action_code a = ft_action_code b \<longleftrightarrow> a = b"
  by (cases a; cases b) simp_all

lemma ft_action_code_less: "ft_action_code a < 32"
  by (cases a) simp_all

lemma bit_action: "bit (action_bit a) (ft_action_code b) \<longleftrightarrow> a = b"
  using ft_action_code_less [of b] by (auto simp: action_bit_def bit_exp_iff)

text \<open>The part of the state that the invariant reads, timers apart.\<close>

definition same_core :: "rvft \<Rightarrow> rvft \<Rightarrow> bool" where
  "same_core s t \<longleftrightarrow> peers t = peers s \<and> q_ptr t = q_ptr s \<and> peer_ht t = peer_ht s \<and>
     ft_free t = ft_free s \<and> state_count t = state_count s"

lemma same_core_refl [simp]: "same_core s s"
  by (simp add: same_core_def)

lemma same_core_trans: "same_core s t \<Longrightarrow> same_core t u \<Longrightarrow> same_core s u"
  by (simp add: same_core_def)

lemma same_core_effects [simp]:
  "same_core s (emit e t) = same_core s t" "same_core s (send_msg env y d t) = same_core s t"
  "same_core s (notify_change a t) = same_core s t" "same_core s (notify_update t) = same_core s t"
  "same_core s (timer_active a t) = same_core s t"
  "same_core s (snd (timer_clear a t)) = same_core s t"
  by (simp_all add: same_core_def frame notify_update_def timer_active_def timer_clear_def)

lemma timers_emit [simp]: "timers (emit e s) = timers s"
  by (simp add: timers_def timer_is_set_def frame)

lemma timers_send_msg [simp]: "timers (send_msg env t d s) = timers s"
  by (simp add: timers_def timer_is_set_def frame)

lemma timers_notify_change [simp]: "timers (notify_change a s) = timers s"
  by (simp add: timers_def timer_is_set_def frame)

lemma timers_notify_update [simp]: "timers (notify_update s) = timers s"
  by (simp add: notify_update_def timers_def timer_is_set_def frame)

lemma timers_active [simp]: "timers (timer_active a s) = insert a (timers s)"
  by (auto simp: timers_def timer_is_set_iff timer_active_def bit_or_iff bit_action)

lemma timers_clear [simp]: "timers (snd (timer_clear a s)) = timers s - {a}"
  using ft_action_code_less
  by (auto simp: timers_def timer_is_set_iff timer_clear_def bit_and_iff bit_not_iff bit_action)

lemma cancel_timer_eff [simp]:
  "same_core u (cancel_timer a s) = same_core u s" "timers (cancel_timer a s) = timers s - {a}"
proof -
  obtain b s1 where c: "timer_clear a s = (b, s1)" by fastforce
  then have "same_core u s1 = same_core u s" "timers s1 = timers s - {a}"
    using same_core_effects(6) [of u a s] timers_clear [of a s] by simp_all
  then show "same_core u (cancel_timer a s) = same_core u s"
    "timers (cancel_timer a s) = timers s - {a}"
    using c by (auto simp: cancel_timer_def)
qed

lemma stop_timers_eff [simp]:
  "same_core u (stop_timers s) = same_core u s"
  "timers (stop_timers s) =
     timers s - {ACTION_JOIN, ACTION_ACTIVATE, ACTION_PREPARE, ACTION_FINISH}"
  unfolding stop_timers_def by auto

lemma ft_inv_cong:
  assumes "same_core s t" and "timers t \<inter> {ACTION_JOIN, ACTION_HEARTBEAT} \<subseteq> timers s"
  shows "ft_inv s \<Longrightarrow> ft_inv t"
proof -
  assume "ft_inv s"
  moreover from assms(1) have "refs t = refs s" by (simp add: same_core_def refs_def)
  ultimately show ?thesis using assms
    by (auto simp: same_core_def ft_inv_def ft_struct_def ft_me_def queue_ok_def queue_sorted_def
        refs_def)
qed


section \<open>Queue operations on a member\<close>

lemma ftq_rest [simp]:
  fixes s :: rvft
  shows "peer_ht (ftq_insert p s) = peer_ht s" "ft_free (ftq_insert p s) = ft_free s"
    "state_count (ftq_insert p s) = state_count s" "timers (ftq_insert p s) = timers s"
    "peer_ht (ftq_remove p s) = peer_ht s" "ft_free (ftq_remove p s) = ft_free s"
    "state_count (ftq_remove p s) = state_count s" "timers (ftq_remove p s) = timers s"
    "peer_ht (ftq_update p s) = peer_ht s" "ft_free (ftq_update p s) = ft_free s"
    "state_count (ftq_update p s) = state_count s" "timers (ftq_update p s) = timers s"
  by (subst ftq_insert_shape ftq_remove_shape ftq_update_shape,
      simp add: timers_def timer_is_set_def)+

lemma refs_ftq [simp]:
  "refs (ftq_insert p s) = refs s" "refs (ftq_remove p s) = refs s" "refs (ftq_update p s) = refs s"
  by (simp_all add: refs_def)

lemma update_state_eff [simp]:
  "peers (update_state r st s) =
     (peers s)(r := (peers s r)\<lparr>p_old_state := p_state (peers s r), p_state := st\<rparr>)"
  "state_count (update_state r st s) = count_update (p_state (peers s r)) st (state_count s)"
  "q_ptr (update_state r st s) = q_ptr s" "peer_ht (update_state r st s) = peer_ht s"
  "ft_free (update_state r st s) = ft_free s" "timers (update_state r st s) = timers s"
  "refs (update_state r st s) = refs s"
  by (simp_all add: update_state_def peer_update_state_def timers_def timer_is_set_def refs_def)

lemma Me_in_refs [simp]: "Me \<in> refs s"
  by (simp add: refs_def)

lemma ft_struct_live:
  "ft_struct E s \<Longrightarrow> r \<in> refs s \<Longrightarrow> r = Me \<or> peer_ht s (p_start_ns (peers s r)) = Some r"
  by (auto simp: ft_struct_def refs_def)

lemma ft_struct_key:
  assumes "ft_struct E s" "r \<in> refs s" "r' \<in> refs s"
    "p_start_ns (peers s r) = p_start_ns (peers s r')"
  shows "r = r'"
proof -
  have "peer_ht s (p_start_ns (me s)) = None" using assms(1) by (simp add: ft_struct_def)
  then show ?thesis
    using ft_struct_live [OF assms(1,2)] ft_struct_live [OF assms(1,3)] assms(4)
    by (metis option.distinct(1) option.inject)
qed

lemma ft_struct_transfer:
  assumes "ft_struct E s" "queue_ok t" "peer_ht t = peer_ht s" "ft_free t = ft_free s"
    "\<And>r. r \<in> refs s \<Longrightarrow> p_start_ns (peers t r) = p_start_ns (peers s r)"
    "set (q_ptr t) \<subseteq> refs s" "Slot ` pool_used (ft_free s) \<subseteq> set (q_ptr t) \<union> E'"
  shows "ft_struct E' t"
proof -
  note inv = assms(1) [unfolded ft_struct_def]
  have refs: "refs t = refs s" using assms(4) by (simp add: refs_def)
  have slot: "p_start_ns (peers t (Slot i)) = p_start_ns (peers s (Slot i))"
    if "i \<in> pool_used (ft_free s)" for i using that assms(5) by (simp add: refs_def)
  have key: "p_start_ns (peers t r) = k" if "peer_ht s k = Some r" for k r
  proof -
    from that inv have "r \<in> refs s" "p_start_ns (peers s r) = k" by (auto simp: refs_def)
    with assms(5) show ?thesis by simp
  qed
  have ht: "peer_ht s (p_start_ns (peers t (Slot i))) = Some (Slot i)"
    if "i \<in> pool_used (ft_free s)" for i using that inv by (simp add: slot)
  show ?thesis unfolding ft_struct_def assms(3,4) refs
    using inv key ht assms(2,6,7) assms(5) [of Me] by simp
qed

lemma ft_struct_update:
  assumes "ft_struct E s" "p \<in> refs s"
  shows "ft_struct (E - {p}) (ftq_update p s)"
proof (rule ft_struct_transfer [OF assms(1)])
  have ok: "queue_ok s" using assms(1) by (simp add: ft_struct_def)
  from ftq_update_spec(1) [OF ok] show "queue_ok (ftq_update p s)" .
  show "set (q_ptr (ftq_update p s)) \<subseteq> refs s"
    using assms ftq_update_spec(2) [OF ok] by (auto simp: ft_struct_def)
  show "Slot ` pool_used (ft_free s) \<subseteq> set (q_ptr (ftq_update p s)) \<union> (E - {p})"
    using assms ftq_update_spec(2) [OF ok] by (auto simp: ft_struct_def)
qed (simp_all add: frame)

lemma ftq_insert_update:
  assumes "ft_struct E s" "p \<notin> set (q_ptr s)"
  shows "ftq_insert p s = ftq_update p s"
proof -
  have "queue_ok s" using assms(1) by (simp add: ft_struct_def)
  then show ?thesis using assms(2) by (simp add: ftq_update_def Let_def queue_ok_pos_iff)
qed

lemma queue_sorted_update:
  assumes "ft_struct E s" "p \<in> refs s"
    and "sorted_wrt (gt_at (peers s)) (remove1 p (q_ptr s))"
  shows "queue_sorted (ftq_update p s)"
proof -
  have ok: "queue_ok s" using assms(1) by (simp add: ft_struct_def)
  have "p_start_ns (peers s p) \<notin> (\<lambda>r. p_start_ns (peers s r)) ` set (remove1 p (q_ptr s))"
  proof
    assume "p_start_ns (peers s p) \<in> (\<lambda>r. p_start_ns (peers s r)) ` set (remove1 p (q_ptr s))"
    then obtain r where r: "r \<in> set (remove1 p (q_ptr s))"
      "p_start_ns (peers s p) = p_start_ns (peers s r)" by auto
    have d: "distinct (q_ptr s)" using ok by (simp add: queue_ok_def)
    with r have "r \<in> set (q_ptr s)" "r \<noteq> p" by (auto simp: set_remove1_eq)
    moreover from this have "r \<in> refs s" using assms(1) by (auto simp: ft_struct_def)
    ultimately show False using ft_struct_key [OF assms(1,2)] r(2) by blast
  qed
  then have "sorted_wrt (gt_at (peers s)) (ins_rank (gt_at (peers s)) p (remove1 p (q_ptr s)))"
    using assms(3) by (rule ref_rank.ins_rank_sorted [rotated])
  moreover have nop: "\<forall>r. nopos (peers (ftq_update p s) r) = nopos (peers s r)"
    by (simp add: ftq_update_nopos)
  ultimately show ?thesis
    using ftq_update_spec(4) [OF ok assms(3)]
    by (simp add: queue_sorted_def sorted_wrt_nopos [OF nop])
qed

lemma sorted_wrt_upd_other:
  "distinct xs \<Longrightarrow> sorted_wrt (gt_at st) xs \<Longrightarrow> sorted_wrt (gt_at (st(p := x))) (remove1 p xs)"
proof -
  assume d: "distinct xs" and s: "sorted_wrt (gt_at st) xs"
  have "sorted_wrt (gt_at st) (remove1 p xs)" using s by (rule sorted_wrt_remove1)
  then show ?thesis
    by (rule sorted_wrt_mono_rel [rotated]) (use d in \<open>auto simp: set_remove1_eq\<close>)
qed

lemma sorted_wrt_same_class:
  assumes "sorted_wrt (gt_at st) xs"
    and "p_weight x = p_weight (st p)" "p_start_ns x = p_start_ns (st p)"
    and "STATE_JOIN < p_state x \<longleftrightarrow> STATE_JOIN < p_state (st p)"
  shows "sorted_wrt (gt_at (st(p := x))) xs"
  using assms(1)
  by (rule sorted_wrt_mono_rel [rotated])
    (use assms(2-4) in \<open>auto simp: is_greater_iff is_greater_weight_iff\<close>)

section \<open>Changing states\<close>

lemma same_core_fields [simp]:
  fixes s :: rvft and u
  shows "same_core u (s\<lparr>state_ns := v\<rparr>) = same_core u s" "same_core u (s\<lparr>activate_ns := v\<rparr>) = same_core u s"
    "same_core u (s\<lparr>deactivate_ns := v\<rparr>) = same_core u s" "same_core u (s\<lparr>last_hb_ns := v\<rparr>) = same_core u s"
    "same_core u (s\<lparr>start_mono := v\<rparr>) = same_core u s" "same_core u (s\<lparr>last_rcv_ns := v\<rparr>) = same_core u s"
    "same_core u (s\<lparr>oldest_peer := v\<rparr>) = same_core u s" "same_core u (s\<lparr>last_warn := v\<rparr>) = same_core u s"
    "same_core u (s\<lparr>accuracy_warn := n\<rparr>) = same_core u s" "same_core u (s\<lparr>heartbeat_ms := w\<rparr>) = same_core u s"
    "same_core u (s\<lparr>activate_ms := w\<rparr>) = same_core u s" "same_core u (s\<lparr>prepare_ms := w\<rparr>) = same_core u s"
    "same_core u (s\<lparr>prepare_origin := v, prepare_expires := v'\<rparr>) = same_core u s"
    "same_core u (s\<lparr>activate_origin := v, activate_expires := v'\<rparr>) = same_core u s"
    "same_core u (s\<lparr>poll_now_ns := v, poll_mono_ns := v'\<rparr>) = same_core u s"
  by (simp_all add: same_core_def)

lemma timers_fields [simp]:
  fixes s :: rvft
  shows "timers (s\<lparr>state_ns := v\<rparr>) = timers s" "timers (s\<lparr>activate_ns := v\<rparr>) = timers s"
    "timers (s\<lparr>deactivate_ns := v\<rparr>) = timers s" "timers (s\<lparr>last_hb_ns := v\<rparr>) = timers s"
    "timers (s\<lparr>start_mono := v\<rparr>) = timers s" "timers (s\<lparr>last_rcv_ns := v\<rparr>) = timers s"
    "timers (s\<lparr>oldest_peer := v\<rparr>) = timers s" "timers (s\<lparr>last_warn := v\<rparr>) = timers s"
    "timers (s\<lparr>accuracy_warn := n\<rparr>) = timers s" "timers (s\<lparr>heartbeat_ms := w\<rparr>) = timers s"
    "timers (s\<lparr>activate_ms := w\<rparr>) = timers s" "timers (s\<lparr>prepare_ms := w\<rparr>) = timers s"
    "timers (s\<lparr>prepare_origin := v, prepare_expires := v'\<rparr>) = timers s"
    "timers (s\<lparr>activate_origin := v, activate_expires := v'\<rparr>) = timers s"
    "timers (s\<lparr>peers := st\<rparr>) = timers s" "timers (s\<lparr>peer_ht := ht\<rparr>) = timers s"
    "timers (s\<lparr>ft_free := fs\<rparr>) = timers s" "timers (s\<lparr>state_count := c\<rparr>) = timers s"
    "timers (s\<lparr>poll_now_ns := v, poll_mono_ns := v'\<rparr>) = timers s"
  by (simp_all add: timers_def timer_is_set_def)

text \<open>Setting the state of a record that exists keeps the structure and the counts.\<close>

lemma queue_ok_upd:
  "queue_ok s \<Longrightarrow> p_pos x = p_pos (peers s r) \<Longrightarrow> q_ptr t = q_ptr s \<Longrightarrow>
   peers t = (peers s)(r := x) \<Longrightarrow> queue_ok t"
  by (auto simp: queue_ok_def)

lemma same_core_struct: "same_core s t \<Longrightarrow> ft_struct E t = ft_struct E s \<and> refs t = refs s"
  by (simp add: same_core_def ft_struct_def queue_ok_def refs_def)

lemma update_state_queue_ok: "queue_ok s \<Longrightarrow> queue_ok (update_state r st s)"
  by (erule queue_ok_upd [where r = r]) simp_all

lemma update_state_struct: "ft_struct E s \<Longrightarrow> ft_struct E (update_state r st s)"
  by (rule ft_struct_transfer [where s = s])
    (auto simp: ft_struct_def update_state_queue_ok)

lemma update_state_count:
  "count_ok (peers s) (refs s) (state_count s) \<Longrightarrow> r \<in> refs s \<Longrightarrow>
   count_ok (peers (update_state r st s)) (refs s) (state_count (update_state r st s))"
  using count_ok_upd [of "refs s" r "peers s" "state_count s"
      "(peers s r)\<lparr>p_old_state := p_state (peers s r), p_state := st\<rparr>"] by simp

lemma ft_inv_update:
  assumes "ft_struct E s" "E \<subseteq> {p}" "p \<in> refs s" "count_ok (peers s) (refs s) (state_count s)"
    and "my_state s \<noteq> STATE_FINISH \<Longrightarrow> sorted_wrt (gt_at (peers s)) (remove1 p (q_ptr s))"
    and "ft_me (ftq_update p s)"
  shows "ft_inv (ftq_update p s)"
proof -
  have "ft_struct {} (ftq_update p s)" using ft_struct_update [OF assms(1,3)] assms(2)
    by (metis Diff_eq_empty_iff)
  moreover have "count_ok (peers (ftq_update p s)) (refs s) (state_count s)"
    using assms(4) count_ok_nopos [of "peers (ftq_update p s)" "peers s"]
    by (simp add: ftq_update_nopos)
  moreover have "my_state s \<noteq> STATE_FINISH \<Longrightarrow> queue_sorted (ftq_update p s)"
    using queue_sorted_update [OF assms(1,3)] assms(5) by blast
  ultimately show ?thesis using assms(6) by (simp add: ft_inv_def frame)
qed

lemma ft_inv_parts:
  assumes "ft_inv s"
  shows "ft_struct {} s" "count_ok (peers s) (refs s) (state_count s)" "ft_me s"
    "my_state s \<noteq> STATE_FINISH \<Longrightarrow> queue_sorted s" "queue_ok s" "distinct (q_ptr s)"
    "set (q_ptr s) \<subseteq> refs s"
  using assms by (simp_all add: ft_inv_def ft_struct_def queue_ok_def)

lemma queue_set:
  "ft_inv s \<Longrightarrow> set (q_ptr s) - {Me} = Slot ` pool_used (ft_free s)"
  by (auto simp: ft_inv_def ft_struct_def refs_def)

definition active_state :: "ft_state \<Rightarrow> bool" where
  "active_state st \<longleftrightarrow> st = STATE_PRIMARY \<or> st = STATE_SECONDARY"

lemma set_q_update: "ft_struct E s \<Longrightarrow> set (q_ptr (ftq_update p s)) = insert p (set (q_ptr s))"
  by (simp add: ft_struct_def ftq_update_spec(2))

lemma enter_state_inv:
  assumes inv: "ft_inv s" and grp: "in_group (my_state s)" and st: "active_state st"
  shows "ft_inv (enter_state st s)" "timers (enter_state st s) = timers s"
    "set (q_ptr (enter_state st s)) = set (q_ptr s)"
proof -
  note p = ft_inv_parts [OF inv]
  let ?u = "(update_state Me st s)\<lparr>state_ns := poll_mono_ns s\<rparr>"
  have me: "Me \<in> set (q_ptr s)" and t: "ACTION_JOIN \<notin> timers s"
    using p(3) grp by (auto simp: ft_me_def in_group_def)
  have core: "same_core (update_state Me st s) ?u" by (simp add: same_core_def)
  have u: "ft_struct {} ?u" "count_ok (peers ?u) (refs ?u) (state_count ?u)"
    using update_state_struct [OF p(1)] update_state_count [OF p(2) Me_in_refs]
      same_core_struct [OF core] by simp_all
  have sorted: "queue_sorted s" using p(4) grp by (auto simp: in_group_def)
  have st': "st \<noteq> STATE_LISTEN" "st \<noteq> STATE_FINISH" "in_group st" "STATE_JOIN < st"
    using st by (auto simp: active_state_def in_group_def less_ft_state_def)
  have "ft_inv (enter_state st s) \<and> timers (enter_state st s) = timers s \<and>
    set (q_ptr (enter_state st s)) = set (q_ptr s)"
  proof (cases "my_state s = STATE_JOIN")
    case True
    then have e: "enter_state st s = ftq_update Me ?u"
      using st by (auto simp: enter_state_def active_state_def Let_def less_ft_state_def)
    have q: "set (q_ptr (ftq_update Me ?u)) = set (q_ptr s)"
      using set_q_update [OF u(1)] me by auto
    have "sorted_wrt (gt_at (peers ?u)) (remove1 Me (q_ptr ?u))"
      using sorted_wrt_upd_other [OF p(6)] sorted by (simp add: queue_sorted_def)
    moreover have "ft_me (ftq_update Me ?u)" using q me t st' by (simp add: ft_me_def frame)
    ultimately have "ft_inv (ftq_update Me ?u)"
      using ft_inv_update [OF u(1) _ Me_in_refs u(2)] by blast
    then show ?thesis using e q by simp
  next
    case False
    then have old: "STATE_JOIN < my_state s" using grp by (auto simp: in_group_def less_ft_state_def)
    have "sorted_wrt (gt_at (peers ?u)) (q_ptr ?u)"
      using sorted_wrt_same_class [of "peers s" "q_ptr s"
          "(me s)\<lparr>p_old_state := my_state s, p_state := st\<rparr>" Me] sorted old st'
      by (simp add: queue_sorted_def)
    then have "ft_inv ?u"
      using u me t st' by (simp add: ft_inv_def ft_me_def queue_sorted_def)
    moreover have "enter_state st s = (if st \<noteq> my_state s then ?u else s)"
      using False by (simp add: enter_state_def Let_def)
    ultimately show ?thesis using inv by simp
  qed
  then show "ft_inv (enter_state st s)" "timers (enter_state st s) = timers s"
    "set (q_ptr (enter_state st s)) = set (q_ptr s)" by auto
qed

section \<open>Takeover\<close>

lemma ins_rank_head: "\<forall>x\<in>set xs. \<not> gt x p \<Longrightarrow> ins_rank gt p xs = p # xs"
  by (cases xs) auto

lemma sorted_hd_gt:
  "sorted_wrt P xs \<Longrightarrow> r \<in> set xs \<Longrightarrow> r \<noteq> hd xs \<Longrightarrow> P (hd xs) r"
  by (cases xs) auto

text \<open>A joining member that becomes primary for its weight leads the queue.\<close>

lemma enter_primary_head:
  assumes inv: "ft_inv s" and grp: "in_group (my_state s)"
    and lead: "hd (q_ptr s) = Me \<or>
      my_state s = STATE_JOIN \<and> is_greater_weight (me s) (peers s (hd (q_ptr s)))"
  shows "hd (q_ptr (enter_state STATE_PRIMARY s)) = Me"
proof (cases "my_state s = STATE_JOIN")
  case True
  note p = ft_inv_parts [OF inv]
  let ?u = "(update_state Me STATE_PRIMARY s)\<lparr>state_ns := poll_mono_ns s\<rparr>"
  have e: "enter_state STATE_PRIMARY s = ftq_update Me ?u"
    using True by (simp add: enter_state_def Let_def less_ft_state_def)
  have sorted: "sorted_wrt (gt_at (peers s)) (q_ptr s)"
    using p(4) True by (simp add: queue_sorted_def)
  have rem: "sorted_wrt (gt_at (peers ?u)) (remove1 Me (q_ptr ?u))"
    using sorted_wrt_upd_other [OF p(6) sorted] by simp
  have "\<not> gt_at (peers ?u) r Me" if r: "r \<in> set (q_ptr s)" "r \<noteq> Me" for r
  proof -
    have "r = hd (q_ptr s) \<or> gt_at (peers s) (hd (q_ptr s)) r"
      using sorted_hd_gt [OF sorted r(1)] by blast
    then have "\<not> STATE_JOIN < p_state (peers s r) \<or> is_greater_weight (me s) (peers s r)"
      using lead True r(2) by (auto simp: is_greater_iff intro: is_greater_weight_trans)
    moreover have "\<not> is_greater_weight (peers s r) (me s)"
      if "is_greater_weight (me s) (peers s r)" using that by (rule weight_rank.gt_asym)
    ultimately show ?thesis using r(2)
      by (auto simp: is_greater_iff is_greater_weight_iff less_ft_state_def)
  qed
  then have "ins_rank (gt_at (peers ?u)) Me (remove1 Me (q_ptr ?u)) = Me # remove1 Me (q_ptr ?u)"
    using p(6) by (intro ins_rank_head) (auto simp: set_remove1_eq)
  moreover have "queue_ok ?u"
    using update_state_queue_ok [OF p(5)] by (simp add: queue_ok_def)
  ultimately show ?thesis using ftq_update_spec(4) rem e by (metis list.sel(1))
next
  case False
  then show ?thesis using lead by (simp add: enter_state_def Let_def)
qed

lemma set_timer_eff:
  assumes "q_ptr s \<noteq> []"
  shows "\<exists>ori exp t. set_timer env a d o1 e1 s = Some (ori, exp, t) \<and> same_core s t \<and>
    timers t = insert a (timers s)"
proof -
  have z: "nth_opt (q_ptr s) 0 = Some (q_ptr s ! 0)" using assms by simp
  have a: "insert a (timers s) = timers s" if "timer_is_set a s"
    using that by (auto simp: timers_def)
  show ?thesis unfolding set_timer_def z
    by (simp add: Let_def a)
qed

lemma set_prepare_timer_eff:
  "q_ptr s \<noteq> [] \<Longrightarrow> \<exists>t. set_prepare_timer env s = Some t \<and> same_core s t \<and>
     timers t = insert ACTION_PREPARE (timers s)"
  using set_timer_eff [of s env ACTION_PREPARE "ucast (prepare_ms s)" "prepare_origin s"
      "prepare_expires s"]
  by (auto simp: set_prepare_timer_def)

lemma set_activate_timer_eff:
  "q_ptr s \<noteq> [] \<Longrightarrow> \<exists>t. set_activate_timer env s = Some t \<and> same_core s t \<and>
     timers t = insert ACTION_ACTIVATE (timers s)"
  using set_timer_eff [of s env ACTION_ACTIVATE "ucast (activate_ms s)" "activate_origin s"
      "activate_expires s"]
  by (auto simp: set_activate_timer_def)

lemma prepare_wait_eff:
  assumes "q_ptr s \<noteq> []"
  shows "\<exists>t. prepare_wait env a p ori s = Some t \<and> same_core s t \<and>
    timers t \<subseteq> timers s \<union> {ACTION_PREPARE, ACTION_ACTIVATE}"
proof -
  let ?n = "notify_change ACTION_PREPARE s"
  have "q_ptr ?n \<noteq> []" using assms by (simp add: frame)
  from set_activate_timer_eff [OF this, of env] obtain t
    where "set_activate_timer env ?n = Some t" "same_core s t"
      "timers t = insert ACTION_ACTIVATE (timers s)"
    using same_core_trans [of s ?n] by (metis same_core_effects(3) same_core_refl timers_notify_change)
  then show ?thesis
    using set_activate_timer_eff [OF assms, of env] set_prepare_timer_eff [OF assms, of env]
    by (auto simp: prepare_wait_def Let_def)
qed

definition lead_ok :: "rvft \<Rightarrow> bool" where
  "lead_ok s \<longleftrightarrow> (my_state s = STATE_PRIMARY \<longrightarrow> hd (q_ptr s) = Me)"

text \<open>What a state change promises: it does not fault and keeps the member queued.\<close>

definition takes_over :: "rvft option \<Rightarrow> bool" where
  "takes_over r \<longleftrightarrow>
     (case r of None \<Rightarrow> False
      | Some t \<Rightarrow> ft_inv t \<and> Me \<in> set (q_ptr t) \<and> lead_ok t)"

lemma takes_over_Some [simp]:
  "takes_over (Some t) \<longleftrightarrow> ft_inv t \<and> Me \<in> set (q_ptr t) \<and> lead_ok t"
  by (simp add: takes_over_def)

lemma takes_over_cong:
  assumes "same_core s t" "timers t \<inter> {ACTION_JOIN, ACTION_HEARTBEAT} \<subseteq> timers s"
    "takes_over (Some s)"
  shows "takes_over (Some t)"
  using assms ft_inv_cong [OF assms(1,2)] by (auto simp: same_core_def lead_ok_def)

lemma takes_over_bind:
  assumes "takes_over r"
    "\<And>t. same_core t (f t)" "\<And>t. timers (f t) \<inter> {ACTION_JOIN, ACTION_HEARTBEAT} \<subseteq> timers t"
  shows "takes_over (do { t \<leftarrow> r; Some (f t) })"
proof -
  obtain t where t: "r = Some t" using assms(1) by (cases r) (auto simp: takes_over_def)
  then have "takes_over (Some (f t))" using takes_over_cong [OF assms(2,3)] assms(1) by simp
  then show ?thesis using t by simp
qed

lemma takes_over_wait:
  assumes "takes_over (Some s)"
  shows "takes_over (prepare_wait env a p ori s)"
proof -
  have "q_ptr s \<noteq> []" using assms by auto
  from prepare_wait_eff [OF this] obtain t where t: "prepare_wait env a p ori s = Some t"
    "same_core s t" "timers t \<subseteq> timers s \<union> {ACTION_PREPARE, ACTION_ACTIVATE}" by blast
  then show ?thesis using takes_over_cong [OF t(2) _ assms] by auto
qed

lemma set_state_primary:
  assumes "ft_inv s" "in_group (my_state s)"
    and "hd (q_ptr s) = Me \<or>
      my_state s = STATE_JOIN \<and> is_greater_weight (me s) (peers s (hd (q_ptr s)))"
  shows "takes_over (set_state env STATE_PRIMARY s)"
proof -
  let ?e = "enter_state STATE_PRIMARY s"
  have "Me \<in> set (q_ptr s)" using ft_inv_parts(3) [OF assms(1)] assms(2) by (simp add: ft_me_def)
  then have "takes_over (Some ?e)"
    using enter_state_inv [OF assms(1,2), of STATE_PRIMARY] enter_primary_head [OF assms]
    by (simp add: active_state_def lead_ok_def)
  then show ?thesis
    using takes_over_cong [of ?e] by (simp add: set_state.simps Let_def)
qed

text \<open>A member behind the head of the queue only sets or cancels timers.\<close>

lemma prepare_takeover_behind:
  assumes "my_state s \<noteq> STATE_JOIN" "hd (q_ptr s) \<noteq> Me" "Me \<in> set (q_ptr s)"
  shows "\<exists>t. prepare_takeover env a d s = Some t \<and> same_core s t \<and>
    timers t \<subseteq> timers s \<union> {ACTION_PREPARE, ACTION_ACTIVATE}"
proof -
  have ne: "q_ptr s \<noteq> []" using assms(3) by auto
  then have z: "nth_opt (q_ptr s) 0 = Some (hd (q_ptr s))" by (simp add: hd_conv_nth)
  have one: "nth_opt (q_ptr s) (Suc 0) = Some (q_ptr s ! 1)"
    using assms(2,3) by (cases "q_ptr s"; cases "tl (q_ptr s)") auto
  show ?thesis
    using assms(1,2) prepare_wait_eff [OF ne] by (auto simp: prepare_takeover.simps z one Let_def)
qed

text \<open>A takeover from any state but JOIN; the member that leads the queue takes part.\<close>

lemma prepare_takeover_queued:
  assumes s: "takes_over (Some s)" and st: "my_state s \<noteq> STATE_JOIN"
    and h: "hd (q_ptr s) = Me \<Longrightarrow> in_group (my_state s)"
  shows "takes_over (prepare_takeover env a d s)"
proof -
  have ne: "q_ptr s \<noteq> []" using s by auto
  then have z: "nth_opt (q_ptr s) 0 = Some (hd (q_ptr s))" by (simp add: hd_conv_nth)
  have primary: "takes_over (set_state env STATE_PRIMARY s)" if "hd (q_ptr s) = Me"
    using set_state_primary s h that by simp
  show ?thesis
  proof (cases "hd (q_ptr s) = Me")
    case True
    then show ?thesis
      using st takes_over_bind [OF primary, of notify_update] takes_over_wait [OF s]
      by (simp add: prepare_takeover.simps z)
  next
    case False
    from prepare_takeover_behind [OF st this, of env a d] s obtain t
      where "prepare_takeover env a d s = Some t" "same_core s t"
        "timers t \<subseteq> timers s \<union> {ACTION_PREPARE, ACTION_ACTIVATE}" by auto
    then show ?thesis using takes_over_cong [OF _ _ s] by auto
  qed
qed

lemma set_state_secondary:
  assumes "ft_inv s" "in_group (my_state s)"
  shows "takes_over (set_state env STATE_SECONDARY s)"
proof -
  let ?e = "enter_state STATE_SECONDARY s"
  have "Me \<in> set (q_ptr s)" using ft_inv_parts(3) [OF assms(1)] assms(2) by (simp add: ft_me_def)
  then have e: "takes_over (Some ?e)"
    using enter_state_inv [OF assms, of STATE_SECONDARY] by (simp add: active_state_def lead_ok_def)
  define t where "t = (if my_state s \<noteq> STATE_SECONDARY
    then notify_change ACTION_DEACTIVATE
           (send_msg env DEACTIVATE [] (?e\<lparr>deactivate_ns := state_ns ?e\<rparr>)) else ?e)"
  have "same_core ?e t" "timers t = timers ?e" by (simp_all add: t_def)
  moreover from this have "my_state t = STATE_SECONDARY" by (simp add: same_core_def)
  ultimately have "takes_over (prepare_takeover env ACTION_DEACTIVATE 0 t)"
    using takes_over_cong [OF _ _ e] by (intro prepare_takeover_queued) (auto simp: in_group_def)
  then show ?thesis by (simp add: set_state.simps Let_def t_def cong: if_cong)
qed

lemma prepare_takeover_inv:
  assumes s: "takes_over (Some s)" and h: "hd (q_ptr s) = Me \<Longrightarrow> in_group (my_state s)"
  shows "takes_over (prepare_takeover env a d s)"
proof (cases "my_state s = STATE_JOIN")
  case True
  then have g: "in_group (my_state s)" by (simp add: in_group_def)
  have "q_ptr s \<noteq> []" using s by auto
  then have z: "nth_opt (q_ptr s) 0 = Some (hd (q_ptr s))" by (simp add: hd_conv_nth)
  show ?thesis
    using True takes_over_wait [OF s] set_state_primary [OF _ g] set_state_secondary [OF _ g] s
      takes_over_bind [of "set_state env STATE_PRIMARY s" notify_update]
      takes_over_bind [of "set_state env STATE_SECONDARY s" notify_update]
    by (simp add: prepare_takeover.simps z)
next
  case False
  then show ?thesis using prepare_takeover_queued s h by blast
qed

lemma set_state_join:
  assumes inv: "ft_inv s" and l: "my_state s = STATE_LISTEN" and t: "ACTION_JOIN \<notin> timers s"
  shows "takes_over (set_state env STATE_JOIN s)"
proof -
  note p = ft_inv_parts [OF inv]
  let ?u = "(update_state Me STATE_JOIN s)\<lparr>state_ns := poll_mono_ns s\<rparr>"
  have e: "enter_state STATE_JOIN s = ?u" using l by (simp add: enter_state_def Let_def)
  have core: "same_core (update_state Me STATE_JOIN s) ?u" by simp
  have u: "ft_struct {} ?u" "count_ok (peers ?u) (refs ?u) (state_count ?u)"
    using update_state_struct [OF p(1)] update_state_count [OF p(2) Me_in_refs]
      same_core_struct [OF core] by simp_all
  have n: "Me \<notin> set (q_ptr ?u)" using p(3) l by (simp add: ft_me_def)
  have i: "ftq_insert Me ?u = ftq_update Me ?u" using ftq_insert_update [OF u(1) n] .
  have "sorted_wrt (gt_at (peers ?u)) (remove1 Me (q_ptr ?u))"
    using sorted_wrt_upd_other [OF p(6)] p(4) l by (simp add: queue_sorted_def)
  moreover have q: "set (q_ptr (ftq_update Me ?u)) = insert Me (set (q_ptr s))"
    using set_q_update [OF u(1)] by simp
  moreover from q have "ft_me (ftq_update Me ?u)" using t by (simp add: ft_me_def frame)
  ultimately have "ft_inv (ftq_update Me ?u)"
    using ft_inv_update [OF u(1) _ Me_in_refs u(2)] by blast
  then have "takes_over (Some (ftq_update Me ?u))"
    using q by (simp add: lead_ok_def frame)
  then have "takes_over (Some (send_msg env ANNOUNCE [] (ftq_update Me ?u)))"
    by (rule takes_over_cong [rotated 2]) simp_all
  then have "takes_over (prepare_takeover env ACTION_JOIN 0
      (send_msg env ANNOUNCE [] (ftq_update Me ?u)))"
    by (rule prepare_takeover_inv) (simp add: frame in_group_def)
  then show ?thesis
    using takes_over_bind [of _ "notify_change ACTION_JOIN"] e i
    by (simp add: set_state.simps Let_def)
qed

end
