(* ===== verification/Ft_Steps.thy ===== *)
theory Ft_Steps
  imports Ft_Invariant
begin

text \<open>
  Every entry point of a fault tolerance member keeps the invariant and never reads outside the
  queue or past the allocator's blocks: messages of peers, timers, \<open>start\<close>, \<open>stop\<close>, \<open>activate\<close> and
  \<open>deactivate\<close>, as the steps of a relation whose reachable states satisfy the invariant.
\<close>

section \<open>Between lookup and reordering\<close>

text \<open>
  While a message of the peer \<open>p\<close> is handled, \<open>p\<close> may be unqueued or out of order; the rest of
  the queue is in order.
\<close>

definition ft_pre :: "peer_ref \<Rightarrow> rvft \<Rightarrow> bool" where
  "ft_pre p s \<longleftrightarrow> ft_struct {p} s \<and> p \<in> Slot ` pool_used (ft_free s) \<and>
     count_ok (peers s) (refs s) (state_count s) \<and> ft_me s \<and>
     (my_state s \<noteq> STATE_FINISH \<longrightarrow> sorted_wrt (gt_at (peers s)) (remove1 p (q_ptr s)))"

lemma ft_struct_mono: "ft_struct E s \<Longrightarrow> E \<subseteq> E' \<Longrightarrow> ft_struct E' s"
  by (auto simp: ft_struct_def)

lemma ft_pre_of_inv: "ft_inv s \<Longrightarrow> p \<in> Slot ` pool_used (ft_free s) \<Longrightarrow> ft_pre p s"
  by (auto simp: ft_inv_def ft_pre_def queue_sorted_def intro: ft_struct_mono sorted_wrt_remove1)

lemma ft_pre_cong:
  assumes "same_core s t" "timers t \<inter> {ACTION_JOIN, ACTION_HEARTBEAT} \<subseteq> timers s" "ft_pre p s"
  shows "ft_pre p t"
  using assms same_core_struct [OF assms(1)]
  by (auto simp: ft_pre_def same_core_def ft_me_def)

lemma ft_pre_update: "ft_pre p s \<Longrightarrow> ft_inv (ftq_update p s)"
proof -
  assume pre: "ft_pre p s"
  then have "ft_struct {p} s" by (simp add: ft_pre_def)
  moreover from this have "Me \<in> set (q_ptr (ftq_update p s)) \<longleftrightarrow> Me \<in> set (q_ptr s)"
    using pre by (auto simp: set_q_update ft_pre_def)
  then have "ft_me (ftq_update p s)" using pre by (simp add: ft_pre_def ft_me_def frame)
  ultimately show ?thesis
    using pre by (intro ft_inv_update) (auto simp: ft_pre_def refs_def)
qed

text \<open>
  A change of the record of \<open>p\<close> that keeps its identity and its place in the queue, with the
  counters adjusted.
\<close>

lemma ft_pre_change:
  assumes pre: "ft_pre p s" and x: "p_start_ns x = p_start_ns (peers s p)" "p_pos x = p_pos (peers s p)"
    and t: "peers t = (peers s)(p := x)" "q_ptr t = q_ptr s" "peer_ht t = peer_ht s"
      "ft_free t = ft_free s" "timers t = timers s"
      "state_count t = count_update (p_state (peers s p)) (p_state x) (state_count s)"
  shows "ft_pre p t"
proof -
  have q: "ft_struct {p} s" "queue_ok s" "p \<in> refs s" "p \<noteq> Me"
    using pre by (auto simp: ft_pre_def ft_struct_def refs_def)
  have refs: "refs t = refs s" using t by (simp add: refs_def)
  have "ft_struct {p} t"
    by (rule ft_struct_transfer [OF q(1)])
      (use q(1,2) x t queue_ok_upd [OF q(2) x(2)] in \<open>auto simp: ft_struct_def\<close>)
  moreover have "count_ok (peers t) (refs t) (state_count t)"
    using pre count_ok_upd [OF finite_refs q(3)] by (simp add: refs t ft_pre_def)
  moreover have "sorted_wrt (gt_at (peers t)) (remove1 p (q_ptr t))"
    if "my_state t \<noteq> STATE_FINISH"
  proof -
    have "sorted_wrt (gt_at (peers s)) (remove1 p (q_ptr s))"
      using that pre q(4) t by (simp add: ft_pre_def)
    moreover have "distinct (remove1 p (q_ptr s))" "p \<notin> set (remove1 p (q_ptr s))"
      using q(2) by (auto simp: queue_ok_def set_remove1_eq)
    ultimately show ?thesis
      using sorted_wrt_upd_other [of "remove1 p (q_ptr s)" "peers s" p x] t
      by (simp add: remove1_idem)
  qed
  ultimately show ?thesis using pre t q(4) by (auto simp: ft_pre_def ft_me_def)
qed

lemma count_update_same [simp]: "count_update st st c = c"
  by (cases st) (simp_all add: count_update_def)

lemma ft_pre_upd_peer:
  assumes "ft_pre p s" "\<And>x. p_start_ns (f x) = p_start_ns x" "\<And>x. p_pos (f x) = p_pos x"
    "\<And>x. p_state (f x) = p_state x"
  shows "ft_pre p (upd_peer p f s)"
  by (rule ft_pre_change [OF assms(1), where x = "f (peers s p)"]) (simp_all add: assms upd_peer_def)

lemma accum_latency_keeps [simp]:
  "p_start_ns (accum_latency n x) = p_start_ns x" "p_pos (accum_latency n x) = p_pos x"
  "p_state (accum_latency n x) = p_state x"
  by (simp_all add: accum_latency_def Let_def)

lemma set_from_msg_eff [simp]:
  "peers (set_from_msg r m s) =
     (peers s)(r := (peers s r)\<lparr>p_start_ns := m_start_ns m, p_weight := m_weight m,
        p_old_state := p_state (peers s r), p_state := m_state m, p_user := m_user m,
        p_sync_inbox := m_sync_inbox m\<rparr>)"
  "state_count (set_from_msg r m s) = count_update (p_state (peers s r)) (m_state m) (state_count s)"
  "q_ptr (set_from_msg r m s) = q_ptr s" "peer_ht (set_from_msg r m s) = peer_ht s"
  "ft_free (set_from_msg r m s) = ft_free s" "timers (set_from_msg r m s) = timers s"
  "last_rcv_ns (set_from_msg r m s) = last_rcv_ns s"
  by (simp_all add: set_from_msg_def peer_set_def timers_def timer_is_set_def)

lemma ft_pre_set:
  "ft_pre p s \<Longrightarrow> p_start_ns (peers s p) = m_start_ns m \<Longrightarrow> ft_pre p (set_from_msg p m s)"
  by (rule ft_pre_change [where s = s and
        x = "(peers s p)\<lparr>p_start_ns := m_start_ns m, p_weight := m_weight m,
          p_old_state := p_state (peers s p), p_state := m_state m, p_user := m_user m,
          p_sync_inbox := m_sync_inbox m\<rparr>"]) simp_all

section \<open>Dropping a peer\<close>

lemma ftq_remove_clock [simp]:
  fixes s :: rvft
  shows "activate_ms (ftq_remove p s) = activate_ms s" "poll_mono_ns (ftq_remove p s) = poll_mono_ns s"
  by (subst ftq_remove_shape, simp)+

lemma update_state_clock [simp]:
  "activate_ms (update_state p st s) = activate_ms s"
  "poll_mono_ns (update_state p st s) = poll_mono_ns s"
  by (simp_all add: update_state_def peer_update_state_def)

text \<open>Whether a peer outlived its activation time, as \<open>trim_ft_queue\<close> decides it.\<close>

definition peer_expired :: "rvft \<Rightarrow> peer_ref \<Rightarrow> bool" where
  "peer_expired s r \<longleftrightarrow> r \<noteq> Me \<and>
     expired_delta_ms (p_last_rcv_ns (peers s r)) (ucast (activate_ms s)) s \<le> 0"

lemma drop_peer_inv:
  assumes pre: "ft_pre p s" and st: "\<not> in_group st"
  shows "\<exists>t. drop_peer st p s = Some t \<and> ft_inv t \<and> q_ptr t = remove1 p (q_ptr s) \<and>
    my_state t = my_state s \<and> timers t = timers s \<and> (\<forall>r. peer_expired t r = peer_expired s r)"
proof -
  obtain i where p: "p = Slot i" "i \<in> pool_used (ft_free s)" using pre by (auto simp: ft_pre_def)
  let ?u = "update_state p st s"
  have s: "ft_struct {p} s" "queue_ok s" "pool_ok (ft_free s)"
    using pre by (auto simp: ft_pre_def ft_struct_def)
  have preu: "ft_pre p ?u" 
    by (rule ft_pre_change [OF pre,
          where x = "(peers s p)\<lparr>p_old_state := p_state (peers s p), p_state := st\<rparr>"]) simp_all
  let ?r = "ftq_remove p ?u"
  have oku: "queue_ok ?u" using preu by (simp add: ft_pre_def ft_struct_def)
  have r: "queue_ok ?r" "q_ptr ?r = remove1 p (q_ptr s)"
    using ftq_remove_spec(1,2) [OF oku, of p] by simp_all
  have ht: "peer_ht s (p_start_ns (peers s p)) = Some p"
    using s(1) p by (simp add: ft_struct_def)
  obtain fs where fs: "pool_release i (ft_free s) = Some fs"
    "pool_used fs = pool_used (ft_free s) - {i}" "pool_ok fs"
    using peer_pool.release_used [OF s(3) p(2)] by blast
  let ?t = "?r\<lparr>peer_ht := (peer_ht s)(p_start_ns (peers s p) := None), ft_free := fs\<rparr>"
  have t: "drop_peer st p s = Some ?t"
    using ht fs(1) p(1) by (simp add: drop_peer_def release_peer_def Let_def frame)
  have slots: "Slot ` pool_used fs = Slot ` pool_used (ft_free s) - {p}"
    using fs(2) p(1) by auto
  have refs: "refs s = insert p (refs ?t)" "p \<notin> refs ?t" using p fs(2) by (auto simp: refs_def)
  have start: "p_start_ns (peers ?r r) = p_start_ns (peers s r)" for r by (simp add: frame)
  have key: "r \<noteq> p \<Longrightarrow> r \<in> refs s \<Longrightarrow> p_start_ns (peers s r) \<noteq> p_start_ns (peers s p)" for r
    using ft_struct_key [OF s(1)] refs(1) by blast
  have struct: "ft_struct {} ?t"
  proof -
    have "set (q_ptr ?t) = set (q_ptr s) - {p}" using r s(2) by (simp add: queue_ok_def set_remove1_eq)
    moreover have "queue_ok ?t" using r(1) by (simp add: queue_ok_def)
    moreover have "set (q_ptr s) \<subseteq> refs s" "Slot ` pool_used (ft_free s) \<subseteq> insert p (set (q_ptr s))"
      using s(1) by (auto simp: ft_struct_def)
    moreover have "p_start_ns (peers s (Slot j)) \<noteq> p_start_ns (peers s p)" if "j \<in> pool_used fs" for j
      using that fs(2) p(1) by (intro key) (auto simp: refs_def)
    ultimately show ?thesis
      using s(1) fs(2,3) refs slots unfolding ft_struct_def by (auto simp: start)
  qed
  moreover have "count_ok (peers ?t) (refs ?t) (state_count ?t)"
  proof -
    have "count_ok (peers ?u) (insert p (refs ?t)) (state_count ?u)"
      using preu refs(1) by (simp add: ft_pre_def)
    then have "count_ok (peers ?u) (refs ?t) (state_count ?u)"
      using st by (subst (asm) count_ok_insert) auto
    then show ?thesis
      using count_ok_nopos [of "peers ?r" "peers ?u"] by (simp add: ftq_remove_nopos)
  qed
  moreover have "ft_me ?t"
    using pre p(1) r s(2) by (auto simp: ft_pre_def ft_me_def frame queue_ok_def set_remove1_eq)
  moreover have "my_state ?t \<noteq> STATE_FINISH \<longrightarrow> queue_sorted ?t"
    using preu r(2) sorted_wrt_nopos [of "peers ?r" "peers ?u"] p(1)
    by (auto simp: ft_pre_def queue_sorted_def frame ftq_remove_nopos)
  ultimately have "ft_inv ?t" by (simp add: ft_inv_def)
  moreover have "peer_expired ?t r = peer_expired s r" for r
    by (simp add: peer_expired_def expired_delta_ms_def frame)
  ultimately show ?thesis using t r(2) p(1) by (auto simp: frame)
qed

lemma slot_of_queued: "ft_inv s \<Longrightarrow> r \<in> set (q_ptr s) \<Longrightarrow> r \<noteq> Me \<Longrightarrow> r \<in> Slot ` pool_used (ft_free s)"
  using queue_set by blast

lemma remove1_nth_filter:
  assumes "distinct xs" "n < length xs"
  shows "take n (remove1 (xs ! n) xs) = take n xs" "drop n (remove1 (xs ! n) xs) = drop (Suc n) xs"
proof -
  have x: "xs = take n xs @ xs ! n # drop (Suc n) xs" using assms(2) by (rule id_take_nth_drop)
  have "xs ! n \<notin> set (take n xs)" using assms by (metis x distinct_append distinct.simps(2)
      not_distinct_conv_prefix disjoint_insert(1) list.simps(15))
  then have "remove1 (xs ! n) xs = take n xs @ drop (Suc n) xs"
    using assms by (subst x) (simp add: remove1_append)
  then show "take n (remove1 (xs ! n) xs) = take n xs"
    "drop n (remove1 (xs ! n) xs) = drop (Suc n) xs" using assms(2) by simp_all
qed

lemma trim_loop_spec:
  "ft_inv s \<Longrightarrow> n \<le> length (q_ptr s) \<Longrightarrow>
   \<exists>t. trim_loop n s = Some t \<and> ft_inv t \<and> my_state t = my_state s \<and> timers t = timers s \<and>
     q_ptr t = filter (\<lambda>r. \<not> peer_expired s r) (take n (q_ptr s)) @ drop n (q_ptr s)"
proof (induction n arbitrary: s)
  case (Suc n)
  let ?p = "q_ptr s ! n"
  have n: "nth_opt (q_ptr s) n = Some ?p" using Suc.prems(2) by simp
  have step: "trim_loop (Suc n) s =
    (if peer_expired s ?p then do { t \<leftarrow> drop_peer STATE_FINISH ?p s; trim_loop n t }
     else trim_loop n s)" by (simp add: n peer_expired_def)
  have tk: "take (Suc n) (q_ptr s) = take n (q_ptr s) @ [?p]"
    using Suc.prems(2) by (simp add: take_Suc_conv_app_nth)
  have dr: "drop n (q_ptr s) = ?p # drop (Suc n) (q_ptr s)"
    using Suc.prems(2) by (simp add: Cons_nth_drop_Suc)
  show ?case
  proof (cases "peer_expired s ?p")
    case True
    then have "?p \<in> Slot ` pool_used (ft_free s)"
      using Suc.prems by (intro slot_of_queued) (auto simp: peer_expired_def)
    from drop_peer_inv [OF ft_pre_of_inv [OF Suc.prems(1) this], of STATE_FINISH] obtain t1
      where t1: "drop_peer STATE_FINISH ?p s = Some t1" "ft_inv t1"
        "q_ptr t1 = remove1 ?p (q_ptr s)" "my_state t1 = my_state s" "timers t1 = timers s"
        "\<forall>r. peer_expired t1 r = peer_expired s r" by (auto simp: in_group_def)
    have "n \<le> length (q_ptr t1)" using t1(3) Suc.prems(2) by (simp add: length_remove1)
    from Suc.IH [OF t1(2) this] show ?thesis
      using True t1 tk remove1_nth_filter [OF ft_inv_parts(6) [OF Suc.prems(1)], of n] Suc.prems(2)
      by (simp add: step del: trim_loop.simps)
  next
    case False
    then show ?thesis using Suc.IH [OF Suc.prems(1)] Suc.prems(2) False tk dr
      by (simp add: step del: trim_loop.simps)
  qed
qed simp

lemma trim_ft_queue_spec:
  assumes "ft_inv s"
  shows "\<exists>t. trim_ft_queue s = Some t \<and> ft_inv t \<and> my_state t = my_state s \<and> timers t = timers s \<and>
    q_ptr t = filter (\<lambda>r. \<not> peer_expired s r) (q_ptr s)"
  using trim_loop_spec [OF assms, of "length (q_ptr s)"] by (simp add: trim_ft_queue_def)

lemma trim_takes_over:
  assumes "takes_over (Some s)"
  shows "\<exists>t. trim_ft_queue s = Some t \<and> takes_over (Some t) \<and> my_state t = my_state s"
proof -
  from assms trim_ft_queue_spec [of s] obtain t where t: "trim_ft_queue s = Some t" "ft_inv t"
    "my_state t = my_state s" "q_ptr t = filter (\<lambda>r. \<not> peer_expired s r) (q_ptr s)" by auto
  moreover have "hd (q_ptr t) = Me" if "hd (q_ptr s) = Me"
    using that assms t(4) by (cases "q_ptr s") (auto simp: peer_expired_def)
  ultimately show ?thesis using assms by (auto simp: lead_ok_def peer_expired_def)
qed

section \<open>The sender of a message\<close>

lemma ft_pre_new:
  assumes inv: "ft_inv s" and k: "peer_ht s k = None" "k \<noteq> p_start_ns (me s)"
    and fs: "pool_make (pool_grow (ft_free s)) = Some (i, fs)"
    and x: "p_start_ns x = k" "p_pos x = 0"
    and t: "peers t = (peers s)(Slot i := x)" "q_ptr t = q_ptr s"
      "peer_ht t = (peer_ht s)(k := Some (Slot i))" "ft_free t = fs" "timers t = timers s"
      "state_count t = count_update STATE_LISTEN (p_state x) (state_count s)"
  shows "ft_pre (Slot i) t"
proof -
  note p = ft_inv_parts [OF inv]
  have i: "i \<notin> pool_used (ft_free s)" "pool_used fs = insert i (pool_used (ft_free s))" "pool_ok fs"
    using peer_pool.make_fresh [OF _ fs] p(1) by (auto simp: ft_struct_def)
  have q: "Slot i \<notin> set (q_ptr s)" "Slot i \<notin> refs s" using p(7) i(1) by (auto simp: refs_def)
  have refs: "refs t = insert (Slot i) (refs s)" using i(2) t(4) by (auto simp: refs_def)
  have key: "p_start_ns (peers s (Slot j)) \<noteq> k" if "j \<in> pool_used (ft_free s)" for j
    using ft_struct_live [OF p(1), of "Slot j"] that k(1) by (auto simp: refs_def)
  have ok: "queue_ok t"
    by (rule queue_ok_upd [OF p(5) _ t(2,1)]) (use p(5) q(1) x(2) in \<open>simp add: queue_ok_pos_iff\<close>)
  have ht: "r \<in> Slot ` pool_used fs \<and> p_start_ns (peers t r) = h" if "peer_ht t h = Some r" for h r
  proof (cases "h = k")
    case True
    with that show ?thesis using i(2) x(1) t(1,3) by auto
  next
    case False
    with that have "peer_ht s h = Some r" using t(3) by simp
    then have "r \<in> Slot ` pool_used (ft_free s)" "p_start_ns (peers s r) = h"
      using p(1) by (simp_all add: ft_struct_def)
    moreover from this have "r \<noteq> Slot i" using i(1) by auto
    ultimately show ?thesis using i(2) t(1) by simp
  qed
  have used: "peer_ht t (p_start_ns (peers t (Slot j))) = Some (Slot j)" if "j \<in> pool_used fs" for j
  proof (cases "j = i")
    case True
    then show ?thesis using x(1) t(1,3) by simp
  next
    case False
    then have j: "j \<in> pool_used (ft_free s)" using that i(2) by simp
    then have "peer_ht s (p_start_ns (peers s (Slot j))) = Some (Slot j)"
      using p(1) by (simp add: ft_struct_def)
    then show ?thesis using False key [OF j] t(1,3) by simp
  qed
  have "set (q_ptr t) \<subseteq> refs t" using p(7) refs t(2) by auto
  moreover have "Slot ` pool_used fs \<subseteq> set (q_ptr t) \<union> {Slot i}"
    using p(1) i(2) t(2) by (auto simp: ft_struct_def)
  moreover have "peer_ht t (p_start_ns (me t)) = None"
    using p(1) k(2) t(1,3) by (simp add: ft_struct_def)
  ultimately have "ft_struct {Slot i} t"
    using ok i(3) ht used by (simp add: ft_struct_def t(4))
  moreover have "count_ok (peers t) (refs t) (state_count t)"
  proof -
    let ?z = "(peers s)(Slot i := peer_zero)"
    have "count_ok ?z (refs s) (state_count s)"
      using p(2) q(2) by (subst count_ok_cong [where st' = "peers s"]) auto
    then have "count_ok ?z (refs t) (state_count s)"
      by (simp add: refs count_ok_insert in_group_def peer_zero_def)
    from count_ok_upd [OF finite_refs _ this, of "Slot i" x] show ?thesis
      using refs t by (simp add: peer_zero_def)
  qed
  moreover have "my_state s \<noteq> STATE_FINISH \<Longrightarrow> sorted_wrt (gt_at (peers t)) (q_ptr t)"
    using sorted_wrt_upd_other [OF p(6), of "peers s" "Slot i" x] p(4) q(1) t(1,2)
    by (simp add: queue_sorted_def remove1_idem)
  moreover have "ft_me t" using p(3) t(1,2,5) by (simp add: ft_me_def)
  moreover have "my_state t = my_state s" "remove1 (Slot i) (q_ptr t) = q_ptr t"
    using q(1) t(1,2) by (simp_all add: remove1_idem)
  ultimately show ?thesis using i(2) t(4) by (simp add: ft_pre_def)
qed

text \<open>What \<open>find_sender\<close> leaves for the rest of \<open>on_peer_msg\<close>.\<close>

lemma upd_peer_eff [simp]:
  "peers (upd_peer r f s) = (peers s)(r := f (peers s r))" "q_ptr (upd_peer r f s) = q_ptr s"
  "peer_ht (upd_peer r f s) = peer_ht s" "ft_free (upd_peer r f s) = ft_free s"
  "timers (upd_peer r f s) = timers s" "state_count (upd_peer r f s) = state_count s"
  by (simp_all add: upd_peer_def)

lemma find_sender_new:
  assumes "ft_inv s" "peer_ht s (m_start_ns m) = None" "m_start_ns m \<noteq> p_start_ns (me s)"
  shows "\<exists>p t. find_sender m s = Some (Inr (p, t)) \<and> ft_pre p t \<and> p \<noteq> Me \<and>
    me t = me s \<and> q_ptr t = q_ptr s"
proof -
  have "pool_ok (ft_free s)" using ft_inv_parts(1) [OF assms(1)] by (simp add: ft_struct_def)
  then obtain i fs where fs: "pool_make (pool_grow (ft_free s)) = Some (i, fs)"
    using peer_pool.make_some by blast
  let ?ns = "sint (poll_now_ns s - m_cur_time m)"
  let ?x = "accum_latency ?ns (peer_zero\<lparr>p_start_ns := m_start_ns m, p_weight := m_weight m,
    p_old_state := p_state peer_zero, p_state := m_state m, p_user := m_user m,
    p_sync_inbox := m_sync_inbox m\<rparr>)"
  let ?u = "upd_peer (Slot i) (accum_latency ?ns)
    (set_from_msg (Slot i) m (upd_peer (Slot i) (\<lambda>_. peer_zero) (s\<lparr>ft_free := fs\<rparr>)))"
  let ?t = "?u\<lparr>peer_ht := (peer_ht ?u)(m_start_ns m := Some (Slot i))\<rparr>"
  have "find_sender m s = Some (Inr (Slot i, ?t))"
    using assms(2) fs by (simp add: find_sender_def make_peer_def Let_def)
  moreover have "ft_pre (Slot i) ?t"
    by (rule ft_pre_new [OF assms fs, where x = ?x]) (simp_all add: peer_zero_def)
  ultimately show ?thesis by fastforce
qed

lemma check_latency_eff:
  assumes "check_latency p ns s = (ok, t)"
  shows "same_core s t \<and> timers t = timers s \<or> ok \<and> t = upd_peer p (accum_latency ns) s"
  using assms by (auto simp: check_latency_def Let_def split: if_splits)

lemma find_sender_known:
  assumes inv: "ft_inv s" and ht: "peer_ht s (m_start_ns m) = Some p"
  shows "(\<exists>t. find_sender m s = Some (Inl t) \<and> same_core s t \<and> timers t = timers s) \<or>
    (\<exists>t. find_sender m s = Some (Inr (p, t)) \<and> ft_pre p t \<and> p \<noteq> Me \<and> me t = me s \<and>
      q_ptr t = q_ptr s)"
proof -
  obtain ok u where u: "check_latency p (sint (poll_now_ns s - m_cur_time m)) s = (ok, u)" by fastforce
  have p: "p \<in> Slot ` pool_used (ft_free s)" "p_start_ns (peers s p) = m_start_ns m"
    using ft_inv_parts(1) [OF inv] ht by (auto simp: ft_struct_def)
  have pre: "ft_pre p s" using ft_pre_of_inv [OF inv p(1)] .
  have "ft_pre p u \<and> p_start_ns (peers u p) = m_start_ns m \<and> me u = me s \<and> q_ptr u = q_ptr s"
    using check_latency_eff [OF u] ft_pre_cong [OF _ _ pre, of u] ft_pre_upd_peer [OF pre] p
    by (auto simp: same_core_def)
  then have "ft_pre p (set_from_msg p m u)" "me (set_from_msg p m u) = me s"
    "q_ptr (set_from_msg p m u) = q_ptr s"
    using ft_pre_set p(1) by auto
  then show ?thesis
    using u ht check_latency_eff [OF u] p(1) by (auto simp: find_sender_def Let_def)
qed

lemma check_primary_inv:
  assumes inv: "ft_inv s"
  shows "\<exists>t. check_primary env s = Some t \<and> ft_inv t \<and> lead_ok t"
proof -
  have *: "\<exists>t. r = Some t \<and> ft_inv t \<and> lead_ok t" if "takes_over r" for r
    using that by (cases r) (auto simp: takes_over_def)
  show ?thesis
  proof (cases "active_state (my_state s)")
    case True
    then have g: "in_group (my_state s)" by (auto simp: active_state_def in_group_def)
    then have "Me \<in> set (q_ptr s)" using ft_inv_parts(3) [OF inv] by (simp add: ft_me_def)
    then have ne: "q_ptr s \<noteq> []" by auto
    then have z: "nth_opt (q_ptr s) 0 = Some (hd (q_ptr s))" by (simp add: hd_conv_nth)
    show ?thesis
    proof (cases "hd (q_ptr s) = Me")
      case True
      then have "lead_ok s" by (simp add: lead_ok_def)
      with True show ?thesis
        using \<open>active_state (my_state s)\<close> * [OF set_state_primary [OF inv g], of env] inv
        by (auto simp: check_primary_def active_state_def z)
    next
      case False
      then show ?thesis
        using \<open>active_state (my_state s)\<close> * [OF set_state_secondary [OF inv g], of env]
        by (auto simp: check_primary_def active_state_def z)
    qed
  next
    case False
    then show ?thesis using inv by (auto simp: check_primary_def active_state_def lead_ok_def)
  qed
qed

section \<open>Messages\<close>

lemma timer_test_set_eff:
  "timer_test_set a s = (a \<in> timers s, timer_active a s)"
  by (simp add: timer_test_set_def timer_active_def timers_def timer_is_set_def)

lemma start_hb_eff [simp]:
  "same_core u (start_hb hb act prep s) = same_core u s"
  "timers (start_hb hb act prep s) \<subseteq> insert ACTION_HEARTBEAT (timers s)"
proof -
  obtain ch hb' act' prep' where i:
    "hb_intervals hb act prep (heartbeat_ms s, activate_ms s, prepare_ms s) = (ch, hb', act', prep')"
    by (metis prod_cases4)
  show "same_core u (start_hb hb act prep s) = same_core u s"
    by (simp add: start_hb_def Let_def i timer_test_set_eff)
  show "timers (start_hb hb act prep s) \<subseteq> insert ACTION_HEARTBEAT (timers s)"
    by (auto simp: start_hb_def Let_def i timer_test_set_eff)
qed

lemma ft_inv_start_hb:
  assumes "ft_inv s" "my_state s \<noteq> STATE_FINISH"
  shows "ft_inv (start_hb hb act prep s)"
proof -
  let ?t = "start_hb hb act prep s"
  have core: "same_core s ?t" by simp
  have t: "timers ?t \<subseteq> insert ACTION_HEARTBEAT (timers s)" by (rule start_hb_eff(2))
  have "ft_struct {} ?t" "refs ?t = refs s" using same_core_struct [OF core] assms
    by (simp_all add: ft_inv_def)
  then show ?thesis
    using core assms subsetD [OF t, of ACTION_JOIN]
    by (simp add: ft_inv_def ft_me_def same_core_def queue_sorted_def)
qed

lemma ft_inv_eff:
  assumes "ft_inv s" "same_core s t" "timers t = timers s"
  shows "ft_inv t" "lead_ok t = lead_ok s"
  using assms ft_inv_cong [of s t] by (auto simp: lead_ok_def same_core_def)

lemma ack_announce_eff [simp]:
  "same_core u (ack_announce env m s) = same_core u s" "timers (ack_announce env m s) = timers s"
  by (simp_all add: ack_announce_def)

lemma ft_inv_done:
  assumes "ft_inv s"
  shows "ft_inv (notify_update s)" "lead_ok (notify_update s) = lead_ok s"
    "ft_inv (ack_announce env m (notify_update s))"
    "lead_ok (ack_announce env m (notify_update s)) = lead_ok s"
  by (rule ft_inv_eff [OF assms]; simp)+

lemma drop_lead:
  assumes "lead_ok s" "q_ptr t = remove1 p (q_ptr s)" "my_state t = my_state s" "p \<noteq> Me"
  shows "lead_ok t"
  using assms by (cases "q_ptr s") (auto simp: lead_ok_def)

lemma takeover_on_finish:
  assumes inv: "ft_inv s" and me: "Me \<in> set (q_ptr s)" and h: "hd (q_ptr s) \<noteq> Me"
  shows "\<exists>t. prepare_takeover env ACTION_FINISH d s = Some t \<and> ft_inv t"
proof (cases "my_state s = STATE_JOIN")
  case True
  then have "takes_over (prepare_takeover env ACTION_FINISH d s)"
    using inv me h by (intro prepare_takeover_inv) (auto simp: lead_ok_def)
  then show ?thesis by (cases "prepare_takeover env ACTION_FINISH d s") (auto simp: takes_over_def)
next
  case False
  from prepare_takeover_behind [OF this h me, of env ACTION_FINISH d] obtain t
    where "prepare_takeover env ACTION_FINISH d s = Some t" "same_core s t"
      "timers t \<subseteq> timers s \<union> {ACTION_PREPARE, ACTION_ACTIVATE}" by blast
  then show ?thesis using ft_inv_cong [of s t] inv by auto
qed

lemma peer_msg_found_inv:
  assumes pre: "ft_pre p s" and p: "p \<noteq> Me"
    and me: "my_state s \<noteq> STATE_FINISH \<or> Me \<in> set (q_ptr s)"
  shows "\<exists>t. peer_msg_found env m p s = Some t \<and> ft_inv t \<and> (m_type m \<noteq> FINISH \<longrightarrow> lead_ok t)"
proof (cases "m_type m = EXITING")
  case True
  obtain u where u: "drop_peer STATE_FINISH p s = Some u" "ft_inv u"
    using drop_peer_inv [OF pre, of STATE_FINISH] by (auto simp: in_group_def)
  from check_primary_inv [OF u(2), of env] obtain v
    where "check_primary env u = Some v" "ft_inv v" "lead_ok v" by blast
  then show ?thesis using True u(1) by (auto simp: peer_msg_found_def ft_inv_done)
next
  case False
  let ?u = "ftq_update p s"
  have inv: "ft_inv ?u" by (rule ft_pre_update [OF pre])
  have st: "my_state ?u = my_state s" by (simp add: frame)
  have q: "set (q_ptr ?u) = insert p (set (q_ptr s))"
    using pre set_q_update [of "{p}" s p] by (simp add: ft_pre_def)
  show ?thesis
  proof (cases "m_type m = FINISH \<and> my_state s \<noteq> STATE_LISTEN")
    case True
    have "my_state s = STATE_LISTEN \<or> my_state s = STATE_FINISH \<or> in_group (my_state s)"
      by (cases "my_state s") (simp_all add: in_group_def)
    then have me': "Me \<in> set (q_ptr ?u)"
      using True me ft_inv_parts(3) [OF inv] q st by (auto simp: ft_me_def)
    have "q_ptr ?u \<noteq> []" using q by auto
    then have z: "nth_opt (q_ptr ?u) 0 = Some (hd (q_ptr ?u))" by (simp add: hd_conv_nth)
    show ?thesis
    proof (cases "p = hd (q_ptr ?u)")
      case True
      then obtain v where "prepare_takeover env ACTION_FINISH (m_fin_time m) ?u = Some v" "ft_inv v"
        using takeover_on_finish [OF inv me', of env "m_fin_time m"] p by auto
      then show ?thesis using \<open>m_type m = FINISH \<and> _\<close> st
        by (simp add: peer_msg_found_def Let_def z True [symmetric] ft_inv_done)
    next
      case False
      then show ?thesis using \<open>m_type m = FINISH \<and> _\<close> st inv
        by (simp add: peer_msg_found_def Let_def z ft_inv_done)
    qed
  next
    case not: False
    show ?thesis
    proof (cases "my_state s = STATE_LISTEN")
      case True
      then have "lead_ok ?u" using st by (simp add: lead_ok_def)
      with True show ?thesis using False inv st by (simp add: peer_msg_found_def ft_inv_done)
    next
      case nl: False
      from check_primary_inv [OF inv, of env] obtain v
        where "check_primary env ?u = Some v" "ft_inv v" "lead_ok v" by blast
      then show ?thesis using not nl False st by (simp add: peer_msg_found_def ft_inv_done)
    qed
  qed
qed

lemma find_sender_inv:
  assumes "ft_inv s" "m_start_ns m \<noteq> p_start_ns (me s)"
  shows "(\<exists>t. find_sender m s = Some (Inl t) \<and> same_core s t \<and> timers t = timers s) \<or>
    (\<exists>p t. find_sender m s = Some (Inr (p, t)) \<and> ft_pre p t \<and> p \<noteq> Me \<and> me t = me s \<and>
      q_ptr t = q_ptr s)"
  using find_sender_new [OF assms(1) _ assms(2)] find_sender_known [OF assms(1)]
  by (cases "peer_ht s (m_start_ns m)") (metis, metis)

lemma drop_listener_inv:
  assumes inv: "ft_inv s"
  shows "\<exists>t. (case peer_ht s k of Some p \<Rightarrow> drop_peer STATE_LISTEN p s | None \<Rightarrow> Some s) = Some t \<and>
    ft_inv t \<and> (lead_ok s \<longrightarrow> lead_ok t)"
proof (cases "peer_ht s k")
  case (Some p)
  then have p: "p \<in> Slot ` pool_used (ft_free s)" using ft_inv_parts(1) [OF inv]
    by (simp add: ft_struct_def)
  from drop_peer_inv [OF ft_pre_of_inv [OF inv p], of STATE_LISTEN] obtain t
    where t: "drop_peer STATE_LISTEN p s = Some t" "ft_inv t" "q_ptr t = remove1 p (q_ptr s)"
      "my_state t = my_state s" by (auto simp: in_group_def)
  moreover have "lead_ok s \<longrightarrow> lead_ok t" using drop_lead [OF _ t(3,4)] p by auto
  ultimately show ?thesis using Some by simp
qed (use assms in simp)

lemma adopt_intervals_inv:
  assumes "ft_inv s"
  shows "ft_inv (adopt_intervals m s)" "same_core s (adopt_intervals m s)"
proof -
  have "ft_inv (s\<lparr>oldest_peer := m_start_ns m\<rparr>)" by (rule ft_inv_eff(1) [OF assms]) simp_all
  then show "ft_inv (adopt_intervals m s)"
    using assms by (simp add: adopt_intervals_def ft_inv_start_hb)
  show "same_core s (adopt_intervals m s)" by (simp add: adopt_intervals_def)
qed

lemma on_peer_msg_inv:
  assumes inv: "ft_inv s" and m: "m_start_ns m \<noteq> p_start_ns (me s)"
    and me: "my_state s \<noteq> STATE_FINISH \<or> Me \<in> set (q_ptr s)"
  shows "\<exists>t. on_peer_msg env m s = Some t \<and> ft_inv t \<and>
    (m_type m \<noteq> FINISH \<longrightarrow> lead_ok s \<longrightarrow> lead_ok t)"
proof -
  let ?s0 = "s\<lparr>last_rcv_ns := poll_mono_ns s\<rparr>"
  define s1 where "s1 = adopt_intervals m ?s0"
  have "ft_inv ?s0" by (rule ft_inv_eff(1) [OF inv]) simp_all
  note i1 = adopt_intervals_inv [OF this, of m, folded s1_def]
  have l1: "lead_ok s1 = lead_ok s" and m1: "me s1 = me s" and q1: "q_ptr s1 = q_ptr s"
    using i1(2) by (simp_all add: same_core_def lead_ok_def)
  show ?thesis
  proof (cases "m_state m = STATE_LISTEN")
    case True
    then show ?thesis
      using drop_listener_inv [OF i1(1), of "m_start_ns m"] l1
      by (auto simp: on_peer_msg_def s1_def [symmetric] ft_inv_done split: option.splits)
  next
    case False
    from m have "m_start_ns m \<noteq> p_start_ns (me s1)" by (simp add: m1)
    from find_sender_inv [OF i1(1) this] consider
      t where "find_sender m s1 = Some (Inl t)" "same_core s1 t" "timers t = timers s1"
      | p t where "find_sender m s1 = Some (Inr (p, t))" "ft_pre p t" "p \<noteq> Me" "me t = me s1"
        "q_ptr t = q_ptr s1" by blast
    then show ?thesis
    proof cases
      case 1
      then show ?thesis using False ft_inv_eff [OF i1(1)] l1
        by (simp add: on_peer_msg_def s1_def [symmetric])
    next
      case 2
      let ?u = "upd_peer p (\<lambda>x. x\<lparr>p_last_rcv_ns := last_rcv_ns t\<rparr>) t"
      have "ft_pre p ?u" by (rule ft_pre_upd_peer [OF 2(2)]) simp_all
      moreover have "my_state ?u \<noteq> STATE_FINISH \<or> Me \<in> set (q_ptr ?u)" using me 2 m1 q1 by simp
      ultimately show ?thesis
        using peer_msg_found_inv [OF _ 2(3), of ?u env m] 2(1) False
        by (auto simp: on_peer_msg_def s1_def [symmetric])
    qed
  qed
qed

section \<open>Timers and entry points\<close>

text \<open>The promise of a handler: it does not fault and keeps the invariant and the lead.\<close>

definition keeps :: "rvft \<Rightarrow> rvft option \<Rightarrow> bool" where
  "keeps s r \<longleftrightarrow> (case r of None \<Rightarrow> False | Some t \<Rightarrow> ft_inv t \<and> (lead_ok s \<longrightarrow> lead_ok t))"

lemma keeps_Some [simp]: "keeps s (Some t) \<longleftrightarrow> ft_inv t \<and> (lead_ok s \<longrightarrow> lead_ok t)"
  by (simp add: keeps_def)

lemma keeps_ex: "keeps s r \<Longrightarrow> \<exists>t. r = Some t \<and> ft_inv t \<and> (lead_ok s \<longrightarrow> lead_ok t)"
  by (cases r) (simp_all add: keeps_def)

lemma keeps_lead: "keeps u r \<Longrightarrow> (lead_ok s \<longrightarrow> lead_ok u) \<Longrightarrow> keeps s r"
  by (cases r) (auto simp: keeps_def)

lemma keeps_takes_over: "takes_over r \<Longrightarrow> keeps s r"
  by (cases r) (simp_all add: keeps_def takes_over_def)

lemma keeps_cong:
  assumes "ft_inv s" "same_core s t" "timers t \<inter> {ACTION_JOIN, ACTION_HEARTBEAT} \<subseteq> timers s"
  shows "keeps s (Some t)"
  using ft_inv_cong [OF assms(2,3,1)] assms(2) by (auto simp: lead_ok_def same_core_def)

lemma keeps_bind:
  assumes "keeps s r" "\<And>t. ft_inv t \<Longrightarrow> (lead_ok s \<Longrightarrow> lead_ok t) \<Longrightarrow> keeps s (f t)"
  shows "keeps s (r \<bind> f)"
  using assms keeps_ex by fastforce

lemma trim_keeps: "ft_inv s \<Longrightarrow> keeps s (trim_ft_queue s)"
proof -
  assume inv: "ft_inv s"
  from trim_ft_queue_spec [OF inv] obtain t where t: "trim_ft_queue s = Some t" "ft_inv t"
    "my_state t = my_state s" "q_ptr t = filter (\<lambda>r. \<not> peer_expired s r) (q_ptr s)" by auto
  have "lead_ok t" if "lead_ok s"
    using that t(3,4) inv ft_inv_parts(3) [OF inv]
    by (cases "q_ptr s") (auto simp: lead_ok_def ft_me_def in_group_def peer_expired_def)
  then show ?thesis using t by simp
qed

text \<open>A takeover attempt of a timer, in any state that takes part.\<close>

lemma takeover_keeps:
  assumes inv: "ft_inv s" and g: "in_group (my_state s)" and l: "lead_ok s"
  shows "takes_over (prepare_takeover env a d s)"
proof -
  have "Me \<in> set (q_ptr s)" using ft_inv_parts(3) [OF inv] g by (simp add: ft_me_def)
  then show ?thesis using inv g l by (intro prepare_takeover_inv) auto
qed

lemma set_state_finish:
  assumes inv: "ft_inv s"
  shows "\<exists>t. set_state env STATE_FINISH s = Some t \<and> ft_inv t \<and> my_state t = STATE_FINISH \<and>
    timers t = timers s -
      {ACTION_HEARTBEAT, ACTION_JOIN, ACTION_ACTIVATE, ACTION_PREPARE, ACTION_FINISH}"
proof -
  note p = ft_inv_parts [OF inv]
  let ?e = "enter_state STATE_FINISH s"
  have e: "?e = (if my_state s = STATE_FINISH then s
    else (update_state Me STATE_FINISH s)\<lparr>state_ns := poll_mono_ns s\<rparr>)"
    by (auto simp: enter_state_def Let_def)
  have core: "same_core (update_state Me STATE_FINISH s)
    ((update_state Me STATE_FINISH s)\<lparr>state_ns := poll_mono_ns s\<rparr>)" by simp
  have u: "ft_struct {} ?e" "count_ok (peers ?e) (refs ?e) (state_count ?e)" "timers ?e = timers s"
    using update_state_struct [OF p(1), of Me STATE_FINISH]
      update_state_count [OF p(2) Me_in_refs, of STATE_FINISH] p(1,2) same_core_struct [OF core]
    by (simp_all add: e)
  let ?t = "finish env ?e"
  have f: "same_core ?e ?t" "timers ?t = timers s -
      {ACTION_HEARTBEAT, ACTION_JOIN, ACTION_ACTIVATE, ACTION_PREPARE, ACTION_FINISH}"
    using u(3) by (auto simp: finish_def Let_def)
  have st: "my_state ?t = STATE_FINISH" using f(1) by (simp add: same_core_def)
  have "ft_inv ?t"
    using u(1,2) f st same_core_struct [OF f(1)]
    by (simp add: ft_inv_def ft_me_def in_group_def same_core_def)
  then show ?thesis using f st by (simp add: set_state.simps Let_def)
qed

lemma keeps_finish: "ft_inv s \<Longrightarrow> keeps u (set_state env STATE_FINISH s)"
proof -
  assume "ft_inv s"
  from set_state_finish [OF this, of env] obtain t where
    t: "set_state env STATE_FINISH s = Some t" "ft_inv t" "my_state t = STATE_FINISH" by blast
  then have "lead_ok t" by (simp add: lead_ok_def)
  with t(1,2) show ?thesis by simp
qed

lemma timer_clear_inv: "ft_inv s \<Longrightarrow> ft_inv (snd (timer_clear a s))"
  by (rule ft_inv_cong [of s]) auto

lemma lead_clear [simp]: "lead_ok (snd (timer_clear a s)) = lead_ok s"
  by (simp add: lead_ok_def timer_clear_def)

lemma keeps_update: "ft_inv t \<Longrightarrow> (lead_ok s \<Longrightarrow> lead_ok t) \<Longrightarrow> keeps s (Some (notify_update t))"
  by (simp add: ft_inv_done)

lemma keeps_map:
  assumes "keeps s r" "\<And>t. same_core t (f t)" "\<And>t. timers (f t) = timers t"
  shows "keeps s (do { t \<leftarrow> r; Some (f t) })"
  using assms ft_inv_eff by (intro keeps_bind) (simp_all add: lead_ok_def same_core_def)

lemma timer_keeps_takeover:
  assumes inv: "ft_inv s"
    and st: "my_state s = STATE_SECONDARY \<or> my_state s = STATE_JOIN"
  shows "keeps s (do { t \<leftarrow> trim_ft_queue s; prepare_takeover env a 0 t })"
proof -
  from trim_ft_queue_spec [OF inv] obtain t where t: "trim_ft_queue s = Some t" "ft_inv t"
    "my_state t = my_state s" by blast
  then have "takes_over (prepare_takeover env a 0 t)"
    using st by (intro takeover_keeps) (auto simp: in_group_def lead_ok_def)
  then show ?thesis using t(1) keeps_takes_over by simp
qed

text \<open>The heartbeat of a member that takes part or listens.\<close>

lemma heartbeat_keeps:
  assumes inv: "ft_inv s" and st: "my_state s \<noteq> STATE_FINISH"
  shows "keeps s (send_alive env b s)"
proof -
  have e: "keeps s (Some (send_msg env y d s))" for y d by (rule keeps_cong [OF inv]) auto
  have "takes_over (prepare_takeover env ACTION_HEARTBEAT 0 s)"
    if "my_state s \<noteq> STATE_PRIMARY" "my_state s \<noteq> STATE_LISTEN"
  proof -
    from that st have "in_group (my_state s)" by (cases "my_state s") (auto simp: in_group_def)
    then show ?thesis using inv that by (intro takeover_keeps) (auto simp: lead_ok_def)
  qed
  then have "keeps s (do { t \<leftarrow> (if b then prepare_takeover env ACTION_HEARTBEAT 0 s else Some s);
      Some (send_msg env KEEPALIVE [] t) })"
    if "my_state s \<noteq> STATE_PRIMARY" "my_state s \<noteq> STATE_LISTEN"
    using that inv by (intro keeps_map) (auto intro: keeps_takes_over)
  then show ?thesis using e inv by (simp add: send_alive_def)
qed

lemma heartbeat_cb_keeps:
  assumes inv: "ft_inv s" and st: "my_state s \<noteq> STATE_FINISH"
  shows "keeps s (heartbeat_cb env s)"
proof -
  define i where "i = expired_delta_ms (last_hb_ns s) (ucast (heartbeat_ms s)) s"
  let ?w = "warn_accuracy i s"
  have core: "same_core s ?w" "timers ?w = timers s" by (simp_all add: warn_accuracy_def)
  note w = ft_inv_eff [OF inv core]
  have m: "my_state ?w = my_state s" using core(1) by (simp add: same_core_def)
  from trim_ft_queue_spec [OF w(1)] trim_keeps [OF w(1)] obtain t where
    t: "trim_ft_queue ?w = Some t" "ft_inv t" "my_state t = my_state s"
      "lead_ok ?w \<longrightarrow> lead_ok t" using m by auto
  obtain u where u: "(if is_accurate i then trim_ft_queue ?w else Some ?w) = Some u" "ft_inv u"
    "my_state u = my_state s" "lead_ok s \<longrightarrow> lead_ok u" using t w m by (cases "is_accurate i") auto
  have "keeps u (send_alive env (is_accurate i) u)"
    using heartbeat_keeps [OF u(2)] u(3) st by simp
  then have "keeps s (send_alive env (is_accurate i) u)" using u(4) by (rule keeps_lead)
  then have "keeps s (do { s3 \<leftarrow> send_alive env (is_accurate i) u;
      Some (notify_update (s3\<lparr>last_hb_ns := poll_mono_ns s3\<rparr>)) })"
    by (rule keeps_map) simp_all
  then show ?thesis using u(1) by (simp add: heartbeat_cb_def i_def [symmetric])
qed

definition fired :: "(bool \<times> rvft) option \<Rightarrow> rvft option" where
  "fired r = map_option snd r"

lemma fired_bind: "fired (do { t \<leftarrow> r; Some (b, f t) }) = do { t \<leftarrow> r; Some (f t) }"
  by (cases r) (simp_all add: fired_def)

lemma timer_cb_keeps:
  assumes inv: "ft_inv s" and a: "a \<in> timers s"
  shows "keeps s (fired (timer_cb env i a s))"
proof (cases "i = tid s \<and> a \<in> {ACTION_ACTIVATE, ACTION_PREPARE, ACTION_HEARTBEAT, ACTION_JOIN,
    ACTION_FINISH}")
  case False
  then show ?thesis using inv by (auto simp: timer_cb_def fired_def)
next
  case True
  let ?c = "snd (timer_clear a s)"
  have c: "ft_inv ?c" "lead_ok ?c = lead_ok s" using timer_clear_inv [OF inv] by simp_all
  have up: "keeps ?c r \<Longrightarrow> keeps s r" for r using keeps_lead [of ?c r s] by simp
  from True consider "a = ACTION_ACTIVATE \<or> a = ACTION_PREPARE" | "a = ACTION_HEARTBEAT"
    | "a = ACTION_JOIN" | "a = ACTION_FINISH" by blast
  then show ?thesis
  proof cases
    case 1
    have "keeps s (do { s2 \<leftarrow> (if b \<and> (my_state ?c = STATE_SECONDARY \<or> my_state ?c = STATE_JOIN)
        then do { t \<leftarrow> trim_ft_queue ?c; prepare_takeover env a 0 t } else Some ?c);
      Some (notify_update s2) })" for b
      using timer_keeps_takeover [OF c(1)] c by (intro keeps_map up) auto
    then show ?thesis using 1 True by (auto simp: timer_cb_def fired_bind Let_def)
  next
    case 2
    then have "my_state s \<noteq> STATE_FINISH" using ft_inv_parts(3) [OF inv] a by (simp add: ft_me_def)
    then show ?thesis
      using 2 True heartbeat_cb_keeps [OF inv] by (auto simp: timer_cb_def fired_bind)
  next
    case 3
    then have "my_state s = STATE_LISTEN" using ft_inv_parts(3) [OF inv] a by (simp add: ft_me_def)
    then have "takes_over (set_state env STATE_JOIN ?c)"
      using c 3 same_core_effects(6) [of s a s]
      by (intro set_state_join) (simp_all add: same_core_def)
    then show ?thesis using 3 True keeps_takes_over
      by (auto simp: timer_cb_def fired_bind)
  next
    case 4
    then show ?thesis using True keeps_finish [OF c(1)] by (auto simp: timer_cb_def fired_bind)
  qed
qed

lemma stop_member_keeps:
  assumes "ft_inv s"
  shows "keeps s (map_option snd (stop_member env s))"
proof (cases "finish_ms s = 0")
  case True
  from keeps_ex [OF keeps_finish [OF assms, of s env]] True show ?thesis
    by (auto simp: stop_member_def)
next
  case False
  have "keeps s (Some (snd (the (stop_member env s))))"
    by (rule keeps_cong [OF assms]) (use False in \<open>auto simp: stop_member_def timer_test_set_eff Let_def\<close>)
  then show ?thesis using False by (simp add: stop_member_def timer_test_set_eff Let_def)
qed

lemma activate_keeps:
  assumes inv: "ft_inv s"
  shows "keeps s (activate env s)"
proof (cases "my_state s = STATE_LISTEN")
  case True
  let ?c = "cancel_timer ACTION_JOIN (s\<lparr>start_mono := poll_mono_ns s\<rparr>)"
  have c: "same_core s ?c" "timers ?c = timers s - {ACTION_JOIN}" by simp_all
  then have "ft_inv ?c" using ft_inv_cong [OF c(1) _ inv] by blast
  moreover have "my_state ?c = STATE_LISTEN" using True c(1) by (simp add: same_core_def)
  ultimately have "takes_over (set_state env STATE_JOIN ?c)"
    using c(2) by (intro set_state_join) auto
  then show ?thesis using True keeps_takes_over by (simp add: activate_def)
qed (use inv in \<open>simp add: activate_def\<close>)

lemma ft_inv_listen:
  assumes "ft_struct {} s" "count_ok (peers s) (refs s) (state_count s)" "queue_sorted s"
    "my_state s = STATE_LISTEN" "Me \<notin> set (q_ptr s)"
  shows "ft_inv s"
  using assms by (simp add: ft_inv_def ft_me_def in_group_def)

text \<open>A member that leaves the group keeps the queue of its peers in order.\<close>

lemma deactivate_keeps:
  assumes inv: "ft_inv s" and st: "my_state s \<noteq> STATE_FINISH"
  shows "keeps s (deactivate env s)"
proof (cases "my_state s = STATE_LISTEN")
  case False
  note p = ft_inv_parts [OF inv]
  let ?r = "stop_timers (ftq_remove Me s)"
  let ?u = "update_state Me STATE_LISTEN ?r"
  have core: "same_core (ftq_remove Me s) ?r" by simp
  have q: "q_ptr (ftq_remove Me s) = remove1 Me (q_ptr s)" by (rule ftq_remove_spec(2) [OF p(5)])
  have qs: "set (q_ptr (ftq_remove Me s)) = set (q_ptr s) - {Me}" using p(6) q
    by (simp add: set_remove1_eq)
  have "ft_struct {} (ftq_remove Me s)"
    by (rule ft_struct_transfer [OF p(1) ftq_remove_spec(1) [OF p(5)]])
      (use p(7) queue_set [OF inv] in \<open>auto simp: frame qs\<close>)
  then have r: "ft_struct {} ?r" "refs ?r = refs s" "q_ptr ?r = remove1 Me (q_ptr s)"
    "peers ?r = peers (ftq_remove Me s)" "state_count ?r = state_count s"
    using same_core_struct [OF core] q core by (simp_all add: same_core_def)
  have "count_ok (peers ?r) (refs ?r) (state_count ?r)"
    using p(2) r count_ok_nopos [of "peers ?r" "peers s"] by (simp add: ftq_remove_nopos)
  then have "count_ok (peers ?u) (refs ?u) (state_count ?u)"
    using update_state_count [of ?r Me STATE_LISTEN] by simp
  moreover have "queue_sorted ?u"
  proof -
    have "sorted_wrt (gt_at (peers ?r)) (q_ptr ?r)"
      using ftq_remove_sorted [OF p(5) p(4) [OF st], of Me] r(3,4) q by (simp add: queue_sorted_def)
    moreover have "Me \<notin> set (q_ptr ?r)" "distinct (q_ptr ?r)" using p(6) r(3)
      by (auto simp: set_remove1_eq)
    ultimately show ?thesis
      using sorted_wrt_upd_other [of "q_ptr ?r" "peers ?r" Me] by (simp add: queue_sorted_def remove1_idem)
  qed
  moreover have "Me \<notin> set (q_ptr ?u)" using p(6) r(3) by (simp add: set_remove1_eq)
  moreover have "ft_struct {} ?u" using r(1) by (rule update_state_struct)
  ultimately have u: "ft_inv ?u" by (intro ft_inv_listen) simp_all
  let ?t = "notify_change ACTION_LISTEN (send_msg env ANNOUNCE [] (?u\<lparr>state_ns := poll_mono_ns ?r\<rparr>))"
  have "keeps ?u (Some ?t)" by (rule keeps_cong [OF u]) auto
  moreover have "my_state ?r = my_state s" using r(4) by (simp add: frame)
  then have "deactivate env s = Some ?t"
    using False by (simp add: deactivate_def set_state.simps enter_state_def Let_def less_ft_state_def)
  ultimately show ?thesis by (metis keeps_lead lead_ok_def my_state_update_state ft_state.distinct(3))
qed (use inv in \<open>simp add: deactivate_def\<close>)

lemma count_ok_alone: "\<not> in_group (p_state (st Me)) \<Longrightarrow> count_ok st {Me} count_init"
  using count_ok_insert [of "{}" st Me count_init] by (simp add: count_ok_def count_init_def)

lemma ft_struct_alone:
  "q_ptr s = [] \<Longrightarrow> ft_free s = [] \<Longrightarrow> peer_ht s = (\<lambda>_. None) \<Longrightarrow> \<forall>r. p_pos (peers s r) = 0 \<Longrightarrow>
   ft_struct {} s"
  by (simp add: ft_struct_def queue_ok_def pool_ok_def)

lemma start_member_inv:
  "\<exists>t. start_member env par now mono_t (rvft_new session control) = Some t \<and> ft_inv t \<and> lead_ok t \<and>
     my_state t = STATE_LISTEN"
proof -
  let ?n = "rvft_new session control"
  let ?s1 = "update_state Me STATE_LISTEN
    (upd_peer Me (\<lambda>_. peer_zero\<lparr>p_start_ns := now, p_weight := par_weight par\<rparr>)
      (?n\<lparr>poll_now_ns := now, poll_mono_ns := mono_t, state_count := count_init\<rparr>))"
  let ?s2 = "?s1\<lparr>tid := now, state_ns := mono_t, start_mono := mono_t,
    join_ms := par_join_ms par, heartbeat_ms := par_heartbeat_ms par,
    activate_ms := par_activate_ms par, prepare_ms := par_prepare_ms par,
    finish_ms := par_finish_ms par, inbox_num := par_inbox_num par,
    sync_inbox_num := par_sync_inbox_num par,
    sync_inbox := make_inbox (env_u32_string env) (client_session ?s1) (par_sync_inbox_num par),
    ft_sub := take 63 (par_ft_sub par), accuracy_warn := 100\<rparr>"
  let ?s3 = "upd_peer Me (\<lambda>p. p\<lparr>p_user := take 63 (par_user par)\<rparr>) ?s2"
  let ?s4 = "emit (Subscribe (ft_sub ?s3)) ?s3"
  let ?s5 = "if join_ms ?s4 \<noteq> 0 then emit (AddTimerMillis (join_ms ?s4) (tid ?s4) ACTION_JOIN)
    (timer_active ACTION_JOIN ?s4) else ?s4"
  let ?s6 = "start_hb (par_heartbeat_ms par) (par_activate_ms par) (par_prepare_ms par) ?s5"
  have c4: "q_ptr ?s3 = []" "ft_free ?s3 = []" "peer_ht ?s3 = (\<lambda>_. None)"
    "\<forall>r. p_pos (peers ?s3 r) = 0" "my_state ?s3 = STATE_LISTEN" "refs ?s3 = {Me}"
    "state_count ?s3 = count_init"
    by (simp_all add: rvft_new_def peer_zero_def refs_def count_update_def)
  have core: "same_core ?s3 ?s5" by simp
  have c5: "q_ptr ?s5 = []" "my_state ?s5 = STATE_LISTEN" using core c4 by (simp_all add: same_core_def)
  have "ft_inv ?s5"
  proof (rule ft_inv_listen)
    show "ft_struct {} ?s5" using same_core_struct [OF core] ft_struct_alone [OF c4(1-4)] by simp
    show "count_ok (peers ?s5) (refs ?s5) (state_count ?s5)"
      using same_core_struct [OF core] core c4 count_ok_alone [of "peers ?s3"]
      by (simp add: same_core_def in_group_def)
  qed (use c5 in \<open>simp_all add: queue_sorted_def\<close>)
  then have i6: "ft_inv ?s6" using c5(2) by (intro ft_inv_start_hb) simp_all
  have "same_core ?s5 ?s6" by simp
  then have st: "my_state ?s6 = STATE_LISTEN" using c5(2) by (simp add: same_core_def)
  let ?t = "notify_change ACTION_LISTEN (send_msg env ANNOUNCE [] ?s6)"
  have "keeps ?s6 (Some ?t)" by (rule keeps_cong [OF i6]) auto
  moreover have "my_state ?t = STATE_LISTEN" using st by (simp add: frame)
  moreover from this have "lead_ok ?t" by (simp add: lead_ok_def)
  moreover have "start_member env par now mono_t ?n = Some ?t"
    using st by (simp add: start_member_def set_state.simps enter_state_def Let_def)
  ultimately show ?thesis by simp
qed

section \<open>Reachable states\<close>

lemma process_pub_keeps:
  assumes inv: "ft_inv s" and me: "my_state s \<noteq> STATE_FINISH \<or> Me \<in> set (q_ptr s)"
  shows "\<exists>t. fired (process_pub env unpack get_map subject reply msg s) = Some t \<and> ft_inv t"
proof -
  have e: "ft_inv (emit OnFtSync s)" by (rule ft_inv_eff(1) [OF inv]) simp_all
  have m: "\<exists>t. fired (do { t \<leftarrow> on_peer_msg env m s; Some (True, t) }) = Some t \<and> ft_inv t"
    if "m_start_ns m \<noteq> p_start_ns (me s)" for m
    using on_peer_msg_inv [OF inv that me, of env] by (auto simp: fired_bind)
  have id: "fired (Some (c, u)) = Some u" for c u by (simp add: fired_def)
  show ?thesis
  proof (cases "unpack msg")
    case None
    then show ?thesis using inv e by (simp add: process_pub_def Let_def id)
  next
    case (Some x)
    obtain n raw where g: "get_map x reply = (n, raw)" by fastforce
    from m [of "r_msg raw\<lparr>m_type := msg_type_of (unat (r_type raw)),
        m_state := state_of (unat (r_state raw)), m_reply := reply\<rparr>"] Some g inv e
    show ?thesis by (simp add: process_pub_def Let_def id)
  qed
qed

text \<open>
  The life of a member: it starts, then messages arrive, timers that are set fire, the clock
  advances and the application activates, deactivates or stops it. Two guards say what the
  environment does: a message is not delivered to a member that finished while it was not queued
  (it has unsubscribed), and a member that finished is not deactivated. An unpacked message is
  represented by the fields it yields for a reply subject.
\<close>

inductive ft_step :: "ft_env \<Rightarrow> rvft \<Rightarrow> rvft \<Rightarrow> bool" for env :: ft_env where
  step_msg: "my_state s \<noteq> STATE_FINISH \<or> Me \<in> set (q_ptr s) \<Longrightarrow>
    process_pub env unpack (\<lambda>m. m) subject reply msg s = Some (b, t) \<Longrightarrow> ft_step env s t"
| step_timer: "a \<in> timers s \<Longrightarrow> timer_cb env i a s = Some (b, t) \<Longrightarrow> ft_step env s t"
| step_clock: "ft_step env s (s\<lparr>poll_now_ns := now, poll_mono_ns := mono_t\<rparr>)"
| step_activate: "activate env s = Some t \<Longrightarrow> ft_step env s t"
| step_deactivate: "my_state s \<noteq> STATE_FINISH \<Longrightarrow> deactivate env s = Some t \<Longrightarrow> ft_step env s t"
| step_stop: "stop_member env s = Some (n, t) \<Longrightarrow> ft_step env s t"

inductive_cases ft_stepE: "ft_step env s t"

inductive ft_reachable :: "ft_env \<Rightarrow> rvft \<Rightarrow> bool" for env :: ft_env where
  reach_start: "start_member env par now mono_t (rvft_new session control) = Some s \<Longrightarrow>
    ft_reachable env s"
| reach_step: "ft_reachable env s \<Longrightarrow> ft_step env s t \<Longrightarrow> ft_reachable env t"

lemma ft_step_inv: "ft_step env s t \<Longrightarrow> ft_inv s \<Longrightarrow> ft_inv t"
proof (induction rule: ft_step.induct)
  case (step_msg s unpack subject reply msg b t)
  then show ?case using process_pub_keeps [of s env unpack "\<lambda>m. m" subject reply msg] by (simp add: fired_def)
next
  case (step_timer a s i b t)
  then show ?case using timer_cb_keeps [of s a env i] by (simp add: fired_def)
next
  case (step_clock s now mono_t)
  show ?case by (rule ft_inv_eff(1) [OF step_clock]) simp_all
next
  case (step_activate s t)
  then show ?case using activate_keeps [of s env] by simp
next
  case (step_deactivate s t)
  then show ?case using deactivate_keeps [of s env] by simp
next
  case (step_stop s n t)
  then show ?case using stop_member_keeps [of s env] by simp
qed

lemma ft_reachable_inv: "ft_reachable env s \<Longrightarrow> ft_inv s"
proof (induction rule: ft_reachable.induct)
  case (reach_start par now mono_t session control s)
  then show ?case using start_member_inv [of env par now mono_t session control] by auto
qed (rule ft_step_inv)

end
