(* ===== verification/Ft_Properties.thy ===== *)
theory Ft_Properties
  imports Ft_Steps
begin

text \<open>
  What the fault tolerance protocol promises, stated over the model of the member and of its data
  structures: the invariant of reachable states, that no handler faults, that members with the
  same view agree on the order and on the primary, that expired peers are trimmed and that the
  head of the queue takes over, and the arithmetic of intervals, latencies and finish times.
\<close>

section \<open>The lead\<close>

text \<open>A primary outranks every peer it knows.\<close>

definition leads :: "rvft \<Rightarrow> bool" where
  "leads s \<longleftrightarrow> (my_state s = STATE_PRIMARY \<longrightarrow>
     (\<forall>r \<in> set (q_ptr s) - {Me}. is_greater (me s) (peers s r)))"

lemma leads_iff: "ft_inv s \<Longrightarrow> leads s = lead_ok s"
proof -
  assume inv: "ft_inv s"
  note p = ft_inv_parts [OF inv]
  show ?thesis
  proof (cases "my_state s = STATE_PRIMARY")
    case True
    then have sorted: "sorted_wrt (gt_at (peers s)) (q_ptr s)" and me: "Me \<in> set (q_ptr s)"
      using p(3,4) by (simp_all add: queue_sorted_def ft_me_def in_group_def)
    have "is_greater (me s) (peers s r)" if "hd (q_ptr s) = Me" "r \<in> set (q_ptr s)" "r \<noteq> Me" for r
      using sorted_hd_gt [OF sorted that(2)] that by simp
    moreover have "hd (q_ptr s) = Me" if "\<forall>r \<in> set (q_ptr s) - {Me}. is_greater (me s) (peers s r)"
    proof (rule ccontr)
      assume h: "hd (q_ptr s) \<noteq> Me"
      moreover have "hd (q_ptr s) \<in> set (q_ptr s)" using me by (metis hd_in_set empty_iff list.set(1))
      ultimately have "is_greater (me s) (peers s (hd (q_ptr s)))" using that by blast
      moreover have "is_greater (peers s (hd (q_ptr s))) (me s)"
        using sorted_hd_gt [OF sorted me] h by auto
      ultimately show False using peer_rank.gt_asym by blast
    qed
    ultimately show ?thesis using True by (auto simp: leads_def lead_ok_def)
  qed (simp add: leads_def lead_ok_def)
qed

lemma keeps_leads: "ft_inv s \<Longrightarrow> keeps s r \<Longrightarrow> leads s \<Longrightarrow> r = Some t \<Longrightarrow> leads t"
  by (simp add: leads_iff)

section \<open>Views\<close>

text \<open>What members tell each other of a peer, as far as the rank depends on it.\<close>

type_synonym rank_key = "bool \<times> u64 \<times> u64"

definition peer_key :: "ft_peer \<Rightarrow> rank_key" where
  "peer_key p = (STATE_JOIN < p_state p, p_weight p, p_start_ns p)"

definition key_gt :: "rank_key \<Rightarrow> rank_key \<Rightarrow> bool" where
  "key_gt = (\<lambda>(a, w, n) (a', w', n'). (a \<and> \<not> a') \<or> (a = a' \<and> (w > w' \<or> w = w' \<and> n < n')))"

definition view :: "rvft \<Rightarrow> rank_key list" where
  "view s = map (\<lambda>r. peer_key (peers s r)) (q_ptr s)"

lemma key_gt_peer: "key_gt (peer_key p) (peer_key q) = is_greater p q"
  by (auto simp: key_gt_def peer_key_def is_greater_iff is_greater_weight_iff)

interpretation key_rank: ranking key_gt "\<lambda>k. k"
  by unfold_locales (auto simp: key_gt_def)

lemma view_sorted: "queue_sorted s \<Longrightarrow> sorted_wrt key_gt (view s)"
  by (simp add: view_def sorted_wrt_map key_gt_peer queue_sorted_def)

lemma view_unique:
  assumes "ft_inv s" "ft_inv t" "my_state s \<noteq> STATE_FINISH" "my_state t \<noteq> STATE_FINISH"
    "set (view s) = set (view t)"
  shows "view s = view t"
  using assms ft_inv_parts(4) by (intro key_rank.sorted_unique view_sorted) auto


section \<open>A member for the witnesses\<close>

definition ex_env :: ft_env where
  "ex_env = \<lparr>max_timer_range = 60000000, env_u32_string = (\<lambda>_. ''10''), env_string_u64 = (\<lambda>_. 0)\<rparr>"

definition ex_start :: "rvft option" where
  "ex_start = start_member ex_env ft_parameters_default 5000 9000 (rvft_new ''AB.1'' ''_INBOX.AB.1'')"

definition ex_join :: "rvft option" where
  "ex_join = do { s \<leftarrow> ex_start; activate ex_env s }"

text \<open>The joined member when its activation time of seven seconds is over.\<close>

definition ex_late :: "rvft option" where
  "ex_late = do { s \<leftarrow> ex_join; Some (s\<lparr>poll_now_ns := 7000005000, poll_mono_ns := 7000009000\<rparr>) }"


definition ex_msg :: ft_peer_msg where
  "ex_msg = \<lparr>m_type = HEARTBEAT, m_state = STATE_PRIMARY, m_member_cnt = 1, m_hb_ival = 1000,
     m_act_ival = 3000, m_prep_ival = 2000, m_start_ns = 4000, m_weight = 30, m_cur_time = 4990,
     m_fin_time = 0, m_reply = [], m_user = ''peer'', m_sync_inbox = []\<rparr>"

lemma ex_start_reachable: "\<exists>s. ex_start = Some s \<and> ft_reachable ex_env s"
  unfolding ex_start_def using start_member_inv reach_start by blast

lemma ex_join_reachable: "\<exists>s. ex_join = Some s \<and> ft_reachable ex_env s"
proof -
  obtain s where s: "ex_start = Some s" "ft_reachable ex_env s" using ex_start_reachable by blast
  then obtain t where t: "activate ex_env s = Some t"
    using keeps_ex [OF activate_keeps [OF ft_reachable_inv]] by blast
  then have "ex_join = Some t" by (simp add: ex_join_def s(1))
  then show ?thesis using reach_step [OF s(2) step_activate [OF t]] by blast
qed

lemma ex_join_facts:
  obtains s where "ex_join = Some s" "ft_reachable ex_env s" "my_state s = STATE_JOIN"
    "q_ptr s = [Me]" "p_start_ns (me s) = 5000"
proof -
  obtain s where s: "ex_join = Some s" "ft_reachable ex_env s" using ex_join_reachable by blast
  have "map_option (\<lambda>s. (my_state s, q_ptr s, p_start_ns (me s))) ex_join =
    Some (STATE_JOIN, [Me], 5000)" by code_simp
  then show ?thesis using that [OF s] unfolding s(1) by simp
qed

lemma ex_late_facts:
  obtains s where "ex_late = Some s" "ft_reachable ex_env s" "my_state s = STATE_JOIN"
    "q_ptr s = [Me]" "expired_delta_ms (start_mono s) (ucast (activate_ms s)) s = 0"
proof -
  obtain j where j: "ex_join = Some j" "ft_reachable ex_env j" using ex_join_reachable by blast
  have "ex_late = Some (j\<lparr>poll_now_ns := 7000005000, poll_mono_ns := 7000009000\<rparr>)"
    by (simp add: ex_late_def j(1))
  then obtain s where s: "ex_late = Some s" "ft_reachable ex_env s"
    using reach_step [OF j(2) step_clock] by blast
  have "map_option (\<lambda>s. (my_state s, q_ptr s,
      expired_delta_ms (start_mono s) (ucast (activate_ms s)) s)) ex_late =
    Some (STATE_JOIN, [Me], 0)" by code_simp
  then show ?thesis using that [OF s] unfolding s(1) by simp
qed



section \<open>Properties\<close>

text \<open>
  C1: In every state that a fault tolerance member reaches, the queue is consistent: no peer is
  queued twice and every peer knows its position, the queue is in rank order until the member
  finishes, it holds exactly the allocated peers besides the member itself, the index by start
  time holds exactly the allocated peers, and the member is queued while it takes part and not
  while it listens.
\<close>

theorem ft_reachable_consistent:
  assumes "ft_reachable env s"
  shows "queue_ok s \<and> (my_state s \<noteq> STATE_FINISH \<longrightarrow> queue_sorted s) \<and>
    set (q_ptr s) - {Me} = Slot ` pool_used (ft_free s) \<and>
    (\<forall>k r. peer_ht s k = Some r \<longleftrightarrow>
       r \<in> Slot ` pool_used (ft_free s) \<and> p_start_ns (peers s r) = k) \<and>
    (in_group (my_state s) \<longrightarrow> Me \<in> set (q_ptr s)) \<and>
    (my_state s = STATE_LISTEN \<longrightarrow> Me \<notin> set (q_ptr s))"
proof -
  have inv: "ft_inv s" using assms by (rule ft_reachable_inv)
  note p = ft_inv_parts [OF inv]
  have "peer_ht s k = Some r \<longleftrightarrow> r \<in> Slot ` pool_used (ft_free s) \<and> p_start_ns (peers s r) = k" for k r
    using p(1) unfolding ft_struct_def by blast
  then show ?thesis using p(3,4,5) queue_set [OF inv] by (simp add: ft_me_def)
qed

theorem ft_reachable_consistent_witness:
  "\<exists>s. ex_join = Some s \<and> ft_reachable ex_env s \<and> queue_ok s \<and> Me \<in> set (q_ptr s)"
proof -
  obtain s where s: "ex_join = Some s" "ft_reachable ex_env s" "my_state s = STATE_JOIN"
    by (rule ex_join_facts)
  then show ?thesis using ft_reachable_consistent [OF s(2)] by (auto simp: in_group_def)
qed



text \<open>
  C20: In a reachable state the counters of joining, primary and secondary members are the numbers
  of existing peer records in those states, the member's own included.
\<close>

theorem ft_state_count_exact:
  assumes "ft_reachable env s"
  shows "c_join (state_count s) = of_nat (card {r \<in> refs s. p_state (peers s r) = STATE_JOIN}) \<and>
    c_primary (state_count s) = of_nat (card {r \<in> refs s. p_state (peers s r) = STATE_PRIMARY}) \<and>
    c_secondary (state_count s) = of_nat (card {r \<in> refs s. p_state (peers s r) = STATE_SECONDARY})"
  using ft_inv_parts(2) [OF ft_reachable_inv [OF assms]] by (simp add: count_ok_def)

theorem ft_state_count_exact_witness:
  "\<exists>s. ex_join = Some s \<and> ft_reachable ex_env s \<and>
     c_join (state_count s) = of_nat (card {r \<in> refs s. p_state (peers s r) = STATE_JOIN})"
  using ex_join_reachable ft_state_count_exact by blast

text \<open>
  C6: The primary leads: if a reachable primary outranks every peer it knows, then this still
  holds after any handler but a message of type FINISH, the member being demoted when a peer
  that outranks it appears.
\<close>

theorem ft_primary_leads:
  assumes "ft_reachable env s" "leads s"
  shows "(m_start_ns m \<noteq> p_start_ns (me s) \<and> m_type m \<noteq> FINISH \<and>
      (my_state s \<noteq> STATE_FINISH \<or> Me \<in> set (q_ptr s)) \<longrightarrow>
      (\<exists>t. on_peer_msg env m s = Some t \<and> leads t)) \<and>
    (a \<in> timers s \<longrightarrow> (\<exists>b t. timer_cb env i a s = Some (b, t) \<and> leads t)) \<and>
    (\<exists>t. activate env s = Some t \<and> leads t) \<and>
    (my_state s \<noteq> STATE_FINISH \<longrightarrow> (\<exists>t. deactivate env s = Some t \<and> leads t)) \<and>
    (\<exists>n t. stop_member env s = Some (n, t) \<and> leads t)"
proof -
  have inv: "ft_inv s" using assms(1) by (rule ft_reachable_inv)
  then have l: "lead_ok s" using assms(2) leads_iff by blast
  have ex: "\<exists>t. r = Some t \<and> leads t" if "keeps s r" for r
    using keeps_ex [OF that] l leads_iff by blast
  have msg: "\<exists>t. on_peer_msg env m s = Some t \<and> leads t"
    if "m_start_ns m \<noteq> p_start_ns (me s)" "m_type m \<noteq> FINISH"
      "my_state s \<noteq> STATE_FINISH \<or> Me \<in> set (q_ptr s)"
    using on_peer_msg_inv [OF inv that(1,3), of env] that(2) l leads_iff by blast
  have timer: "\<exists>b t. timer_cb env i a s = Some (b, t) \<and> leads t" if "a \<in> timers s"
    using ex [OF timer_cb_keeps [OF inv that, of env i]] by (auto simp: fired_def)
  have stop: "\<exists>n t. stop_member env s = Some (n, t) \<and> leads t"
    using ex [OF stop_member_keeps [OF inv, of env]] by auto
  show ?thesis
    using msg timer stop ex [OF activate_keeps [OF inv]] ex [OF deactivate_keeps [OF inv]] by blast
qed

theorem ft_primary_leads_witness:
  "\<exists>s t. ex_join = Some s \<and> on_peer_msg ex_env ex_msg s = Some t \<and> leads t"
proof -
  obtain s where s: "ex_join = Some s" "ft_reachable ex_env s" "my_state s = STATE_JOIN"
    "p_start_ns (me s) = 5000" by (rule ex_join_facts)
  then have "m_start_ns ex_msg \<noteq> p_start_ns (me s)" by (simp add: ex_msg_def)
  moreover have "leads s" using s(3) by (simp add: leads_def)
  ultimately show ?thesis
    using ft_primary_leads [OF s(2), where m = ex_msg] s(1,3) by (auto simp: ex_msg_def)
qed

text \<open>
  C18: Agreement on the order: two members that have not finished and know the same peers (their
  weights, start times and whether they are past joining, themselves included) rank them in the
  same order.
\<close>

theorem ft_order_agreement:
  assumes "ft_reachable env s" "ft_reachable env' t"
    and "my_state s \<noteq> STATE_FINISH" "my_state t \<noteq> STATE_FINISH"
    and "set (view s) = set (view t)"
  shows "view s = view t"
  using view_unique ft_reachable_inv assms by blast

theorem ft_order_agreement_witness:
  "\<exists>s t. ex_join = Some s \<and> ex_late = Some t \<and> view s = view t"
proof -
  obtain s where s: "ex_join = Some s" "ft_reachable ex_env s" "my_state s = STATE_JOIN"
    by (rule ex_join_facts)
  obtain t where t: "ex_late = Some t" "ft_reachable ex_env t" "my_state t = STATE_JOIN"
    by (rule ex_late_facts)
  have "t = s\<lparr>poll_now_ns := 7000005000, poll_mono_ns := 7000009000\<rparr>"
    using t(1) by (simp add: ex_late_def s(1))
  then have "set (view s) = set (view t)" by (simp add: view_def)
  then show ?thesis using ft_order_agreement [OF s(2) t(2)] s(1,3) t(1,3) by auto
qed


lemma out_emit [simp]: "out (emit e s) = out s @ [e]"
  by (simp add: emit_def)

lemma out_notify_update: "\<exists>es. out (notify_update s) = out s @ es"
  by (simp add: notify_update_def)

lemma primary_out:
  "\<exists>t w. set_state env STATE_PRIMARY s = Some t \<and> my_state t = STATE_PRIMARY \<and>
     Publish w \<in> set (out t) \<and> w_type w = ACTIVATE \<and> w_state w = STATE_PRIMARY"
  by (auto simp: set_state.simps Let_def frame send_msg_def [of _ ACTIVATE] intro!: exI disjI1)


text \<open>
  C17: Takeover: a member in the group that is first in the queue and whose activation time is over
  becomes primary, stays first, and announces its activation.
\<close>

theorem ft_head_takes_over:
  assumes "ft_reachable env s" "in_group (my_state s)" "hd (q_ptr s) = Me"
    and "expired_delta_ms (start_mono s) (ucast (activate_ms s)) s \<le> 0"
  shows "\<exists>t w. prepare_takeover env a d s = Some t \<and> my_state t = STATE_PRIMARY \<and>
    hd (q_ptr t) = Me \<and> leads t \<and>
    Publish w \<in> set (out t) \<and> w_type w = ACTIVATE \<and> w_state w = STATE_PRIMARY"
proof -
  have inv: "ft_inv s" using assms(1) by (rule ft_reachable_inv)
  have "Me \<in> set (q_ptr s)" using ft_inv_parts(3) [OF inv] assms(2) by (simp add: ft_me_def)
  then have "q_ptr s \<noteq> []" by auto
  then have z: "nth_opt (q_ptr s) 0 = Some Me" using assms(3) by (simp add: hd_conv_nth)
  obtain t w where t: "set_state env STATE_PRIMARY s = Some t" "my_state t = STATE_PRIMARY"
    "Publish w \<in> set (out t)" "w_type w = ACTIVATE" "w_state w = STATE_PRIMARY"
    using primary_out by blast
  have i: "ft_inv t" "lead_ok t"
    using set_state_primary [OF inv assms(2), of env] assms(3) t(1) by simp_all
  let ?u = "notify_update t"
  have "prepare_takeover env a d s = Some ?u"
    using t(1) assms(4) by (simp add: prepare_takeover.simps z)
  moreover have "same_core t ?u" by simp
  then have "my_state ?u = STATE_PRIMARY" using t(2) by (simp add: same_core_def)
  moreover have "ft_inv ?u" "lead_ok ?u" using ft_inv_done(1,2) [OF i(1)] i(2) by simp_all
  moreover from this have "hd (q_ptr ?u) = Me" using \<open>my_state ?u = STATE_PRIMARY\<close> by (simp add: lead_ok_def)
  moreover have "Publish w \<in> set (out ?u)" using t(3) out_notify_update [of t] by auto
  ultimately show ?thesis using t(4,5) leads_iff by blast
qed

theorem ft_head_takes_over_witness:
  "\<exists>s t. ex_late = Some s \<and> prepare_takeover ex_env ACTION_ACTIVATE 0 s = Some t \<and>
     my_state t = STATE_PRIMARY \<and> leads t"
proof -
  obtain s where s: "ex_late = Some s" "ft_reachable ex_env s" "my_state s = STATE_JOIN"
    "q_ptr s = [Me]" "expired_delta_ms (start_mono s) (ucast (activate_ms s)) s = 0"
    by (rule ex_late_facts)
  then show ?thesis
    using ft_head_takes_over [OF s(2), of ACTION_ACTIVATE 0] by (simp add: in_group_def)
      (metis dual_order.refl)
qed

text \<open>
  C29: Trimming removes exactly the peers that were silent for the activation time, and keeps the
  order of the others and the member itself.
\<close>

theorem ft_trim_exact:
  assumes "ft_reachable env s"
  shows "\<exists>t. trim_ft_queue s = Some t \<and>
    q_ptr t = filter (\<lambda>r. r = Me \<or>
      expired_delta_ms (p_last_rcv_ns (peers s r)) (ucast (activate_ms s)) s > 0) (q_ptr s) \<and>
    Slot ` pool_used (ft_free t) = set (q_ptr t) - {Me} \<and> my_state t = my_state s"
proof -
  from trim_ft_queue_spec [OF ft_reachable_inv [OF assms]] obtain t where
    t: "trim_ft_queue s = Some t" "ft_inv t" "my_state t = my_state s"
      "q_ptr t = filter (\<lambda>r. \<not> peer_expired s r) (q_ptr s)" by blast
  have "(\<not> peer_expired s r) = (r = Me \<or>
      expired_delta_ms (p_last_rcv_ns (peers s r)) (ucast (activate_ms s)) s > 0)" for r
    by (auto simp: peer_expired_def)
  then show ?thesis using t queue_set [OF t(2)] by simp
qed

theorem ft_trim_exact_witness:
  "\<exists>s t. ex_late = Some s \<and> trim_ft_queue s = Some t \<and> q_ptr t = [Me]"
proof -
  obtain s where s: "ex_late = Some s" "ft_reachable ex_env s" "q_ptr s = [Me]" by (rule ex_late_facts)
  then show ?thesis using ft_trim_exact [OF s(2)] by auto
qed

text \<open>
  C30: The in-place array operations of the ranked queue refine list operations: on a consistent
  queue, an update moves or inserts the peer to its rank among the others, a removal deletes it,
  and both leave every queued peer with its position and every other record untouched but for it.
\<close>

theorem ftq_operations_refine:
  fixes m :: "'a ft_mem_scheme"
  assumes "queue_ok m" "sorted_wrt (gt_at (peers m)) (remove1 p (q_ptr m))"
  shows "q_ptr (ftq_update p m) = ins_rank (gt_at (peers m)) p (remove1 p (q_ptr m)) \<and>
    queue_ok (ftq_update p m) \<and> (\<forall>r. nopos (peers (ftq_update p m) r) = nopos (peers m r)) \<and>
    q_ptr (ftq_remove p m) = remove1 p (q_ptr m) \<and>
    queue_ok (ftq_remove p m) \<and> (\<forall>r. nopos (peers (ftq_remove p m) r) = nopos (peers m r))"
  using ftq_update_spec [OF assms(1), of p] ftq_remove_spec [OF assms(1), of p] assms(2) by blast

definition ex_mem :: ft_mem where
  "ex_mem = \<lparr>peers = (\<lambda>r. case r of Me \<Rightarrow> peer_zero\<lparr>p_start_ns := 1, p_pos := 1\<rparr>
       | Slot i \<Rightarrow> peer_zero\<lparr>p_start_ns := 2, p_weight := 5\<rparr>), q_ptr = [Me], q_seqno = 0\<rparr>"

theorem ftq_operations_refine_witness:
  "q_ptr (ftq_update (Slot 0) ex_mem) = [Slot 0, Me]"
proof -
  have "queue_ok ex_mem"
    by (auto simp: queue_ok_def ex_mem_def peer_zero_def split: peer_ref.split)
  moreover have "sorted_wrt (gt_at (peers ex_mem)) (remove1 (Slot 0) (q_ptr ex_mem))"
    by (simp add: ex_mem_def)
  ultimately have "q_ptr (ftq_update (Slot 0) ex_mem) =
      ins_rank (gt_at (peers ex_mem)) (Slot 0) (remove1 (Slot 0) (q_ptr ex_mem))"
    using ftq_operations_refine by blast
  also have "\<dots> = [Slot 0, Me]"
    by (simp add: ex_mem_def is_greater_iff is_greater_weight_iff peer_zero_def)
  finally show ?thesis .
qed

text \<open>
  The slot allocator never hands out a slot in use: two peers made after each other have
  different slots, a new slot was free before, and releasing it gives back the slots of before.
\<close>

lemma ft_slots_fresh:
  assumes "pool_ok fs" "pool_make (pool_grow fs) = Some (i, fs1)"
  shows "i \<notin> pool_used fs \<and> pool_used fs1 = insert i (pool_used fs) \<and>
    (\<exists>j fs2. pool_make (pool_grow fs1) = Some (j, fs2) \<and> j \<noteq> i) \<and>
    (\<exists>fs2. pool_release i fs1 = Some fs2 \<and> pool_used fs2 = pool_used fs \<and> pool_ok fs2)"
proof -
  have i: "i \<notin> pool_used fs" "pool_used fs1 = insert i (pool_used fs)" "pool_ok fs1"
    using peer_pool.make_fresh [OF assms] by auto
  obtain j fs2 where j: "pool_make (pool_grow fs1) = Some (j, fs2)"
    using peer_pool.make_some [OF i(3)] by blast
  with peer_pool.make_make_distinct [OF assms] have "j \<noteq> i" by auto
  moreover obtain fs3 where "pool_release i fs1 = Some fs3" "pool_used fs3 = pool_used fs" "pool_ok fs3"
    by (rule peer_pool.make_release_used [OF assms])
  ultimately show ?thesis using i j by blast
qed

lemma ft_slots_fresh_example:
  "\<exists>fs1. pool_make (pool_grow [(0, 0xffff)]) = Some (16, fs1) \<and> 16 \<notin> pool_used [(0, 0xffff)]"
proof -
  have ok: "pool_ok [(0, 0xffff)]" by (simp add: pool_ok_def)
  have m: "pool_make (pool_grow [(0, 0xffff)]) = Some (16, [(1, 1), (0, 0xffff)])" by code_simp
  show ?thesis using ft_slots_fresh [OF ok m] m by blast
qed

lemma hb_below_act: "hb * 2 + hb div 10 > hb" if "hb \<noteq> 0" "hb < 2 ^ 30" for hb :: u32
proof -
  have h: "0 < unat hb" "unat hb < 2 ^ 30" using that unat_gt_0 by (auto simp: word_less_nat_alt)
  then have "unat (hb * 2 + hb div 10) = unat hb * 2 + unat hb div 10"
    by (simp add: unat_word_ariths unat_div)
  then show ?thesis using h by (simp add: word_less_nat_alt)
qed

lemma mid_between: "hb \<le> (hb + act) div 2 \<and> (hb + act) div 2 < act"
  if "hb < act" "hb < 2 ^ 30" "act < 2 ^ 31" for hb act :: u32
proof -
  have "unat hb < unat act" "unat hb < 2 ^ 30" "unat act < 2 ^ 31"
    using that by (auto simp: word_less_nat_alt)
  moreover from this have "unat ((hb + act) div 2) = (unat hb + unat act) div 2"
    by (simp add: unat_word_ariths unat_div)
  ultimately show ?thesis unfolding word_less_nat_alt word_le_nat_alt by simp arith
qed

text \<open>
  Whatever intervals a peer proposes, the intervals that the member settles on are in order:
  the heartbeat is below the activation time and a prepare time, if any, lies between them,
  provided the heartbeat is not zero and is below 2^30 ms and the activation time below 2^31 ms.
\<close>

lemma hb_intervals_ordered:
  assumes "hb_intervals hb_ival act_ival prep_ival (hb0, act0, prep0) = (ch, hb, act, prep)"
    and "hb \<noteq> 0" "hb < 2 ^ 30" "act < 2 ^ 31"
  shows "hb < act \<and> (prep = 0 \<or> hb \<le> prep \<and> prep < act)"
  using assms hb_below_act [OF assms(2,3)] mid_between [OF _ assms(3,4)]
  by (fastforce simp: hb_intervals_def Let_def not_le split: if_splits)

lemma hb_intervals_ordered_witness:
  "\<exists>act prep. hb_intervals 5000 0 0 (3000, 4000, 3500) = (True, 5000, act, prep) \<and>
     5000 < act \<and> (prep = 0 \<or> 5000 \<le> prep \<and> prep < act)"
proof -
  have "hb_intervals 5000 0 0 (3000, 4000, 3500) = (True, 5000, 10500, 7750)" by code_simp
  from hb_intervals_ordered [OF this] this show ?thesis by simp
qed

section \<open>Latency and finish time\<close>

lemma accum_latency_run:
  assumes "n \<le> 255" "\<bar>lat\<bar> \<le> 2 ^ 48"
  shows "p_latency_cnt ((accum_latency lat ^^ n) peer_zero) = of_nat n \<and>
    p_latency_accum ((accum_latency lat ^^ n) peer_zero) = int n * lat"
  using assms(1)
proof (induction n)
  case (Suc n)
  let ?p = "(accum_latency lat ^^ n) peer_zero"
  have p: "p_latency_cnt ?p = of_nat n" "p_latency_accum ?p = int n * lat" using Suc by simp_all
  have n: "int n \<le> 254" using Suc.prems by simp
  have "(of_nat n + 1 :: u32) mod 256 \<noteq> 0"
  proof
    assume "(of_nat n + 1 :: u32) mod 256 = 0"
    then have "unat ((of_nat (Suc n) :: u32) mod 256) = 0" by (simp add: add.commute)
    moreover have "unat (of_nat (Suc n) :: u32) = Suc n"
      using Suc.prems by (simp add: unat_of_nat del: of_nat_Suc)
    ultimately show False using Suc.prems by (simp add: unat_mod)
  qed
  moreover have "\<bar>int n * lat + lat\<bar> < 2 ^ 63"
  proof -
    have "\<bar>int n * lat + lat\<bar> = (int n + 1) * \<bar>lat\<bar>"
      by (metis abs_mult abs_of_nat add.commute distrib_right mult_1 of_nat_Suc)
    also have "\<dots> \<le> 255 * 2 ^ 48" using n assms(2) by (intro mult_mono) auto
    finally show ?thesis by simp
  qed
  then have "to_i64 (int n * lat + lat) = int n * lat + lat" by (intro to_i64_id) auto
  ultimately show ?case using p by (simp add: accum_latency_def [of lat ?p] Let_def algebra_simps)
qed (simp add: peer_zero_def)

text \<open>
  The mean latency of a peer is right for up to 255 samples and doubles at the 256th: when
  the accumulator is folded, the mean of the first 255 samples is counted as no sample at all, so
  after 256 equal samples the reported mean is twice the sample.
\<close>

lemma accum_latency_fold_doubles:
  assumes "\<bar>lat\<bar> \<le> 2 ^ 48"
  shows "latency ((accum_latency lat ^^ 255) peer_zero) = lat \<and>
    latency ((accum_latency lat ^^ 256) peer_zero) = 2 * lat"
proof -
  let ?p = "(accum_latency lat ^^ 255) peer_zero"
  have p: "p_latency_cnt ?p = 255" "p_latency_accum ?p = 255 * lat"
    using accum_latency_run [of 255 lat] assms by simp_all
  have m: "(255 :: u32) mod 256 = 255" "(257 :: u32) mod 256 = 1" by simp_all
  have l: "latency ?p = lat"
    by (simp add: latency_def p m c_div_def abs_mult sgn_mult mult_sgn_abs)
  have "to_i64 (lat + lat) = lat + lat" using assms by (intro to_i64_id) auto
  then have "latency (accum_latency lat ?p) = 2 * lat"
    using l by (simp add: accum_latency_def Let_def p) (simp add: latency_def)
  moreover have "(accum_latency lat ^^ 256) peer_zero = accum_latency lat ?p"
    using funpow.simps(2) [of 255 "accum_latency lat"] by simp
  ultimately show ?thesis using l by simp
qed

lemma accum_latency_fold_doubles_witness:
  "latency ((accum_latency 1000 ^^ 255) peer_zero) = 1000 \<and>
   latency ((accum_latency 1000 ^^ 256) peer_zero) = 2000"
  using accum_latency_fold_doubles [of 1000] by simp

text \<open>
  C31: The finish time that a stopping member publishes is its clock plus the finish time in
  nanoseconds reduced modulo 2^32, so it is right exactly for finish times below 4295 ms, and too
  early for longer ones.
\<close>

theorem send_finish_time:
  assumes "uint (poll_now_ns s) + uint (finish_ms s) * 1000000 < 2 ^ 64"
  shows "\<exists>w. send_msg env FINISH [] s = emit (Publish w) s \<and> w_fin_time w \<noteq> None \<and>
    uint (the (w_fin_time w)) = uint (poll_now_ns s) + uint (finish_ms s) * 1000000 mod 2 ^ 32 \<and>
    (uint (the (w_fin_time w)) = uint (poll_now_ns s) + uint (finish_ms s) * 1000000 \<longleftrightarrow>
       finish_ms s < 4295)"
proof -
  let ?f = "uint (finish_ms s) * 1000000"
  have nonneg: "0 \<le> uint (poll_now_ns s)" "0 \<le> uint (finish_ms s)" by simp_all
  have prod: "uint (finish_ms s * 1000000) = ?f mod 2 ^ 32"
    by (simp add: uint_word_ariths)
  have le: "?f mod 2 ^ 32 \<le> ?f" using nonneg by (intro zmod_le_nonneg_dividend) simp
  have sum: "uint (poll_now_ns s + ucast (finish_ms s * 1000000)) =
    uint (poll_now_ns s) + ?f mod 2 ^ 32"
    using assms le nonneg prod by (simp add: uint_word_ariths unsigned_ucast_eq take_bit_int_eq_self)
  have "(?f mod 2 ^ 32 = ?f) \<longleftrightarrow> ?f < 2 ^ 32"
    using nonneg by (metis mod_pos_pos_trivial pos_mod_bound zero_le_mult_iff zero_le_numeral
        zero_less_numeral zero_less_power)
  also have "\<dots> \<longleftrightarrow> finish_ms s < 4295"
    unfolding word_less_def by (simp, linarith)
  finally show ?thesis using sum by (auto simp: send_msg_def)
qed

theorem send_finish_time_witness:
  "\<exists>w. send_msg ex_env FINISH [] ((rvft_new [] [])\<lparr>finish_ms := 5000\<rparr>) =
      emit (Publish w) ((rvft_new [] [])\<lparr>finish_ms := 5000\<rparr>) \<and>
    uint (the (w_fin_time w)) \<noteq> 5000 * 1000000"
  using send_finish_time [of "(rvft_new [] [])\<lparr>finish_ms := 5000\<rparr>" ex_env]
  by (auto simp: rvft_new_def)

end
