(* ===== verification/Trdp_Window.thy ===== *)
theory Trdp_Window
  imports Sass_Prelude
begin

text \<open>
  The receiver of reliable datagrams (\<open>include/sassrv/mc.h\<close>, \<open>src/mc.cpp\<close>): headers, the window of
  a sender that puts packets in order and joins fragments, the messages cut out of the payload, and
  the counters of lost, repeated and reordered packets. The big-endian reads \<open>get_u32<MD_BIG>\<close> and
  \<open>get_u16<MD_BIG>\<close> of the library raimd and the entry that \<open>ArrayCount::push\<close> of raikv makes are
  fields of \<open>md_env\<close>. A loop of the source that may not end is a partial function: \<open>None\<close> says that
  it does not return.
\<close>

section \<open>Headers\<close>

record trdp_tsid =
  t_src_addr :: u32
  t_src_id :: u32

text \<open>
  The words of the union: \<open>h_seqno\<close> is \<open>seqno\<close>, \<open>data.seqno\<close> and \<open>nak.seqno_len\<close>; \<open>h_total_len\<close>
  is \<open>data.total_len\<close> and \<open>nak.seqno[ 0 ]\<close>.
\<close>

record trdp_hdr =
  h_magic :: u32
  h_src_addr :: u32
  h_src_id :: u32
  h_dest_addr :: u32
  h_pkt_type :: u16
  h_status :: u16
  h_seqno :: u32
  h_total_len :: u32
  h_data_len :: u16
  h_frag_num :: u16

definition TRDP_HDR_SIZE :: nat where "TRDP_HDR_SIZE = 20"
definition TRDP_DATA_HDR_SIZE :: nat where "TRDP_DATA_HDR_SIZE = 32"

definition hdr_tsid :: "trdp_hdr \<Rightarrow> trdp_tsid" where
  "hdr_tsid h = \<lparr>t_src_addr = h_src_addr h, t_src_id = h_src_id h\<rparr>"

definition hdr_type :: "trdp_hdr \<Rightarrow> nat" where
  "hdr_type h = unat (h_pkt_type h AND 0xff)"

record trdp_pkt =
  k_mono_time :: u64
  k_seqno :: u32
  k_total_len :: u32
  k_data_len :: u16
  k_frag_num :: u16
  k_data :: "u8 list"

record trdp_window =
  w_tsid :: trdp_tsid
  w_last_seqno :: u32
  w_last_recv_seqno :: u32
  w_save_size :: u32
  w_output_len :: u32
  w_output_off :: u32
  w_lost_seqno :: u64
  w_repeat_seqno :: u64
  w_reorder_seqno :: u64
  w_nak_count :: u64
  w_last_lost :: u64
  w_last_repeat :: u64
  w_last_reorder :: u64
  w_last_nak :: u64
  w_last_mono_time :: u64
  w_output_buf :: "u8 list"
  w_list :: "trdp_pkt list"

record md_env =
  get_u32 :: "u8 list \<Rightarrow> u32"
  get_u16 :: "u8 list \<Rightarrow> u16"
  push_window :: trdp_window

text \<open>\<open>TrdpHdr::copy_in\<close>: \<open>None\<close> is the result false.\<close>

definition copy_in :: "md_env \<Rightarrow> u8 list \<Rightarrow> trdp_hdr option" where
  "copy_in md msg =
     (if length msg < TRDP_HDR_SIZE then None
      else if get_u32 md msg \<noteq> 0x88fa6923 then None
      else
        let h = \<lparr>h_magic = get_u32 md msg, h_src_addr = get_u32 md (drop 4 msg),
                 h_src_id = get_u32 md (drop 8 msg), h_dest_addr = get_u32 md (drop 12 msg),
                 h_pkt_type = get_u16 md (drop 16 msg), h_status = get_u16 md (drop 18 msg),
                 h_seqno = 0, h_total_len = 0, h_data_len = 0, h_frag_num = 0\<rparr>;
            t = hdr_type h
        in if t = 1 then
             (if length msg < TRDP_DATA_HDR_SIZE then None
              else Some (h\<lparr>h_seqno := get_u32 md (drop 20 msg), h_total_len := get_u32 md (drop 24 msg),
                          h_data_len := get_u16 md (drop 28 msg),
                          h_frag_num := get_u16 md (drop 30 msg)\<rparr>))
           else if t \<in> {3, 4, 5, 6, 7, 8, 9} then
             (if length msg < TRDP_HDR_SIZE + 4 then None
              else Some (h\<lparr>h_seqno := get_u32 md (drop 20 msg)\<rparr>))
           else Some h)"

text \<open>
  \<open>seqno_diff\<close>: the difference of the two \<open>int32_t\<close>, read in two's complement.
\<close>

definition seqno_diff :: "u32 \<Rightarrow> u32 \<Rightarrow> int" where
  "seqno_diff a b = sint (a - b)"

section \<open>Merging a packet into the window\<close>

text \<open>
  The scan of \<open>merge\<close> for the place of a sequence number, in plain order; \<open>None\<close> is a packet that
  is in the window already.
\<close>

fun find_slot :: "u32 \<Rightarrow> trdp_pkt list \<Rightarrow> nat \<Rightarrow> nat option" where
  "find_slot seqno [] n = Some n"
| "find_slot seqno (p # ps) n =
     (if k_seqno p = seqno then None
      else if k_seqno p > seqno then Some n
      else find_slot seqno ps (Suc n))"

text \<open>
  The inner loop that adds up fragments after the packet \<open>x\<close> at index \<open>i\<close>: the length that is
  missing, the index of the last packet passed, and the index of the packet that completes it.
\<close>

fun frag_walk :: "u32 \<Rightarrow> trdp_pkt \<Rightarrow> nat \<Rightarrow> trdp_pkt list \<Rightarrow> u32 \<times> nat \<times> nat" where
  "frag_walk total_len x i [] = (total_len, i, Suc i)"
| "frag_walk total_len x i (y # ys) =
     (if k_seqno y \<noteq> k_seqno x + 1 then (total_len, i, Suc i)
      else let total_len' = total_len - ucast (k_data_len y)
           in if total_len' = 0 then (total_len', i, Suc i)
              else frag_walk total_len' y (Suc i) ys)"

definition frags_from :: "trdp_pkt list \<Rightarrow> nat \<Rightarrow> u32 \<times> nat \<times> nat" where
  "frags_from ps i =
     (let x = ps ! i; total_len = k_total_len x - ucast (k_data_len x)
      in if total_len > 0 then frag_walk total_len x i (drop (Suc i) ps) else (total_len, i, i))"

definition pop_ready :: "nat \<Rightarrow> trdp_window \<Rightarrow> trdp_window" where
  "pop_ready n w =
     w\<lparr>w_list := drop n (w_list w),
       w_save_size := w_save_size w - (\<Sum>p\<leftarrow>take n (w_list w). ucast (k_data_len p)),
       w_last_seqno := k_seqno (w_list w ! (n - 1))\<rparr>"

text \<open>The loop of \<open>merge\<close> with the packet \<open>x\<close> at index \<open>i\<close> and the packets that are ready.\<close>

partial_function (option) merge_loop ::
  "trdp_window \<Rightarrow> nat \<Rightarrow> trdp_pkt list \<Rightarrow> (trdp_window \<times> trdp_pkt list) option" where
  "merge_loop w i ready =
     (let (total_len, x, y) = frags_from (w_list w) i
      in if total_len = 0 then
           let w1 = pop_ready (Suc y) w; ready1 = ready @ take (Suc y) (w_list w)
           in (case w_list w1 of
                 [] \<Rightarrow> Some (w1, ready1)
               | p # ps \<Rightarrow> if k_seqno p = w_last_seqno w1 + 1 then merge_loop w1 0 ready1
                           else Some (w1, ready1))
         else if k_seqno (w_list w ! x) = w_last_seqno w + 1 then merge_loop w x ready
         else Some (w, ready))"

definition make_pkt :: "trdp_hdr \<Rightarrow> u8 list \<Rightarrow> u64 \<Rightarrow> trdp_pkt" where
  "make_pkt hdr data ns =
     \<lparr>k_mono_time = ns, k_seqno = h_seqno hdr, k_total_len = h_total_len hdr,
      k_data_len = h_data_len hdr, k_frag_num = h_frag_num hdr,
      k_data = take (unat (h_data_len hdr)) data\<rparr>"

definition reliability_ns :: u64 where "reliability_ns = 1000000000"

text \<open>The packets that \<open>merge\<close> returns, in order; a null list is \<open>[]\<close>.\<close>

definition merge ::
  "trdp_hdr \<Rightarrow> u8 list \<Rightarrow> u64 \<Rightarrow> trdp_window \<Rightarrow> (trdp_window \<times> trdp_pkt list) option" where
  "merge hdr data cur_mono_time w =
     (case find_slot (h_seqno hdr) (w_list w) 0 of
        None \<Rightarrow> Some (w\<lparr>w_repeat_seqno := w_repeat_seqno w + 1\<rparr>, [])
      | Some n \<Rightarrow>
          let x = make_pkt hdr data cur_mono_time;
              w1 = w\<lparr>w_save_size := w_save_size w + ucast (h_data_len hdr),
                     w_list := take n (w_list w) @ x # drop n (w_list w)\<rparr>
          in if w_list w = [] then Some (w1, [])
             else
               let hd1 = hd (w_list w1);
                   sdiff = seqno_diff (k_seqno hd1) (w_last_seqno w1 + 1)
               in if sdiff \<noteq> 0 \<and> cur_mono_time - w_last_mono_time w1 < reliability_ns
                  then Some (w1, [])
                  else
                    let w2 = (if sdiff \<noteq> 0
                              then w1\<lparr>w_lost_seqno := w_lost_seqno w1 + of_int \<bar>sdiff\<bar>,
                                      w_last_seqno := k_seqno hd1 - 1, w_output_len := 0\<rparr>
                              else w1)
                    in do {
                         (w3, ready) \<leftarrow> merge_loop w2 0 [];
                         Some (if ready \<noteq> []
                               then w3\<lparr>w_last_mono_time := k_mono_time (last ready)\<rparr>
                               else w3, ready)
                       })"

section \<open>Delivery\<close>

text \<open>What \<open>recv_msg\<close> does to the connection: the bytes appended to its buffer, and its counters.\<close>

record trdp_conn =
  c_recv :: "u8 list"
  c_bytes_recv :: u64
  c_recv_count :: u64

record trdp_db =
  d_hash :: "trdp_tsid \<Rightarrow> nat option"
  d_windows :: "trdp_window list"
  d_lost_list :: "u32 list"
  d_repeat_list :: "u32 list"
  d_reorder_list :: "u32 list"
  d_nak_list :: "u32 list"
  d_msgs_recv :: u64
  d_output_bytes :: u64
  d_conn :: "trdp_conn option"

definition recv_msg :: "u8 list \<Rightarrow> trdp_db \<Rightarrow> trdp_db" where
  "recv_msg msg db =
     db\<lparr>d_msgs_recv := d_msgs_recv db + 1,
        d_conn := map_option (\<lambda>c. c\<lparr>c_recv := c_recv c @ msg,
                                   c_bytes_recv := c_bytes_recv c + of_nat (length msg),
                                   c_recv_count := c_recv_count c + 1\<rparr>) (d_conn db)\<rparr>"

text \<open>
  The loop of \<open>output\<close> over the messages of a payload: the source goes round again unchanged on a
  wrong magic number.
\<close>

partial_function (option) output_loop ::
  "md_env \<Rightarrow> u8 list \<Rightarrow> trdp_window \<Rightarrow> trdp_db \<Rightarrow> (trdp_window \<times> trdp_db) option" where
  "output_loop md data w db =
     (let msg_size = unat (get_u32 md data)
      in if get_u32 md (drop 4 data) = 0x9955eeaa then
           (if msg_size \<le> length data then
              (let db1 = recv_msg (take msg_size data) db; data1 = drop msg_size data
               in if length data1 < 8 then Some (w, db1) else output_loop md data1 w db1)
            else Some (w\<lparr>w_output_buf := data, w_output_off := of_nat (length data),
                        w_output_len := of_nat msg_size\<rparr>, db))
         else output_loop md data w db)"

definition trdp_output ::
  "md_env \<Rightarrow> u8 list \<Rightarrow> trdp_window \<Rightarrow> trdp_db \<Rightarrow> (trdp_window \<times> trdp_db) option" where
  "trdp_output md data w db =
     (let len = length data;
          db0 = db\<lparr>d_output_bytes := d_output_bytes db + of_nat len\<rparr>
      in if w_output_len w \<noteq> 0 then
           (if unat (w_output_off w) + len \<le> unat (w_output_len w) then
              let w1 = w\<lparr>w_output_buf := take (unat (w_output_off w)) (w_output_buf w) @ data,
                         w_output_off := w_output_off w + of_nat len\<rparr>
              in if w_output_off w1 = w_output_len w1
                 then Some (w1\<lparr>w_output_off := 0, w_output_len := 0\<rparr>,
                            recv_msg (take (unat (w_output_len w1)) (w_output_buf w1)) db0)
                 else Some (w1, db0)
            else Some (w, db0))
         else if len \<ge> 8 then output_loop md data w db0
         else Some (w, db0))"

fun output_all ::
  "md_env \<Rightarrow> trdp_pkt list \<Rightarrow> trdp_window \<Rightarrow> trdp_db \<Rightarrow> (trdp_window \<times> trdp_db) option" where
  "output_all md [] w db = Some (w, db)"
| "output_all md (p # ps) w db =
     do { (w1, db1) \<leftarrow> trdp_output md (k_data p) w db; output_all md ps w1 db1 }"

section \<open>Windows and datagrams\<close>

text \<open>\<open>get_window\<close> returns the index of the sender's window.\<close>

definition get_window :: "md_env \<Rightarrow> trdp_tsid \<Rightarrow> trdp_db \<Rightarrow> nat \<times> trdp_db" where
  "get_window md tsid db =
     (case d_hash db tsid of
        None \<Rightarrow> (length (d_windows db),
                 db\<lparr>d_hash := (d_hash db)(tsid \<mapsto> length (d_windows db)),
                    d_windows := d_windows db @ [(push_window md)\<lparr>w_tsid := tsid\<rparr>]\<rparr>)
      | Some k \<Rightarrow> (k, db))"

definition set_window :: "nat \<Rightarrow> trdp_window \<Rightarrow> trdp_db \<Rightarrow> trdp_db" where
  "set_window k w db = db\<lparr>d_windows := (d_windows db)[k := w]\<rparr>"

datatype trdp_fault = ReadBeyondDatagram

text \<open>The data branch of \<open>process_msg\<close>, on the window of the sender.\<close>

definition process_data ::
  "md_env \<Rightarrow> trdp_hdr \<Rightarrow> u8 list \<Rightarrow> u64 \<Rightarrow> trdp_window \<Rightarrow> trdp_db \<Rightarrow> (trdp_window \<times> trdp_db) option"
  where
  "process_data md hdr payload cur_mono_time w db =
     (if w_last_mono_time w = 0 then
        (if h_frag_num hdr \<noteq> 0 then Some (w, db)
         else trdp_output md (take (unat (h_data_len hdr)) payload)
                (w\<lparr>w_last_seqno := h_seqno hdr, w_last_recv_seqno := h_seqno hdr,
                   w_last_mono_time := cur_mono_time\<rparr>) db)
      else
        let diff = seqno_diff (h_seqno hdr) (w_last_recv_seqno w);
            w1 = w\<lparr>w_last_recv_seqno := h_seqno hdr\<rparr>;
            w2 = (if diff > 1 then w1\<lparr>w_reorder_seqno := w_reorder_seqno w1 + 1\<rparr> else w1);
            diff2 = seqno_diff (h_seqno hdr) (w_last_seqno w2)
        in if diff2 \<le> 0 then Some (w2\<lparr>w_repeat_seqno := w_repeat_seqno w2 + 1\<rparr>, db)
           else if diff2 > 1 \<or> (diff2 = 1 \<and> h_total_len hdr \<noteq> ucast (h_data_len hdr)) then
             do {
               (w3, ready) \<leftarrow> merge hdr payload cur_mono_time w2;
               output_all md ready w3 db
             }
           else
             do {
               (w3, db1) \<leftarrow> trdp_output md (take (unat (h_data_len hdr)) payload) w2 db;
               Some (w3\<lparr>w_last_seqno := w_last_seqno w3 + 1, w_last_mono_time := cur_mono_time\<rparr>, db1)
             })"

text \<open>
  Whether \<open>process_msg\<close> reads the payload: a copy or a delivery of \<open>data_len\<close> bytes, which the
  source does not check against the length of the datagram.
\<close>

definition reads_payload :: "trdp_hdr \<Rightarrow> trdp_window \<Rightarrow> bool" where
  "reads_payload hdr w \<longleftrightarrow>
     (if w_last_mono_time w = 0 then h_frag_num hdr = 0
      else
        let diff = seqno_diff (h_seqno hdr) (w_last_seqno w)
        in diff > 0 \<and>
           (diff = 1 \<and> h_total_len hdr = ucast (h_data_len hdr) \<or>
            find_slot (h_seqno hdr) (w_list w) 0 \<noteq> None))"

text \<open>\<open>process_msg\<close>: \<open>None\<close> does not return, \<open>Inl\<close> reads past the end of the datagram.\<close>

definition process_msg ::
  "md_env \<Rightarrow> u8 list \<Rightarrow> u64 \<Rightarrow> trdp_db \<Rightarrow> (trdp_fault + trdp_db) option" where
  "process_msg md msg cur_mono_time db =
     (case copy_in md msg of
        None \<Rightarrow> Some (Inr db)
      | Some hdr \<Rightarrow>
          if hdr_type hdr \<noteq> 1 then
            (if hdr_type hdr = 3 then
               let (k, db1) = get_window md (hdr_tsid hdr) db; w = d_windows db1 ! k
               in Some (Inr (set_window k (w\<lparr>w_nak_count := w_nak_count w + 1\<rparr>) db1))
             else Some (Inr db))
          else
            let payload = drop TRDP_DATA_HDR_SIZE msg;
                (k, db1) = get_window md (hdr_tsid hdr) db; w = d_windows db1 ! k
            in if reads_payload hdr w \<and> length payload < unat (h_data_len hdr)
               then Some (Inl ReadBeyondDatagram)
               else do {
                 (w1, db2) \<leftarrow> process_data md hdr payload cur_mono_time w db1;
                 Some (Inr (set_window k w1 db2))
               })"

text \<open>The loop of \<open>UdpSvc::process\<close> over the datagrams received, those in one buffer only.\<close>

fun process_udp :: "md_env \<Rightarrow> (nat \<times> u8 list) list \<Rightarrow> u64 \<Rightarrow> trdp_db \<Rightarrow> (trdp_fault + trdp_db) option"
  where
  "process_udp md [] cur_mono_time db = Some (Inr db)"
| "process_udp md ((iovlen, msg) # ms) cur_mono_time db =
     (if iovlen \<noteq> 1 then process_udp md ms cur_mono_time db
      else do {
        r \<leftarrow> process_msg md msg cur_mono_time db;
        case r of Inl e \<Rightarrow> Some (Inl e) | Inr db1 \<Rightarrow> process_udp md ms cur_mono_time db1
      })"

section \<open>Counters\<close>

text \<open>
  The loop of \<open>lost_seqno\<close>, \<open>repeat_seqno\<close>, \<open>reorder_seqno\<close> and \<open>nak_count\<close>: the sum of a counter
  over the windows, and the senders for which it grew since the last call.
\<close>

fun sum_counter ::
  "(trdp_window \<Rightarrow> u64) \<Rightarrow> (trdp_window \<Rightarrow> u64) \<Rightarrow> (u64 \<Rightarrow> trdp_window \<Rightarrow> trdp_window) \<Rightarrow>
   trdp_window list \<Rightarrow> u64 \<times> u32 list \<times> trdp_window list" where
  "sum_counter cnt last_cnt set_last [] = (0, [], [])"
| "sum_counter cnt last_cnt set_last (w # ws) =
     (let (n, srcs, ws') = sum_counter cnt last_cnt set_last ws
      in if last_cnt w < cnt w
         then (cnt w + n, t_src_addr (w_tsid w) # srcs, set_last (cnt w) w # ws')
         else (cnt w + n, srcs, w # ws'))"

definition db_lost_seqno :: "trdp_db \<Rightarrow> u64 \<times> trdp_db" where
  "db_lost_seqno db =
     (let (n, srcs, ws) = sum_counter w_lost_seqno w_last_lost (\<lambda>v w. w\<lparr>w_last_lost := v\<rparr>) (d_windows db)
      in (n, db\<lparr>d_lost_list := srcs, d_windows := ws\<rparr>))"

definition db_repeat_seqno :: "trdp_db \<Rightarrow> u64 \<times> trdp_db" where
  "db_repeat_seqno db =
     (let (n, srcs, ws) = sum_counter w_repeat_seqno w_last_repeat (\<lambda>v w. w\<lparr>w_last_repeat := v\<rparr>)
                            (d_windows db)
      in (n, db\<lparr>d_repeat_list := srcs, d_windows := ws\<rparr>))"

definition db_reorder_seqno :: "trdp_db \<Rightarrow> u64 \<times> trdp_db" where
  "db_reorder_seqno db =
     (let (n, srcs, ws) = sum_counter w_reorder_seqno w_last_reorder (\<lambda>v w. w\<lparr>w_last_reorder := v\<rparr>)
                            (d_windows db)
      in (n, db\<lparr>d_reorder_list := srcs, d_windows := ws\<rparr>))"

definition db_nak_count :: "trdp_db \<Rightarrow> u64 \<times> trdp_db" where
  "db_nak_count db =
     (let (n, srcs, ws) = sum_counter w_nak_count w_last_nak (\<lambda>v w. w\<lparr>w_last_nak := v\<rparr>) (d_windows db)
      in (n, db\<lparr>d_nak_list := srcs, d_windows := ws\<rparr>))"

section \<open>The loops of merge\<close>

definition complete_pkt :: "trdp_pkt \<Rightarrow> bool" where
  "complete_pkt p \<longleftrightarrow> k_total_len p = ucast (k_data_len p)"

text \<open>How many packets at the head of a window follow the sequence number \<open>s\<close> without a gap.\<close>

fun run_len :: "u32 \<Rightarrow> trdp_pkt list \<Rightarrow> nat" where
  "run_len s [] = 0"
| "run_len s (p # ps) = (if k_seqno p = s + 1 then Suc (run_len (k_seqno p) ps) else 0)"

lemma frags_from_complete:
  "complete_pkt (ps ! i) \<Longrightarrow> frags_from ps i = (0, i, i)"
  by (simp add: frags_from_def complete_pkt_def)

lemma merge_loop_run:
  assumes "w_list w \<noteq> []" "k_seqno (hd (w_list w)) = w_last_seqno w + 1"
    and "\<forall>p \<in> set (w_list w). complete_pkt p"
  shows "\<exists>w'. merge_loop w 0 ready =
      Some (w', ready @ take (run_len (w_last_seqno w) (w_list w)) (w_list w)) \<and>
    w_list w' = drop (run_len (w_last_seqno w) (w_list w)) (w_list w) \<and>
    w_last_seqno w' = w_last_seqno w + of_nat (run_len (w_last_seqno w) (w_list w)) \<and>
    w_save_size w' = w_save_size w -
      (\<Sum>p\<leftarrow>take (run_len (w_last_seqno w) (w_list w)) (w_list w). ucast (k_data_len p))"
  using assms
proof (induction "length (w_list w)" arbitrary: w ready)
  case (Suc n)
  obtain p ps where l: "w_list w = p # ps" using Suc.prems(1) by (cases "w_list w") auto
  have s: "k_seqno p = w_last_seqno w + 1" using Suc.prems(2) l by simp
  let ?w = "pop_ready 1 w"
  have w: "w_list ?w = ps" "w_last_seqno ?w = w_last_seqno w + 1"
    "w_save_size ?w = w_save_size w - ucast (k_data_len p)" by (simp_all add: pop_ready_def l s)
  have "frags_from (w_list w) 0 = (0, 0, 0)" using Suc.prems(3) l by (simp add: frags_from_complete)
  then have step: "merge_loop w 0 ready =
    (case ps of [] \<Rightarrow> Some (?w, ready @ [p])
     | q # qs \<Rightarrow> if k_seqno q = w_last_seqno w + 1 + 1 then merge_loop ?w 0 (ready @ [p])
                else Some (?w, ready @ [p]))"
    using w by (subst merge_loop.simps) (simp add: l Let_def split: list.split)
  show ?case
  proof (cases "ps \<noteq> [] \<and> k_seqno (hd ps) = w_last_seqno w + 1 + 1")
    case True
    have hyp: "n = length (w_list ?w)" using Suc.hyps(2) w(1) l by simp
    have "w_list ?w \<noteq> []" "k_seqno (hd (w_list ?w)) = w_last_seqno ?w + 1"
      "\<forall>p \<in> set (w_list ?w). complete_pkt p" using True w Suc.prems(3) l by simp_all
    note IH = Suc.hyps(1) [OF hyp this, of "ready @ [p]"]
    have "run_len (w_last_seqno w) (w_list w) = Suc (run_len (w_last_seqno ?w) (w_list ?w))"
      using l s w by simp
    moreover have "merge_loop w 0 ready = merge_loop ?w 0 (ready @ [p])"
      using True step by (cases ps) auto
    ultimately show ?thesis using IH w by (simp add: l diff_diff_eq add.assoc)
  next
    case False
    then show ?thesis using step w s by (cases ps) (auto simp: l)
  qed
qed simp

text \<open>A loop that comes back to its own arguments does not return.\<close>

definition stuck_at_head :: "trdp_window \<Rightarrow> bool" where
  "stuck_at_head w \<longleftrightarrow> w_list w \<noteq> [] \<and> k_seqno (hd (w_list w)) = w_last_seqno w + 1 \<and>
    \<not> complete_pkt (hd (w_list w)) \<and>
    (tl (w_list w) = [] \<or> k_seqno (hd (tl (w_list w))) \<noteq> k_seqno (hd (w_list w)) + 1)"

lemma stuck_frags:
  assumes "stuck_at_head w"
  shows "\<exists>t y. frags_from (w_list w) 0 = (t, 0, y) \<and> t \<noteq> 0"
proof -
  obtain p ps where l: "w_list w = p # ps" using assms by (cases "w_list w") (auto simp: stuck_at_head_def)
  have t: "k_total_len p - ucast (k_data_len p) > 0"
    using assms l by (simp add: stuck_at_head_def complete_pkt_def word_gt_0)
  have "frag_walk m p 0 ps = (m, 0, 1)" for m
    using assms l by (cases ps) (auto simp: stuck_at_head_def)
  then show ?thesis using t by (auto simp: frags_from_def l)
qed

lemma merge_loop_stuck:
  assumes "merge_loop w 0 ready = Some r"
  shows "\<not> stuck_at_head w"
proof -
  have "i = 0 \<longrightarrow> \<not> stuck_at_head w" if "merge_loop w i ready = Some r" for i
  proof (rule merge_loop.raw_induct [OF _ that], goal_cases)
    case (1 ml w i ready r)
    show ?case
    proof (intro impI notI)
      assume i: "i = 0" and s: "stuck_at_head w"
      obtain t y where "frags_from (w_list w) 0 = (t, 0, y)" "t \<noteq> 0" using stuck_frags [OF s] by blast
      moreover have "k_seqno (w_list w ! 0) = w_last_seqno w + 1"
        using s by (auto simp: stuck_at_head_def hd_conv_nth)
      ultimately have "ml w 0 ready = Some r" using 1(2) i by simp
      from 1(1) [OF this] s show False by simp
    qed
  qed
  then show ?thesis using assms by blast
qed

section \<open>The invariant of a window\<close>

definition win_ok :: "trdp_window \<Rightarrow> bool" where
  "win_ok w \<longleftrightarrow> sorted_wrt (\<lambda>p q. k_seqno p < k_seqno q) (w_list w) \<and>
     w_save_size w = (\<Sum>p\<leftarrow>w_list w. ucast (k_data_len p))"

lemma sum_take_drop:
  fixes f :: "'a \<Rightarrow> 'b::ab_group_add"
  shows "(\<Sum>x\<leftarrow>xs. f x) - (\<Sum>x\<leftarrow>take n xs. f x) = (\<Sum>x\<leftarrow>drop n xs. f x)"
  by (metis add_diff_cancel_left' append_take_drop_id map_append sum_list_append)

lemma win_ok_pop: "win_ok w \<Longrightarrow> win_ok (pop_ready n w)"
  by (simp add: win_ok_def pop_ready_def sorted_wrt_drop sum_take_drop)

lemma merge_loop_ok:
  assumes "merge_loop w i ready = Some y"
  shows "win_ok w \<longrightarrow> win_ok (fst y)"
proof (rule merge_loop.raw_induct [OF _ assms], goal_cases)
  case (1 ml w i ready y)
  obtain t x z where f: "frags_from (w_list w) i = (t, x, z)" by (metis prod_cases3)
  show ?case
    using 1 win_ok_pop [of w "Suc z"] by (auto simp: f Let_def split: if_splits list.splits)
qed

lemma find_slot_spec:
  "sorted_wrt (\<lambda>p q. k_seqno p < k_seqno q) ps \<Longrightarrow> find_slot s ps m = Some n \<Longrightarrow>
   m \<le> n \<and> n \<le> m + length ps \<and> (\<forall>p \<in> set (take (n - m) ps). k_seqno p < s) \<and>
   (\<forall>p \<in> set (drop (n - m) ps). s < k_seqno p)"
proof (induction ps arbitrary: m)
  case (Cons p ps)
  show ?case
  proof (cases "k_seqno p > s")
    case True
    then have "n = m" using Cons.prems(2) by (simp split: if_splits)
    then show ?thesis using True Cons.prems(1) by auto
  next
    case False
    then have lt: "k_seqno p < s" and f: "find_slot s ps (Suc m) = Some n"
      using Cons.prems(2) by (auto split: if_splits)
    from Cons.IH [OF _ f] Cons.prems(1) have IH: "Suc m \<le> n" "n \<le> Suc m + length ps"
      "\<forall>p \<in> set (take (n - Suc m) ps). k_seqno p < s" "\<forall>p \<in> set (drop (n - Suc m) ps). s < k_seqno p"
      by auto
    then obtain j where "n = Suc (m + j)" using less_iff_Suc_add by (metis Suc_le_lessD)
    then show ?thesis using IH lt by (auto simp: add.commute)
  qed
qed auto

lemma insert_slot_ok:
  assumes "win_ok w" "find_slot (k_seqno x) (w_list w) 0 = Some n"
  shows "win_ok (w\<lparr>w_save_size := w_save_size w + ucast (k_data_len x),
    w_list := take n (w_list w) @ x # drop n (w_list w)\<rparr>)"
proof -
  let ?l = "w_list w"
  have s: "sorted_wrt (\<lambda>p q. k_seqno p < k_seqno q) ?l" using assms(1) by (simp add: win_ok_def)
  from find_slot_spec [OF s assms(2)] have b: "\<forall>p \<in> set (take n ?l). k_seqno p < k_seqno x"
    "\<forall>p \<in> set (drop n ?l). k_seqno x < k_seqno p" by auto
  have "sorted_wrt (\<lambda>p q. k_seqno p < k_seqno q) (take n ?l @ drop n ?l)" using s by simp
  then have "sorted_wrt (\<lambda>p q. k_seqno p < k_seqno q) (take n ?l @ x # drop n ?l)"
    using b unfolding sorted_wrt_append by (auto intro: order.strict_trans)
  moreover have "(\<Sum>p\<leftarrow>take n ?l @ x # drop n ?l. ucast (k_data_len p)) =
    (\<Sum>p\<leftarrow>take n ?l @ drop n ?l. ucast (k_data_len p) :: u32) + ucast (k_data_len x)"
    unfolding map_append sum_list_append by (simp add: algebra_simps)
  ultimately show ?thesis using assms(1) by (simp add: win_ok_def)
qed

section \<open>Messages in a payload\<close>

text \<open>A message as the connection expects it: its size, then the magic number of RV messages.\<close>

definition framed :: "md_env \<Rightarrow> u8 list \<Rightarrow> bool" where
  "framed md m \<longleftrightarrow> length m \<ge> 8 \<and> unat (get_u32 md m) = length m \<and>
     get_u32 md (drop 4 m) = 0x9955eeaa"

text \<open>What the model relies on of the big-endian read: it looks at the first four bytes.\<close>

definition reads_four :: "md_env \<Rightarrow> bool" where
  "reads_four md \<longleftrightarrow> (\<forall>xs ys. length xs \<ge> 4 \<longrightarrow> get_u32 md (xs @ ys) = get_u32 md xs)"

lemma framed_head:
  assumes "reads_four md" "framed md m"
  shows "unat (get_u32 md (m @ ys)) = length m" "get_u32 md (drop 4 (m @ ys)) = 0x9955eeaa"
proof -
  have l: "length m \<ge> 8" using assms(2) by (simp add: framed_def)
  then show "unat (get_u32 md (m @ ys)) = length m"
    using assms by (simp add: reads_four_def framed_def)
  have "drop 4 (m @ ys) = drop 4 m @ ys" using l by simp
  then show "get_u32 md (drop 4 (m @ ys)) = 0x9955eeaa"
    using assms l by (simp add: reads_four_def framed_def)
qed

lemma output_loop_frames:
  assumes "reads_four md" "\<forall>m \<in> set msgs. framed md m" "msgs \<noteq> []" "length tail < 8"
  shows "output_loop md (concat msgs @ tail) w db = Some (w, fold recv_msg msgs db)"
  using assms(2,3)
proof (induction msgs arbitrary: db)
  case (Cons m msgs)
  let ?r = "concat msgs @ tail"
  have f: "framed md m" using Cons.prems by simp
  note h = framed_head [OF assms(1) f, of ?r]
  have "output_loop md (m @ ?r) w db =
    (if length ?r < 8 then Some (w, recv_msg m db) else output_loop md ?r w (recv_msg m db))"
    using h by (subst output_loop.simps) (simp add: Let_def)
  moreover have "length ?r < 8 \<longleftrightarrow> msgs = []"
    using Cons.prems(1) assms(4) by (cases msgs) (auto simp: framed_def)
  ultimately show ?case using Cons.IH [of "recv_msg m db"] Cons.prems(1) by simp
qed simp

lemma output_loop_stuck:
  assumes "output_loop md data w db = Some r"
  shows "get_u32 md (drop 4 data) = 0x9955eeaa"
proof (rule output_loop.raw_induct [OF _ assms], goal_cases)
  case (1 ol md data w db r)
  then show ?case by (auto simp: Let_def split: if_splits)
qed

lemma output_loop_empty_stuck:
  assumes "output_loop md data w db = Some r"
  shows "length data \<ge> 8 \<longrightarrow> get_u32 md data \<noteq> 0"
proof (rule output_loop.raw_induct [OF _ assms], goal_cases)
  case (1 ol md data w db r)
  show ?case
  proof (intro impI notI)
    assume a: "8 \<le> length data" "get_u32 md data = 0"
    with 1(2) have "ol md data w (recv_msg [] db) = Some r \<or> ol md data w db = Some r"
      by (auto simp: Let_def split: if_splits)
    with 1(1) a show False by blast
  qed
qed

text \<open>The window while a message is put together from fragments: \<open>buf\<close> of \<open>n\<close> bytes are there.\<close>

definition joining :: "u8 list \<Rightarrow> nat \<Rightarrow> trdp_window \<Rightarrow> trdp_window" where
  "joining buf n w = w\<lparr>w_output_buf := buf, w_output_off := of_nat (length buf),
     w_output_len := of_nat n\<rparr>"

lemma output_first_fragment:
  assumes "reads_four md" "framed md (a @ b)" "length a \<ge> 8" "b \<noteq> []" "w_output_len w = 0"
  shows "trdp_output md a w db =
    Some (joining a (length (a @ b)) w, db\<lparr>d_output_bytes := d_output_bytes db + of_nat (length a)\<rparr>)"
proof -
  have "get_u32 md (a @ b) = get_u32 md a" "get_u32 md (drop 4 a @ b) = get_u32 md (drop 4 a)"
    using assms(1,3) by (simp_all add: reads_four_def)
  then have "unat (get_u32 md a) = length (a @ b)" "get_u32 md (drop 4 a) = 0x9955eeaa"
    using assms(2,3) by (simp_all add: framed_def)
  moreover have "\<not> length (a @ b) \<le> length a" using assms(4) by simp
  ultimately show ?thesis
    using assms(3,5) by (simp add: trdp_output_def joining_def output_loop.simps Let_def)
qed

lemma output_next_fragment:
  assumes "length buf + length b \<le> n" "n < 2 ^ 32" "n > 0"
  shows "trdp_output md b (joining buf n w) db =
    (let db0 = db\<lparr>d_output_bytes := d_output_bytes db + of_nat (length b)\<rparr>
     in if length buf + length b = n
        then Some (w\<lparr>w_output_buf := buf @ b, w_output_off := 0, w_output_len := 0\<rparr>,
                   recv_msg (buf @ b) db0)
        else Some (joining (buf @ b) n w, db0))"
proof -
  have n: "unat (of_nat n :: u32) = n" "unat (of_nat (length buf) :: u32) = length buf"
    using assms by (simp_all add: unat_of_nat)
  have "(of_nat (length buf) + of_nat (length b) = (of_nat n :: u32)) = (length buf + length b = n)"
  proof -
    have "unat (of_nat (length buf + length b) :: u32) = length buf + length b"
      using assms by (simp add: unat_of_nat del: of_nat_add)
    then show ?thesis using n by (metis of_nat_add)
  qed
  moreover have "(of_nat n :: u32) \<noteq> 0" using n(1) assms(3) by (metis less_irrefl unat_0)
  ultimately show ?thesis
    using assms n by (simp add: trdp_output_def joining_def Let_def)
qed

fun output_seq :: "md_env \<Rightarrow> u8 list list \<Rightarrow> trdp_window \<Rightarrow> trdp_db \<Rightarrow> (trdp_window \<times> trdp_db) option" where
  "output_seq md [] w db = Some (w, db)"
| "output_seq md (b # bs) w db = do { (w1, db1) \<leftarrow> trdp_output md b w db; output_seq md bs w1 db1 }"

lemma output_rest:
  assumes "length (buf @ concat bs) < 2 ^ 32" "bs \<noteq> []" "\<forall>b \<in> set bs. b \<noteq> []"
  shows "\<exists>w'. output_seq md bs (joining buf (length (buf @ concat bs)) w) db =
    Some (w', recv_msg (buf @ concat bs)
      (db\<lparr>d_output_bytes := d_output_bytes db + of_nat (length (concat bs))\<rparr>)) \<and>
    w_output_len w' = 0 \<and> w_list w' = w_list w \<and> w_last_seqno w' = w_last_seqno w"
  using assms
proof (induction bs arbitrary: buf db)
  case (Cons b bs)
  let ?n = "length (buf @ concat (b # bs))"
  have n: "length buf + length b \<le> ?n" "?n < 2 ^ 32" "?n > 0" using Cons.prems by auto
  note step = output_next_fragment [OF n, of md w db]
  show ?case
  proof (cases bs)
    case Nil
    then show ?thesis using step by (simp add: Let_def)
  next
    case (Cons c cs)
    then have "\<not> length buf + length b = ?n" using Cons.prems(3) by auto
    then show ?thesis
      using step Cons.IH [of "buf @ b" "db\<lparr>d_output_bytes := d_output_bytes db + of_nat (length b)\<rparr>"]
        Cons.prems Cons by (simp add: Let_def add.assoc)
  qed
qed simp

end
