(* ===== verification/Trdp_Properties.thy ===== *)
theory Trdp_Properties
  imports Trdp_Window
begin

text \<open>
  What the receiver of datagrams promises: the window stays sorted and its size exact, complete
  packets leave it in sequence, messages are cut out of payloads and joined from fragments exactly,
  headers are read as they were written, repeated packets are not delivered, and losses are reported
  once; and the inputs on which the loops of the source do not return or read out of bounds.
\<close>

section \<open>Lemmas\<close>

lemma output_loop_keeps:
  assumes "output_loop md data w db = Some r"
  shows "w_list (fst r) = w_list w \<and> w_save_size (fst r) = w_save_size w"
proof (rule output_loop.raw_induct [OF _ assms], goal_cases)
  case (1 ol md data w db r)
  from 1(2) show ?case by (auto simp: Let_def split: if_splits dest: 1(1))
qed

lemma trdp_output_keeps:
  "trdp_output md data w db = Some (w', db') \<Longrightarrow>
   w_list w' = w_list w \<and> w_save_size w' = w_save_size w"
  using output_loop_keeps by (fastforce simp: trdp_output_def Let_def split: if_splits)

lemma output_all_keeps:
  "output_all md ps w db = Some (w', db') \<Longrightarrow> w_list w' = w_list w \<and> w_save_size w' = w_save_size w"
proof (induction ps arbitrary: w db)
  case (Cons p ps)
  then show ?case using trdp_output_keeps by (auto split: bind_splits)
qed simp

lemma win_ok_cong: "w_list w' = w_list w \<Longrightarrow> w_save_size w' = w_save_size w \<Longrightarrow> win_ok w' = win_ok w"
  by (simp add: win_ok_def)

lemma merge_ok:
  assumes "merge hdr data t w = Some (w', ready)" "win_ok w"
  shows "win_ok w'"
proof (cases "find_slot (h_seqno hdr) (w_list w) 0")
  case None
  then show ?thesis using assms by (auto simp: merge_def win_ok_def)
next
  case (Some n)
  let ?x = "make_pkt hdr data t"
  let ?w = "w\<lparr>w_save_size := w_save_size w + ucast (h_data_len hdr),
    w_list := take n (w_list w) @ ?x # drop n (w_list w)\<rparr>"
  have ok: "win_ok ?w"
    using insert_slot_ok [OF assms(2), of ?x n] Some by (simp add: make_pkt_def)
  have cong: "win_ok (?w\<lparr>w_lost_seqno := a, w_last_seqno := b, w_output_len := c\<rparr>)" for a b c
    using ok by (simp add: win_ok_def)
  have loop: "win_ok (w1\<lparr>w_last_mono_time := v\<rparr>)" "win_ok w1"
    if "merge_loop w0 0 [] = Some (w1, r)" "win_ok w0" for w0 w1 r v
    using merge_loop_ok [OF that(1)] that(2) by (simp_all add: win_ok_def)
  show ?thesis
    using assms(1) Some ok cong loop
    by (auto simp: merge_def Let_def split: if_splits bind_splits)
qed

lemma run_consecutive: "i < run_len s ps \<Longrightarrow> k_seqno (ps ! i) = s + of_nat (Suc i)"
proof (induction ps arbitrary: s i)
  case (Cons p ps)
  then show ?case by (cases i) (auto simp: add.assoc split: if_splits)
qed simp

section \<open>Examples\<close>

definition be32 :: "u8 list \<Rightarrow> u32" where
  "be32 bs = foldl (\<lambda>v b. push_bit 8 v OR ucast b) 0 (take 4 bs)"

definition be16 :: "u8 list \<Rightarrow> u16" where
  "be16 bs = foldl (\<lambda>v b. push_bit 8 v OR ucast b) 0 (take 2 bs)"

definition ex_put32 :: "u32 \<Rightarrow> u8 list" where
  "ex_put32 v = [ucast (drop_bit 24 v), ucast (drop_bit 16 v), ucast (drop_bit 8 v), ucast v]"

definition ex_put16 :: "u16 \<Rightarrow> u8 list" where
  "ex_put16 v = [ucast (drop_bit 8 v), ucast v]"

definition ex_window :: trdp_window where
  "ex_window = \<lparr>w_tsid = \<lparr>t_src_addr = 0, t_src_id = 0\<rparr>, w_last_seqno = 0, w_last_recv_seqno = 0,
     w_save_size = 0, w_output_len = 0, w_output_off = 0, w_lost_seqno = 0, w_repeat_seqno = 0,
     w_reorder_seqno = 0, w_nak_count = 0, w_last_lost = 0, w_last_repeat = 0, w_last_reorder = 0,
     w_last_nak = 0, w_last_mono_time = 0, w_output_buf = [], w_list = []\<rparr>"

definition ex_md :: md_env where
  "ex_md = \<lparr>get_u32 = be32, get_u16 = be16, push_window = ex_window\<rparr>"

definition ex_db :: trdp_db where
  "ex_db = \<lparr>d_hash = (\<lambda>_. None), d_windows = [], d_lost_list = [], d_repeat_list = [],
     d_reorder_list = [], d_nak_list = [], d_msgs_recv = 0, d_output_bytes = 0,
     d_conn = Some \<lparr>c_recv = [], c_bytes_recv = 0, c_recv_count = 0\<rparr>\<rparr>"

definition ex_hdr :: "u32 \<Rightarrow> u32 \<Rightarrow> u16 \<Rightarrow> u16 \<Rightarrow> trdp_hdr" where
  "ex_hdr seqno total_len data_len frag_num = \<lparr>h_magic = 0x88fa6923, h_src_addr = 1, h_src_id = 2,
     h_dest_addr = 3, h_pkt_type = 1, h_status = 0, h_seqno = seqno, h_total_len = total_len,
     h_data_len = data_len, h_frag_num = frag_num\<rparr>"

lemma ex_md_reads_four: "reads_four ex_md"
  by (simp add: reads_four_def ex_md_def be32_def)

text \<open>A message of nine bytes.\<close>

definition ex_frame :: "u8 list" where
  "ex_frame = [0, 0, 0, 9, 0x99, 0x55, 0xee, 0xaa, 7]"

lemma ex_frame_framed: "framed ex_md ex_frame"
  by (simp add: framed_def ex_md_def be32_def ex_frame_def)

section \<open>Properties\<close>

text \<open>
  C4: The window of a sender stays sorted by sequence number without duplicates, and its saved
  size stays the sum of the payloads in it, over every data packet that is processed.
\<close>

theorem trdp_window_invariant:
  assumes "win_ok w" "process_data md hdr payload t w db = Some (w', db')"
  shows "win_ok w'"
proof -
  have m: "win_ok w1" if "merge hdr payload t w0 = Some (w1, r)" "w_list w0 = w_list w"
    "w_save_size w0 = w_save_size w" for w0 w1 r
    using merge_ok [OF that(1)] that(2,3) assms(1) by (simp add: win_ok_def)
  show ?thesis
    using assms trdp_output_keeps output_all_keeps m
    by (auto simp: process_data_def Let_def win_ok_def split: if_splits bind_splits)
qed

theorem trdp_window_invariant_witness:
  "\<exists>w' db'. process_data ex_md (ex_hdr 9 4 2 0) [1, 2] 5
      (ex_window\<lparr>w_last_mono_time := 1, w_last_seqno := 7\<rparr>) ex_db = Some (w', db') \<and> win_ok w' \<and>
      map k_seqno (w_list w') = [9]"
proof -
  let ?w = "ex_window\<lparr>w_last_mono_time := 1, w_last_seqno := 7\<rparr>"
  have ok: "win_ok ?w" by (simp add: win_ok_def ex_window_def)
  have "map_option (\<lambda>(w, db). map k_seqno (w_list w)) (process_data ex_md (ex_hdr 9 4 2 0) [1, 2] 5 ?w ex_db) =
    Some [9]" by (simp add: process_data_def merge_def ex_window_def ex_hdr_def seqno_diff_def make_pkt_def)
  then show ?thesis using trdp_window_invariant [OF ok] by auto
qed

text \<open>
  C23: Complete packets leave the window in sequence: when the packet at its head follows the last
  one delivered, merging returns and hands out exactly the longest run of consecutive packets, in
  order, and counts the last of them as delivered.
\<close>

theorem trdp_merge_run:
  assumes "find_slot (h_seqno hdr) (w_list w) 0 = Some n" "w_list w \<noteq> []"
    and "ps = take n (w_list w) @ make_pkt hdr data t # drop n (w_list w)"
    and "k_seqno (hd ps) = w_last_seqno w + 1" "\<forall>p \<in> set ps. complete_pkt p"
  shows "\<exists>w'. merge hdr data t w = Some (w', take (run_len (w_last_seqno w) ps) ps) \<and>
    w_list w' = drop (run_len (w_last_seqno w) ps) ps \<and>
    w_last_seqno w' = w_last_seqno w + of_nat (run_len (w_last_seqno w) ps) \<and>
    (\<forall>i < run_len (w_last_seqno w) ps. k_seqno (ps ! i) = w_last_seqno w + of_nat (Suc i))"
proof -
  let ?w = "w\<lparr>w_save_size := w_save_size w + ucast (h_data_len hdr), w_list := ps\<rparr>"
  have "w_list ?w \<noteq> []" "k_seqno (hd (w_list ?w)) = w_last_seqno ?w + 1"
    "\<forall>p \<in> set (w_list ?w). complete_pkt p" using assms(3-5) by simp_all
  from merge_loop_run [OF this, of "[]"] obtain w1 where
    w1: "merge_loop ?w 0 [] = Some (w1, take (run_len (w_last_seqno w) ps) ps)"
      "w_list w1 = drop (run_len (w_last_seqno w) ps) ps"
      "w_last_seqno w1 = w_last_seqno w + of_nat (run_len (w_last_seqno w) ps)" by auto
  have "seqno_diff (k_seqno (hd ps)) (w_last_seqno w + 1) = 0" using assms(4) by (simp add: seqno_diff_def)
  then show ?thesis
    using assms(1-3) w1 run_consecutive by (auto simp: merge_def Let_def)
qed

definition ex_pkt :: "u32 \<Rightarrow> trdp_pkt" where
  "ex_pkt seqno = make_pkt (ex_hdr seqno 2 2 0) [1, 2] 0"

theorem trdp_merge_run_witness:
  "\<exists>w'. merge (ex_hdr 11 2 2 0) [3, 4] 9 (ex_window\<lparr>w_last_seqno := 10, w_list := [ex_pkt 12, ex_pkt 14]\<rparr>) =
     Some (w', [make_pkt (ex_hdr 11 2 2 0) [3, 4] 9, ex_pkt 12]) \<and> w_last_seqno w' = 12"
  using trdp_merge_run [of "ex_hdr 11 2 2 0" "ex_window\<lparr>w_last_seqno := 10, w_list := [ex_pkt 12, ex_pkt 14]\<rparr>" 0
      "[make_pkt (ex_hdr 11 2 2 0) [3, 4] 9, ex_pkt 12, ex_pkt 14]" "[3, 4]" 9]
  by (auto simp: ex_window_def ex_pkt_def make_pkt_def ex_hdr_def complete_pkt_def)

text \<open>
  C35: Merging does not return when the next packet in sequence is an incomplete fragment and the
  fragment after it is missing while a later packet waits in the window, as when the fragments of a
  message arrive out of order.
\<close>

theorem trdp_merge_hangs_on_gap:
  assumes "h_seqno hdr = w_last_seqno w + 1" "w_list w = q # qs" "h_seqno hdr < k_seqno q"
    and "k_seqno q \<noteq> h_seqno hdr + 1" "h_total_len hdr \<noteq> ucast (h_data_len hdr)"
  shows "merge hdr data t w = None"
proof -
  let ?x = "make_pkt hdr data t"
  let ?w = "w\<lparr>w_save_size := w_save_size w + ucast (h_data_len hdr), w_list := ?x # q # qs\<rparr>"
  have f: "find_slot (h_seqno hdr) (w_list w) 0 = Some 0" using assms(2,3) by auto
  have "stuck_at_head ?w"
    using assms by (simp add: stuck_at_head_def complete_pkt_def make_pkt_def)
  then have "merge_loop ?w 0 [] = None" using merge_loop_stuck [of ?w "[]"] by (cases "merge_loop ?w 0 []") auto
  moreover have "seqno_diff (k_seqno ?x) (w_last_seqno w + 1) = 0"
    using assms(1) by (simp add: seqno_diff_def make_pkt_def)
  ultimately show ?thesis using f assms(2) by (simp add: merge_def Let_def)
qed

theorem trdp_merge_hangs_on_gap_witness:
  "merge (ex_hdr 11 6 2 0) [1, 2] 9
     (ex_window\<lparr>w_last_seqno := 10, w_list := [make_pkt (ex_hdr 13 6 2 2) [5, 6] 8]\<rparr>) = None"
  by (rule trdp_merge_hangs_on_gap [where q = "make_pkt (ex_hdr 13 6 2 2) [5, 6] 8" and qs = "[]"])
    (simp_all add: ex_hdr_def make_pkt_def ex_window_def)

text \<open>
  C24: A payload of whole messages is delivered message by message, in order, and nothing else: each
  message is appended to the connection once.
\<close>

theorem trdp_output_delivers:
  assumes "reads_four md" "\<forall>m \<in> set msgs. framed md m" "msgs \<noteq> []" "w_output_len w = 0"
  shows "trdp_output md (concat msgs) w db = Some (w, fold recv_msg msgs
    (db\<lparr>d_output_bytes := d_output_bytes db + of_nat (length (concat msgs))\<rparr>))"
proof -
  have "length (concat msgs) \<ge> 8" using assms(2,3) by (cases msgs) (auto simp: framed_def)
  then show ?thesis
    using output_loop_frames [OF assms(1-3), of "[]"] assms(4) by (simp add: trdp_output_def)
qed

theorem trdp_output_delivers_witness:
  "\<exists>db'. trdp_output ex_md (ex_frame @ ex_frame) ex_window ex_db = Some (ex_window, db') \<and>
     map_option c_recv (d_conn db') = Some (ex_frame @ ex_frame) \<and> d_msgs_recv db' = 2"
  using trdp_output_delivers [of ex_md "[ex_frame, ex_frame]" ex_window ex_db]
  by (simp add: ex_md_reads_four ex_frame_framed ex_window_def ex_db_def recv_msg_def)

text \<open>
  C8: A message that is split into fragments, the first of them holding its size and magic number,
  is delivered whole when its last fragment is put out, and the window is idle again.
\<close>

theorem trdp_reassembly:
  assumes "reads_four md" "framed md (a @ concat bs)" "length (a @ concat bs) < 2 ^ 32"
    and "length a \<ge> 8" "bs \<noteq> []" "\<forall>b \<in> set bs. b \<noteq> []" "w_output_len w = 0"
  shows "\<exists>w'. output_seq md (a # bs) w db = Some (w', recv_msg (a @ concat bs)
      (db\<lparr>d_output_bytes := d_output_bytes db + of_nat (length (a @ concat bs))\<rparr>)) \<and>
    w_output_len w' = 0 \<and> w_last_seqno w' = w_last_seqno w"
proof -
  have "concat bs \<noteq> []" using assms(5,6) by (cases bs) auto
  from output_first_fragment [OF assms(1,2,4) this assms(7)]
    output_rest [OF assms(3,5,6), of md w "db\<lparr>d_output_bytes := d_output_bytes db + of_nat (length a)\<rparr>"]
  show ?thesis by (auto simp: add.assoc)
qed

theorem trdp_reassembly_witness:
  "\<exists>w' db'. output_seq ex_md [take 8 ex_frame, drop 8 ex_frame] ex_window ex_db = Some (w', db') \<and>
     map_option c_recv (d_conn db') = Some ex_frame"
  using trdp_reassembly [OF ex_md_reads_four, of "take 8 ex_frame" "[drop 8 ex_frame]" ex_window ex_db]
    ex_frame_framed
  by (auto simp: ex_frame_def ex_window_def ex_db_def recv_msg_def)

text \<open>
  C36: A payload of eight bytes or more that does not start with a message makes the receiver loop
  for ever: a wrong magic number, and equally a message size of zero.
\<close>

theorem trdp_output_hangs:
  assumes "w_output_len w = 0" "length data \<ge> 8"
    and "get_u32 md (drop 4 data) \<noteq> 0x9955eeaa \<or> get_u32 md data = 0"
  shows "trdp_output md data w db = None"
proof -
  have "output_loop md data w db' = None" for db'
    using output_loop_stuck output_loop_empty_stuck assms(2,3)
    by (cases "output_loop md data w db'") blast+
  then show ?thesis using assms(1,2) by (simp add: trdp_output_def)
qed

theorem trdp_output_hangs_witness: "trdp_output ex_md [0, 0, 0, 8, 0, 0, 0, 0] ex_window ex_db = None"
  by (rule trdp_output_hangs) (simp_all add: ex_window_def ex_md_def be32_def)

text \<open>The bytes of a data packet as a sender writes them, given big-endian writers.\<close>

definition hdr_bytes :: "(u32 \<Rightarrow> u8 list) \<Rightarrow> (u16 \<Rightarrow> u8 list) \<Rightarrow> trdp_hdr \<Rightarrow> u8 list" where
  "hdr_bytes put32 put16 h =
     put32 (h_magic h) @ put32 (h_src_addr h) @ put32 (h_src_id h) @ put32 (h_dest_addr h) @
     put16 (h_pkt_type h) @ put16 (h_status h) @ put32 (h_seqno h) @ put32 (h_total_len h) @
     put16 (h_data_len h) @ put16 (h_frag_num h)"

definition be_pair :: "md_env \<Rightarrow> (u32 \<Rightarrow> u8 list) \<Rightarrow> (u16 \<Rightarrow> u8 list) \<Rightarrow> bool" where
  "be_pair md put32 put16 \<longleftrightarrow>
     (\<forall>v r. length (put32 v) = 4 \<and> get_u32 md (put32 v @ r) = v) \<and>
     (\<forall>v r. length (put16 v) = 2 \<and> get_u16 md (put16 v @ r) = v)"

lemma ex_be_pair: "be_pair ex_md ex_put32 ex_put16"
proof -
  have "be32 (ex_put32 v @ r) = v" for v r
  proof (rule bit_word_eqI)
    fix n :: nat
    show "bit (be32 (ex_put32 v @ r)) n = bit v n" if "n < LENGTH(32)"
      using that by (cases "16 \<le> n"; cases "24 \<le> n")
        (auto simp: be32_def ex_put32_def bit_simps not_less less_diff_conv)
  qed
  moreover have "be16 (ex_put16 v @ r) = v" for v r
    by (rule bit_word_eqI) (auto simp: be16_def ex_put16_def bit_simps not_less less_diff_conv)
  ultimately show ?thesis by (simp add: be_pair_def ex_md_def ex_put32_def ex_put16_def)
qed

lemma trdp_header_rt:
  assumes "be_pair md put32 put16" "h_magic h = 0x88fa6923" "hdr_type h = 1"
  shows "copy_in md (hdr_bytes put32 put16 h @ payload) = Some h"
proof -
  have p: "length (put32 v) = 4" "get_u32 md (put32 v @ r) = v" "length (put16 u) = 2"
    "get_u16 md (put16 u @ r) = u" for v u r using assms(1) by (simp_all add: be_pair_def)
  let ?m = "hdr_bytes put32 put16 h @ payload"
  have len: "length (hdr_bytes put32 put16 h) = 32" by (simp add: hdr_bytes_def p)
  have fields: "get_u32 md ?m = h_magic h" "get_u32 md (drop 4 ?m) = h_src_addr h"
    "get_u32 md (drop 8 ?m) = h_src_id h" "get_u32 md (drop 12 ?m) = h_dest_addr h"
    "get_u16 md (drop 16 ?m) = h_pkt_type h" "get_u16 md (drop 18 ?m) = h_status h"
    "get_u32 md (drop 20 ?m) = h_seqno h" "get_u32 md (drop 24 ?m) = h_total_len h"
    "get_u16 md (drop 28 ?m) = h_data_len h" "get_u16 md (drop 30 ?m) = h_frag_num h"
    by (simp_all add: hdr_bytes_def p)
  have "unat (h_pkt_type h AND 255) = 1" using assms(3) by (simp add: hdr_type_def)
  then show ?thesis
    using assms(2) unfolding copy_in_def fields Let_def
    by (simp add: hdr_type_def TRDP_HDR_SIZE_def TRDP_DATA_HDR_SIZE_def len)
qed

text \<open>
  A data packet round trips: the header that the receiver reads from the bytes of a packet is
  the header that was written, whatever payload follows.
\<close>

lemma trdp_header_round_trip:
  assumes "be_pair md put32 put16" "h_magic h = 0x88fa6923" "hdr_type h = 1"
  shows "copy_in md (hdr_bytes put32 put16 h @ payload) = Some h"
  using assms by (rule trdp_header_rt)

lemma trdp_header_round_trip_example:
  "copy_in ex_md (hdr_bytes ex_put32 ex_put16 (ex_hdr 5 9 9 0) @ ex_frame) = Some (ex_hdr 5 9 9 0)"
  by (rule trdp_header_round_trip [OF ex_be_pair]) (simp_all add: ex_hdr_def hdr_type_def)




lemma sum_counter_seen:
  assumes "\<And>v w. cnt (set_last v w) = cnt w" "\<And>v w. last_cnt (set_last v w) = v"
    "sum_counter cnt last_cnt set_last ws = (n, srcs, ws')"
  shows "sum_counter cnt last_cnt set_last ws' = (n, [], ws')"
  using assms(3)
proof (induction ws arbitrary: n srcs ws')
  case (Cons w ws)
  obtain n1 srcs1 ws1 where s: "sum_counter cnt last_cnt set_last ws = (n1, srcs1, ws1)"
    by (metis prod_cases3)
  from Cons.IH [OF s] Cons.prems s show ?case by (auto simp: assms(1,2) split: if_splits)
qed simp

lemma sum_counter_total:
  "fst (sum_counter cnt last_cnt set_last ws) = (\<Sum>w\<leftarrow>ws. cnt w) \<and>
   fst (snd (sum_counter cnt last_cnt set_last ws)) =
     map (\<lambda>w. t_src_addr (w_tsid w)) (filter (\<lambda>w. last_cnt w < cnt w) ws)"
  by (induction ws) (auto simp: Let_def split: prod.splits)

text \<open>
  C34: Losses are reported once: the count of lost packets is the sum over the senders, the senders
  listed are those whose count grew since the last report, and a second report without new packets
  lists nobody and counts the same.
\<close>

theorem trdp_loss_reported_once:
  "fst (db_lost_seqno db) = (\<Sum>w\<leftarrow>d_windows db. w_lost_seqno w) \<and>
   d_lost_list (snd (db_lost_seqno db)) =
     map (\<lambda>w. t_src_addr (w_tsid w)) (filter (\<lambda>w. w_last_lost w < w_lost_seqno w) (d_windows db)) \<and>
   fst (db_lost_seqno (snd (db_lost_seqno db))) = fst (db_lost_seqno db) \<and>
   d_lost_list (snd (db_lost_seqno (snd (db_lost_seqno db)))) = []"
proof -
  obtain n srcs ws where s: "sum_counter w_lost_seqno w_last_lost (\<lambda>v w. w\<lparr>w_last_lost := v\<rparr>)
    (d_windows db) = (n, srcs, ws)" by (metis prod_cases3)
  have again: "sum_counter w_lost_seqno w_last_lost (\<lambda>v w. w\<lparr>w_last_lost := v\<rparr>) ws = (n, [], ws)"
    using sum_counter_seen [OF _ _ s] by simp
  show ?thesis
    using sum_counter_total [of w_lost_seqno w_last_lost "\<lambda>v w. w\<lparr>w_last_lost := v\<rparr>" "d_windows db"]
    by (simp add: db_lost_seqno_def s again)
qed



end
