(* ===== verification/Svc_Wire.thy ===== *)
theory Svc_Wire
  imports Rv_Subject
begin

text \<open>
  The message envelope that a client of the daemon sends (\<open>RvMsgIn\<close> of \<open>include/sassrv/ev_rv.h\<close> and
  \<open>src/ev_rv.cpp\<close>): the subject as it stands on the wire, the service prefix and the fields of the
  envelope.

  A subject on the wire is the number of its segments followed by the segments. A segment is its
  length, its characters and a zero byte; the length counts itself and the zero byte.
\<close>

section \<open>The subject on the wire\<close>

text \<open>
  The first loop of \<open>subject_to_string\<close>: it checks the segments and adds up the length of the
  string. \<open>None\<close> is a bad subject. The counter of segments is a byte and wraps.
\<close>

function seg_scan :: "u8 list \<Rightarrow> nat \<Rightarrow> u8 \<Rightarrow> nat \<Rightarrow> nat option" where
  "seg_scan buf j sg k =
     (if j \<ge> length buf \<or> buf ! j < 2
      then (if sg \<noteq> 0 \<or> j \<noteq> length buf then None else Some k)
      else seg_scan buf (j + unat (buf ! j)) (sg - 1) (k + (unat (buf ! j) - 2)))"
  by pat_completeness auto
termination
proof (relation "measure (\<lambda>(buf, j, sg, k). length buf - j)", goal_cases)
  case (2 buf j sg k)
  then have "j < length buf" "2 \<le> unat (buf ! j)" by (auto simp: word_le_nat_alt not_less)
  then show ?case by auto
qed simp

declare seg_scan.simps [simp del]

text \<open>A read of \<open>n\<close> bytes at \<open>i\<close>; \<open>None\<close> is a read past the end.\<close>

definition read_bytes :: "u8 list \<Rightarrow> nat \<Rightarrow> nat \<Rightarrow> u8 list option" where
  "read_bytes buf i n = (if i + n \<le> length buf then Some (take n (drop i buf)) else None)"

definition byte_char :: "u8 \<Rightarrow> char" where
  "byte_char b = char_of (unat b)"

text \<open>
  The second loop: it copies the segments, with a dot between them, and looks for wildcards.
  \<open>None\<close> is a read past the end of the field.
\<close>

function seg_copy :: "u8 list \<Rightarrow> nat \<Rightarrow> u8 \<Rightarrow> string \<Rightarrow> bool \<Rightarrow> (string \<times> bool) option" where
  "seg_copy buf j sg sub is_wild =
     (case nth_opt buf j of
        None \<Rightarrow> None
      | Some b \<Rightarrow>
          (case read_bytes buf (Suc j) (unat b - 2) of
             None \<Rightarrow> None
           | Some seg \<Rightarrow>
               let wild = is_wild \<or> unat b = 3 \<and>
                            (hd seg = 42 \<or> hd seg = 62 \<and> sg = 1);
                   sub1 = sub @ map byte_char seg
               in if sg - 1 > 0
                  then seg_copy buf (j + unat b) (sg - 1) (sub1 @ [dot]) wild
                  else Some (sub1, wild)))"
  by pat_completeness auto
termination
proof (relation "measure (\<lambda>(buf, j, sg, sub, w). if sg = 0 then 256 else unat sg)", goal_cases)
  case (2 buf j sg sub is_wild b seg wild sub1)
  then have ne: "sg - 1 \<noteq> 0" by auto
  show ?case
  proof (cases "sg = 0")
    case True
    then show ?thesis using unsigned_less [of "sg - 1", where ?'a = nat] by simp
  next
    case False
    then show ?thesis using ne by (simp add: unat_minus_one unat_gt_0)
  qed
qed simp

declare seg_copy.simps [simp del]

definition SUB_BUF_SIZE :: nat where "SUB_BUF_SIZE = 64"

datatype 'a wire_result = BadSubject | WireFault | Subject 'a

text \<open>
  \<open>subject_to_string\<close>: the string, whether it has a wildcard, and \<open>WireFault\<close> when the code reads
  past the field or writes past the buffer that it chose from the result of the first loop.
\<close>

definition subject_to_string :: "u8 list \<Rightarrow> (string \<times> bool) wire_result" where
  "subject_to_string buf =
     (if buf = [] \<or> hd buf = 0 then BadSubject
      else case seg_scan buf 1 (hd buf) (unat (hd buf) - 1) of
             None \<Rightarrow> BadSubject
           | Some k \<Rightarrow>
               if k > 0xffff then BadSubject
               else let room = (if k + 1 > SUB_BUF_SIZE then k + 1 else SUB_BUF_SIZE)
                    in (case seg_copy buf 1 (hd buf) [] False of
                          None \<Rightarrow> WireFault
                        | Some (sub, wild) \<Rightarrow>
                            if length sub + 1 > room then WireFault else Subject (sub, wild)))"

section \<open>The service prefix\<close>

text \<open>
  \<open>set_prefix\<close> fills an array of 40 characters from its end; the result is the part that is filled.
  \<open>None\<close> is a read before the start of the argument.
\<close>

fun prefix_loop :: "string \<Rightarrow> nat \<Rightarrow> nat \<Rightarrow> string \<Rightarrow> string" where
  "prefix_loop pref i 0 acc = acc"
| "prefix_loop pref i (Suc j) acc =
     (if i - 1 = 1 \<or> j = 0 then pref ! j # acc else prefix_loop pref (i - 1) j (pref ! j # acc))"

definition set_prefix :: "string \<Rightarrow> string option" where
  "set_prefix pref =
     (if pref = [] then Some []
      else let j = (if last pref = dot then length pref - 1 else length pref)
           in if j = 0 then None
              else let acc = prefix_loop pref 39 j [dot]
                   in Some (if hd pref \<noteq> CHR ''_'' then CHR ''_'' # acc else acc))"

section \<open>The envelope\<close>

text \<open>
  What the library raimd reads of a field: its name with the final zero byte, where it starts and
  ends in the message, its type, and where its data is. \<open>None\<close> is a field that does not parse.
\<close>

datatype md_type =
  MD_STRING | MD_OPAQUE | MD_MESSAGE | MD_INT | MD_UINT | MD_IPDATA | RVMSG_TYPE_ID | JSON_TYPE_ID | RAIMSG_TYPE_ID
| TIB_SASS_TYPE_ID | TIB_SASS_FORM_TYPE_ID | MARKETFEED_TYPE_ID | RWF_MSG_TYPE_ID | MD_OTHER nat

record wire_field =
  wf_name :: string
  wf_start :: nat
  wf_end :: nat
  wf_type :: md_type
  wf_ptr :: nat
  wf_size :: nat

datatype rv_status = RV_OK | ERR_RV_MSG | ERR_RV_REF | ERR_RV_MTYPE | ERR_RV_SUB | ERR_RV_FAULT

text \<open>
  \<open>mi_buf\<close> is the message, which \<open>unpack\<close> rearranges; \<open>mi_data\<close> is the type, place and size. The
  subject is in \<open>mi_sub\<close>; \<open>mi_sub_buf\<close> is the buffer for short subjects, which a long one leaves
  as it is.
\<close>

record msg_in =
  mi_buf :: "u8 list"
  mi_sub :: string
  mi_sub_buf :: string
  mi_is_wild :: bool
  mi_mtype :: u8
  mi_reply :: string
  mi_data :: "(md_type \<times> nat \<times> nat) option"
  mi_suffix_len :: nat
  mi_prefix :: string

record unpack_st =
  un_sub :: bool
  un_mtype :: bool
  un_return :: bool
  un_data :: bool
  un_suf_len :: nat
  un_pre_off :: nat
  un_pre_len :: nat
  un_data_off :: nat
  un_data_end :: nat

definition zstr :: "string \<Rightarrow> string" where
  "zstr s = s @ [CHR 0x00]"

definition field_bytes :: "u8 list \<Rightarrow> wire_field \<Rightarrow> u8 list" where
  "field_bytes buf f = take (wf_size f) (drop (wf_ptr f) buf)"

definition valid_mtype :: "u8 \<Rightarrow> bool" where
  "valid_mtype c \<longleftrightarrow> c \<in> {65, 67, 68, 73, 76, 82, 83}"

text \<open>Whether the first loop finds the subject too long for the buffer.\<close>

definition long_subject :: "u8 list \<Rightarrow> bool" where
  "long_subject buf =
     (case seg_scan buf 1 (hd buf) (unat (hd buf) - 1) of None \<Rightarrow> False | Some k \<Rightarrow> k + 1 > SUB_BUF_SIZE)"

text \<open>The four fields of the envelope; \<open>None\<close> is a field of another name.\<close>

definition match_field ::
  "wire_field \<Rightarrow> msg_in \<Rightarrow> unpack_st \<Rightarrow> (rv_status \<times> msg_in + msg_in \<times> unpack_st) option" where
  "match_field f m u =
     (if wf_name f = zstr ''sub'' then
        (case subject_to_string (field_bytes (mi_buf m) f) of
           Subject (sub, wild) \<Rightarrow>
             Some (Inr (m\<lparr>mi_sub := sub, mi_is_wild := wild,
                          mi_sub_buf := (if long_subject (field_bytes (mi_buf m) f) then mi_sub_buf m else sub)\<rparr>,
                        u\<lparr>un_sub := True\<rparr>))
         | BadSubject \<Rightarrow> Some (Inl (ERR_RV_SUB, m\<lparr>mi_sub := [], mi_sub_buf := [], mi_is_wild := False\<rparr>))
         | WireFault \<Rightarrow> Some (Inl (ERR_RV_FAULT, m)))
      else if wf_name f = zstr ''data'' then
        Some (Inr (m\<lparr>mi_data := Some (wf_type f, wf_ptr f, wf_size f)\<rparr>,
                   u\<lparr>un_data := True, un_data_off := wf_start f, un_data_end := wf_end f\<rparr>))
      else if wf_name f = zstr ''mtype'' then
        (if wf_type f = MD_STRING \<and> wf_size f = 2
         then let c = hd (field_bytes (mi_buf m) f)
              in Some (Inr (m\<lparr>mi_mtype := c\<rparr>, if valid_mtype c then u\<lparr>un_mtype := True\<rparr> else u))
         else Some (Inr (m, u)))
      else if wf_name f = zstr ''return'' then
        Some (Inr (m\<lparr>mi_reply := map byte_char
                         (take (wf_size f mod 0x10000 - 1) (field_bytes (mi_buf m) f))\<rparr>,
                   u\<lparr>un_return := True\<rparr>))
      else None)"

text \<open>A field of another name: it counts as a suffix after the data, as a prefix before it.\<close>

definition skip_field :: "wire_field \<Rightarrow> unpack_st \<Rightarrow> unpack_st" where
  "skip_field f u =
     (if un_data u then u\<lparr>un_suf_len := un_suf_len u + (wf_end f - wf_start f)\<rparr>
      else u\<lparr>un_pre_off := (if un_pre_off u = 0 then wf_start f else un_pre_off u),
             un_pre_len := un_pre_len u + (wf_end f - wf_start f)\<rparr>)"

fun unpack_fields ::
  "wire_field option list \<Rightarrow> msg_in \<Rightarrow> unpack_st \<Rightarrow> rv_status \<times> msg_in + msg_in \<times> unpack_st" where
  "unpack_fields [] m u = Inr (m, u)"
| "unpack_fields (None # fs) m u = Inl (ERR_RV_REF, m)"
| "unpack_fields (Some f # fs) m u =
     (case match_field f m u of
        Some (Inl e) \<Rightarrow> Inl e
      | Some (Inr (m', u')) \<Rightarrow> unpack_fields fs m' u'
      | None \<Rightarrow> unpack_fields fs m (skip_field f u))"

text \<open>
  Fields that stand before the data are moved behind it, so that the data and everything after it
  can be forwarded as one piece.
\<close>

definition move_prefix :: "unpack_st \<Rightarrow> msg_in \<Rightarrow> msg_in \<times> nat" where
  "move_prefix u m =
     (case mi_data m of
        Some (t, p, n) \<Rightarrow>
          if un_pre_off u + un_pre_len u = un_data_off u then
            let b = mi_buf m; data_len = un_data_end u - un_data_off u
            in (m\<lparr>mi_buf := take (un_pre_off u) b @ take data_len (drop (un_data_off u) b) @
                    take (un_pre_len u) (drop (un_pre_off u) b) @ drop (un_data_off u + data_len) b,
                  mi_data := Some (t, p - un_pre_len u, n)\<rparr>, un_suf_len u + un_pre_len u)
          else (m, un_suf_len u)
      | None \<Rightarrow> (m, un_suf_len u))"

definition set_suffix :: "unpack_st \<Rightarrow> msg_in \<Rightarrow> msg_in" where
  "set_suffix u m =
     (if un_suf_len u = 0 \<and> un_pre_len u = 0 then m
      else let (m1, suf_len) = move_prefix u m
           in (case mi_data m1 of
                 Some (t, p, n) \<Rightarrow>
                   if suf_len \<noteq> 0 \<and> p + n + suf_len = length (mi_buf m1)
                   then m1\<lparr>mi_suffix_len := suf_len\<rparr> else m1
               | None \<Rightarrow> m1))"

text \<open>
  \<open>unpack\<close>, with the fields that the library finds in the message as its argument. An early return
  leaves the members as they are at that point.
\<close>

definition unpack_init :: unpack_st where
  "unpack_init = \<lparr>un_sub = False, un_mtype = False, un_return = False, un_data = False,
     un_suf_len = 0, un_pre_off = 0, un_pre_len = 0, un_data_off = 0, un_data_end = 0\<rparr>"

definition unpack_end :: "msg_in \<Rightarrow> unpack_st \<Rightarrow> msg_in" where
  "unpack_end m u =
     (let m1 = (if un_sub u then m else m\<lparr>mi_sub := [], mi_sub_buf := []\<rparr>);
          m2 = (if un_mtype u then m1 else m1\<lparr>mi_mtype := 0\<rparr>);
          m3 = (if un_return u then m2 else m2\<lparr>mi_reply := []\<rparr>);
          m4 = m3\<lparr>mi_suffix_len := 0\<rparr>
      in if un_data u then set_suffix u m4 else m4\<lparr>mi_data := None\<rparr>)"

definition msg_unpack ::
  "(u8 list \<Rightarrow> wire_field option list option) \<Rightarrow> u8 list \<Rightarrow> msg_in \<Rightarrow> rv_status \<times> msg_in" where
  "msg_unpack unpack_rv msgbuf m =
     (case unpack_rv msgbuf of
        None \<Rightarrow> (ERR_RV_MSG, unpack_end (m\<lparr>mi_buf := msgbuf\<rparr>) unpack_init)
      | Some fs \<Rightarrow>
          (case unpack_fields fs (m\<lparr>mi_buf := msgbuf\<rparr>) unpack_init of
             Inl e \<Rightarrow> e
           | Inr (m1, u) \<Rightarrow> (if un_mtype u then RV_OK else ERR_RV_MTYPE, unpack_end m1 u)))"

section \<open>The encoding\<close>

text \<open>The reference: segments as bytes, and what their subject reads as.\<close>

definition enc_seg :: "u8 list \<Rightarrow> u8 list" where
  "enc_seg s = of_nat (length s + 2) # s @ [0]"

definition enc_subject :: "u8 list list \<Rightarrow> u8 list" where
  "enc_subject ss = of_nat (length ss) # concat (map enc_seg ss)"

fun join_segs :: "u8 list list \<Rightarrow> string" where
  "join_segs [] = []"
| "join_segs [s] = map byte_char s"
| "join_segs (s # t # ss) = map byte_char s @ dot # join_segs (t # ss)"

definition wild_segs :: "u8 list list \<Rightarrow> bool" where
  "wild_segs ss \<longleftrightarrow> [42] \<in> set ss \<or> (ss \<noteq> [] \<and> last ss = [62])"

definition segs_ok :: "u8 list list \<Rightarrow> bool" where
  "segs_ok ss \<longleftrightarrow> ss \<noteq> [] \<and> length ss < 256 \<and> (\<forall>s\<in>set ss. length s < 254)"

lemma drop_at: "drop (length xs) (xs @ ys) = ys" "length xs \<le> length (xs @ ys)"
  by simp_all

lemma seg_len: "n < 254 \<Longrightarrow> unat (of_nat (n + 2) :: u8) = n + 2"
  using unat_of_nat [of "n + 2", where ?'a = 8] by (simp only: word_size) simp

lemma seg_scan_step:
  assumes "j < length buf" "unat (buf ! j) = n + 2"
  shows "seg_scan buf j sg k = seg_scan buf (j + (n + 2)) (sg - 1) (k + n)"
  using assms by (subst seg_scan.simps) (simp add: word_less_nat_alt)

lemma seg_copy_step:
  assumes "nth_opt buf j = Some b" "unat b = n + 2" "read_bytes buf (Suc j) n = Some seg"
    and "w' = (w \<or> n = 1 \<and> (hd seg = 42 \<or> hd seg = 62 \<and> sg = 1))"
  shows "seg_copy buf j sg sub w =
    (if sg - 1 > 0 then seg_copy buf (j + (n + 2)) (sg - 1) (sub @ map byte_char seg @ [dot]) w'
     else Some (sub @ map byte_char seg, w'))"
  using assms by (subst seg_copy.simps) (simp add: Let_def eval_nat_numeral del: nth_opt_Some_iff)

lemma enc_seg_at:
  "nth_opt (pre @ enc_seg s @ post) (length pre) = Some (of_nat (length s + 2))"
  "read_bytes (pre @ enc_seg s @ post) (Suc (length pre)) (length s) = Some s"
  "length pre < length (pre @ enc_seg s @ post)"
  "(pre @ enc_seg s @ post) ! length pre = of_nat (length s + 2)"
  "length (pre @ enc_seg s) = length pre + (length s + 2)"
  by (simp_all add: enc_seg_def nth_append read_bytes_def)

lemma seg_scan_enc:
  assumes "\<forall>s\<in>set ss. length s < 254"
  shows "seg_scan (pre @ concat (map enc_seg ss)) (length pre) (of_nat (length ss)) k =
    Some (k + sum_list (map length ss))"
  using assms
proof (induction ss arbitrary: pre k)
  case (Cons s ss)
  have b: "unat (of_nat (length s + 2) :: u8) = length s + 2" using Cons.prems by (intro seg_len) simp
  let ?rest = "concat (map enc_seg ss)"
  have "seg_scan (pre @ enc_seg s @ ?rest) (length pre) (of_nat (length (s # ss))) k =
    seg_scan (pre @ enc_seg s @ ?rest) (length pre + (length s + 2)) (of_nat (length (s # ss)) - 1) (k + length s)"
    using b enc_seg_at(3,4) [of pre s ?rest] by (intro seg_scan_step) simp_all
  then show ?case using Cons.IH [of "pre @ enc_seg s" "k + length s"] Cons.prems enc_seg_at(5) [of pre s]
    by simp
qed (simp add: seg_scan.simps)

lemma seg_copy_enc:
  assumes "\<forall>s\<in>set ss. length s < 254" "ss \<noteq> []" "length ss < 256"
  shows "seg_copy (pre @ concat (map enc_seg ss)) (length pre) (of_nat (length ss)) acc w =
    Some (acc @ join_segs ss, w \<or> wild_segs ss)"
  using assms
proof (induction ss arbitrary: pre acc w)
  case (Cons s ss)
  let ?n = "of_nat (length (s # ss)) :: u8" and ?rest = "concat (map enc_seg ss)"
  have b: "unat (of_nat (length s + 2) :: u8) = length s + 2" using Cons.prems by (intro seg_len) simp
  have n: "unat ?n = length (s # ss)"
    using unat_of_nat [of "length (s # ss)", where ?'a = 8] Cons.prems(3) by simp
  have one: "?n = 1 \<longleftrightarrow> ss = []" using n by (auto simp: word_unat_eq_iff simp del: of_nat_Suc)
  have gt: "?n - 1 > 0 \<longleftrightarrow> ss \<noteq> []" unfolding one [symmetric] by (auto simp: word_gt_0 simp del: of_nat_Suc)
  have wild: "(w \<or> s = [42] \<or> s = [62] \<and> ss = []) =
      (w \<or> length s = 1 \<and> (hd s = 42 \<or> hd s = 62 \<and> ?n = 1))"
    unfolding one by (cases s) auto
  note step = seg_copy_step [OF enc_seg_at(1) b enc_seg_at(2) wild, of pre ?rest acc]
  show ?case
  proof (cases ss)
    case Nil
    then show ?thesis using step gt by (auto simp: wild_segs_def simp del: of_nat_Suc)
  next
    case tl: (Cons t ts)
    have "seg_copy (pre @ enc_seg s @ ?rest) (length pre) ?n acc w =
      seg_copy ((pre @ enc_seg s) @ ?rest) (length (pre @ enc_seg s)) (of_nat (length ss))
        (acc @ map byte_char s @ [dot]) (w \<or> s = [42])"
      using step gt tl enc_seg_at(5) [of pre s] by simp
    also have "\<dots> = Some ((acc @ map byte_char s @ [dot]) @ join_segs ss, (w \<or> s = [42]) \<or> wild_segs ss)"
      using Cons.IH [of "pre @ enc_seg s"] Cons.prems tl by simp
    finally show ?thesis using tl by (auto simp: wild_segs_def)
  qed
qed simp

lemma length_join_segs: "ss \<noteq> [] \<Longrightarrow> length (join_segs ss) = sum_list (map length ss) + (length ss - 1)"
  by (induction ss rule: join_segs.induct) auto

lemma seg_scan_mono: "seg_scan buf j sg k = Some k' \<Longrightarrow> k \<le> k' \<and> j \<le> length buf"
proof (induction buf j sg k rule: seg_scan.induct)
  case (1 buf j sg k)
  then show ?case
    by (cases "j \<ge> length buf \<or> buf ! j < 2")
      (auto simp: seg_scan.simps [of buf j sg k] split: if_splits)
qed

text \<open>Whatever the field holds, the second loop stays inside what the first one has checked.\<close>

lemma seg_copy_in_bounds:
  assumes "seg_scan buf j sg k = Some k'" "sg \<noteq> 0"
  shows "\<exists>r v. seg_copy buf j sg sub w = Some (r, v) \<and>
    length r + k \<le> length sub + k' + (unat sg - 1)"
  using assms
proof (induction buf j sg k arbitrary: sub w rule: seg_scan.induct)
  case (1 buf j sg k)
  have j: "j < length buf" "\<not> buf ! j < 2"
    using "1.prems" by (auto simp: seg_scan.simps [of buf j sg k] split: if_splits)
  then have "2 \<le> unat (buf ! j)" by (simp add: word_less_nat_alt)
  then obtain n where n: "unat (buf ! j) = n + 2" by (metis add.commute le_add_diff_inverse)
  have rest: "seg_scan buf (j + (n + 2)) (sg - 1) (k + n) = Some k'"
    using "1.prems"(1) seg_scan_step [OF j(1) n, of sg k] by simp
  note le = seg_scan_mono [OF this]
  let ?seg = "take n (drop (Suc j) buf)"
  define v where "v = (w \<or> n = 1 \<and> (hd ?seg = 42 \<or> hd ?seg = 62 \<and> sg = 1))"
  have rd: "read_bytes buf (Suc j) n = Some ?seg" using le by (simp add: read_bytes_def)
  have "nth_opt buf j = Some (buf ! j)" using j by simp
  note step = seg_copy_step [OF this n rd v_def, of sub]
  have len: "length ?seg = n" using le by auto
  show ?case
  proof (cases "sg - 1 > 0")
    case False
    then show ?thesis using step len le by simp
  next
    case True
    have "unat (sg - 1) = unat sg - 1" using "1.prems"(2) by (simp add: unat_minus_one)
    moreover have "unat (sg - 1) > 0" using True by (simp add: word_gt_0 unat_gt_0)
    moreover obtain r u where "seg_copy buf (j + (n + 2)) (sg - 1) (sub @ map byte_char ?seg @ [dot]) v = Some (r, u)"
      "length r + (k + n) \<le> length (sub @ map byte_char ?seg @ [dot]) + k' + (unat (sg - 1) - 1)"
      using "1.IH" [of "sub @ map byte_char ?seg @ [dot]" v] j rest n True by (auto simp: word_gt_0)
    ultimately show ?thesis using step True len by auto
  qed
qed

lemma enc_subject_read:
  assumes "segs_ok ss"
  shows "seg_scan (enc_subject ss) 1 (of_nat (length ss)) (length ss - 1) =
      Some (length ss - 1 + sum_list (map length ss))"
    "seg_copy (enc_subject ss) 1 (of_nat (length ss)) [] False = Some (join_segs ss, wild_segs ss)"
    "hd (enc_subject ss) = of_nat (length ss)" "(of_nat (length ss) :: u8) \<noteq> 0"
    "unat (of_nat (length ss) :: u8) = length ss"
proof -
  have ok: "ss \<noteq> []" "length ss < 256" "\<forall>s\<in>set ss. length s < 254" using assms by (auto simp: segs_ok_def)
  show n: "unat (of_nat (length ss) :: u8) = length ss"
    using unat_of_nat [of "length ss", where ?'a = 8] ok(2) by simp
  then show "(of_nat (length ss) :: u8) \<noteq> 0" using ok(1) by (metis length_0_conv unat_0)
  show "seg_scan (enc_subject ss) 1 (of_nat (length ss)) (length ss - 1) =
      Some (length ss - 1 + sum_list (map length ss))"
    using seg_scan_enc [OF ok(3), of "[of_nat (length ss)]"] by (simp add: enc_subject_def)
  show "seg_copy (enc_subject ss) 1 (of_nat (length ss)) [] False = Some (join_segs ss, wild_segs ss)"
    using seg_copy_enc [OF ok(3,1,2), of "[of_nat (length ss)]" "[]" False] by (simp add: enc_subject_def)
qed (simp add: enc_subject_def)

section \<open>Properties\<close>

text \<open>
  C15: Reading a subject is the inverse of its encoding: the segments joined by dots, with a wildcard
  exactly when a segment is \<open>*\<close> or the last one is \<open>>\<close>.
\<close>

theorem subject_round_trip:
  assumes "segs_ok ss" and "sum_list (map length ss) + (length ss - 1) \<le> 0xffff"
  shows "subject_to_string (enc_subject ss) = Subject (join_segs ss, wild_segs ss)"
proof -
  have "ss \<noteq> []" using assms(1) by (simp add: segs_ok_def)
  then show ?thesis
    using assms(2) enc_subject_read [OF assms(1)] length_join_segs [of ss]
    by (auto simp: subject_to_string_def Let_def enc_subject_def [of ss] add.commute)
qed

theorem subject_round_trip_witness:
  "subject_to_string [3, 4, 70, 68, 0, 3, 42, 0, 3, 62, 0] = Subject (''FD.*.>'', True)"
proof -
  have "subject_to_string (enc_subject [[70, 68], [42], [62]]) = Subject (join_segs [[70, 68], [42], [62]], True)"
    using subject_round_trip [of "[[70, 68], [42], [62]]"] by (simp add: segs_ok_def wild_segs_def)
  then show ?thesis by (simp add: enc_subject_def enc_seg_def byte_char_def char_of_def bit_simps)
qed

text \<open>
  C26: No subject field, however malformed, makes the code read past the field or write past the
  buffer it chose for the string.
\<close>

theorem subject_in_bounds: "subject_to_string buf \<noteq> WireFault"
proof (cases "buf = [] \<or> hd buf = 0 \<or> seg_scan buf 1 (hd buf) (unat (hd buf) - 1) = None")
  case True
  then show ?thesis by (auto simp: subject_to_string_def)
next
  case False
  then obtain k where k: "seg_scan buf 1 (hd buf) (unat (hd buf) - 1) = Some k" "hd buf \<noteq> 0" "buf \<noteq> []" by auto
  obtain r v where "seg_copy buf 1 (hd buf) [] False = Some (r, v)" "length r \<le> k"
    using seg_copy_in_bounds [OF k(1,2), of "[]" False] by auto
  then show ?thesis using k by (simp add: subject_to_string_def Let_def)
qed

section \<open>The rest of the envelope\<close>

lemma prefix_loop_take: "j \<le> i - 1 \<Longrightarrow> prefix_loop pref i j acc = map ((!) pref) [0..<j] @ acc"
proof (induction j arbitrary: i acc)
  case (Suc j)
  have "prefix_loop pref (i - 1) j (pref ! j # acc) = map ((!) pref) [0..<j] @ pref ! j # acc"
    using Suc.prems by (intro Suc.IH) simp
  then show ?case using Suc.prems by auto
qed simp

lemma set_prefix_service:
  assumes "svc \<noteq> []" "last svc \<noteq> dot" "hd svc \<noteq> CHR ''_''" "length svc \<le> 38"
  shows "set_prefix svc = Some (CHR ''_'' # svc @ [dot])"
  using assms prefix_loop_take [of "length svc" 39 svc "[dot]"]
  by (simp add: set_prefix_def Let_def map_nth)

text \<open>
  The data of a message survives the move of the fields before it.
\<close>

definition data_in_field :: "unpack_st \<Rightarrow> msg_in \<Rightarrow> bool" where
  "data_in_field u m \<longleftrightarrow>
     (\<exists>t p n. mi_data m = Some (t, p, n) \<and> un_pre_off u \<le> un_data_off u \<and> un_data_off u \<le> p \<and>
        p + n \<le> un_data_end u \<and> un_data_end u \<le> length (mi_buf m))"

definition data_bytes :: "msg_in \<Rightarrow> u8 list" where
  "data_bytes m = (case mi_data m of None \<Rightarrow> [] | Some (t, p, n) \<Rightarrow> take n (drop p (mi_buf m)))"

lemma drop_take_window:
  assumes "o1 \<le> p" "p + n \<le> e" "e \<le> length b"
  shows "take n (drop (p - o1) (take (e - o1) (drop o1 b) @ rest)) = take n (drop p b)"
  using assms by (simp add: drop_take take_take min_absorb1)

lemma take_drop_join: "take k (drop q b) @ drop (q + k) b = drop q b"
  using append_take_drop_id [of k "drop q b"] by (simp add: add.commute)

lemma move_prefix_data:
  assumes "data_in_field u m"
  shows "data_bytes (fst (move_prefix u m)) = data_bytes m \<and>
    mset (mi_buf (fst (move_prefix u m))) = mset (mi_buf m)"
proof -
  obtain t p n where d: "mi_data m = Some (t, p, n)" "un_pre_off u \<le> un_data_off u"
    "un_data_off u \<le> p" "p + n \<le> un_data_end u" "un_data_end u \<le> length (mi_buf m)"
    using assms by (auto simp: data_in_field_def)
  show ?thesis
  proof (cases "un_pre_off u + un_pre_len u = un_data_off u")
    case False
    then show ?thesis using d(1) by (simp add: move_prefix_def)
  next
    case True
    let ?b = "mi_buf m" and ?o = "un_pre_off u" and ?l = "un_pre_len u" and ?e = "un_data_end u"
    have "drop (p - ?l) (take ?o ?b @ xs) = drop (p - un_data_off u) xs" for xs
    proof -
      have "length (take ?o ?b) = ?o" "p - ?l = ?o + (p - un_data_off u)" using d True by auto
      then show ?thesis by simp
    qed
    then have "data_bytes (fst (move_prefix u m)) = data_bytes m"
      using d True drop_take_window [OF d(3-5)]
      by (simp add: move_prefix_def data_bytes_def Let_def)
    moreover have "mset (mi_buf (fst (move_prefix u m))) = mset ?b"
    proof -
      have "take ?o ?b @ take ?l (drop ?o ?b) @ take (?e - un_data_off u) (drop (un_data_off u) ?b) @
          drop (un_data_off u + (?e - un_data_off u)) ?b = ?b"
        unfolding take_drop_join True [symmetric] by simp
      from arg_cong [OF this, of mset] show ?thesis
        using d(1) True by (simp add: move_prefix_def Let_def ac_simps)
    qed
    ultimately show ?thesis by simp
  qed
qed

end
