(* ===== verification/Svc_Host.thy ===== *)
theory Svc_Host
  imports Svc_Wire
begin

text \<open>
  The hosts of the daemon (\<open>RvHost\<close>, \<open>RvHostDB\<close>, \<open>RvMcast\<close>, \<open>RvDaemonRpc\<close> of
  \<open>include/sassrv/rv_host.h\<close> and \<open>src/rv_host.cpp\<close>): one host for each service number, shared by
  the client connections of that service. This theory has the state of the daemon and the operations
  that do not involve a connection: names, networks, the reference counts of the shared session and
  the reports of lost messages.

  Tables of the library (\<open>RouteVec\<close>) are lists in the order in which the library visits them.
\<close>

section \<open>Outside the program\<close>

text \<open>
  The libraries: hashes, number formatting, the conversion of a wildcard to a pattern (its prefix
  length, and the compiled expression of type \<open>'r\<close>), the counts of equal hashes that a table
  returns with a lookup, the host lookups of the operating system, the fields of messages, what the
  library recognises in the bytes of a message (\<open>is_rvmsg\<close>, \<open>is_tibmsg\<close> or \<open>is_tibsassmsg\<close>,
  \<open>is_msg_type\<close>, \<open>opaque_extract\<close>), its conversion of JSON, and the encoding of a message for a client
  (from its type, subject, reply and layout of the data: the length of the header, or \<open>None\<close> when it can not be
  encoded).
\<close>

datatype msg_layout = DataMsg | DataField md_type | DataSub string md_type | NoData

record 'r svc_env =
  se_crc :: "string \<Rightarrow> u32 \<Rightarrow> u32"
  se_hexchar :: "u32 \<Rightarrow> char"
  se_dec :: "u32 \<Rightarrow> string"
  se_max_loss :: u32
  se_pub_restart :: u32
  se_convert_rv :: "string \<Rightarrow> nat option"
  se_prefix_seed :: "nat \<Rightarrow> u32"
  se_compile :: "string \<Rightarrow> 'r option"
  se_match :: "'r \<Rightarrow> string \<Rightarrow> bool"
  se_upsert_hcnt :: "(u32 \<times> string) list \<Rightarrow> u32 \<Rightarrow> string \<Rightarrow> nat"
  se_find_hcnt :: "(u32 \<times> string) list \<Rightarrow> u32 \<Rightarrow> string \<Rightarrow> nat"
  se_lookup_ip4 :: "string \<Rightarrow> u32"
  se_lookup_ip4_mask :: "string \<Rightarrow> u32 \<times> u32"
  se_lookup_dev :: "string \<Rightarrow> u32 \<times> u32"
  se_scan_dev :: "u32 \<times> u32"
  se_hostname :: "string option"
  se_unpack_rv :: "u8 list \<Rightarrow> wire_field option list option"
  se_version :: string
  se_be32 :: "u8 list \<Rightarrow> u32"
  se_highwater :: nat
  se_max_userid :: nat
  se_max_session :: nat
  se_subject_ok :: "string \<Rightarrow> bool"
  se_is_rvmsg :: "u8 list \<Rightarrow> bool"
  se_is_tib :: "u8 list \<Rightarrow> bool"
  se_msg_type :: "u8 list \<Rightarrow> md_type option"
  se_opaque :: "u8 list \<Rightarrow> nat \<Rightarrow> nat \<Rightarrow> (md_type \<times> nat \<times> nat) option"
  se_json :: "u8 list \<Rightarrow> u8 list option"
  se_encode :: "string \<Rightarrow> string \<Rightarrow> string \<Rightarrow> msg_layout \<Rightarrow> nat \<Rightarrow> nat option"

section \<open>Data\<close>

datatype host_error =
  HOST_OK | ERR_GETHOSTNAME_FAILED | ERR_NO_INTERFACE_FOUND | ERR_HOSTNAME_NOT_FOUND
| ERR_SAME_SVC_TWO_NETS | ERR_NETWORK_NOT_FOUND | ERR_BAD_SERVICE_NUM | ERR_BAD_PARAMETERS
| ERR_START_HOST_FAILED

record host_net =
  hn_service :: string
  hn_network :: string
  hn_ipport :: u16
  hn_prefix :: bool

record mcast =
  mc_host_ip :: u32
  mc_netmask :: u32
  mc_send_ip :: u32
  mc_recv_ip :: "u32 list"
  mc_fake_ip :: u32

definition mcast_zero :: mcast where
  "mcast_zero = \<lparr>mc_host_ip = 0, mc_netmask = 0, mc_send_ip = 0, mc_recv_ip = [], mc_fake_ip = 0\<rparr>"

record host_stat =
  st_time_ns :: u64
  st_ms :: u64
  st_bs :: u64
  st_mr :: u64
  st_br :: u64
  st_ps :: u64
  st_pr :: u64
  st_rx :: u64
  st_pm :: u64
  st_idl :: u64
  st_odl :: u64

definition stat_zero :: host_stat where
  "stat_zero = \<lparr>st_time_ns = 0, st_ms = 0, st_bs = 0, st_mr = 0, st_br = 0, st_ps = 0, st_pr = 0,
     st_rx = 0, st_pm = 0, st_idl = 0, st_odl = 0\<rparr>"

record loss_elem =
  le_hash :: u32
  le_value :: string
  le_msg_loss :: u32
  le_restart :: u32
  le_pub_msg_loss :: u32
  le_pub_restart :: u32
  le_pub_host :: u32
  le_pub_host_id :: string

record pub_loss =
  pl_fd :: nat
  pl_queue :: "loss_elem list option"

record loss_array =
  la_ptr :: "pub_loss option list"
  la_status :: "u32 list"
  la_events :: u32
  la_refs :: u32

definition loss_array_new :: loss_array where
  "loss_array_new = \<lparr>la_ptr = [], la_status = [0, 0, 0, 0], la_events = 0, la_refs = 0\<rparr>"

text \<open>A subject of the shared session: hash, name and count.\<close>

record daemon_sub =
  ds_hash :: u32
  ds_value :: string
  ds_refcnt :: u32

record rvd_host =
  rh_service :: string
  rh_network :: string
  rh_session_ip :: string
  rh_sess_ip :: string
  rh_daemon_id :: string
  rh_host_id :: string
  rh_ver :: string
  rh_service_num :: u16
  rh_http_port :: u16
  rh_http_addr :: u32
  rh_host_ip :: u32
  rh_ipport :: u16
  rh_network_started :: bool
  rh_daemon_subscribed :: bool
  rh_start_in_progress :: bool
  rh_has_prefix :: bool
  rh_host_started :: bool
  rh_in_poll :: bool
  rh_stat :: host_stat
  rh_prev0 :: host_stat
  rh_prev1 :: host_stat
  rh_other :: "u64 \<times> u64 \<times> u64 \<times> u64"
  rh_start_stamp :: u64
  rh_active_clients :: u64
  rh_last_session_us :: u64
  rh_timer_id :: u64
  rh_status_timer :: u64
  rh_delay_timer :: u64
  rh_loss_timer :: u64
  rh_rpc :: "nat option"
  rh_mcast :: mcast
  rh_loss :: loss_array
  rh_sub_map :: "daemon_sub list"
  rh_outbound_sub :: string
  rh_inbound_sub :: string

record daemon_rpc =
  rp_buf :: string
  rp_hash :: u32
  rp_refs :: u32
  rp_svc :: u16
  rp_in_poll :: bool

section \<open>Numbers and names\<close>

text \<open>The bytes of an address in network order, on a little endian machine.\<close>

definition ip_bytes :: "u32 \<Rightarrow> u32 list" where
  "ip_bytes ip = map (\<lambda>i. drop_bit (8 * i) ip AND 255) [0..<4]"

fun ip4_digits :: "(u32 \<Rightarrow> string) \<Rightarrow> u32 list \<Rightarrow> string" where
  "ip4_digits dec [] = []"
| "ip4_digits dec [q] = dec q"
| "ip4_digits dec (q # r # qs) = dec q @ dot # ip4_digits dec (r # qs)"

definition ip4_string :: "'r svc_env \<Rightarrow> u32 \<Rightarrow> string" where
  "ip4_string E ip = ip4_digits (se_dec E) (ip_bytes ip)"

definition ip4_hex_string :: "'r svc_env \<Rightarrow> u32 \<Rightarrow> string" where
  "ip4_hex_string E ip =
     concat (map (\<lambda>q. [se_hexchar E (drop_bit 4 q AND 15), se_hexchar E (q AND 15)]) (ip_bytes ip))"

text \<open>
  \<open>utime_to_str\<close>: the first loop finds the number of digits, the second prints from the first. A
  shift by 64, which C++ leaves open, would need a time of \<open>2 ^ 60\<close> microseconds; the callers pass
  nanoseconds divided by 1000.
\<close>

function hex_width :: "u64 \<Rightarrow> nat \<Rightarrow> nat" where
  "hex_width us j = (if j < 64 \<and> drop_bit j us \<noteq> 0 then hex_width us (j + 4) else j)"
  by pat_completeness auto
termination by (relation "measure (\<lambda>(us, j). 64 - j)") auto

declare hex_width.simps [simp del]

function hex_print :: "'r svc_env \<Rightarrow> u64 \<Rightarrow> nat \<Rightarrow> string" where
  "hex_print E us j =
     (if j > 0 then se_hexchar E (ucast (drop_bit (j - 4) us AND 15)) # hex_print E us (j - 4) else [])"
  by pat_completeness auto
termination by (relation "measure (\<lambda>(E, us, j). j)") auto

declare hex_print.simps [simp del]

definition utime_to_str :: "'r svc_env \<Rightarrow> u64 \<Rightarrow> string" where
  "utime_to_str E us = hex_print E us (hex_width us 0)"

definition time_to_str :: "'r svc_env \<Rightarrow> u64 \<Rightarrow> string" where
  "time_to_str E ns = utime_to_str E (ns div 1000)"

definition make_session :: "'r svc_env \<Rightarrow> u64 \<Rightarrow> rvd_host \<Rightarrow> string \<times> rvd_host" where
  "make_session E ns h =
     (let us = ns div 1000;
          us' = (if us \<le> rh_last_session_us h then rh_last_session_us h + 1 else us)
      in (rh_session_ip h @ dot # utime_to_str E us', h\<lparr>rh_last_session_us := us'\<rparr>))"

text \<open>\<open>atoi\<close> of the C library, on the digits that fit an \<open>int\<close>.\<close>

definition digit_val :: "char \<Rightarrow> int" where
  "digit_val c = of_char c - 48"

definition is_space :: "char \<Rightarrow> bool" where
  "is_space c \<longleftrightarrow> c = CHR '' '' \<or> (9 \<le> (of_char c :: nat) \<and> (of_char c :: nat) \<le> 13)"

definition c_atoi :: "string \<Rightarrow> int" where
  "c_atoi s =
     (let t = dropWhile is_space s;
          neg = (t \<noteq> [] \<and> hd t = CHR ''-'');
          u = (if t \<noteq> [] \<and> (hd t = CHR ''-'' \<or> hd t = CHR ''+'') then tl t else t);
          n = foldl (\<lambda>a c. a * 10 + digit_val c) 0 (takeWhile is_digit u)
      in if neg then - n else n)"

text \<open>\<open>RvHostNet( svc, port, pre )\<close>: the service number in decimal.\<close>

definition svc_digits :: "u16 \<Rightarrow> string" where
  "svc_digits svc =
     (let n = unat svc
      in map (\<lambda>d. char_of (48 + (n div d) mod 10 :: nat)) (filter (\<lambda>d. n \<ge> d) [10000, 1000, 100, 10])
         @ [char_of (48 + n mod 10 :: nat)])"

section \<open>Networks\<close>

definition NUL :: char where "NUL = CHR 0x00"

text \<open>A null pointer is the empty string here, which \<open>is_empty_string\<close> treats alike.\<close>

definition is_empty_string :: "string \<Rightarrow> bool" where
  "is_empty_string s \<longleftrightarrow> dropWhile is_space s = []"

text \<open>Cut at the first \<open>c\<close>: the part before it, and the part after it when there is one.\<close>

definition cut_at :: "char \<Rightarrow> string \<Rightarrow> string \<times> string option" where
  "cut_at c s =
     (takeWhile (\<lambda>x. x \<noteq> c) s,
      if c \<in> set s then Some (tl (dropWhile (\<lambda>x. x \<noteq> c) s)) else None)"

definition MAX_RECV_MCAST :: nat where "MAX_RECV_MCAST = 59"

fun split_recv :: "nat \<Rightarrow> string \<Rightarrow> string list" where
  "split_recv 0 s = [s]"
| "split_recv (Suc n) s =
     (case cut_at (CHR '','') s of (a, None) \<Rightarrow> [a] | (a, Some b) \<Rightarrow> a # split_recv n b)"

definition zero_ip :: string where "zero_ip = ''0.0.0.0''"

text \<open>The parts of a network string: interface, receive addresses, send address.\<close>

definition network_parts :: "string \<Rightarrow> string \<times> string list \<times> string" where
  "network_parts network =
     (let tmp = takeWhile (\<lambda>c. c \<noteq> NUL) (take 4095 network);
          (net, rest) = cut_at (CHR '';'') (dropWhile is_space tmp);
          (recv, send) = (case rest of None \<Rightarrow> ([], None) | Some r \<Rightarrow>
                            (case cut_at (CHR '';'') r of (a, b) \<Rightarrow> (split_recv (MAX_RECV_MCAST - 1) a, b)));
          recv1 = (if recv = [] \<or> (length recv = 1 \<and> is_empty_string (hd recv)) then [zero_ip] else recv);
          send0 = (case send of None \<Rightarrow> [] | Some x \<Rightarrow> x);
          send1 = (if is_empty_string send0 then hd recv1 else send0)
      in (net, recv1, send1))"

definition host_address :: "'r svc_env \<Rightarrow> string \<Rightarrow> (u32 \<times> u32) option" where
  "host_address E net =
     (if is_empty_string net
      then map_option (\<lambda>host. let (ip, netm) = se_lookup_ip4_mask E host
                              in if ip = 0 then se_scan_dev E else (ip, netm)) (se_hostname E)
      else Some (let (ip, netm) = se_lookup_dev E net
                 in if ip = 0 then se_lookup_ip4_mask E net else (ip, netm)))"

definition parse_network :: "'r svc_env \<Rightarrow> string \<Rightarrow> host_error \<times> mcast" where
  "parse_network E network =
     (let (net, recv, send) = network_parts network;
          send_ip = se_lookup_ip4 E send;
          recv_ip = map (se_lookup_ip4 E) recv;
          status1 = (if (send_ip = 0 \<and> send \<noteq> zero_ip) \<or>
                        (\<exists>r\<in>set recv. se_lookup_ip4 E r = 0 \<and> r \<noteq> zero_ip)
                     then ERR_NETWORK_NOT_FOUND else HOST_OK);
          (status2, ip, netm) = (case host_address E net of
                                   Some (ip, netm) \<Rightarrow> (status1, ip, netm)
                                 | None \<Rightarrow> (ERR_GETHOSTNAME_FAILED, 0, 0))
      in (if status2 = HOST_OK \<and> ip = 0 then ERR_NO_INTERFACE_FOUND else status2,
          \<lparr>mc_host_ip = ip, mc_netmask = netm, mc_send_ip = send_ip, mc_recv_ip = recv_ip,
           mc_fake_ip = 0\<rparr>))"

definition is_same_network :: "host_net \<Rightarrow> rvd_host \<Rightarrow> bool" where
  "is_same_network hn h \<longleftrightarrow> rh_network h = hn_network hn \<and> rh_service h = hn_service hn"

definition MAX_RV_NETWORK_LEN :: nat where "MAX_RV_NETWORK_LEN = 1680"
definition MAX_RV_SERVICE_LEN :: nat where "MAX_RV_SERVICE_LEN = 32"

definition host_copy :: "host_net \<Rightarrow> rvd_host \<Rightarrow> rvd_host option" where
  "host_copy hn h =
     (if length (hn_service hn) + 1 > MAX_RV_SERVICE_LEN \<or> length (hn_network hn) + 1 > MAX_RV_NETWORK_LEN
      then None
      else Some (h\<lparr>rh_service := hn_service hn, rh_network := hn_network hn\<rparr>))"

definition zero_stats :: "u64 \<Rightarrow> rvd_host \<Rightarrow> rvd_host" where
  "zero_stats now h =
     h\<lparr>rh_stat := stat_zero\<lparr>st_time_ns := now\<rparr>, rh_prev0 := stat_zero, rh_prev1 := stat_zero,
       rh_start_stamp := now\<rparr>"

section \<open>Host objects\<close>

definition svc_prefix :: "rvd_host \<Rightarrow> string" where
  "svc_prefix h = (if rh_has_prefix h then CHR ''_'' # rh_service h @ [dot] else [])"

definition dataloss_out :: string where
  "dataloss_out = ''_RV.ERROR.SYSTEM.DATALOSS.OUTBOUND.BCAST''"
definition dataloss_inb :: string where
  "dataloss_inb = ''_RV.ERROR.SYSTEM.DATALOSS.INBOUND.BCAST''"

definition MAX_RV_VER_LEN :: nat where "MAX_RV_VER_LEN = 24"

text \<open>The constructor; the service number is the low half of what \<open>atoi\<close> returns.\<close>

definition host_new :: "'r svc_env \<Rightarrow> host_net \<Rightarrow> rvd_host" where
  "host_new E hn =
     (let pre = (if hn_prefix hn then CHR ''_'' # hn_service hn @ [dot] else [])
      in \<lparr>rh_service = hn_service hn, rh_network = [], rh_session_ip = [], rh_sess_ip = [],
          rh_daemon_id = [], rh_host_id = [], rh_ver = take (MAX_RV_VER_LEN - 1) (se_version E),
          rh_service_num = of_int (c_atoi (hn_service hn)), rh_http_port = 0, rh_http_addr = 0,
          rh_host_ip = 0, rh_ipport = hn_ipport hn, rh_network_started = False,
          rh_daemon_subscribed = False, rh_start_in_progress = False, rh_has_prefix = hn_prefix hn,
          rh_host_started = False, rh_in_poll = False, rh_stat = stat_zero, rh_prev0 = stat_zero,
          rh_prev1 = stat_zero, rh_other = (0, 0, 0, 0), rh_start_stamp = 0, rh_active_clients = 0,
          rh_last_session_us = 0, rh_timer_id = 0, rh_status_timer = 0, rh_delay_timer = 0,
          rh_loss_timer = 0, rh_rpc = None, rh_mcast = mcast_zero, rh_loss = loss_array_new,
          rh_sub_map = [], rh_outbound_sub = pre @ dataloss_out, rh_inbound_sub = pre @ dataloss_inb\<rparr>)"

text \<open>\<open>RvHostDB::get_service\<close>: the index of the host.\<close>

definition get_service :: "string \<Rightarrow> rvd_host list \<Rightarrow> nat option" where
  "get_service service hs = find (\<lambda>i. rh_service (hs ! i) = service) [0..<length hs]"

definition start_service :: "'r svc_env \<Rightarrow> host_net \<Rightarrow> rvd_host list \<Rightarrow> host_error \<times> nat \<times> rvd_host list" where
  "start_service E hn hs =
     (case get_service (hn_service hn) hs of
        None \<Rightarrow> (HOST_OK, length hs, hs @ [host_new E hn])
      | Some i \<Rightarrow>
          let h = hs ! i;
              h1 = (if hn_ipport hn \<noteq> 0 \<and> rh_ipport h = 0 then h\<lparr>rh_ipport := hn_ipport hn\<rparr> else h)
          in (if hn_prefix hn \<noteq> rh_has_prefix h then ERR_BAD_SERVICE_NUM else HOST_OK, i, hs[i := h1]))"

section \<open>The daemon inbox\<close>

definition daemon_ibx :: "rvd_host \<Rightarrow> string" where
  "daemon_ibx h = svc_prefix h @ ''_INBOX.'' @ rh_session_ip h @ ''.DAEMON''"

definition rpc_new :: "'r svc_env \<Rightarrow> rvd_host \<Rightarrow> daemon_rpc" where
  "rpc_new E h = \<lparr>rp_buf = daemon_ibx h, rp_hash = se_crc E (daemon_ibx h) 0, rp_refs = 0,
     rp_svc = rh_service_num h, rp_in_poll = False\<rparr>"

definition find_rpc :: "'r svc_env \<Rightarrow> string \<Rightarrow> daemon_rpc list \<Rightarrow> nat option" where
  "find_rpc E ibx rs = find (\<lambda>i. rp_hash (rs ! i) = se_crc E ibx 0 \<and> rp_buf (rs ! i) = ibx) [0..<length rs]"

definition start_daemon :: "'r svc_env \<Rightarrow> rvd_host \<Rightarrow> daemon_rpc list \<Rightarrow> rvd_host \<times> daemon_rpc list" where
  "start_daemon E h rs =
     (case find_rpc E (daemon_ibx h) rs of
        Some i \<Rightarrow> (h\<lparr>rh_rpc := Some i\<rparr>, rs)
      | None \<Rightarrow> (h\<lparr>rh_rpc := Some (length rs)\<rparr>, rs @ [rpc_new E h]))"

definition copy_network ::
  "'r svc_env \<Rightarrow> mcast \<Rightarrow> host_net \<Rightarrow> rvd_host \<Rightarrow> daemon_rpc list \<Rightarrow> host_error \<times> rvd_host \<times> daemon_rpc list" where
  "copy_network E mc hn h rs =
     (case host_copy hn h of
        None \<Rightarrow> (ERR_BAD_PARAMETERS, h, rs)
      | Some h1 \<Rightarrow>
          let n = c_atoi (rh_service h1)
          in if n \<le> 0 \<or> n > 0xffff then (ERR_BAD_SERVICE_NUM, h1, rs)
             else
               let ip = (if mc_fake_ip mc \<noteq> 0 then mc_fake_ip mc else mc_host_ip mc);
                   hex = ip4_hex_string E ip;
                   h2 = h1\<lparr>rh_service_num := of_int n, rh_host_ip := ip, rh_mcast := mc,
                           rh_session_ip := hex, rh_sess_ip := ip4_string E ip,
                           rh_daemon_id := hex @ ''.DAEMON.'' @ time_to_str E (rh_start_stamp h1)\<rparr>;
                   (h3, rs1) = start_daemon E h2 rs
               in (HOST_OK, h3, rs1))"

definition start_network ::
  "'r svc_env \<Rightarrow> u64 \<Rightarrow> mcast \<Rightarrow> host_net \<Rightarrow> rvd_host \<Rightarrow> daemon_rpc list \<Rightarrow> host_error \<times> rvd_host \<times> daemon_rpc list" where
  "start_network E now mc hn h rs =
     (if rh_network_started h then
        (if is_same_network hn h then (HOST_OK, h, rs) else (ERR_SAME_SVC_TWO_NETS, h, rs))
      else copy_network E mc hn (zero_stats now h) rs)"

definition check_network ::
  "'r svc_env \<Rightarrow> u64 \<Rightarrow> host_net \<Rightarrow> rvd_host \<Rightarrow> daemon_rpc list \<Rightarrow> host_error \<times> rvd_host \<times> daemon_rpc list" where
  "check_network E now hn h rs =
     (if mc_host_ip (rh_mcast h) = 0 \<or> \<not> is_same_network hn h then
        (case parse_network E (hn_network hn) of
           (HOST_OK, mc) \<Rightarrow> start_network E now mc hn h rs
         | (e, mc) \<Rightarrow> (e, h, rs))
      else (HOST_OK, h, rs))"

definition stop_network :: "rvd_host \<Rightarrow> bool \<times> rvd_host" where
  "stop_network h =
     (if rh_network_started h then
        let h1 = h\<lparr>rh_active_clients := rh_active_clients h - 1\<rparr>
        in if rh_active_clients h1 = 0
           then (True, h1\<lparr>rh_network_started := False, rh_start_in_progress := False\<rparr>)
           else (False, h1)
      else (False, h))"

section \<open>Reference counts of the shared session\<close>

definition find_ref :: "u32 \<Rightarrow> string \<Rightarrow> daemon_sub list \<Rightarrow> daemon_sub option" where
  "find_ref hash sub ds = find (\<lambda>d. ds_hash d = hash \<and> ds_value d = sub) ds"

definition set_ref :: "u32 \<Rightarrow> string \<Rightarrow> u32 \<Rightarrow> daemon_sub list \<Rightarrow> daemon_sub list" where
  "set_ref hash sub n ds =
     map (\<lambda>d. if ds_hash d = hash \<and> ds_value d = sub then d\<lparr>ds_refcnt := n\<rparr> else d) ds"

definition ref_hash :: "'r svc_env \<Rightarrow> string \<Rightarrow> u32 \<Rightarrow> u32" where
  "ref_hash E sub hash = (if hash = 0 then se_crc E sub 0 else hash)"

definition add_ref :: "'r svc_env \<Rightarrow> string \<Rightarrow> u32 \<Rightarrow> rvd_host \<Rightarrow> u32 \<times> rvd_host" where
  "add_ref E sub hash0 h =
     (let hash = ref_hash E sub hash0
      in case find_ref hash sub (rh_sub_map h) of
           None \<Rightarrow> (1, h\<lparr>rh_sub_map := rh_sub_map h @ [\<lparr>ds_hash = hash, ds_value = sub, ds_refcnt = 1\<rparr>]\<rparr>)
         | Some d \<Rightarrow> (ds_refcnt d + 1,
                      h\<lparr>rh_sub_map := set_ref hash sub (ds_refcnt d + 1) (rh_sub_map h)\<rparr>))"

definition rem_ref :: "'r svc_env \<Rightarrow> string \<Rightarrow> u32 \<Rightarrow> u32 \<Rightarrow> rvd_host \<Rightarrow> u32 \<times> rvd_host" where
  "rem_ref E sub hash0 cnt h =
     (let hash = ref_hash E sub hash0
      in case find_ref hash sub (rh_sub_map h) of
           None \<Rightarrow> (0, h)
         | Some d \<Rightarrow>
             if ds_refcnt d \<le> cnt
             then (0, h\<lparr>rh_sub_map := filter (\<lambda>x. \<not> (ds_hash x = hash \<and> ds_value x = sub)) (rh_sub_map h)\<rparr>)
             else (ds_refcnt d - cnt,
                   h\<lparr>rh_sub_map := set_ref hash sub (ds_refcnt d - cnt) (rh_sub_map h)\<rparr>))"

end
