(* ===== verification/Svc_Names.thy ===== *)
theory Svc_Names
  imports Svc_Host
begin

text \<open>
  Names that a host makes: the hexadecimal form of a time is one to one, so the sessions of a host
  have different names; services and the daemon inbox.
\<close>

section \<open>Hexadecimal times\<close>

lemma hex_print_4: "hex_print E us (4 * Suc n) =
    se_hexchar E (ucast (drop_bit (4 * n) us AND 15)) # hex_print E us (4 * n)"
  by (subst hex_print.simps) simp

lemma hex_print_0 [simp]: "hex_print E us 0 = []"
  by (subst hex_print.simps) simp

lemma length_hex_print [simp]: "length (hex_print E us (4 * n)) = n"
  by (induction n) (simp_all only: hex_print_4 length_Cons mult_0_right hex_print_0 list.size)

lemma and_15_64: "(v :: u64) AND 15 = take_bit 4 v"
  by (simp add: take_bit_eq_mask mask_numeral)

lemma nibble_inj:
  assumes "inj_on hc {0..15 :: u32}"
    and "hc (ucast (v AND 15 :: u64)) = hc (ucast (w AND 15))"
  shows "v AND 15 = w AND 15"
proof -
  have le: "(ucast (x AND 15 :: u64) :: u32) \<in> {0..15}" for x
  proof -
    have "unat (x AND 15) \<le> 15" using word_and_le1 [of x 15] by (simp add: word_le_nat_alt)
    then show ?thesis by (simp add: word_le_nat_alt unsigned_ucast_eq take_bit_nat_eq_self)
  qed
  have "(ucast (v AND 15) :: u32) = ucast (w AND 15)"
    using inj_onD [OF assms(1,2) le le] .
  then have "ucast (ucast (v AND 15) :: u32) = (ucast (ucast (w AND 15) :: u32) :: u64)" by simp
  moreover have "(ucast (ucast (x AND 15) :: u32) :: u64) = x AND 15" for x :: u64
    unfolding and_15_64 by (rule bit_word_eqI) (auto simp: bit_simps)
  ultimately show ?thesis by simp
qed

lemma hex_print_inj:
  assumes "inj_on (se_hexchar E) {0..15}"
  shows "hex_print E us (4 * n) = hex_print E vs (4 * n) \<Longrightarrow> take_bit (4 * n) us = take_bit (4 * n) vs"
proof (induction n)
  case (Suc n)
  have "drop_bit (4 * n) us AND 15 = drop_bit (4 * n) vs AND 15"
    using Suc.prems unfolding hex_print_4 by (intro nibble_inj [OF assms]) simp
  moreover have "take_bit (4 * n) us = take_bit (4 * n) vs"
    using Suc.prems unfolding hex_print_4 by (intro Suc.IH) simp
  moreover have "take_bit (4 * Suc n) x =
      push_bit (4 * n) (drop_bit (4 * n) x AND 15) OR take_bit (4 * n) x" for x :: u64
    unfolding and_15_64 by (rule bit_word_eqI) (auto simp: bit_simps)
  ultimately show ?case by (simp only:)
qed simp

lemma hex_width_covers:
  "us < 2 ^ 60 \<Longrightarrow> \<exists>n. hex_width us (4 * k) = 4 * n \<and> (k \<le> 15 \<longrightarrow> take_bit (4 * n) us = us)"
proof (induction "16 - k" arbitrary: k)
  case 0
  then show ?case by (subst hex_width.simps) auto
next
  case (Suc m)
  show ?case
  proof (cases "drop_bit (4 * k) us = 0")
    case True
    have "take_bit (4 * k) us = us"
      using True by (metis bits_ident or.right_neutral push_bit_of_0 add.left_neutral)
    then show ?thesis using True by (subst hex_width.simps) auto
  next
    case False
    have k: "k < 15"
    proof (rule ccontr)
      assume "\<not> k < 15"
      then have "(2 :: nat) ^ 60 \<le> 2 ^ (4 * k)" by (intro power_increasing) auto
      moreover have "unat us < 2 ^ 60" using Suc.prems by (simp add: word_less_nat_alt)
      ultimately have "unat us div 2 ^ (4 * k) = 0" by (intro div_less) (rule order.strict_trans2)
      then have "unat (drop_bit (4 * k) us) = 0" unfolding unat_drop_bit_eq by (simp only: drop_bit_eq_div)
      then have "drop_bit (4 * k) us = 0" by (simp only: unat_eq_zero)
      then show False using False by simp
    qed
    then have "hex_width us (4 * k) = hex_width us (4 * Suc k)"
      using False by (subst hex_width.simps) (simp add: add.commute)
    moreover have "m = 16 - Suc k" using Suc.hyps(2) by simp
    ultimately show ?thesis using Suc.hyps(1) [of "Suc k"] Suc.prems k by auto
  qed
qed

lemma utime_to_str_inj:
  assumes "inj_on (se_hexchar E) {0..15}" "us < 2 ^ 60" "vs < 2 ^ 60"
    and "utime_to_str E us = utime_to_str E vs"
  shows "us = vs"
proof -
  obtain n where n: "hex_width us 0 = 4 * n" "take_bit (4 * n) us = us"
    using hex_width_covers [OF assms(2), of 0] unfolding mult_0_right by blast
  obtain m where m: "hex_width vs 0 = 4 * m" "take_bit (4 * m) vs = vs"
    using hex_width_covers [OF assms(3), of 0] unfolding mult_0_right by blast
  have eq: "hex_print E us (4 * n) = hex_print E vs (4 * m)"
    using assms(4) unfolding utime_to_str_def n(1) m(1) .
  from arg_cong [OF this, of length] have nm: "n = m" by simp
  have "take_bit (4 * n) us = take_bit (4 * n) vs"
    using eq unfolding nm by (rule hex_print_inj [OF assms(1)])
  then show ?thesis using n(2) m(2) unfolding nm by (simp only:)
qed

section \<open>Sessions\<close>

text \<open>The names of the sessions made at the given times, in order.\<close>

fun make_sessions :: "'r svc_env \<Rightarrow> u64 list \<Rightarrow> rvd_host \<Rightarrow> string list" where
  "make_sessions E [] h = []"
| "make_sessions E (ns # nss) h = (let (s, h') = make_session E ns h in s # make_sessions E nss h')"

lemma make_session_step:
  assumes "unat (rh_last_session_us h) + 1 < 2 ^ 60" "make_session E ns h = (s, h')"
  shows "\<exists>us. s = rh_session_ip h @ dot # utime_to_str E us \<and> h' = h\<lparr>rh_last_session_us := us\<rparr> \<and>
    rh_last_session_us h < us \<and> us < 2 ^ 60 \<and> unat us \<le> max (unat (rh_last_session_us h) + 1) (2 ^ 55)"
proof -
  have "unat (ns div 1000) = unat ns div 1000" by (simp add: unat_div)
  moreover have "unat ns < 2 ^ 64" using unsigned_less [of ns, where ?'a = nat] by simp
  ultimately have div: "unat (ns div 1000) \<le> 2 ^ 55" "ns div 1000 < 2 ^ 60"
    by (simp_all add: word_less_nat_alt)
  have u: "unat (rh_last_session_us h + 1) = unat (rh_last_session_us h) + 1"
    using assms(1) by (simp add: unat_word_ariths)
  have inc: "rh_last_session_us h < rh_last_session_us h + 1" "rh_last_session_us h + 1 < 2 ^ 60"
    using assms(1) u by (simp_all add: word_less_nat_alt)
  show ?thesis
  proof (cases "ns div 1000 \<le> rh_last_session_us h")
    case True
    then show ?thesis using assms(2) inc u by (auto simp: make_session_def Let_def)
  next
    case False
    then show ?thesis using assms(2) div by (auto simp: make_session_def Let_def)
  qed
qed

lemma sessions_later:
  assumes "unat (rh_last_session_us h) + length nss < 2 ^ 59" "length nss < 2 ^ 58"
    and "inj_on (se_hexchar E) {0..15}"
  shows "distinct (make_sessions E nss h) \<and> (\<forall>s\<in>set (make_sessions E nss h).
    \<exists>us. s = rh_session_ip h @ dot # utime_to_str E us \<and> rh_last_session_us h < us \<and> us < 2 ^ 60)"
  using assms(1,2)
proof (induction nss arbitrary: h)
  case (Cons ns nss)
  obtain s h' where m: "make_session E ns h = (s, h')" by fastforce
  obtain us where us: "s = rh_session_ip h @ dot # utime_to_str E us" "h' = h\<lparr>rh_last_session_us := us\<rparr>"
    "rh_last_session_us h < us" "us < 2 ^ 60" "unat us \<le> max (unat (rh_last_session_us h) + 1) (2 ^ 55)"
    using make_session_step [OF _ m] Cons.prems by fastforce
  have ih: "distinct (make_sessions E nss h') \<and> (\<forall>t\<in>set (make_sessions E nss h').
    \<exists>v. t = rh_session_ip h @ dot # utime_to_str E v \<and> us < v \<and> v < 2 ^ 60)"
    using Cons.IH [of h'] us(2,5) Cons.prems by simp
  have "s \<notin> set (make_sessions E nss h')"
    using ih us(1,4) utime_to_str_inj [OF assms(3)] by fastforce
  then show ?case using ih m us by (auto intro: order.strict_trans)
qed simp

text \<open>
  C25: The sessions of a host have different names, also when the clock stands still or goes back.
  The bounds hold for about 18000 years of microseconds.
\<close>

theorem session_names_unique:
  assumes "inj_on (se_hexchar E) {0..15}"
    and "unat (rh_last_session_us h) + length nss < 2 ^ 59" "length nss < 2 ^ 58"
  shows "distinct (make_sessions E nss h)"
  using sessions_later [OF assms(2,3,1)] by simp

text \<open>An environment for examples.\<close>

definition sample_svc :: "unit svc_env" where
  "sample_svc = \<lparr>se_crc = (\<lambda>s h. of_nat (length s)), se_hexchar = (\<lambda>d. char_of (48 + unat d)),
     se_dec = (\<lambda>d. [char_of (48 + unat d mod 10)]), se_max_loss = 0x7fff, se_pub_restart = 0x8002,
     se_convert_rv = (\<lambda>s. None), se_prefix_seed = (\<lambda>n. 0), se_compile = (\<lambda>s. None),
     se_match = (\<lambda>r s. False), se_upsert_hcnt = (\<lambda>t h s. 0), se_find_hcnt = (\<lambda>t h s. 0),
     se_lookup_ip4 = (\<lambda>s. 0), se_lookup_ip4_mask = (\<lambda>s. (0, 0)), se_lookup_dev = (\<lambda>s. (0, 0)),
     se_scan_dev = (0, 0), se_hostname = None, se_unpack_rv = (\<lambda>b. None), se_version = ''1.0'',
     se_be32 = (\<lambda>b. of_nat (unat (b ! 3))), se_highwater = 1000, se_max_userid = 32, se_max_session = 64,
     se_subject_ok = (\<lambda>s. True), se_is_rvmsg = (\<lambda>b. False), se_is_tib = (\<lambda>b. False),
     se_msg_type = (\<lambda>b. None), se_opaque = (\<lambda>b p n. None), se_json = (\<lambda>b. None),
     se_encode = (\<lambda>t s r l n. Some (length s))\<rparr>"

theorem session_names_unique_witness:
  "distinct (make_sessions sample_svc [5000, 5000, 4000, 9000]
     (host_new sample_svc \<lparr>hn_service = ''7500'', hn_network = [], hn_ipport = 0, hn_prefix = False\<rparr>))"
proof (rule session_names_unique)
  show "inj_on (se_hexchar sample_svc) {0..15}"
  proof (rule inj_onI)
    fix x y :: u32 assume a: "x \<in> {0..15}" "y \<in> {0..15}" "se_hexchar sample_svc x = se_hexchar sample_svc y"
    have "of_char (se_hexchar sample_svc z) = 48 + unat z" if "z \<in> {0..15}" for z
    proof -
      have "unat z \<le> 15" using that by (simp add: word_le_nat_alt)
      then show ?thesis by (simp add: sample_svc_def)
    qed
    then have "48 + unat x = 48 + unat y" using a by metis
    then show "x = y" by (simp add: word_unat_eq_iff)
  qed
qed (simp_all add: host_new_def Let_def)

end
