(* ===== verification/Svc_Loss.thy ===== *)
theory Svc_Loss
  imports Svc_Names
begin

text \<open>
  The reports of lost messages (\<open>RvPubLoss\<close>, \<open>RvLossArray\<close> and the inbound half of \<open>RvHost\<close> in
  \<open>src/rv_host.cpp\<close>): losses are counted by subject for each connection and reported to it, at once
  for the first and then once a second.
\<close>

section \<open>Publications\<close>

text \<open>What the code reads of a publication that the library routes to it.\<close>

record ev_pub =
  pb_subject :: string
  pb_hash :: u32
  pb_reply :: string
  pb_routes :: "(u32 \<times> nat) list"
  pb_status :: u32
  pb_host :: u32
  pb_msg :: "u8 list"
  pb_enc :: md_type
  pb_suf_len :: nat

section \<open>Queues\<close>

text \<open>A report: the connection, the text, the host, the total, the number of subjects and the first nine.\<close>

record loss_report =
  lr_fd :: nat
  lr_desc :: string
  lr_host :: u32
  lr_host_id :: string
  lr_lost :: u32
  lr_sub_cnt :: nat
  lr_subs :: "(string \<times> u32) list"

text \<open>
  The loop over the queue: all subjects with unreported losses from one host, the host of the first
  that is found. The result is the queue with them marked as reported, what is reported (subject,
  losses, restarts), the host and its id.
\<close>

fun loss_scan ::
  "loss_elem list \<Rightarrow> u32 \<Rightarrow> string \<Rightarrow>
   loss_elem list \<times> (string \<times> u32 \<times> u32) list \<times> u32 \<times> string" where
  "loss_scan [] pub_host host_id = ([], [], pub_host, host_id)"
| "loss_scan (el # els) pub_host host_id =
     (if le_pub_msg_loss el \<noteq> le_msg_loss el \<and> (le_pub_host el = pub_host \<or> pub_host = 0) then
        let (els', rep, ph, hid) = loss_scan els (le_pub_host el) (le_pub_host_id el)
        in (el\<lparr>le_pub_msg_loss := le_msg_loss el, le_pub_restart := le_restart el\<rparr> # els',
            (le_value el, le_msg_loss el - le_pub_msg_loss el, le_restart el - le_pub_restart el) # rep,
            ph, hid)
      else
        let (els', rep, ph, hid) = loss_scan els pub_host host_id
        in (el # els', rep, ph, hid))"

definition total_loss :: "(string \<times> u32 \<times> u32) list \<Rightarrow> u64" where
  "total_loss rep = sum_list (map (\<lambda>(s, l, r). ucast l) rep)"

definition total_restart :: "(string \<times> u32 \<times> u32) list \<Rightarrow> u64" where
  "total_restart rep = sum_list (map (\<lambda>(s, l, r). ucast r) rep)"

text \<open>Nothing to report: the queue is freed and the result is \<open>None\<close>.\<close>

definition send_inbound_data_loss :: "pub_loss \<Rightarrow> pub_loss \<times> loss_report option" where
  "send_inbound_data_loss pl =
     (case pl_queue pl of
        None \<Rightarrow> (pl, None)
      | Some q \<Rightarrow>
          let (q', rep, ph, hid) = loss_scan q 0 []
          in if total_loss rep = 0 then (pl\<lparr>pl_queue := None\<rparr>, None)
             else (pl\<lparr>pl_queue := Some q'\<rparr>,
                   Some \<lparr>lr_fd = pl_fd pl,
                         lr_desc = (if total_loss rep = total_restart rep then ''lost seqno tracking''
                                    else ''lost msgs''),
                         lr_host = ph, lr_host_id = hid,
                         lr_lost = (if total_loss rep < 0x7fffffff then ucast (total_loss rep)
                                    else 0x7fffffff),
                         lr_sub_cnt = length rep,
                         lr_subs = map (\<lambda>(s, l, r). (s, l)) (take 9 rep)\<rparr>))"

text \<open>\<open>upsert\<close> of a loss.\<close>

definition loss_upsert ::
  "u32 \<Rightarrow> string \<Rightarrow> u32 \<Rightarrow> u32 \<Rightarrow> u32 \<Rightarrow> string \<Rightarrow> loss_elem list \<Rightarrow> loss_elem list" where
  "loss_upsert hash sub msg_loss restart host host_id q =
     (if \<exists>el\<in>set q. le_hash el = hash \<and> le_value el = sub
      then map (\<lambda>el. if le_hash el = hash \<and> le_value el = sub
                     then el\<lparr>le_msg_loss := le_msg_loss el + msg_loss,
                             le_restart := le_restart el + restart,
                             le_pub_host := host, le_pub_host_id := host_id\<rparr>
                     else el) q
      else q @ [\<lparr>le_hash = hash, le_value = sub, le_msg_loss = msg_loss, le_restart = restart,
                 le_pub_msg_loss = 0, le_pub_restart = 0, le_pub_host = host,
                 le_pub_host_id = host_id\<rparr>])"

section \<open>Counters of events\<close>

text \<open>\<open>None\<close> is a write past the four counters.\<close>

definition count_status :: "'r svc_env \<Rightarrow> u32 \<Rightarrow> loss_array \<Rightarrow> loss_array option" where
  "count_status E status la =
     (if status \<le> se_max_loss E
      then Some (la\<lparr>la_status := (la_status la)[3 := la_status la ! 3 + status]\<rparr>)
      else let i = unat (status AND se_max_loss E)
           in if i < length (la_status la)
              then Some (la\<lparr>la_status := (la_status la)[i := la_status la ! i + 1]\<rparr>) else None)"

definition print_events :: "loss_array \<Rightarrow> loss_array" where
  "print_events la =
     (if la_events la \<noteq> 0 then la\<lparr>la_status := map (\<lambda>_. 0) (la_status la), la_events := 0\<rparr> else la)"

definition remove_loss_entry :: "nat \<Rightarrow> loss_array \<Rightarrow> loss_array" where
  "remove_loss_entry fd la =
     (case nth_opt (la_ptr la) fd of
        Some (Some loss) \<Rightarrow>
          let la1 = la\<lparr>la_ptr := (la_ptr la)[fd := None], la_refs := la_refs la - 1\<rparr>
          in if la_refs la1 = 0 then (print_events la1)\<lparr>la_ptr := []\<rparr> else la1
      | _ \<Rightarrow> la)"

section \<open>Losses of a connection\<close>

text \<open>The array grows to the index that is used.\<close>

definition grow_to :: "nat \<Rightarrow> 'a option list \<Rightarrow> 'a option list" where
  "grow_to n xs = xs @ replicate (Suc n - length xs) None"

definition loss_subject :: "rvd_host \<Rightarrow> string \<Rightarrow> string" where
  "loss_subject h sub = (if rh_has_prefix h then drop (length (rh_service h) + 2) sub else sub)"

definition data_loss ::
  "'r svc_env \<Rightarrow> ev_pub \<Rightarrow> string \<Rightarrow> pub_loss \<Rightarrow> rvd_host \<Rightarrow> (pub_loss \<times> rvd_host \<times> loss_report option) option" where
  "data_loss E pub host_id pl h = do {
     la \<leftarrow> count_status E (pb_status pub) (rh_loss h);
     let (msg_loss, restart) = (if pb_status pub = se_pub_restart E then (1, 1) else (pb_status pub, 0));
     if msg_loss > se_max_loss E then Some (pl, h\<lparr>rh_loss := la\<rparr>, None)
     else do {
       let q = (case pl_queue pl of None \<Rightarrow> [] | Some q \<Rightarrow> q);
       let q1 = loss_upsert (pb_hash pub) (loss_subject h (pb_subject pub)) msg_loss restart
                  (pb_host pub) host_id q;
       let pl1 = pl\<lparr>pl_queue := Some q1\<rparr>;
       let h1 = h\<lparr>rh_loss := la\<lparr>la_events := la_events la + 1\<rparr>,
                  rh_stat := (rh_stat h)\<lparr>st_idl := st_idl (rh_stat h) + ucast msg_loss\<rparr>\<rparr>;
       Some (if la_events la = 0
             then (let (pl2, rep) = send_inbound_data_loss pl1 in (pl2, h1, rep))
             else (pl1, h1, None))
     }
   }"

text \<open>The result has the report, and whether the timer was set.\<close>

definition inbound_data_loss ::
  "'r svc_env \<Rightarrow> nat \<Rightarrow> ev_pub \<Rightarrow> string \<Rightarrow> rvd_host \<Rightarrow> (rvd_host \<times> loss_report option) option" where
  "inbound_data_loss E fd pub host_id h =
     (let la = rh_loss h;
          ptr = grow_to fd (la_ptr la);
          (pl, h1) = (case ptr ! fd of
                        Some pl \<Rightarrow> (pl, h\<lparr>rh_loss := la\<lparr>la_ptr := ptr\<rparr>\<rparr>)
                      | None \<Rightarrow> (\<lparr>pl_fd = fd, pl_queue = None\<rparr>,
                                 h\<lparr>rh_loss := la\<lparr>la_ptr := ptr, la_refs := la_refs la + 1\<rparr>\<rparr>))
      in do {
        (pl1, h2, rep) \<leftarrow> data_loss E pub host_id pl h1;
        let h3 = h2\<lparr>rh_loss := (rh_loss h2)\<lparr>la_ptr := (la_ptr (rh_loss h2))[fd := Some pl1]\<rparr>\<rparr>;
        Some (if rh_loss_timer h3 = 0
              then h3\<lparr>rh_timer_id := rh_timer_id h3 + 1, rh_loss_timer := rh_timer_id h3 + 1\<rparr> else h3, rep)
      })"

text \<open>The timer: one pass over the array. The array is empty after the last entry is removed.\<close>

fun loss_pass :: "nat list \<Rightarrow> loss_array \<Rightarrow> loss_array \<times> loss_report list" where
  "loss_pass [] la = (la, [])"
| "loss_pass (i # is) la =
     (case nth_opt (la_ptr la) i of
        Some (Some pl) \<Rightarrow>
          (case send_inbound_data_loss pl of
             (pl1, Some r) \<Rightarrow>
               let (la', rs) = loss_pass is (la\<lparr>la_ptr := (la_ptr la)[i := Some pl1]\<rparr>)
               in (la', r # rs)
           | (pl1, None) \<Rightarrow> loss_pass is (remove_loss_entry i la))
      | _ \<Rightarrow> loss_pass is la)"

definition pub_inbound_data_loss :: "loss_array \<Rightarrow> bool \<times> loss_array \<times> loss_report list" where
  "pub_inbound_data_loss la =
     (let (la', rs) = loss_pass [0..<length (la_ptr la)] la in (rs \<noteq> [], la', rs))"

section \<open>Every loss is reported once\<close>

definition elem_pending :: "loss_elem \<Rightarrow> nat" where
  "elem_pending el = unat (le_msg_loss el - le_pub_msg_loss el)"

definition queue_pending :: "loss_elem list \<Rightarrow> nat" where
  "queue_pending q = sum_list (map elem_pending q)"

definition pending :: "pub_loss \<Rightarrow> nat" where
  "pending pl = (case pl_queue pl of None \<Rightarrow> 0 | Some q \<Rightarrow> queue_pending q)"

definition report_sum :: "(string \<times> u32 \<times> u32) list \<Rightarrow> nat" where
  "report_sum rep = sum_list (map (\<lambda>(s, l, r). unat l) rep)"

definition elem_key :: "loss_elem \<Rightarrow> u32 \<times> string" where
  "elem_key el = (le_hash el, le_value el)"

definition loss_keys :: "pub_loss \<Rightarrow> bool" where
  "loss_keys pl \<longleftrightarrow> (case pl_queue pl of None \<Rightarrow> True | Some q \<Rightarrow> distinct (map elem_key q))"

definition reported :: "loss_report option \<Rightarrow> nat" where
  "reported r = (case r of None \<Rightarrow> 0 | Some x \<Rightarrow> unat (lr_lost x))"

text \<open>What a publication tells about losses.\<close>

definition lost_by :: "'r svc_env \<Rightarrow> ev_pub \<Rightarrow> nat" where
  "lost_by E pub =
     (if pb_status pub = se_pub_restart E then 1
      else if pb_status pub > se_max_loss E then 0 else unat (pb_status pub))"

lemma loss_scan_conserves:
  "loss_scan q ph hid = (q', rep, ph', hid') \<Longrightarrow>
    queue_pending q = queue_pending q' + report_sum rep \<and> map elem_key q' = map elem_key q \<and>
    0 \<notin> (fst \<circ> snd) ` set rep"
proof (induction q arbitrary: ph hid q' rep)
  case (Cons el q)
  show ?case
  proof (cases "le_pub_msg_loss el \<noteq> le_msg_loss el \<and> (le_pub_host el = ph \<or> ph = 0)")
    case True
    obtain q1 r1 where q1: "loss_scan q (le_pub_host el) (le_pub_host_id el) = (q1, r1, ph', hid')"
      and e: "q' = el\<lparr>le_pub_msg_loss := le_msg_loss el, le_pub_restart := le_restart el\<rparr> # q1"
        "rep = (le_value el, le_msg_loss el - le_pub_msg_loss el, le_restart el - le_pub_restart el) # r1"
      using Cons.prems True by (auto simp: Let_def split: prod.splits)
    show ?thesis using Cons.IH [OF q1] True
      by (auto simp: e queue_pending_def elem_pending_def report_sum_def elem_key_def)
  next
    case False
    then obtain q1 where q1: "loss_scan q ph hid = (q1, rep, ph', hid')" "q' = el # q1"
      using Cons.prems by (auto simp: Let_def split: prod.splits if_splits)
    show ?thesis using Cons.IH [OF q1(1)] by (simp add: q1(2) queue_pending_def elem_key_def)
  qed
qed (auto simp: queue_pending_def report_sum_def)

lemma loss_scan_none: "loss_scan q 0 hid = (q', [], ph', hid') \<Longrightarrow> queue_pending q = 0"
proof (induction q arbitrary: hid q')
  case (Cons el q)
  then show ?case
    by (auto simp: queue_pending_def elem_pending_def Let_def split: if_splits prod.splits)
qed (auto simp: queue_pending_def)

lemma unat_total_loss:
  "report_sum rep < 2 ^ 64 \<Longrightarrow> unat (total_loss rep) = report_sum rep"
proof (induction rep)
  case (Cons x rep)
  obtain s l r where x: "x = (s, l, r)" by (cases x)
  have "report_sum (x # rep) = unat l + report_sum rep" by (simp add: report_sum_def x)
  moreover have "total_loss (x # rep) = ucast l + total_loss rep" by (simp add: total_loss_def x)
  moreover have "unat (ucast l :: u64) = unat l" using unsigned_less [of l, where ?'a = nat] by (simp add: unsigned_ucast_eq take_bit_nat_eq_self)
  ultimately show ?case using Cons by (simp add: unat_word_ariths)
qed (simp add: report_sum_def total_loss_def)

lemma send_conserves:
  assumes "send_inbound_data_loss pl = (pl', r)" "loss_keys pl" "pending pl < 0x7fffffff"
  shows "loss_keys pl' \<and> pending pl' + reported r = pending pl \<and> (r = None \<longleftrightarrow> pending pl = 0)"
proof (cases "pl_queue pl")
  case None
  then show ?thesis using assms(1) by (simp add: send_inbound_data_loss_def pending_def reported_def loss_keys_def)
next
  case (Some q)
  obtain q' rep ph hid where s: "loss_scan q 0 [] = (q', rep, ph, hid)" by (metis prod_cases4)
  note c = loss_scan_conserves [OF s]
  have p: "pending pl = queue_pending q" using Some by (simp add: pending_def)
  have t: "unat (total_loss rep) = report_sum rep" using c p assms(3) by (intro unat_total_loss) simp
  have nz: "report_sum rep = 0 \<longleftrightarrow> rep = []"
    using c by (cases rep) (auto simp: report_sum_def unat_eq_zero)
  show ?thesis
  proof (cases "total_loss rep = 0")
    case True
    then have "rep = []" using t nz by (metis unat_0)
    then have "queue_pending q = 0" using loss_scan_none s by simp
    then show ?thesis
      using True assms(1) Some s p by (auto simp: send_inbound_data_loss_def pending_def reported_def loss_keys_def)
  next
    case False
    have lt: "total_loss rep < 0x7fffffff" using t c p assms(3) by (simp add: word_less_nat_alt)
    have "unat (ucast (total_loss rep) :: u32) = report_sum rep"
      using t c p assms(3) by (simp add: unsigned_ucast_eq take_bit_nat_eq_self)
    moreover have "report_sum rep \<noteq> 0" using False t by (metis unat_eq_zero)
    ultimately show ?thesis
      using False lt assms(1,2) Some s c p
      by (auto simp: send_inbound_data_loss_def pending_def reported_def loss_keys_def)
  qed
qed

lemma upsert_conserves:
  assumes "distinct (map elem_key q)" "queue_pending q + unat n < 2 ^ 32"
  shows "distinct (map elem_key (loss_upsert hash sub n re host hid q)) \<and>
    queue_pending (loss_upsert hash sub n re host hid q) = queue_pending q + unat n"
  using assms
proof (induction q)
  case (Cons el q)
  let ?f = "\<lambda>el. if le_hash el = hash \<and> le_value el = sub
    then el\<lparr>le_msg_loss := le_msg_loss el + n, le_restart := le_restart el + re, le_pub_host := host,
            le_pub_host_id := hid\<rparr> else el"
  have kf: "elem_key (?f x) = elem_key x" for x by (simp add: elem_key_def)
  show ?case
  proof (cases "le_hash el = hash \<and> le_value el = sub")
    case True
    have "?f x = x" if "x \<in> set q" for x
      using Cons.prems(1) True that by (auto simp: elem_key_def image_iff)
    then have m: "map ?f q = q" by (simp add: map_idI)
    have "unat ((le_msg_loss el - le_pub_msg_loss el) + n) = elem_pending el + unat n"
      using Cons.prems(2) by (simp add: queue_pending_def elem_pending_def unat_word_ariths)
    then have "elem_pending (?f el) = elem_pending el + unat n"
      using True by (simp add: elem_pending_def algebra_simps)
    moreover have "loss_upsert hash sub n re host hid (el # q) = ?f el # q"
      using True m by (simp add: loss_upsert_def)
    ultimately show ?thesis using Cons.prems(1) kf [of el] by (simp add: queue_pending_def)
  next
    case False
    have up: "loss_upsert hash sub n re host hid (el # q) = el # loss_upsert hash sub n re host hid q"
      using False by (auto simp: loss_upsert_def)
    have "set (map elem_key (loss_upsert hash sub n re host hid q)) \<subseteq> insert (hash, sub) (set (map elem_key q))"
      by (auto simp: loss_upsert_def elem_key_def)
    moreover have "elem_key el \<noteq> (hash, sub)" using False by (simp add: elem_key_def)
    moreover have "distinct (map elem_key (loss_upsert hash sub n re host hid q)) \<and>
        queue_pending (loss_upsert hash sub n re host hid q) = queue_pending q + unat n"
      using Cons.prems by (intro Cons.IH) (auto simp: queue_pending_def)
    ultimately show ?thesis
      using up Cons.prems(1) by (auto simp: queue_pending_def)
  qed
qed (simp add: loss_upsert_def queue_pending_def elem_pending_def elem_key_def)

text \<open>
  C16: Every lost message is reported to the connection exactly once: what is reported and what is
  still to be reported add up, when a loss is recorded and when the timer reports, and the timer
  finds nothing to report only when nothing is left. The bound is the largest number a report can hold.
\<close>

theorem loss_reported_once:
  assumes "loss_keys pl" and "pending pl + lost_by E pub < 0x7fffffff"
    and "1 \<le> se_max_loss E" and "se_pub_restart E > se_max_loss E"
  shows "(\<forall>pl' h' r. data_loss E pub hid pl h = Some (pl', h', r) \<longrightarrow>
      loss_keys pl' \<and> pending pl' + reported r = pending pl + lost_by E pub) \<and>
    (\<forall>pl' r. send_inbound_data_loss pl = (pl', r) \<longrightarrow>
      loss_keys pl' \<and> pending pl' + reported r = pending pl \<and> (r = None \<longleftrightarrow> pending pl = 0))"
proof (rule conjI; intro allI impI)
  fix pl' h' r assume d: "data_loss E pub hid pl h = Some (pl', h', r)"
  define n where "n = (if pb_status pub = se_pub_restart E then 1 else pb_status pub)"
  define re where "re = (if pb_status pub = se_pub_restart E then 1 else 0 :: u32)"
  define q where "q = (case pl_queue pl of None \<Rightarrow> [] | Some q \<Rightarrow> q)"
  define pl1 where "pl1 = pl\<lparr>pl_queue := Some (loss_upsert (pb_hash pub) (loss_subject h (pb_subject pub))
    n re (pb_host pub) hid q)\<rparr>"
  obtain la where la: "count_status E (pb_status pub) (rh_loss h) = Some la"
    using d by (auto simp: data_loss_def bind_eq_Some_conv)
  have pair: "(if pb_status pub = se_pub_restart E then (1, 1) else (pb_status pub, 0)) = (n, re)"
    by (simp add: n_def re_def)
  have r: "if n > se_max_loss E then pl' = pl \<and> r = None
    else if la_events la = 0 then send_inbound_data_loss pl1 = (pl', r) else pl' = pl1 \<and> r = None"
    using d la unfolding data_loss_def pair
    by (auto simp: Let_def q_def [symmetric] pl1_def [symmetric] split: prod.splits if_splits)
  show "loss_keys pl' \<and> pending pl' + reported r = pending pl + lost_by E pub"
  proof (cases "n > se_max_loss E")
    case True
    then have "lost_by E pub = 0" using assms(3) by (auto simp: lost_by_def n_def split: if_splits)
    then show ?thesis using r True assms(1) by (simp add: reported_def)
  next
    case False
    then have n: "unat n = lost_by E pub" using assms(4) by (auto simp: n_def lost_by_def)
    have "distinct (map elem_key q)" "queue_pending q = pending pl"
      using assms(1) by (auto simp: q_def loss_keys_def pending_def queue_pending_def split: option.splits)
    then have "loss_keys pl1 \<and> pending pl1 = pending pl + lost_by E pub"
      using upsert_conserves [of q n] n assms(2) by (simp add: pl1_def loss_keys_def pending_def)
    then show ?thesis
      using r False send_conserves [of pl1 pl' r] assms(2) by (auto simp: reported_def split: if_splits)
  qed
next
  fix pl' r assume "send_inbound_data_loss pl = (pl', r)"
  then show "loss_keys pl' \<and> pending pl' + reported r = pending pl \<and> (r = None \<longleftrightarrow> pending pl = 0)"
    using send_conserves [of pl pl' r] assms(1,2) by simp_all
qed

theorem loss_reported_once_witness:
  "\<exists>pl h r. data_loss sample_svc \<lparr>pb_subject = ''FD.X'', pb_hash = 7, pb_reply = [], pb_routes = [],
      pb_status = 3, pb_host = 1, pb_msg = [], pb_enc = MD_OPAQUE, pb_suf_len = 0\<rparr> [] \<lparr>pl_fd = 5, pl_queue = None\<rparr>
      (host_new sample_svc \<lparr>hn_service = ''7500'', hn_network = [], hn_ipport = 0, hn_prefix = False\<rparr>) =
      Some (pl, h, Some r) \<and> pending pl = 0 \<and> unat (lr_lost r) = 3"
proof -
  let ?pub = "\<lparr>pb_subject = ''FD.X'', pb_hash = 7, pb_reply = [], pb_routes = [], pb_status = 3,
      pb_host = 1, pb_msg = [], pb_enc = MD_OPAQUE, pb_suf_len = 0\<rparr>" and ?pl = "\<lparr>pl_fd = 5, pl_queue = None\<rparr>"
  let ?h = "host_new sample_svc \<lparr>hn_service = ''7500'', hn_network = [], hn_ipport = 0, hn_prefix = False\<rparr>"
  have n: "lost_by sample_svc ?pub = 3" by (simp add: lost_by_def sample_svc_def)
  have k: "loss_keys ?pl" "pending ?pl = 0" by (simp_all add: loss_keys_def pending_def)
  have la: "rh_loss ?h = loss_array_new" by (simp add: host_new_def Let_def)
  obtain pl h r where d: "data_loss sample_svc ?pub [] ?pl ?h = Some (pl, h, Some r)" "pl_queue pl \<noteq> None \<longrightarrow> pending pl = 0"
    unfolding data_loss_def la
    by (simp add: sample_svc_def count_status_def loss_array_new_def loss_upsert_def Let_def
        send_inbound_data_loss_def total_loss_def total_restart_def pending_def queue_pending_def
        elem_pending_def)
  then have "pending pl = 0" by (cases "pl_queue pl") (auto simp: pending_def)
  moreover have "pending pl + reported (Some r) = pending ?pl + lost_by sample_svc ?pub"
    using loss_reported_once [of ?pl sample_svc ?pub "[]" ?h] d(1) k n by (simp add: sample_svc_def)
  ultimately show ?thesis using d(1) k n by (simp add: reported_def)
qed

end
