(* ===== verification/Svc_Tables.thy ===== *)
theory Svc_Tables
  imports Svc_Loss
begin

text \<open>
  The subscription tables of a client connection (\<open>RvSubMap\<close>, \<open>RvPatternMap\<close> of
  \<open>include/sassrv/ev_rv.h\<close>): plain subjects with their reference counts, and wildcards grouped by
  the prefix before the first wildcard. A table of the library finds an entry by hash and name; memory
  is taken to suffice.
\<close>

datatype sub_status = RV_SUB_OK | RV_SUB_EXISTS | RV_SUB_NOT_FOUND

section \<open>Plain subjects\<close>

record sub_route =
  sr_hash :: u32
  sr_value :: string
  sr_refcnt :: u32
  sr_msg_cnt :: u32

definition sr_key :: "sub_route \<Rightarrow> u32 \<times> string" where
  "sr_key r = (sr_hash r, sr_value r)"

definition find_route :: "u32 \<Rightarrow> string \<Rightarrow> sub_route list \<Rightarrow> sub_route option" where
  "find_route h sub t = find (\<lambda>r. sr_key r = (h, sub)) t"

definition upd_route :: "u32 \<Rightarrow> string \<Rightarrow> (sub_route \<Rightarrow> sub_route) \<Rightarrow> sub_route list \<Rightarrow> sub_route list" where
  "upd_route h sub f t = map (\<lambda>r. if sr_key r = (h, sub) then f r else r) t"

definition sub_put ::
  "'r svc_env \<Rightarrow> u32 \<Rightarrow> string \<Rightarrow> sub_route list \<Rightarrow> sub_status \<times> u32 \<times> bool \<times> sub_route list" where
  "sub_put E h sub t =
     (let coll = se_upsert_hcnt E (map sr_key t) h sub > 0
      in case find_route h sub t of
           None \<Rightarrow> (RV_SUB_OK, 1, coll,
                    t @ [\<lparr>sr_hash = h, sr_value = sub, sr_refcnt = 1, sr_msg_cnt = 0\<rparr>])
         | Some r \<Rightarrow> (RV_SUB_EXISTS, sr_refcnt r + 1, coll,
                      upd_route h sub (\<lambda>r. r\<lparr>sr_refcnt := sr_refcnt r + 1\<rparr>) t))"

definition sub_updcnt :: "u32 \<Rightarrow> string \<Rightarrow> sub_route list \<Rightarrow> sub_status \<times> sub_route list" where
  "sub_updcnt h sub t =
     (case find_route h sub t of
        None \<Rightarrow> (RV_SUB_NOT_FOUND, t)
      | Some r \<Rightarrow> (RV_SUB_OK, upd_route h sub (\<lambda>r. r\<lparr>sr_msg_cnt := sr_msg_cnt r + 1\<rparr>) t))"

definition sub_find :: "'r svc_env \<Rightarrow> u32 \<Rightarrow> string \<Rightarrow> sub_route list \<Rightarrow> sub_status \<times> bool" where
  "sub_find E h sub t =
     (let hcnt = se_find_hcnt E (map sr_key t) h sub
      in case find_route h sub t of
           None \<Rightarrow> (RV_SUB_NOT_FOUND, hcnt > 0) | Some r \<Rightarrow> (RV_SUB_OK, hcnt > 1))"

text \<open>\<open>None\<close> is a subject that is not in the table.\<close>

definition sub_rem ::
  "'r svc_env \<Rightarrow> u32 \<Rightarrow> string \<Rightarrow> sub_route list \<Rightarrow> (u32 \<times> bool \<times> sub_route list) option" where
  "sub_rem E h sub t =
     (case find_route h sub t of
        None \<Rightarrow> None
      | Some r \<Rightarrow>
          let coll = se_find_hcnt E (map sr_key t) h sub > 1; cnt = sr_refcnt r - 1
          in Some (cnt, coll,
                   if cnt = 0 then filter (\<lambda>r. sr_key r \<noteq> (h, sub)) t
                   else upd_route h sub (\<lambda>r. r\<lparr>sr_refcnt := cnt\<rparr>) t))"

text \<open>The mark of an entry that \<open>rem_all_sub\<close> has passed, and whether another one has its hash.\<close>

definition sub_rem_collision :: "u32 \<Rightarrow> string \<Rightarrow> sub_route list \<Rightarrow> bool \<times> sub_route list" where
  "sub_rem_collision h sub t =
     (let t1 = upd_route h sub (\<lambda>r. r\<lparr>sr_refcnt := - 1\<rparr>) t
      in (\<exists>r\<in>set t1. sr_hash r = h \<and> sr_refcnt r \<noteq> - 1, t1))"

section \<open>Wildcards\<close>

record 'r wild_match =
  wm_value :: string
  wm_refcnt :: u32
  wm_msg_cnt :: u32
  wm_re :: "'r option"

record 'r pat_route =
  pr_hash :: u32
  pr_value :: string
  pr_count :: u32
  pr_list :: "'r wild_match list"

definition pr_key :: "'r pat_route \<Rightarrow> u32 \<times> string" where
  "pr_key r = (pr_hash r, pr_value r)"

definition find_pat :: "u32 \<Rightarrow> string \<Rightarrow> 'r pat_route list \<Rightarrow> 'r pat_route option" where
  "find_pat h pre t = find (\<lambda>r. pr_key r = (h, pre)) t"

definition upd_pat ::
  "u32 \<Rightarrow> string \<Rightarrow> ('r pat_route \<Rightarrow> 'r pat_route) \<Rightarrow> 'r pat_route list \<Rightarrow> 'r pat_route list" where
  "upd_pat h pre f t = map (\<lambda>r. if pr_key r = (h, pre) then f r else r) t"

definition pat_put ::
  "'r svc_env \<Rightarrow> u32 \<Rightarrow> string \<Rightarrow> 'r pat_route list \<Rightarrow> 'r pat_route \<times> bool \<times> 'r pat_route list" where
  "pat_put E h pre t =
     (let coll = se_upsert_hcnt E (map pr_key t) h pre > 0
      in case find_pat h pre t of
           Some r \<Rightarrow> (r, coll, t)
         | None \<Rightarrow> let r = \<lparr>pr_hash = h, pr_value = pre, pr_count = 0, pr_list = []\<rparr>
                   in (r, coll, t @ [r]))"

definition pat_find ::
  "'r svc_env \<Rightarrow> u32 \<Rightarrow> string \<Rightarrow> 'r pat_route list \<Rightarrow> 'r pat_route option \<times> bool" where
  "pat_find E h pre t =
     (let hcnt = se_find_hcnt E (map pr_key t) h pre
      in case find_pat h pre t of None \<Rightarrow> (None, hcnt > 0) | Some r \<Rightarrow> (Some r, hcnt > 1))"

definition find_wild :: "string \<Rightarrow> 'r wild_match list \<Rightarrow> 'r wild_match option" where
  "find_wild sub ms = find (\<lambda>m. wm_value m = sub) ms"

definition upd_wild ::
  "string \<Rightarrow> ('r wild_match \<Rightarrow> 'r wild_match) \<Rightarrow> 'r wild_match list \<Rightarrow> 'r wild_match list" where
  "upd_wild sub f ms = map (\<lambda>m. if wm_value m = sub then f m else m) ms"

definition pat_rem_collision :: "u32 \<Rightarrow> string \<Rightarrow> string \<Rightarrow> 'r pat_route list \<Rightarrow> bool \<times> 'r pat_route list" where
  "pat_rem_collision h pre sub t =
     (let t1 = upd_pat h pre (\<lambda>r. r\<lparr>pr_list := upd_wild sub (\<lambda>m. m\<lparr>wm_refcnt := - 1\<rparr>) (pr_list r)\<rparr>) t
      in (\<exists>r\<in>set t1. pr_hash r = h \<and> (\<exists>m\<in>set (pr_list r). wm_refcnt m \<noteq> - 1), t1))"

section \<open>The table as a bag of subscriptions\<close>

definition route_count :: "u32 \<Rightarrow> string \<Rightarrow> sub_route list \<Rightarrow> nat" where
  "route_count h sub t = (case find_route h sub t of None \<Rightarrow> 0 | Some r \<Rightarrow> unat (sr_refcnt r))"

definition sub_tab_ok :: "sub_route list \<Rightarrow> bool" where
  "sub_tab_ok t \<longleftrightarrow> distinct (map sr_key t) \<and> (\<forall>r\<in>set t. sr_refcnt r \<noteq> 0)"

lemma find_upd_route:
  assumes "\<And>r. sr_key (f r) = sr_key r"
  shows "find_route h' sub' (upd_route h sub f t) =
    (if (h', sub') = (h, sub) then map_option f (find_route h sub t) else find_route h' sub' t)"
  using assms by (induction t) (auto simp: find_route_def upd_route_def)

lemma find_route_append [simp]:
  "find_route h sub (t @ [r]) =
    (case find_route h sub t of Some x \<Rightarrow> Some x | None \<Rightarrow> if sr_key r = (h, sub) then Some r else None)"
  by (induction t) (auto simp: find_route_def)

lemma find_route_filter:
  "find_route h' sub' (filter (\<lambda>r. sr_key r \<noteq> (h, sub)) t) =
    (if (h', sub') = (h, sub) then None else find_route h' sub' t)"
  by (induction t) (auto simp: find_route_def)

lemma find_route_Some: "find_route h sub t = Some r \<Longrightarrow> r \<in> set t \<and> sr_key r = (h, sub)"
  by (auto simp: find_route_def find_Some_iff)

lemma find_route_None: "find_route h sub t = None \<longleftrightarrow> (h, sub) \<notin> sr_key ` set t"
  by (force simp: find_route_def find_None_iff)

lemma keys_upd_route: "(\<And>r. sr_key (f r) = sr_key r) \<Longrightarrow> map sr_key (upd_route h sub f t) = map sr_key t"
  by (auto simp: upd_route_def)

end
