(* ===== verification/Svc_Daemon.thy ===== *)
theory Svc_Daemon
  imports Svc_Tables
begin

text \<open>
  The daemon as a whole: its hosts and its client connections (\<open>EvRvService\<close>), the advisory messages
  that hosts publish (\<open>RvFwdAdv\<close>), the digest of subscriptions, and the start and stop of a host.
  What the program hands to the library (routes, publications, timers, bytes for a client) is recorded
  in order.
\<close>

section \<open>State\<close>

record 'r svc =
  sv_fd :: nat
  sv_state :: u16
  sv_host :: "nat option"
  sv_session :: string
  sv_control :: string
  sv_userid :: string
  sv_gob :: string
  sv_vers :: "u16 \<times> u16 \<times> u16"
  sv_host_started :: bool
  sv_sent_initresp :: bool
  sv_sent_rvdconn :: bool
  sv_sub_tab :: "sub_route list"
  sv_pat_tab :: "'r pat_route list"
  sv_pat_count :: nat
  sv_msg_in :: msg_in
  sv_reply_hint :: "u32 list"
  sv_active_ns :: u64

definition VERS_RECV :: u16 where "VERS_RECV = 0"
definition INFO_RECV :: u16 where "INFO_RECV = 1"
definition DATA_RECV :: u16 where "DATA_RECV = 2"
definition IS_RV_DAEMON :: u16 where "IS_RV_DAEMON = 4"
definition IS_RV_SESSION :: u16 where "IS_RV_SESSION = 8"
definition SENT_SESSION_START :: u16 where "SENT_SESSION_START = 16"
definition SENT_SESSION_STOP :: u16 where "SENT_SESSION_STOP = 32"
definition FWD_BACKPRESSURE :: u16 where "FWD_BACKPRESSURE = 64"
definition FWD_BUFFERSIZE :: u16 where "FWD_BUFFERSIZE = 128"

definition has_flag :: "u16 \<Rightarrow> 'r svc \<Rightarrow> bool" where
  "has_flag f s \<longleftrightarrow> sv_state s AND f \<noteq> 0"

datatype adv_val = AStr string | ANum u64 | AIp u32 | APort u16 | ATime u64 | AOver string | AData msg_layout "u8 list"

datatype dm_event =
  Forward string string "(string \<times> adv_val) list"
| ForwardTo nat string "(string \<times> adv_val) list"
| AddSub nat string string u32 bool
| NotifySub nat string string u32 bool u32
| DelSub nat string u32 bool
| NotifyUnsub nat string u32 bool u32
| AddPat nat string string u32 bool
| NotifyPat nat string string u32 bool u32
| DelPat nat string u32 bool
| NotifyUnpat nat string u32 bool u32
| RpcSub string u32
| RpcUnsub string u32
| Reassert "string list" "string list"
| AddTimer nat u32 u64
| ToClient nat string "(string \<times> adv_val) list"
| ToClientRaw nat "u8 list"
| FwdPub nat string string u32 md_type "u8 list" nat
| OnConnect nat
| Shutdown nat

text \<open>
  \<open>dm_others\<close> are the sessions of other kinds of connections, \<open>dm_flow\<close> is what the router answers
  to the next publication, \<open>dm_notify\<close> whether the listener has an owner to notify.
\<close>

datatype flow = RV_FLOW_GOOD | RV_FLOW_BACKPRESSURE | RV_FLOW_STALLED

record 'r daemon =
  dm_hosts :: "rvd_host list"
  dm_rpcs :: "daemon_rpc list"
  dm_svcs :: "'r svc list"
  dm_others :: "u16 \<Rightarrow> (string \<times> string list \<times> string list) list"
  dm_now :: u64
  dm_quit :: bool
  dm_ipport :: u16
  dm_prefix :: bool
  dm_notify :: bool
  dm_flow :: flow
  dm_out :: "dm_event list"

definition dm_emit :: "dm_event \<Rightarrow> 'r daemon \<Rightarrow> 'r daemon" where
  "dm_emit e dm = dm\<lparr>dm_out := dm_out dm @ [e]\<rparr>"

definition upd_hst :: "nat \<Rightarrow> (rvd_host \<Rightarrow> rvd_host) \<Rightarrow> 'r daemon \<Rightarrow> 'r daemon" where
  "upd_hst hi f dm = dm\<lparr>dm_hosts := (dm_hosts dm)[hi := f (dm_hosts dm ! hi)]\<rparr>"

definition upd_svc :: "nat \<Rightarrow> ('r svc \<Rightarrow> 'r svc) \<Rightarrow> 'r daemon \<Rightarrow> 'r daemon" where
  "upd_svc k f dm = dm\<lparr>dm_svcs := (dm_svcs dm)[k := f (dm_svcs dm ! k)]\<rparr>"

definition upd_rpc :: "nat \<Rightarrow> (daemon_rpc \<Rightarrow> daemon_rpc) \<Rightarrow> 'r daemon \<Rightarrow> 'r daemon" where
  "upd_rpc ri f dm = dm\<lparr>dm_rpcs := (dm_rpcs dm)[ri := f (dm_rpcs dm ! ri)]\<rparr>"

section \<open>What a connection holds\<close>

definition svc_get_session :: "u16 \<Rightarrow> 'r daemon \<Rightarrow> 'r svc \<Rightarrow> string" where
  "svc_get_session n dm s =
     (case sv_host s of
        None \<Rightarrow> []
      | Some hi \<Rightarrow> if rh_service_num (dm_hosts dm ! hi) = n then sv_session s else [])"

text \<open>The library's set of subjects, in the order they were added.\<close>

definition db_upsert :: "string \<Rightarrow> string list \<Rightarrow> string list" where
  "db_upsert v db = (if v \<in> set db then db else db @ [v])"

definition sub_values :: "'r svc \<Rightarrow> string list" where
  "sub_values s =
     (let prelen = length (mi_prefix (sv_msg_in s))
      in map (\<lambda>r. drop prelen (sr_value r)) (filter (\<lambda>r. length (sr_value r) > prelen) (sv_sub_tab s)))"

definition pat_values :: "'r svc \<Rightarrow> string list" where
  "pat_values s =
     (let prelen = length (mi_prefix (sv_msg_in s))
      in map (drop prelen) (filter (\<lambda>v. length v > prelen)
           (concat (map (\<lambda>r. map wm_value (pr_list r)) (sv_pat_tab s)))))"

definition svc_get_subscriptions :: "u16 \<Rightarrow> 'r daemon \<Rightarrow> 'r svc \<Rightarrow> string list \<Rightarrow> string list" where
  "svc_get_subscriptions n dm s db =
     (case sv_host s of
        None \<Rightarrow> db
      | Some hi \<Rightarrow> if rh_service_num (dm_hosts dm ! hi) = n then fold db_upsert (sub_values s) db else db)"

definition svc_get_patterns :: "u16 \<Rightarrow> 'r daemon \<Rightarrow> 'r svc \<Rightarrow> string list \<Rightarrow> string list" where
  "svc_get_patterns n dm s db =
     (case sv_host s of
        None \<Rightarrow> db
      | Some hi \<Rightarrow> if rh_service_num (dm_hosts dm ! hi) = n then fold db_upsert (pat_values s) db else db)"

text \<open>The peers that a host sees: session name, subjects and wildcards.\<close>

definition peer_views :: "u16 \<Rightarrow> 'r daemon \<Rightarrow> (string \<times> string list \<times> string list) list" where
  "peer_views n dm =
     map (\<lambda>s. (svc_get_session n dm s, svc_get_subscriptions n dm s [], svc_get_patterns n dm s []))
       (dm_svcs dm) @ dm_others dm n"

section \<open>The digest of a host\<close>

definition digest_pair ::
  "'r svc_env \<Rightarrow> string \<Rightarrow> string \<Rightarrow> (u32 \<times> string) list \<times> u32 \<times> u32 \<Rightarrow> (u32 \<times> string) list \<times> u32 \<times> u32" where
  "digest_pair E sess v = (\<lambda>(pairs, sc, sx).
     if v = [] \<or> hd v = CHR ''_'' then (pairs, sc, sx)
     else let ph = se_crc E v (se_crc E sess 0); key = sess @ CHR 0x01 # v
          in if length key \<le> 1024
             then (if (ph, key) \<in> set pairs then (pairs, sc, sx)
                   else (pairs @ [(ph, key)], sc + 1, sx XOR ph))
             else (pairs, sc + 1, sx XOR ph))"

definition strip_nul_end :: "string \<Rightarrow> string" where
  "strip_nul_end s = (if s \<noteq> [] \<and> last s = NUL then butlast s else s)"

definition digest_peer ::
  "'r svc_env \<Rightarrow> string \<times> string list \<times> string list \<Rightarrow>
   (u32 \<times> string) list \<times> u32 \<times> u32 \<Rightarrow> (u32 \<times> string) list \<times> u32 \<times> u32" where
  "digest_peer E = (\<lambda>(sess, subs, pats) a.
     if sess = [] then a else fold (digest_pair E (strip_nul_end sess)) (subs @ pats) a)"

definition get_sub_digest :: "'r svc_env \<Rightarrow> u16 \<Rightarrow> 'r daemon \<Rightarrow> u32 \<times> u32" where
  "get_sub_digest E n dm = snd (fold (digest_peer E) (peer_views n dm) ([], 0, 0))"

section \<open>Advisory messages\<close>

definition ADV_HOSTADDR :: u32 where "ADV_HOSTADDR = 0x1"
definition ADV_SN :: u32 where "ADV_SN = 0x2"
definition ADV_OS :: u32 where "ADV_OS = 0x4"
definition ADV_VER :: u32 where "ADV_VER = 0x8"
definition ADV_HTTPADDR :: u32 where "ADV_HTTPADDR = 0x10"
definition ADV_HTTPPORT :: u32 where "ADV_HTTPPORT = 0x20"
definition ADV_TIME :: u32 where "ADV_TIME = 0x40"
definition ADV_ID :: u32 where "ADV_ID = 0x80"
definition ADV_USERID :: u32 where "ADV_USERID = 0x100"
definition ADV_RLI :: u32 where "ADV_RLI = 0x200"
definition ADV_UP :: u32 where "ADV_UP = 0x400"
definition ADV_SUB :: u32 where "ADV_SUB = 0x800"
definition ADV_REFCNT :: u32 where "ADV_REFCNT = 0x1000"
definition ADV_STATS :: u32 where "ADV_STATS = 0xc7fe000"
definition ADV_IPPORT :: u32 where "ADV_IPPORT = 0x800000"
definition ADV_SERVICE :: u32 where "ADV_SERVICE = 0x1000000"
definition ADV_NETWORK :: u32 where "ADV_NETWORK = 0x2000000"
definition ADV_TPORT :: u32 where "ADV_TPORT = 0x10000000"
definition ADV_SESS_SUF :: u32 where "ADV_SESS_SUF = 0x20000000"
definition ADV_SUBDIGEST :: u32 where "ADV_SUBDIGEST = 0x40000000"

definition ADV_HOST_START :: u32 where
  "ADV_HOST_START = ADV_HOSTADDR OR ADV_SN OR ADV_OS OR ADV_VER OR ADV_HTTPADDR OR ADV_HTTPPORT OR
     ADV_TIME OR ADV_UP OR ADV_RLI OR ADV_IPPORT OR ADV_SERVICE OR ADV_NETWORK OR ADV_SUBDIGEST"
definition ADV_HOST_STATUS :: u32 where
  "ADV_HOST_STATUS = ADV_HOST_START OR ADV_STATS"
definition ADV_HOST_STOP :: u32 where "ADV_HOST_STOP = ADV_HOSTADDR OR ADV_TIME"
definition ADV_SESSION :: u32 where "ADV_SESSION = ADV_HOSTADDR OR ADV_ID OR ADV_USERID"
definition ADV_HOST_COMMON :: u32 where
  "ADV_HOST_COMMON = ADV_HOST_START OR ADV_HOST_STATUS OR ADV_HOST_STOP OR ADV_SESSION"
definition ADV_LISTEN :: u32 where "ADV_LISTEN = ADV_ID OR ADV_SUB OR ADV_REFCNT"
definition ADV_UNREACHABLE :: u32 where "ADV_UNREACHABLE = ADV_TPORT OR ADV_HOSTADDR OR ADV_SESS_SUF"

record adv =
  av_userid :: string
  av_session :: string
  av_prefix :: string
  av_suffix :: string
  av_reply :: string
  av_refcnt :: u32

definition on :: "bool \<Rightarrow> 'a list \<Rightarrow> 'a list" where
  "on b xs = (if b then xs else [])"

definition on_flag :: "u32 \<Rightarrow> u32 \<Rightarrow> 'a list \<Rightarrow> 'a list" where
  "on_flag flags f xs = on (flags AND f \<noteq> 0) xs"

definition fwd_tail :: "rvd_host \<Rightarrow> u32 \<Rightarrow> adv \<Rightarrow> string" where
  "fwd_tail h flags a =
     (if flags AND ADV_SESS_SUF \<noteq> 0 then rh_session_ip h @ dot # av_suffix a
      else if av_suffix a \<noteq> [] then av_suffix a else rh_session_ip h)"

definition fwd_subject :: "rvd_host \<Rightarrow> u32 \<Rightarrow> adv \<Rightarrow> string" where
  "fwd_subject h flags a = svc_prefix h @ av_prefix a @ fwd_tail h flags a"

definition fwd_reply :: "rvd_host \<Rightarrow> adv \<Rightarrow> string" where
  "fwd_reply h a = (if av_reply a \<noteq> [] then svc_prefix h @ av_reply a else [])"

text \<open>The class and the name of an advisory: the parts of \<open>_RV.class.SYSTEM.name\<close>.\<close>

definition after_dot :: "string \<Rightarrow> string" where
  "after_dot s = tl (dropWhile (\<lambda>c. c \<noteq> dot) s)"

definition adv_class :: "string \<Rightarrow> string" where
  "adv_class s = (let c = takeWhile (\<lambda>c. c \<noteq> dot) s in if length c < 8 then c else ''UNKN'')"

definition adv_time :: "u64 \<Rightarrow> u64" where
  "adv_time now = push_bit 32 (now div 1000000000) OR (now div 1000000) mod 1000"

definition stat_fields :: "u32 \<Rightarrow> host_stat \<Rightarrow> (string \<times> adv_val) list" where
  "stat_fields flags s =
     on_flag flags 0x2000 [(''ms'', ANum (st_ms s))] @ on_flag flags 0x4000 [(''bs'', ANum (st_bs s))] @
     on_flag flags 0x8000 [(''mr'', ANum (st_mr s))] @ on_flag flags 0x10000 [(''br'', ANum (st_br s))] @
     on_flag flags 0x20000 [(''ps'', ANum (st_ps s))] @ on_flag flags 0x40000 [(''pr'', ANum (st_pr s))] @
     on_flag flags 0x80000 [(''rx'', ANum (st_rx s))] @ on_flag flags 0x100000 [(''pm'', ANum (st_pm s))] @
     on_flag flags 0x200000 [(''idl'', ANum (st_idl s))] @
     on_flag flags 0x400000 [(''odl'', ANum (st_odl s))]"

text \<open>
  The fields of a message, in order. The field \<open>tport\<close> is written with a length that counts the
  final zero twice: its last byte lies beyond the subject's buffer.
\<close>

definition fwd_fields ::
  "rvd_host \<Rightarrow> u32 \<Rightarrow> adv \<Rightarrow> u64 \<Rightarrow> u32 \<times> u32 \<Rightarrow> (string \<times> adv_val) list" where
  "fwd_fields h flags a now dig =
     (let rest = drop (length (svc_prefix h) + 4) (fwd_subject h flags a)
      in [(''ADV_CLASS'', AStr (adv_class rest)), (''ADV_SOURCE'', AStr ''SYSTEM''),
          (''ADV_NAME'', AStr (after_dot (after_dot rest)))] @
         on_flag flags ADV_HOST_COMMON
           (on_flag flags ADV_HOSTADDR ((''hostaddr'', AIp (rh_host_ip h)) #
              on (rh_host_id h \<noteq> []) [(''hostid'', AStr (rh_host_id h))]) @
            on_flag flags ADV_SN [(''sn'', ANum 1)] @
            on_flag flags ADV_OS [(''os'', ANum 1)] @
            on_flag flags ADV_VER [(''ver'', AStr (rh_ver h))] @
            on (rh_http_addr h \<noteq> 0 \<or> rh_http_port h \<noteq> 0)
              (on_flag flags ADV_HTTPADDR [(''httpaddr'', AIp (rh_http_addr h))] @
               on_flag flags ADV_HTTPPORT [(''httpport'', APort (rh_http_port h))]) @
            on_flag flags ADV_TIME [(''time'', ATime (adv_time now))]) @
         on_flag flags ADV_ID (on (av_session a \<noteq> []) [(''id'', AStr (av_session a))]) @
         on_flag flags ADV_USERID (on (av_userid a \<noteq> []) [(''userid'', AStr (av_userid a))]) @
         on_flag flags ADV_TPORT [(''tport'', AOver (fwd_tail h flags a))] @
         on_flag flags ADV_SUB (on (av_suffix a \<noteq> []) [(''sub'', AStr (av_suffix a))]) @
         on_flag flags ADV_REFCNT [(''refcnt'', ANum (ucast (av_refcnt a)))] @
         on_flag flags ADV_HOST_COMMON
           (on_flag flags ADV_UP
              [(''up'', ANum (ucast (ucast ((now - rh_start_stamp h) div 1000000000) :: u32)))] @
            on_flag flags ADV_STATS (stat_fields flags (rh_stat h)) @
            on_flag flags ADV_SUBDIGEST [(''sc'', ANum (ucast (fst dig))), (''sx'', ANum (ucast (snd dig)))] @
            on_flag flags ADV_IPPORT (on (rh_ipport h \<noteq> 0) [(''ipport'', APort (rh_ipport h))]) @
            on_flag flags ADV_SERVICE [(''service'', AStr (rh_service h))] @
            on_flag flags ADV_NETWORK [(''network'', AStr (rh_network h))]))"

definition fwd_stats :: "u32 \<Rightarrow> u64 \<Rightarrow> rvd_host \<Rightarrow> rvd_host" where
  "fwd_stats flags now h =
     (if flags AND ADV_HOST_COMMON \<noteq> 0 \<and> flags AND ADV_STATS \<noteq> 0
      then let s = (rh_stat h)\<lparr>st_time_ns := now\<rparr>
           in h\<lparr>rh_stat := s, rh_prev1 := rh_prev0 h, rh_prev0 := s\<rparr>
      else h)"

definition fwd :: "'r svc_env \<Rightarrow> nat \<Rightarrow> u32 \<Rightarrow> adv \<Rightarrow> 'r daemon \<Rightarrow> 'r daemon" where
  "fwd E hi flags a dm =
     (let dm1 = upd_hst hi (fwd_stats flags (dm_now dm)) dm;
          h = dm_hosts dm1 ! hi;
          dig = get_sub_digest E (rh_service_num h) dm1
      in dm_emit (Forward (fwd_subject h flags a) (fwd_reply h a)
                    (fwd_fields h flags a (dm_now dm) dig)) dm1)"

section \<open>The advisories of a host\<close>

definition adv_plain :: "string \<Rightarrow> adv" where
  "adv_plain prefix = \<lparr>av_userid = [], av_session = [], av_prefix = prefix, av_suffix = [], av_reply = [],
     av_refcnt = 0\<rparr>"

definition INFO_SYSTEM :: string where "INFO_SYSTEM = ''_RV.INFO.SYSTEM.''"
definition HOST_STATUS_PRE :: string where "HOST_STATUS_PRE = INFO_SYSTEM @ ''HOST.STATUS.''"
definition HOST_START_PRE :: string where "HOST_START_PRE = INFO_SYSTEM @ ''HOST.START.''"
definition HOST_STOP_PRE :: string where "HOST_STOP_PRE = INFO_SYSTEM @ ''HOST.STOP.''"
definition SESSION_START_PRE :: string where "SESSION_START_PRE = INFO_SYSTEM @ ''SESSION.START.''"
definition SESSION_STOP_PRE :: string where "SESSION_STOP_PRE = INFO_SYSTEM @ ''SESSION.STOP.''"
definition UNREACHABLE_PRE :: string where "UNREACHABLE_PRE = INFO_SYSTEM @ ''UNREACHABLE.TRANSPORT.''"
definition LISTEN_START_PRE :: string where "LISTEN_START_PRE = INFO_SYSTEM @ ''LISTEN.START.''"
definition LISTEN_STOP_PRE :: string where "LISTEN_STOP_PRE = INFO_SYSTEM @ ''LISTEN.STOP.''"

text \<open>A message on behalf of a connection, or of none.\<close>

definition adv_svc :: "string \<Rightarrow> 'r svc option \<Rightarrow> adv" where
  "adv_svc prefix so =
     (case so of None \<Rightarrow> adv_plain prefix
      | Some s \<Rightarrow> (adv_plain prefix)\<lparr>av_userid := sv_userid s, av_session := sv_session s\<rparr>)"

definition send_host_start :: "'r svc_env \<Rightarrow> nat \<Rightarrow> 'r svc option \<Rightarrow> 'r daemon \<Rightarrow> 'r daemon" where
  "send_host_start E hi so dm =
     (if rh_host_started (dm_hosts dm ! hi) then dm
      else upd_hst hi (\<lambda>h. h\<lparr>rh_host_started := True\<rparr>)
             (fwd E hi ADV_HOST_START (adv_svc HOST_START_PRE so) dm))"

definition send_host_stop :: "'r svc_env \<Rightarrow> nat \<Rightarrow> 'r svc option \<Rightarrow> 'r daemon \<Rightarrow> 'r daemon" where
  "send_host_stop E hi so dm =
     (if rh_host_started (dm_hosts dm ! hi)
      then upd_hst hi (\<lambda>h. h\<lparr>rh_host_started := False\<rparr>)
             (fwd E hi ADV_HOST_STOP (adv_svc HOST_STOP_PRE so) dm)
      else dm)"

definition send_session_start :: "'r svc_env \<Rightarrow> nat \<Rightarrow> nat \<Rightarrow> 'r daemon \<Rightarrow> 'r daemon" where
  "send_session_start E hi k dm =
     upd_svc k (\<lambda>s. s\<lparr>sv_state := sv_state s OR SENT_SESSION_START\<rparr>)
       (fwd E hi ADV_SESSION (adv_svc SESSION_START_PRE (Some (dm_svcs dm ! k))) dm)"

definition drop_losses :: "nat \<Rightarrow> rvd_host \<Rightarrow> rvd_host" where
  "drop_losses fd h = h\<lparr>rh_loss := remove_loss_entry fd (rh_loss h)\<rparr>"

definition send_session_stop :: "'r svc_env \<Rightarrow> nat \<Rightarrow> nat \<Rightarrow> 'r daemon \<Rightarrow> 'r daemon" where
  "send_session_stop E hi k dm =
     (let s = dm_svcs dm ! k
      in upd_hst hi (drop_losses (sv_fd s))
           (upd_svc k (\<lambda>s. s\<lparr>sv_state := sv_state s OR SENT_SESSION_STOP\<rparr>)
              (fwd E hi ADV_SESSION (adv_svc SESSION_STOP_PRE (Some s)) dm)))"

definition send_unreachable_tport :: "'r svc_env \<Rightarrow> nat \<Rightarrow> nat \<Rightarrow> 'r daemon \<Rightarrow> 'r daemon" where
  "send_unreachable_tport E hi k dm =
     (let s = dm_svcs dm ! k
      in upd_hst hi (drop_losses (sv_fd s))
           (upd_svc k (\<lambda>s. s\<lparr>sv_state := sv_state s OR SENT_SESSION_STOP\<rparr>)
              (fwd E hi ADV_UNREACHABLE ((adv_svc UNREACHABLE_PRE (Some s))\<lparr>av_suffix := sv_gob s\<rparr>) dm)))"

definition send_listen_start ::
  "'r svc_env \<Rightarrow> nat \<Rightarrow> string \<Rightarrow> string \<Rightarrow> string \<Rightarrow> u32 \<Rightarrow> 'r daemon \<Rightarrow> 'r daemon" where
  "send_listen_start E hi session sub rep refs dm =
     (if is_restricted_subject sub then dm
      else fwd E hi ADV_LISTEN ((adv_plain LISTEN_START_PRE)\<lparr>av_session := session, av_suffix := sub,
             av_reply := rep, av_refcnt := refs\<rparr>) dm)"

definition send_listen_stop ::
  "'r svc_env \<Rightarrow> nat \<Rightarrow> string \<Rightarrow> string \<Rightarrow> u32 \<Rightarrow> 'r daemon \<Rightarrow> 'r daemon" where
  "send_listen_stop E hi session sub refs dm =
     (if is_restricted_subject sub then dm
      else fwd E hi ADV_LISTEN ((adv_plain LISTEN_STOP_PRE)\<lparr>av_session := session, av_suffix := sub,
             av_refcnt := refs\<rparr>) dm)"

text \<open>
  \<open>send_host_status\<close>; \<open>cur\<close> is what the library counts for the other connections: bytes received and
  sent, messages received and sent. A counter that went back adds nothing.
\<close>

definition stat_gain :: "u64 \<Rightarrow> u64 \<Rightarrow> u64 \<Rightarrow> u64" where
  "stat_gain prev cur x = (if prev < cur then x + (cur - prev) else x)"

definition other_stats :: "u64 \<times> u64 \<times> u64 \<times> u64 \<Rightarrow> rvd_host \<Rightarrow> rvd_host" where
  "other_stats cur h =
     (let (br, bs, mr, ms) = cur; (br0, bs0, mr0, ms0) = rh_other h; st = rh_stat h
      in h\<lparr>rh_stat := st\<lparr>st_br := stat_gain br0 br (st_br st), st_bs := stat_gain bs0 bs (st_bs st),
                         st_mr := stat_gain mr0 mr (st_mr st), st_ms := stat_gain ms0 ms (st_ms st)\<rparr>,
           rh_other := cur\<rparr>)"

definition send_host_status ::
  "'r svc_env \<Rightarrow> nat \<Rightarrow> u64 \<times> u64 \<times> u64 \<times> u64 \<Rightarrow> 'r daemon \<Rightarrow> 'r daemon" where
  "send_host_status E hi cur dm =
     fwd E hi ADV_HOST_STATUS (adv_plain HOST_STATUS_PRE) (upd_hst hi (other_stats cur) dm)"

section \<open>Start and stop of a host\<close>

definition subscribe_daemon_inbox :: "nat \<Rightarrow> 'r daemon \<Rightarrow> 'r daemon" where
  "subscribe_daemon_inbox ri dm =
     (let r = dm_rpcs dm ! ri;
          dm1 = upd_rpc ri (\<lambda>r. r\<lparr>rp_refs := rp_refs r + 1, rp_in_poll := True\<rparr>) dm
      in if rp_refs r = 0 then dm_emit (RpcSub (rp_buf r) (rp_hash r)) dm1 else dm1)"

definition unsubscribe_daemon_inbox :: "nat \<Rightarrow> 'r daemon \<Rightarrow> 'r daemon" where
  "unsubscribe_daemon_inbox ri dm =
     (let r = dm_rpcs dm ! ri; dm1 = upd_rpc ri (\<lambda>r. r\<lparr>rp_refs := rp_refs r - 1\<rparr>) dm
      in if rp_refs r - 1 = 0 then dm_emit (RpcUnsub (rp_buf r) (rp_hash r)) dm1 else dm1)"

text \<open>
  \<open>EvRvService::send_start\<close>. The prefix of a service can be set for every service name but \<open>.\<close>,
  which has no number and whose host does not start.
\<close>

definition prefix_of :: "string \<Rightarrow> string" where
  "prefix_of svc = (case set_prefix svc of Some p \<Rightarrow> p | None \<Rightarrow> [])"

definition send_start :: "'r svc_env \<Rightarrow> nat \<Rightarrow> nat \<Rightarrow> 'r daemon \<Rightarrow> 'r daemon" where
  "send_start E hi k dm =
     (let s = dm_svcs dm ! k;
          dm1 = (if has_flag (IS_RV_DAEMON OR IS_RV_SESSION) s then send_host_start E hi (Some s) dm else dm);
          dm2 = (if has_flag IS_RV_SESSION s \<and> \<not> has_flag SENT_SESSION_START s
                 then send_session_start E hi k dm1 else dm1);
          h = dm_hosts dm2 ! hi
      in if rh_has_prefix h
         then upd_svc k (\<lambda>s. s\<lparr>sv_msg_in := (sv_msg_in s)\<lparr>mi_prefix := prefix_of (rh_service h)\<rparr>\<rparr>) dm2
         else dm2)"

text \<open>The step of \<open>start_host2\<close> for one connection of the host.\<close>

definition start_client :: "'r svc_env \<Rightarrow> nat \<Rightarrow> nat \<Rightarrow> 'r daemon \<Rightarrow> 'r daemon" where
  "start_client E hi k dm =
     (let s = dm_svcs dm ! k
      in if sv_host s \<noteq> Some hi then dm
         else
           let dm1 = (if sv_host_started s then dm
                      else upd_hst hi (\<lambda>h. h\<lparr>rh_active_clients := rh_active_clients h + 1\<rparr>)
                             (upd_svc k (\<lambda>s. s\<lparr>sv_host_started := True\<rparr>) dm))
           in if sv_state s \<ge> DATA_RECV then send_start E hi k dm1 else dm1)"

definition RV_STATUS_IVAL :: u32 where "RV_STATUS_IVAL = 90"

definition start_status_timer :: "nat \<Rightarrow> 'r daemon \<Rightarrow> 'r daemon" where
  "start_status_timer hi dm =
     (let h = dm_hosts dm ! hi
      in if rh_status_timer h = 0
         then dm_emit (AddTimer hi RV_STATUS_IVAL (rh_timer_id h + 1))
                (upd_hst hi (\<lambda>h. h\<lparr>rh_timer_id := rh_timer_id h + 1, rh_status_timer := rh_timer_id h + 1\<rparr>) dm)
         else dm)"

definition start_inbox :: "nat \<Rightarrow> 'r daemon \<Rightarrow> 'r daemon" where
  "start_inbox hi dm =
     (case rh_rpc (dm_hosts dm ! hi) of
        Some ri \<Rightarrow>
          if rh_daemon_subscribed (dm_hosts dm ! hi) then dm
          else upd_hst hi (\<lambda>h. h\<lparr>rh_daemon_subscribed := True\<rparr>) (subscribe_daemon_inbox ri dm)
      | None \<Rightarrow> dm)"

definition start_delayed :: "nat \<Rightarrow> u32 \<Rightarrow> 'r daemon \<Rightarrow> 'r daemon" where
  "start_delayed hi delay_secs dm =
     (let dm1 = (if rh_delay_timer (dm_hosts dm ! hi) = 0
                 then upd_hst hi (\<lambda>h. h\<lparr>rh_timer_id := rh_timer_id h + 1,
                                        rh_delay_timer := rh_timer_id h + 1\<rparr>) dm
                 else dm)
      in dm_emit (AddTimer hi delay_secs (rh_delay_timer (dm_hosts dm1 ! hi))) dm1)"

definition start_host2 :: "'r svc_env \<Rightarrow> nat \<Rightarrow> u32 \<Rightarrow> 'r daemon \<Rightarrow> 'r daemon" where
  "start_host2 E hi delay_secs dm0 =
     (let dm = upd_hst hi (\<lambda>h. h\<lparr>rh_in_poll := True\<rparr>) dm0
      in if delay_secs \<noteq> 0 then start_delayed hi delay_secs dm
         else upd_hst hi (\<lambda>h. h\<lparr>rh_network_started := True, rh_start_in_progress := False\<rparr>)
                (fold (start_client E hi) [0..<length (dm_svcs dm)]
                  (start_status_timer hi (start_inbox hi dm))))"

definition reassert_subs :: "nat \<Rightarrow> 'r daemon \<Rightarrow> 'r daemon" where
  "reassert_subs hi dm =
     (let ss = filter (\<lambda>s. sv_host s = Some hi) (dm_svcs dm);
          subs = fold db_upsert (concat (map (\<lambda>s. map sr_value (sv_sub_tab s)) ss))
                   [daemon_ibx (dm_hosts dm ! hi)];
          pats = fold db_upsert (concat (map (\<lambda>s. map pr_value (sv_pat_tab s)) ss)) []
      in dm_emit (Reassert subs pats) dm)"

definition start_host :: "'r svc_env \<Rightarrow> nat \<Rightarrow> 'r daemon \<Rightarrow> 'r daemon" where
  "start_host E hi dm =
     (if rh_status_timer (dm_hosts dm ! hi) \<noteq> 0 then reassert_subs hi dm else start_host2 E hi 0 dm)"

definition stop_inbox :: "nat \<Rightarrow> 'r daemon \<Rightarrow> 'r daemon" where
  "stop_inbox hi dm =
     (case rh_rpc (dm_hosts dm ! hi) of
        Some ri \<Rightarrow>
          if rh_daemon_subscribed (dm_hosts dm ! hi)
          then upd_hst hi (\<lambda>h. h\<lparr>rh_daemon_subscribed := False\<rparr>) (unsubscribe_daemon_inbox ri dm)
          else dm
      | None \<Rightarrow> dm)"

definition stop_host :: "'r svc_env \<Rightarrow> nat \<Rightarrow> 'r daemon \<Rightarrow> 'r daemon" where
  "stop_host E hi dm =
     (if rh_status_timer (dm_hosts dm ! hi) \<noteq> 0
      then send_host_stop E hi None (stop_inbox hi
             (upd_hst hi (\<lambda>h. h\<lparr>rh_status_timer := 0, rh_delay_timer := 0, rh_loss_timer := 0\<rparr>) dm))
      else dm)"

text \<open>The report of losses goes to its connection.\<close>

definition report_fields :: "'r svc_env \<Rightarrow> rvd_host \<Rightarrow> loss_report \<Rightarrow> (string \<times> adv_val) list" where
  "report_fields E h r =
     [(''ADV_CLASS'', AStr ''ERROR''), (''ADV_SOURCE'', AStr ''SYSTEM''),
      (''ADV_NAME'', AStr ''DATALOSS.INBOUND.BCAST''), (''ADV_DESC'', AStr (lr_desc r)),
      (''host'', AStr (ip4_string E (lr_host r)))] @
     on (lr_host_id r \<noteq> []) [(''hostid'', AStr (lr_host_id r))] @
     [(''lost'', ANum (ucast (lr_lost r))), (''sub_cnt'', ANum (of_nat (lr_sub_cnt r)))] @
     concat (map (\<lambda>(i, (s, l)). [(''sub'' @ [char_of (49 + i :: nat)], AStr s),
                                  (''lost'' @ [char_of (49 + i)], ANum (ucast l))])
              (enumerate 0 (lr_subs r))) @
     on (rh_ipport h \<noteq> 0) [(''scid'', APort (rh_ipport h))]"

definition emit_report :: "'r svc_env \<Rightarrow> nat \<Rightarrow> loss_report \<Rightarrow> 'r daemon \<Rightarrow> 'r daemon" where
  "emit_report E hi r dm =
     (let h = dm_hosts dm ! hi in dm_emit (ForwardTo (lr_fd r) (rh_inbound_sub h) (report_fields E h r)) dm)"

text \<open>\<open>RvHost::timer_expire\<close>; the result is whether the timer repeats.\<close>

definition host_timer ::
  "'r svc_env \<Rightarrow> nat \<Rightarrow> u64 \<Rightarrow> u64 \<times> u64 \<times> u64 \<times> u64 \<Rightarrow> 'r daemon \<Rightarrow> bool \<times> 'r daemon" where
  "host_timer E hi tid cur dm =
     (let h = dm_hosts dm ! hi
      in if tid \<noteq> rh_status_timer h then
           (if tid = rh_delay_timer h then (False, start_host2 E hi 0 dm)
            else if tid = rh_loss_timer h then
              (let (one, la, rs) = pub_inbound_data_loss (rh_loss h);
                   dm1 = fold (emit_report E hi) rs (upd_hst hi (\<lambda>h. h\<lparr>rh_loss := la\<rparr>) dm)
               in if one then (True, dm1)
                  else (False, upd_hst hi (\<lambda>h. h\<lparr>rh_loss_timer := 0\<rparr>) dm1))
            else (False, dm))
         else (True, send_host_status E hi cur dm))"

end
