(* ===== verification/Svc_Service.thy ===== *)
theory Svc_Service
  imports Svc_Daemon
begin

text \<open>
  The client connections of the daemon (\<open>EvRvService\<close> and \<open>EvRvListen\<close> in \<open>src/ev_rv.cpp\<close>): the
  handshake, subscribing and unsubscribing, messages to and from a client, and the end of a connection.
  A connection is its index in the daemon's list. \<open>None\<close> is the use of a null pointer: a connection
  has no host before its first information message.
\<close>

section \<open>Subscribing\<close>

definition full_subject :: "'r svc \<Rightarrow> string" where
  "full_subject s = mi_prefix (sv_msg_in s) @ mi_sub (sv_msg_in s)"

text \<open>With a prefix the reply gets it too, even when there is no reply.\<close>

definition full_reply :: "'r svc \<Rightarrow> string" where
  "full_reply s = mi_prefix (sv_msg_in s) @ mi_reply (sv_msg_in s)"

text \<open>The table and route part of \<open>add_sub\<close> for a plain subject; the result has the count.\<close>

definition add_plain :: "'r svc_env \<Rightarrow> nat \<Rightarrow> 'r daemon \<Rightarrow> u32 \<times> 'r daemon" where
  "add_plain E k dm =
     (let s = dm_svcs dm ! k; sub = full_subject s; h = se_crc E sub 0;
          (status, cnt, coll, t) = sub_put E h sub (sv_sub_tab s);
          dm1 = upd_svc k (\<lambda>s. s\<lparr>sv_sub_tab := t\<rparr>) dm
      in (cnt, dm_emit (if status = RV_SUB_OK then AddSub (sv_fd s) sub (full_reply s) h coll
                        else NotifySub (sv_fd s) sub (full_reply s) h coll cnt) dm1))"

definition pat_hash :: "'r svc_env \<Rightarrow> string \<Rightarrow> nat \<Rightarrow> u32" where
  "pat_hash E sub prefixlen = se_crc E (take prefixlen sub) (se_prefix_seed E prefixlen)"

text \<open>Whether the prefix is all there is to match, and the expression otherwise.\<close>

definition compile_wild :: "'r svc_env \<Rightarrow> string \<Rightarrow> nat \<Rightarrow> 'r option option" where
  "compile_wild E sub prefixlen =
     (if prefixlen + 1 = length sub \<and> sub ! prefixlen = CHR ''>'' then Some None
      else map_option Some (se_compile E sub))"

text \<open>
  The wildcard part of \<open>add_sub\<close>. When the expression does not compile, the code removes the entry
  of the whole subject, which is not the entry that it made for the prefix, and still counts one.
\<close>

definition add_wild :: "'r svc_env \<Rightarrow> nat \<Rightarrow> 'r daemon \<Rightarrow> u32 \<times> 'r daemon" where
  "add_wild E k dm =
     (let s = dm_svcs dm ! k; sub = full_subject s
      in case se_convert_rv E sub of
           None \<Rightarrow> (0, dm)
         | Some n \<Rightarrow>
             let h = pat_hash E sub n; pre = take n sub;
                 (rt, coll, t) = pat_put E h pre (sv_pat_tab s)
             in (case find_wild sub (pr_list rt) of
                   Some m \<Rightarrow>
                     let cnt = wm_refcnt m + 1;
                         t1 = upd_pat h pre (\<lambda>r. r\<lparr>pr_list := upd_wild sub (\<lambda>m. m\<lparr>wm_refcnt := cnt\<rparr>) (pr_list r)\<rparr>) t
                     in (cnt, dm_emit (NotifyPat (sv_fd s) sub (full_reply s) h coll cnt)
                                (upd_svc k (\<lambda>s. s\<lparr>sv_pat_tab := t1\<rparr>) dm))
                 | None \<Rightarrow>
                     (case compile_wild E sub n of
                        Some re \<Rightarrow>
                          let m = \<lparr>wm_value = sub, wm_refcnt = 1, wm_msg_cnt = 0, wm_re = re\<rparr>;
                              t1 = upd_pat h pre (\<lambda>r. r\<lparr>pr_list := m # pr_list r, pr_count := pr_count r + 1\<rparr>) t
                          in (1, dm_emit (AddPat (sv_fd s) sub (full_reply s) h (coll \<or> pr_count rt > 0))
                                   (upd_svc k (\<lambda>s. s\<lparr>sv_pat_tab := t1, sv_pat_count := sv_pat_count s + 1\<rparr>) dm))
                      | None \<Rightarrow>
                          let t1 = (if pr_count rt = 0 then filter (\<lambda>r. pr_key r \<noteq> (h, sub)) t else t)
                          in (1, upd_svc k (\<lambda>s. s\<lparr>sv_pat_tab := t1\<rparr>) dm))))"

text \<open>The count of the shared session, and the advisory.\<close>

definition add_sub :: "'r svc_env \<Rightarrow> nat \<Rightarrow> 'r daemon \<Rightarrow> 'r daemon option" where
  "add_sub E k dm =
     (let s = dm_svcs dm ! k; m = sv_msg_in s; sub = full_subject s;
          (cnt, dm1) = (if mi_is_wild m then add_wild E k dm else add_plain E k dm)
      in if cnt = 0 then Some dm1
         else case sv_host s of
                None \<Rightarrow> None
              | Some hi \<Rightarrow>
                  let (cnt1, dm2) =
                    (if has_flag IS_RV_DAEMON s
                     then (let (c, h) = add_ref E sub (if mi_is_wild m then 0 else se_crc E sub 0) (dm_hosts dm1 ! hi)
                           in (c, upd_hst hi (\<lambda>_. h) dm1))
                     else (cnt, dm1))
                  in Some (if cnt1 \<noteq> 0 then send_listen_start E hi (sv_session s) (mi_sub m) (mi_reply m) cnt1 dm2
                           else dm2))"

section \<open>Unsubscribing\<close>

text \<open>\<open>None\<close> is a subject that was not subscribed.\<close>

definition rem_plain :: "'r svc_env \<Rightarrow> nat \<Rightarrow> 'r daemon \<Rightarrow> (u32 \<times> 'r daemon) option" where
  "rem_plain E k dm =
     (let s = dm_svcs dm ! k; sub = full_subject s; h = se_crc E sub 0
      in case sub_rem E h sub (sv_sub_tab s) of
           None \<Rightarrow> None
         | Some (cnt, coll, t) \<Rightarrow>
             Some (cnt, dm_emit (if cnt = 0 then DelSub (sv_fd s) sub h coll
                                 else NotifyUnsub (sv_fd s) sub h coll cnt)
                          (upd_svc k (\<lambda>s. s\<lparr>sv_sub_tab := t\<rparr>) dm)))"

definition rem_wild :: "'r svc_env \<Rightarrow> nat \<Rightarrow> 'r daemon \<Rightarrow> (u32 \<times> 'r daemon) option" where
  "rem_wild E k dm =
     (let s = dm_svcs dm ! k; sub = full_subject s
      in case se_convert_rv E sub of
           None \<Rightarrow> None
         | Some n \<Rightarrow>
             let h = pat_hash E sub n; pre = take n sub; t = sv_pat_tab s
             in (case pat_find E h pre t of
                   (None, coll) \<Rightarrow> None
                 | (Some rt, coll) \<Rightarrow>
                     (case find_wild sub (pr_list rt) of
                        None \<Rightarrow> None
                      | Some m \<Rightarrow>
                          let cnt = wm_refcnt m - 1
                          in if cnt = 0 then
                               let c = pr_count rt - 1;
                                   t1 = (if c = 0 then filter (\<lambda>r. pr_key r \<noteq> (h, pre)) t
                                         else upd_pat h pre (\<lambda>r. r\<lparr>pr_count := c,
                                                pr_list := filter (\<lambda>m. wm_value m \<noteq> sub) (pr_list r)\<rparr>) t)
                               in Some (cnt, dm_emit (DelPat (sv_fd s) sub h (coll \<or> c > 0))
                                    (upd_svc k (\<lambda>s. s\<lparr>sv_pat_tab := t1, sv_pat_count := sv_pat_count s - 1\<rparr>) dm))
                             else
                               let t1 = upd_pat h pre (\<lambda>r. r\<lparr>pr_list :=
                                          upd_wild sub (\<lambda>m. m\<lparr>wm_refcnt := cnt\<rparr>) (pr_list r)\<rparr>) t
                               in Some (cnt, dm_emit (NotifyUnpat (sv_fd s) sub h coll cnt)
                                    (upd_svc k (\<lambda>s. s\<lparr>sv_pat_tab := t1\<rparr>) dm)))))"

text \<open>A count that comes back as \<open>2 ^ 32 - 1\<close> is taken for a subject that was not found.\<close>

definition rem_sub :: "'r svc_env \<Rightarrow> nat \<Rightarrow> 'r daemon \<Rightarrow> 'r daemon option" where
  "rem_sub E k dm =
     (let s = dm_svcs dm ! k; m = sv_msg_in s; sub = full_subject s;
          (cnt, dm1) = (case (if mi_is_wild m then rem_wild E k dm else rem_plain E k dm) of
                          None \<Rightarrow> (- 1, dm) | Some r \<Rightarrow> r)
      in if cnt = - 1 \<or> (\<not> has_flag IS_RV_DAEMON s \<and> cnt \<noteq> 0) then Some dm1
         else case sv_host s of
                None \<Rightarrow> None
              | Some hi \<Rightarrow>
                  let (cnt1, dm2) =
                    (if has_flag IS_RV_DAEMON s
                     then (let (c, h) = rem_ref E sub (if mi_is_wild m then 0 else se_crc E sub 0) 1 (dm_hosts dm1 ! hi)
                           in (c, upd_hst hi (\<lambda>_. h) dm1))
                     else (cnt, dm1))
                  in Some (if cnt1 = 0 then send_listen_stop E hi (sv_session s) (mi_sub m) 0 dm2 else dm2))"

section \<open>The end of a connection\<close>

text \<open>One subject of the first half of \<open>rem_all_sub\<close>: its full name, hash (zero for a wildcard) and count.\<close>

definition stop_listen ::
  "'r svc_env \<Rightarrow> nat \<Rightarrow> 'r svc \<Rightarrow> string \<times> u32 \<times> u32 \<Rightarrow> 'r daemon \<Rightarrow> 'r daemon" where
  "stop_listen E hi s = (\<lambda>(value, hash, cnt) dm.
     let prelen = length (mi_prefix (sv_msg_in s))
     in if length value \<le> prelen then dm
        else let (c, dm1) =
               (if has_flag IS_RV_DAEMON s
                then (let (c, h) = rem_ref E value hash cnt (dm_hosts dm ! hi) in (c, upd_hst hi (\<lambda>_. h) dm))
                else (0, dm))
             in if c = 0 then send_listen_stop E hi (sv_session s) (drop prelen value) 0 dm1 else dm1)"

definition svc_subjects :: "'r svc \<Rightarrow> (string \<times> u32 \<times> u32) list" where
  "svc_subjects s =
     map (\<lambda>r. (sr_value r, sr_hash r, sr_refcnt r)) (sv_sub_tab s) @
     concat (map (\<lambda>r. map (\<lambda>m. (wm_value m, 0, wm_refcnt m)) (pr_list r)) (sv_pat_tab s))"

definition drop_route :: "nat \<Rightarrow> sub_route \<Rightarrow> 'r daemon \<Rightarrow> 'r daemon" where
  "drop_route k r dm =
     (let s = dm_svcs dm ! k; (coll, t) = sub_rem_collision (sr_hash r) (sr_value r) (sv_sub_tab s)
      in dm_emit (DelSub (sv_fd s) (sr_value r) (sr_hash r) coll) (upd_svc k (\<lambda>s. s\<lparr>sv_sub_tab := t\<rparr>) dm))"

definition drop_wild :: "'r svc_env \<Rightarrow> nat \<Rightarrow> 'r pat_route \<times> 'r wild_match \<Rightarrow> 'r daemon \<Rightarrow> 'r daemon" where
  "drop_wild E k = (\<lambda>(r, m) dm.
     if se_convert_rv E (wm_value m) = None then dm
     else let s = dm_svcs dm ! k;
              (coll, t) = pat_rem_collision (pr_hash r) (pr_value r) (wm_value m) (sv_pat_tab s)
          in dm_emit (DelPat (sv_fd s) (wm_value m) (pr_hash r) coll)
               (upd_svc k (\<lambda>s. s\<lparr>sv_pat_tab := t\<rparr>) dm))"

definition rem_all_sub :: "'r svc_env \<Rightarrow> nat \<Rightarrow> 'r daemon \<Rightarrow> 'r daemon" where
  "rem_all_sub E k dm =
     (let s = dm_svcs dm ! k;
          dm1 = (case sv_host s of
                   Some hi \<Rightarrow> if dm_quit dm then dm else fold (stop_listen E hi s) (svc_subjects s) dm
                 | None \<Rightarrow> dm);
          dm2 = fold (drop_route k) (sv_sub_tab s) dm1
      in fold (drop_wild E k) (concat (map (\<lambda>r. map (Pair r) (pr_list r)) (sv_pat_tab s))) dm2)"

definition send_stop :: "'r svc_env \<Rightarrow> nat \<Rightarrow> nat \<Rightarrow> 'r daemon \<Rightarrow> 'r daemon" where
  "send_stop E hi k dm =
     (let dm1 = rem_all_sub E k dm; s = dm_svcs dm1 ! k
      in if has_flag IS_RV_SESSION s then
           (if has_flag SENT_SESSION_START s \<and> \<not> has_flag SENT_SESSION_STOP s
            then send_session_stop E hi k dm1 else dm1)
         else if has_flag IS_RV_DAEMON s \<and> \<not> has_flag SENT_SESSION_STOP s
              then send_unreachable_tport E hi k dm1
         else dm1)"

definition process_close :: "'r svc_env \<Rightarrow> nat \<Rightarrow> 'r daemon \<Rightarrow> 'r daemon option" where
  "process_close E k dm =
     (if sv_host_started (dm_svcs dm ! k) then
        (case sv_host (dm_svcs dm ! k) of
           None \<Rightarrow> None
         | Some hi \<Rightarrow>
             let dm1 = upd_svc k (\<lambda>s. s\<lparr>sv_host_started := False\<rparr>) (send_stop E hi k dm);
                 (stopped, h) = stop_network (dm_hosts dm1 ! hi);
                 dm2 = upd_hst hi (\<lambda>_. h) dm1
             in Some (if stopped then stop_host E hi dm2 else dm2))
      else Some dm)"

text \<open>\<open>release\<close>, after which the connection is gone from the list of peers.\<close>

definition svc_release :: "nat \<Rightarrow> 'r daemon \<Rightarrow> 'r daemon" where
  "svc_release k dm = dm\<lparr>dm_svcs := take k (dm_svcs dm) @ drop (Suc k) (dm_svcs dm)\<rparr>"

section \<open>Messages to a client\<close>

text \<open>The number that the final digits of a reply spell, read from the end; the first character is not read.\<close>

definition hint_index :: "string \<Rightarrow> nat" where
  "hint_index reply =
     unat (foldl (\<lambda>i c. i * 10 + of_int (digit_val c)) (0 :: u32) (takeWhile is_digit (rev (tl reply)))) mod 1024"

definition update_reply_hint :: "'r svc_env \<Rightarrow> string \<Rightarrow> string \<Rightarrow> u32 list \<Rightarrow> u32 list" where
  "update_reply_hint E sub reply hints =
     (let i = hint_index reply
      in (hints @ replicate (Suc i - length hints) 0)[i := se_crc E sub 0])"

definition get_reply_hint :: "string \<Rightarrow> u32 list \<Rightarrow> u32" where
  "get_reply_hint reply hints = (if hint_index reply < length hints then hints ! hint_index reply else 0)"

definition starts :: "string \<Rightarrow> string \<Rightarrow> bool" where
  "starts pre s \<longleftrightarrow> take (length pre) s = pre"

text \<open>The type of a message (advisory or data) and the subject whose sender is remembered.\<close>

definition msg_mtype :: "string \<Rightarrow> string" where
  "msg_mtype sub =
     (if length sub > 16 \<and> hd sub = CHR ''_'' \<and>
         ((starts INFO_SYSTEM sub \<and>
           (starts ''HOST.'' (drop 16 sub) \<or> starts ''SESSION.'' (drop 16 sub) \<or>
            starts ''LISTEN.'' (drop 16 sub) \<or> starts ''UNREACHABLE.'' (drop 16 sub))) \<or>
          (\<not> starts INFO_SYSTEM sub \<and> starts ''_RV.ERROR.SYSTEM.'' sub))
      then ''A'' else ''D'')"

definition hint_subject :: "string \<Rightarrow> string option" where
  "hint_subject sub =
     (if msg_mtype sub = ''A''
      then (if starts (INFO_SYSTEM @ ''LISTEN.'') sub \<and> length sub > 29 then Some (drop 29 sub) else None)
      else if starts ''_SNAP.'' sub then Some (drop 6 sub) else None)"

text \<open>
  How the data of a publication is laid out in the message for the client, and the bytes that follow
  the header; \<open>None\<close> is an encoding that is not known. The last \<open>pb_suf_len\<close> bytes are fields that
  came behind the data.
\<close>

definition tib_layout :: "md_type \<Rightarrow> u8 list \<Rightarrow> u8 list \<Rightarrow> msg_layout \<times> u8 list" where
  "tib_layout enc body suf = (if suf = [] then (DataField enc, body) else (DataSub ''_data_'' enc, body @ suf))"

definition json_layout :: "'r svc_env \<Rightarrow> md_type \<Rightarrow> u8 list \<Rightarrow> u8 list \<Rightarrow> msg_layout \<times> u8 list" where
  "json_layout E enc body suf =
     (case se_json E body of Some b \<Rightarrow> (DataMsg, drop 8 b) | None \<Rightarrow> tib_layout enc body suf)"

definition fwd_layout :: "'r svc_env \<Rightarrow> ev_pub \<Rightarrow> (msg_layout \<times> u8 list) option" where
  "fwd_layout E pub =
     (let n = length (pb_msg pub) - pb_suf_len pub; body = take n (pb_msg pub); suf = drop n (pb_msg pub);
          enc = pb_enc pub; rv = Some (DataMsg, drop 8 body @ suf)
      in case enc of
           RVMSG_TYPE_ID \<Rightarrow> rv
         | MD_OPAQUE \<Rightarrow> if se_is_rvmsg E body then rv else Some (tib_layout enc body suf)
         | MD_STRING \<Rightarrow>
             if se_is_rvmsg E body then rv
             else if se_is_tib E body then Some (tib_layout MD_OPAQUE body suf)
             else if se_msg_type E body = Some JSON_TYPE_ID then Some (json_layout E enc body suf)
             else Some (tib_layout enc body suf)
         | JSON_TYPE_ID \<Rightarrow> Some (json_layout E enc body suf)
         | RAIMSG_TYPE_ID \<Rightarrow> Some (tib_layout enc body suf)
         | TIB_SASS_TYPE_ID \<Rightarrow> Some (tib_layout enc body suf)
         | TIB_SASS_FORM_TYPE_ID \<Rightarrow> Some (tib_layout enc body suf)
         | MARKETFEED_TYPE_ID \<Rightarrow> Some (tib_layout enc body suf)
         | RWF_MSG_TYPE_ID \<Rightarrow> Some (DataSub ''_RWFMSG'' enc, body)
         | _ \<Rightarrow>
             if enc = MD_MESSAGE \<and> se_is_rvmsg E body then rv
             else if body = [] then Some (NoData, [])
             else if se_msg_type E body \<noteq> None then Some (tib_layout enc body suf)
             else None)"

definition svc_sent ::
  "nat \<Rightarrow> nat \<Rightarrow> nat \<Rightarrow> string \<Rightarrow> string \<Rightarrow> string \<Rightarrow> msg_layout \<times> u8 list \<Rightarrow> 'r daemon \<Rightarrow> 'r daemon" where
  "svc_sent hi fd len mtype sub reply lay dm =
     upd_hst hi (\<lambda>h. h\<lparr>rh_stat := (rh_stat h)\<lparr>st_bs := st_bs (rh_stat h) + of_nat len,
                                              st_ms := st_ms (rh_stat h) + 1\<rparr>\<rparr>)
       (dm_emit (ToClient fd sub ([(''mtype'', AStr mtype)] @ (if reply = [] then [] else [(''return'', AStr reply)]) @
                                  [(''data'', AData (fst lay) (snd lay))])) dm)"

text \<open>Losses that come with a publication go to the host, or to the owner of the listener.\<close>

definition fwd_loss :: "'r svc_env \<Rightarrow> nat \<Rightarrow> nat \<Rightarrow> ev_pub \<Rightarrow> 'r daemon \<Rightarrow> 'r daemon option" where
  "fwd_loss E hi fd pub dm =
     (if pb_status pub \<noteq> 0 \<and> (pb_status pub \<le> se_max_loss E \<or> pb_status pub = se_pub_restart E) \<and> \<not> dm_notify dm
      then do {
        (h, rep) \<leftarrow> inbound_data_loss E fd pub [] (dm_hosts dm ! hi);
        let dm1 = upd_hst hi (\<lambda>_. h) dm;
        Some (case rep of Some r \<Rightarrow> emit_report E hi r dm1 | None \<Rightarrow> dm1)
      }
      else Some dm)"

definition fwd_msg :: "'r svc_env \<Rightarrow> nat \<Rightarrow> ev_pub \<Rightarrow> 'r daemon \<Rightarrow> 'r daemon option" where
  "fwd_msg E k pub dm =
     (let s = dm_svcs dm ! k; prelen = length (mi_prefix (sv_msg_in s))
      in if length (pb_subject pub) < prelen then Some dm
         else do {
           hi \<leftarrow> sv_host s;
           let sub = drop prelen (pb_subject pub);
           let reply = (if length (pb_reply pub) > prelen then drop prelen (pb_reply pub) else pb_reply pub);
           dm1 \<leftarrow> fwd_loss E hi (sv_fd s) pub dm;
           if \<not> se_subject_ok E sub then Some dm1
           else do {
             let dm2 = (case hint_subject sub of
                          Some v \<Rightarrow> if reply \<noteq> []
                                    then upd_svc k (\<lambda>s. s\<lparr>sv_reply_hint := update_reply_hint E v reply (sv_reply_hint s)\<rparr>) dm1
                                    else dm1
                        | None \<Rightarrow> dm1);
             Some (case fwd_layout E pub of
                     None \<Rightarrow> dm2
                   | Some (lay, body) \<Rightarrow>
                       (case se_encode E (msg_mtype sub) sub reply lay (length body) of
                          Some off \<Rightarrow> svc_sent hi (sv_fd s) (off + length body) (msg_mtype sub) sub reply (lay, body) dm2
                        | None \<Rightarrow> dm2))
           }
         })"

text \<open>The first wildcard of a prefix that matches; \<open>>\<close> alone does not match an inbox.\<close>

definition wild_hit :: "'r svc_env \<Rightarrow> string \<Rightarrow> 'r pat_route \<Rightarrow> 'r wild_match option" where
  "wild_hit E sub rt =
     find (\<lambda>m. (case wm_re m of None \<Rightarrow> True | Some re \<Rightarrow> se_match E re sub) \<and>
               (pr_value rt \<noteq> [] \<or> wm_re m \<noteq> None \<or> \<not> is_inbox_subject sub)) (pr_list rt)"

text \<open>The loop of \<open>on_msg\<close>: the table with the counter of the match, \<open>None\<close> when nothing matches.\<close>

fun msg_hit :: "'r svc_env \<Rightarrow> ev_pub \<Rightarrow> (u32 \<times> nat) list \<Rightarrow> 'r svc \<Rightarrow> 'r svc option" where
  "msg_hit E pub [] s = None"
| "msg_hit E pub ((h, n) # rs) s =
     (if pb_hash pub = h then
        (case sub_updcnt h (pb_subject pub) (sv_sub_tab s) of
           (RV_SUB_OK, t) \<Rightarrow> Some (s\<lparr>sv_sub_tab := t\<rparr>)
         | _ \<Rightarrow> msg_hit E pub rs s)
      else
        (case find_pat h (take n (pb_subject pub)) (sv_pat_tab s) of
           None \<Rightarrow> msg_hit E pub rs s
         | Some rt \<Rightarrow>
             (case wild_hit E (pb_subject pub) rt of
                None \<Rightarrow> msg_hit E pub rs s
              | Some m \<Rightarrow>
                  Some (s\<lparr>sv_pat_tab := upd_pat h (take n (pb_subject pub))
                    (\<lambda>r. r\<lparr>pr_list := upd_wild (wm_value m) (\<lambda>m. m\<lparr>wm_msg_cnt := wm_msg_cnt m + 1\<rparr>) (pr_list r)\<rparr>)
                    (sv_pat_tab s)\<rparr>))))"

definition on_msg :: "'r svc_env \<Rightarrow> nat \<Rightarrow> ev_pub \<Rightarrow> 'r daemon \<Rightarrow> 'r daemon option" where
  "on_msg E k pub dm =
     (case msg_hit E pub (pb_routes pub) (dm_svcs dm ! k) of
        Some s \<Rightarrow> fwd_msg E k pub (upd_svc k (\<lambda>_. s) dm)
      | None \<Rightarrow> do {
          hi \<leftarrow> sv_host (dm_svcs dm ! k);
          let h = dm_hosts dm ! hi;
          if pb_subject pub = rh_inbound_sub h \<and> pb_hash pub = se_crc E (rh_inbound_sub h) 0 \<or>
             pb_subject pub = rh_outbound_sub h \<and> pb_hash pub = se_crc E (rh_outbound_sub h) 0
          then fwd_msg E k pub dm else Some dm
        })"

section \<open>Questions of the router\<close>

text \<open>Whether a connection is subscribed, and whether the hash is ambiguous.\<close>

definition svc_is_subscribed :: "'r svc_env \<Rightarrow> bool \<Rightarrow> u32 \<Rightarrow> string \<Rightarrow> 'r svc \<Rightarrow> bool \<times> bool" where
  "svc_is_subscribed E is_queue h sub s =
     (if is_queue then (False, False)
      else case sub_find E h sub (sv_sub_tab s) of (st, coll) \<Rightarrow> (st = RV_SUB_OK, coll))"

definition svc_is_psubscribed :: "'r svc_env \<Rightarrow> bool \<Rightarrow> u32 \<Rightarrow> string \<Rightarrow> nat \<Rightarrow> 'r svc \<Rightarrow> bool \<times> bool" where
  "svc_is_psubscribed E is_queue h pat prefixlen s =
     (if is_queue then (False, False)
      else case pat_find E h (take prefixlen pat) (sv_pat_tab s) of
             (None, coll) \<Rightarrow> (False, coll)
           | (Some rt, coll) \<Rightarrow>
               (case find_wild pat (pr_list rt) of
                  None \<Rightarrow> (False, True)
                | Some m \<Rightarrow> (True, coll \<or> pr_count rt > 1)))"

definition hash_to_sub :: "u32 \<Rightarrow> 'r svc \<Rightarrow> string option" where
  "hash_to_sub h s = map_option sr_value (find (\<lambda>r. sr_hash r = h) (sv_sub_tab s))"

section \<open>The handshake\<close>

definition be_bytes :: "u32 \<Rightarrow> u8 list" where
  "be_bytes n = map (\<lambda>i. ucast (drop_bit (8 * (3 - i)) n)) [0..<4]"

text \<open>\<open>EvRvListen::accept\<close> and \<open>initialize_state\<close>.\<close>

definition msg_in_init :: msg_in where
  "msg_in_init = \<lparr>mi_buf = [], mi_sub = [], mi_sub_buf = [], mi_is_wild = False, mi_mtype = 0,
     mi_reply = [], mi_data = None, mi_suffix_len = 0, mi_prefix = []\<rparr>"

definition svc_init :: "nat \<Rightarrow> u64 \<Rightarrow> 'r svc" where
  "svc_init fd now =
     \<lparr>sv_fd = fd, sv_state = VERS_RECV, sv_host = None, sv_session = [], sv_control = [],
      sv_userid = ''nobody'', sv_gob = [], sv_vers = (0, 0, 0), sv_host_started = False,
      sv_sent_initresp = False, sv_sent_rvdconn = False, sv_sub_tab = [], sv_pat_tab = [],
      sv_pat_count = 0, sv_msg_in = msg_in_init, sv_reply_hint = [], sv_active_ns = now\<rparr>"

definition svc_accept :: "nat \<Rightarrow> 'r daemon \<Rightarrow> 'r daemon" where
  "svc_accept fd dm =
     dm_emit (ToClientRaw fd (be_bytes 0 @ be_bytes 4 @ be_bytes 0))
       (dm\<lparr>dm_svcs := dm_svcs dm @ [svc_init fd (dm_now dm)]\<rparr>)"

definition send_info :: "bool \<Rightarrow> nat \<Rightarrow> 'r daemon \<Rightarrow> 'r daemon" where
  "send_info agree fd dm =
     dm_emit (ToClientRaw fd (concat (map be_bytes
       [if agree then 1 else 2, 2, 0, 1, 0, 0x4000000, 0x4000000]) @ replicate 36 0)) dm"

text \<open>\<open>EvRvListen::start_host\<close> and \<open>start_network\<close>; the host is set before its network is started.\<close>

definition listen_start_host :: "'r svc_env \<Rightarrow> nat \<Rightarrow> host_net \<Rightarrow> 'r daemon \<Rightarrow> host_error \<times> 'r daemon" where
  "listen_start_host E hi hn dm =
     (let h = dm_hosts dm ! hi
      in if \<not> rh_network_started h \<and> \<not> rh_start_in_progress h then
           (case check_network E (dm_now dm) hn h (dm_rpcs dm) of
              (HOST_OK, h1, rs) \<Rightarrow>
                (HOST_OK, start_host E hi
                   (upd_hst hi (\<lambda>_. h1\<lparr>rh_start_in_progress := True\<rparr>) (dm\<lparr>dm_rpcs := rs\<rparr>)))
            | (e, h1, rs) \<Rightarrow> (e, upd_hst hi (\<lambda>_. h1) (dm\<lparr>dm_rpcs := rs\<rparr>)))
         else if mc_host_ip (rh_mcast h) = 0 \<or> \<not> is_same_network hn h
              then (ERR_SAME_SVC_TWO_NETS, dm)
         else (HOST_OK, dm))"

definition listen_start_network ::
  "'r svc_env \<Rightarrow> nat \<Rightarrow> host_net \<Rightarrow> 'r daemon \<Rightarrow> host_error \<times> nat \<times> 'r daemon" where
  "listen_start_network E k hn dm =
     (let (e, hi, hs) = start_service E hn (dm_hosts dm);
          dm1 = upd_svc k (\<lambda>s. s\<lparr>sv_host := Some hi\<rparr>) (dm\<lparr>dm_hosts := hs\<rparr>)
      in if e = HOST_OK then (let (e1, dm2) = listen_start_host E hi hn dm1 in (e1, hi, dm2))
         else (e, hi, dm1))"

text \<open>The fields of an information message; \<open>None\<close> is a field that does not parse.\<close>

datatype info_val = IVStr string | IVInt u16 | IVOther

type_synonym info_field = "(string \<times> info_val) option"

text \<open>A string with its final zero, when the buffer of the given size holds one more.\<close>

definition match_str :: "nat \<Rightarrow> info_val \<Rightarrow> string option" where
  "match_str buflen v =
     (case v of IVStr s \<Rightarrow> if s \<noteq> [] \<and> length s < buflen then Some (butlast s) else None | _ \<Rightarrow> None)"

record info_st =
  in_userid :: string
  in_session :: string
  in_control :: string
  in_service :: string
  in_network :: string
  in_vers :: "u16 \<times> u16 \<times> u16"

definition info_field_set :: "'r svc_env \<Rightarrow> string \<Rightarrow> info_val \<Rightarrow> info_st \<Rightarrow> info_st" where
  "info_field_set E nm v i =
     (if nm = zstr ''userid'' then
        (case match_str (se_max_userid E) v of Some x \<Rightarrow> i\<lparr>in_userid := x\<rparr> | None \<Rightarrow> i)
      else if nm = zstr ''session'' then
        (case match_str (se_max_session E) v of Some x \<Rightarrow> i\<lparr>in_session := x\<rparr> | None \<Rightarrow> i)
      else if nm = zstr ''control'' then
        (case match_str 64 v of Some x \<Rightarrow> i\<lparr>in_control := x\<rparr> | None \<Rightarrow> i)
      else if nm = zstr ''service'' then
        (case match_str MAX_RV_SERVICE_LEN v of Some x \<Rightarrow> i\<lparr>in_service := x\<rparr> | None \<Rightarrow> i)
      else if nm = zstr ''network'' then
        (case match_str MAX_RV_NETWORK_LEN v of Some x \<Rightarrow> i\<lparr>in_network := x\<rparr> | None \<Rightarrow> i)
      else case v of
        IVInt n \<Rightarrow>
          (case in_vers i of (a, b, c) \<Rightarrow>
             if nm = zstr ''vmaj'' then i\<lparr>in_vers := (n, b, c)\<rparr>
             else if nm = zstr ''vmin'' then i\<lparr>in_vers := (a, n, c)\<rparr>
             else if nm = zstr ''vupd'' then i\<lparr>in_vers := (a, b, n)\<rparr> else i)
      | _ \<Rightarrow> i)"

text \<open>\<open>False\<close> is the early return.\<close>

fun info_fields :: "'r svc_env \<Rightarrow> info_field list \<Rightarrow> info_st \<Rightarrow> bool \<times> info_st" where
  "info_fields E [] i = (True, i)"
| "info_fields E (None # fs) i = (False, i)"
| "info_fields E (Some (nm, v) # fs) i = info_fields E fs (info_field_set E nm v i)"

definition info_of :: "'r svc \<Rightarrow> info_st" where
  "info_of s = \<lparr>in_userid = sv_userid s, in_session = sv_session s, in_control = sv_control s,
     in_service = [], in_network = [], in_vers = sv_vers s\<rparr>"

definition info_put :: "'r svc_env \<Rightarrow> info_st \<Rightarrow> 'r svc \<Rightarrow> 'r svc" where
  "info_put E i s =
     s\<lparr>sv_userid := in_userid i, sv_session := in_session i, sv_control := in_control i,
       sv_vers := in_vers i,
       sv_gob := (if sv_gob s = [] then time_to_str E (sv_active_ns s) else sv_gob s)\<rparr>"

definition host_errno :: "host_error \<Rightarrow> u64" where
  "host_errno e =
     (case e of HOST_OK \<Rightarrow> 0 | ERR_GETHOSTNAME_FAILED \<Rightarrow> 1 | ERR_NO_INTERFACE_FOUND \<Rightarrow> 2
      | ERR_HOSTNAME_NOT_FOUND \<Rightarrow> 3 | ERR_SAME_SVC_TWO_NETS \<Rightarrow> 5 | ERR_NETWORK_NOT_FOUND \<Rightarrow> 17
      | ERR_BAD_SERVICE_NUM \<Rightarrow> 18 | ERR_BAD_PARAMETERS \<Rightarrow> 19 | ERR_START_HOST_FAILED \<Rightarrow> 20)"

text \<open>The reply to an information message.\<close>

definition info_reply :: "nat \<Rightarrow> nat \<Rightarrow> host_error \<Rightarrow> 'r daemon \<Rightarrow> 'r daemon" where
  "info_reply k hi e dm =
     (let s = dm_svcs dm ! k; h = dm_hosts dm ! hi
      in if e \<noteq> HOST_OK then
           dm_emit (Shutdown (sv_fd s)) (dm_emit (ToClient (sv_fd s) ''RVD.INITREFUSED''
             [(''mtype'', AStr ''R''), (''error'', ANum (host_errno e))]) dm)
         else if \<not> sv_sent_initresp s then
           dm_emit (ToClient (sv_fd s) ''RVD.INITRESP''
             [(''mtype'', AStr ''R''),
              (''ipaddr'', AIp (if mc_fake_ip (rh_mcast h) = 0 then mc_host_ip (rh_mcast h)
                                else mc_fake_ip (rh_mcast h))),
              (''ipport'', APort (rh_service_num h)), (''vmaj'', ANum 5), (''vmin'', ANum 4),
              (''vupd'', ANum 2), (''gob'', AStr (sv_gob s))])
             (upd_svc k (\<lambda>s. s\<lparr>sv_sent_initresp := True\<rparr>) dm)
         else
           dm_emit (ToClient (sv_fd s) (INFO_SYSTEM @ ''RVD.CONNECTED'')
             [(''mtype'', AStr ''D''), (''ADV_CLASS'', AStr ''INFO''), (''ADV_SOURCE'', AStr ''SYSTEM''),
              (''ADV_NAME'', AStr ''RVD.CONNECTED'')])
             (upd_svc k (\<lambda>s. s\<lparr>sv_sent_rvdconn := True\<rparr>)
               (if dm_notify dm then dm_emit (OnConnect (sv_fd s)) dm else dm)))"

text \<open>The choice of the session: the shared one when the client uses the id that it was given.\<close>

definition choose_session :: "rvd_host \<Rightarrow> 'r svc \<Rightarrow> 'r svc" where
  "choose_session h s0 =
     (let s = (if sv_state s0 < DATA_RECV then s0\<lparr>sv_state := DATA_RECV\<rparr> else s0)
      in if sv_sent_rvdconn s then
           (if length (sv_session s) > 9 \<and> drop 9 (sv_session s) = sv_gob s
            then s\<lparr>sv_session := rh_daemon_id h, sv_state := sv_state s OR IS_RV_DAEMON\<rparr>
            else s\<lparr>sv_state := sv_state s OR IS_RV_SESSION\<rparr>)
         else s)"

definition count_client :: "nat \<Rightarrow> nat \<Rightarrow> 'r daemon \<Rightarrow> 'r daemon" where
  "count_client k hi dm =
     (if rh_network_started (dm_hosts dm ! hi) \<and> \<not> sv_host_started (dm_svcs dm ! k)
      then upd_hst hi (\<lambda>h. h\<lparr>rh_active_clients := rh_active_clients h + 1\<rparr>)
             (upd_svc k (\<lambda>s. s\<lparr>sv_host_started := True\<rparr>) dm)
      else dm)"

definition respond_info :: "'r svc_env \<Rightarrow> nat \<Rightarrow> info_field list \<Rightarrow> 'r daemon \<Rightarrow> bool \<times> 'r daemon" where
  "respond_info E k fs dm =
     (let (ok, i) = info_fields E fs (info_of (dm_svcs dm ! k));
          dm1 = upd_svc k (info_put E i) dm
      in if \<not> ok then (False, dm1)
         else
           let svc = (if in_service i = [] then ''7500'' else in_service i);
               hn = \<lparr>hn_service = svc, hn_network = in_network i, hn_ipport = dm_ipport dm,
                     hn_prefix = dm_prefix dm\<rparr>;
               (e, hi, dm2) = listen_start_network E k hn dm1;
               dm3 = info_reply k hi e (count_client k hi dm2);
               dm4 = (if e = HOST_OK then upd_svc k (choose_session (dm_hosts dm3 ! hi)) dm3 else dm3)
           in (True, if sv_host_started (dm_svcs dm4 ! k) then send_start E hi k dm4 else dm4))"

section \<open>Messages from a client\<close>

text \<open>The data of a publication, unwrapped when it is an opaque field of a message: type, place and length.\<close>

definition pub_data :: "'r svc_env \<Rightarrow> msg_in \<Rightarrow> md_type \<times> nat \<times> nat" where
  "pub_data E m =
     (case mi_data m of
        None \<Rightarrow> (MD_OTHER 0, 0, 0)
      | Some (t, p, n) \<Rightarrow>
          if t = MD_MESSAGE \<or> t = RVMSG_TYPE_ID
          then (case se_opaque E (mi_buf m) p n of Some d \<Rightarrow> d | None \<Rightarrow> (RVMSG_TYPE_ID, p, n))
          else if t = MD_OPAQUE
          then (case se_msg_type E (take n (drop p (mi_buf m))) of Some t' \<Rightarrow> (t', p, n) | None \<Rightarrow> (t, p, n))
          else (t, p, n))"

definition pub_suffix :: "msg_in \<Rightarrow> nat \<Rightarrow> nat" where
  "pub_suffix m e = (if e + mi_suffix_len m = length (mi_buf m) then mi_suffix_len m else 0)"

definition fwd_pub :: "'r svc_env \<Rightarrow> nat \<Rightarrow> 'r daemon \<Rightarrow> (flow \<times> 'r daemon) option" where
  "fwd_pub E k dm =
     (let s = dm_svcs dm ! k; m = sv_msg_in s; (t, p, n) = pub_data E m; suf = pub_suffix m (p + n);
          rep = (if mi_reply m \<noteq> [] then full_reply s else []);
          hint = (if starts ''_INBOX.'' (mi_sub_buf m) then get_reply_hint (full_subject s) (sv_reply_hint s) else 0)
      in case sv_host s of
           None \<Rightarrow> None
         | Some hi \<Rightarrow> Some (dm_flow dm, dm_emit (FwdPub (sv_fd s) (full_subject s) rep hint t
               (take (n + suf) (drop p (mi_buf m))) suf) dm))"

datatype dispatch_end = DOk | DBack | DError | DNeg

text \<open>
  \<open>dispatch_msg\<close>: the fields of an information message are read again from the message. A message of
  a type that the daemon does not handle gives a negative status.
\<close>

definition dispatch_msg ::
  "'r svc_env \<Rightarrow> (u8 list \<Rightarrow> info_field list) \<Rightarrow> nat \<Rightarrow> u8 list \<Rightarrow> 'r daemon \<Rightarrow> (dispatch_end \<times> 'r daemon) option" where
  "dispatch_msg E info k msg dm =
     (let (st, m) = msg_unpack (se_unpack_rv E) msg (sv_msg_in (dm_svcs dm ! k));
          dm1 = upd_svc k (\<lambda>s. s\<lparr>sv_msg_in := m\<rparr>) dm
      in if st \<noteq> RV_OK then Some (if length msg = 8 then DOk else DError, dm1)
         else if mi_mtype m = 68 then
           map_option (\<lambda>(fl, dm2).
             (if fl = RV_FLOW_STALLED then DBack else DOk,
              upd_svc k (\<lambda>s. s\<lparr>sv_state := (if fl = RV_FLOW_GOOD then sv_state s AND NOT FWD_BACKPRESSURE
                                            else sv_state s OR FWD_BACKPRESSURE)\<rparr>) dm2))
             (fwd_pub E k dm1)
         else if mi_mtype m = 67 then map_option (Pair DOk) (rem_sub E k dm1)
         else if mi_mtype m = 76 then map_option (Pair DOk) (add_sub E k dm1)
         else if mi_mtype m = 73 then
           (let (ok, dm2) = respond_info E k (info msg) dm1 in Some (if ok then DOk else DNeg, dm2))
         else Some (DNeg, dm1))"

datatype recv_end = RWait | RClose | RStay | RBack

definition count_recv :: "nat \<Rightarrow> nat \<Rightarrow> 'r daemon \<Rightarrow> 'r daemon option" where
  "count_recv k len dm =
     (case sv_host (dm_svcs dm ! k) of
        None \<Rightarrow> None
      | Some hi \<Rightarrow> Some (upd_hst hi (\<lambda>h. h\<lparr>rh_stat := (rh_stat h)\<lparr>st_br := st_br (rh_stat h) + of_nat len,
                                                         st_mr := st_mr (rh_stat h) + 1\<rparr>\<rparr>) dm))"

text \<open>The loop of \<open>process\<close> over the messages that were received.\<close>

partial_function (option) recv_loop ::
  "'r svc_env \<Rightarrow> (u8 list \<Rightarrow> info_field list) \<Rightarrow> nat \<Rightarrow> u8 list \<Rightarrow> 'r daemon \<Rightarrow>
   (recv_end \<times> u8 list \<times> 'r daemon) option" where
  "recv_loop E info k buf dm =
     (if length buf < 8 then Some (RWait, buf, dm)
      else let msglen = unat (se_be32 E buf)
           in if length buf < msglen
              then Some (if se_be32 E (drop 4 buf) \<noteq> 0x9955eeaa then RClose else RWait, buf, dm)
              else do {
                (st, dm1) \<leftarrow> dispatch_msg E info k (take msglen buf) dm;
                case st of
                  DOk \<Rightarrow> do { dm2 \<leftarrow> count_recv k msglen dm1; recv_loop E info k (drop msglen buf) dm2 }
                | DBack \<Rightarrow> Some (RBack, buf, dm1)
                | DError \<Rightarrow> Some (RClose, buf, dm1)
                | DNeg \<Rightarrow> Some (RStay, buf, dm1)
              })"

definition data_recv ::
  "'r svc_env \<Rightarrow> (u8 list \<Rightarrow> info_field list) \<Rightarrow> nat \<Rightarrow> u8 list \<Rightarrow> 'r daemon \<Rightarrow>
   (recv_end \<times> u8 list \<times> 'r daemon) option" where
  "data_recv E info k buf dm =
     recv_loop E info k buf
       (upd_svc k (\<lambda>s. s\<lparr>sv_state := (if length buf > se_highwater E then sv_state s OR FWD_BUFFERSIZE
                                      else sv_state s AND NOT FWD_BUFFERSIZE)\<rparr>) dm)"

definition svc_process ::
  "'r svc_env \<Rightarrow> (u8 list \<Rightarrow> info_field list) \<Rightarrow> nat \<Rightarrow> u8 list \<Rightarrow> 'r daemon \<Rightarrow>
   (recv_end \<times> u8 list \<times> 'r daemon) option" where
  "svc_process E info k buf dm =
     (let s = dm_svcs dm ! k;
          info_recv = (\<lambda>buf dm.
            if length buf < 64 then Some (RWait, buf, dm)
            else data_recv E info k (drop 64 buf)
                   (upd_svc k (\<lambda>s. s\<lparr>sv_state := DATA_RECV\<rparr>) (send_info True (sv_fd s) dm)))
      in if sv_state s \<ge> DATA_RECV then data_recv E info k buf dm
         else if sv_state s = VERS_RECV then
           (if length buf < 12 then Some (RWait, buf, dm)
            else info_recv (drop 12 buf)
                   (upd_svc k (\<lambda>s. s\<lparr>sv_state := INFO_RECV\<rparr>) (send_info False (sv_fd s) dm)))
         else info_recv buf dm)"

end
