(* ===== verification/Svc_Rpc.thy ===== *)
theory Svc_Rpc
  imports Svc_Service
begin

text \<open>
  The queries that the daemon answers on its inbox (\<open>RvDaemonRpc\<close> in \<open>src/rv_host.cpp\<close>): which
  sessions a host has, and what a session is subscribed to.
\<close>

section \<open>Answers\<close>

text \<open>The sessions of a service, each once.\<close>

definition session_list :: "u16 \<Rightarrow> 'r daemon \<Rightarrow> string list" where
  "session_list n dm =
     fold (\<lambda>(sess, subs, pats) db. if sess = [] then db else db_upsert sess db) (peer_views n dm) []"

definition send_sessions :: "nat \<Rightarrow> string \<Rightarrow> 'r daemon \<Rightarrow> 'r daemon" where
  "send_sessions ri reply dm =
     dm_emit (Forward reply [] (map (\<lambda>s. ([], AStr s)) (session_list (rp_svc (dm_rpcs dm ! ri)) dm))) dm"

text \<open>The subjects and wildcards of all connections of a session, and the first user that has any.\<close>

definition session_views ::
  "u16 \<Rightarrow> 'r daemon \<Rightarrow> (string \<times> string \<times> string list \<times> string list) list" where
  "session_views n dm =
     map (\<lambda>s. (svc_get_session n dm s, sv_userid s, svc_get_subscriptions n dm s [], svc_get_patterns n dm s []))
       (dm_svcs dm) @
     map (\<lambda>(sess, subs, pats). (sess, ''nobody'', subs, pats)) (dm_others dm n)"

definition collect_session ::
  "string \<Rightarrow> (string \<times> string \<times> string list \<times> string list) list \<Rightarrow> string \<times> string list \<times> string list" where
  "collect_session session vs =
     fold (\<lambda>(sess, user, subs, pats) (u, ss, ps).
             if sess = [] \<or> sess \<noteq> session then (u, ss, ps)
             else (if u = [] \<and> (set subs \<union> set pats) - (set ss \<union> set ps) \<noteq> {} then user else u,
                   fold db_upsert subs ss, fold db_upsert pats ps))
       vs ([], [], [])"

definition subscription_fields :: "string \<times> string list \<times> string list \<Rightarrow> (string \<times> adv_val) list" where
  "subscription_fields = (\<lambda>(u, ss, ps).
     (''user'', AStr (if u = [] then ''nobody'' else u)) #
     map (\<lambda>v. ([], AStr v)) (filter (\<lambda>v. \<not> is_restricted_subject v) (ss @ ps)) @
     [(''end'', ANum 1)])"

definition send_subscriptions :: "nat \<Rightarrow> string \<Rightarrow> string \<Rightarrow> 'r daemon \<Rightarrow> 'r daemon" where
  "send_subscriptions ri session0 reply dm =
     (let session = strip_nul_end session0
      in dm_emit (Forward reply [] (subscription_fields
           (collect_session session (session_views (rp_svc (dm_rpcs dm ! ri)) dm)))) dm)"

section \<open>Questions\<close>

text \<open>A string field with or without its final zero.\<close>

definition match_string :: "string \<Rightarrow> info_val \<Rightarrow> bool" where
  "match_string s v = (case v of IVStr x \<Rightarrow> strip_nul_end x = s | _ \<Rightarrow> False)"

text \<open>\<open>on_msg\<close>, with the fields that the library finds in the message.\<close>

definition rpc_on_msg ::
  "nat \<Rightarrow> string \<Rightarrow> (string \<rightharpoonup> info_val) option \<Rightarrow> 'r daemon \<Rightarrow> 'r daemon" where
  "rpc_on_msg ri reply msg dm =
     (case (reply, msg) of
        ([], _) \<Rightarrow> dm
      | (_, None) \<Rightarrow> dm
      | (_, Some m) \<Rightarrow>
          (case (m ''op'', m ''what'') of
             (Some a, Some b) \<Rightarrow>
               if \<not> match_string ''get'' a then dm
               else if match_string ''sessions'' b then send_sessions ri reply dm
               else if match_string ''subscriptions'' b then
                 (case m ''session'' of Some (IVStr s) \<Rightarrow> send_subscriptions ri s reply dm | _ \<Rightarrow> dm)
               else dm
           | _ \<Rightarrow> dm))"

text \<open>Whether the inbox is subscribed, and whether the hash is ambiguous.\<close>

definition rpc_is_subscribed :: "u32 \<Rightarrow> string \<Rightarrow> daemon_rpc \<Rightarrow> bool \<times> bool" where
  "rpc_is_subscribed h sub r =
     (if rp_refs r > 0 \<and> h = rp_hash r
      then (if sub = rp_buf r then (True, False) else (False, True)) else (False, False))"

definition host_get_subscriptions :: "u16 \<Rightarrow> rvd_host \<Rightarrow> daemon_rpc list \<Rightarrow> string list \<Rightarrow> string list" where
  "host_get_subscriptions n h rs db =
     (case rh_rpc h of
        None \<Rightarrow> db
      | Some ri \<Rightarrow> if rp_svc (rs ! ri) = n then db_upsert (rp_buf (rs ! ri)) db else db)"

end
