(* ===== verification/Svc_Frame.thy ===== *)
theory Svc_Frame
  imports Svc_Rpc
begin

text \<open>
  What the operations of the daemon leave as it is. The router learns of subscriptions from the events
  that a connection emits; most operations emit no such event and do not touch the tables of a
  connection. The relation \<open>frame\<close> says so, and the locale \<open>frame_rel\<close> has the rules by which it is
  carried through an operation.
\<close>

section \<open>What the router holds\<close>

text \<open>The routes of a connection after a list of events: hash and subject.\<close>

fun plain_step :: "nat \<Rightarrow> dm_event \<Rightarrow> (u32 \<times> string) set \<Rightarrow> (u32 \<times> string) set" where
  "plain_step fd (AddSub d sub rep h c) R = (if d = fd then insert (h, sub) R else R)"
| "plain_step fd (DelSub d sub h c) R = (if d = fd then R - {(h, sub)} else R)"
| "plain_step fd e R = R"

fun wild_step :: "nat \<Rightarrow> dm_event \<Rightarrow> (u32 \<times> string) set \<Rightarrow> (u32 \<times> string) set" where
  "wild_step fd (AddPat d sub rep h c) R = (if d = fd then insert (h, sub) R else R)"
| "wild_step fd (DelPat d sub h c) R = (if d = fd then R - {(h, sub)} else R)"
| "wild_step fd e R = R"

definition plain_routes :: "nat \<Rightarrow> dm_event list \<Rightarrow> (u32 \<times> string) set" where
  "plain_routes fd es = fold (plain_step fd) es {}"

definition wild_routes :: "nat \<Rightarrow> dm_event list \<Rightarrow> (u32 \<times> string) set" where
  "wild_routes fd es = fold (wild_step fd) es {}"

lemma routes_snoc [simp]:
  "plain_routes fd (es @ [e]) = plain_step fd e (plain_routes fd es)"
  "wild_routes fd (es @ [e]) = wild_step fd e (wild_routes fd es)"
  "plain_routes fd [] = {}" "wild_routes fd [] = {}"
  by (simp_all add: plain_routes_def wild_routes_def)

text \<open>Events that concern no route.\<close>

fun is_route :: "dm_event \<Rightarrow> bool" where
  "is_route (AddSub d sub rep h c) \<longleftrightarrow> True"
| "is_route (DelSub d sub h c) \<longleftrightarrow> True"
| "is_route (AddPat d sub rep h c) \<longleftrightarrow> True"
| "is_route (DelPat d sub h c) \<longleftrightarrow> True"
| "is_route e \<longleftrightarrow> False"

lemma step_not_route:
  "\<not> is_route e \<Longrightarrow> plain_step fd e R = R" "\<not> is_route e \<Longrightarrow> wild_step fd e R = R"
  by (cases e; simp)+

section \<open>The frame\<close>

definition pat_view :: "'r pat_route list \<Rightarrow> ((u32 \<times> string) \<times> u32 \<times> string list) list" where
  "pat_view t = map (\<lambda>r. (pr_key r, pr_count r, map wm_value (pr_list r))) t"

definition svc_view :: "'r svc \<Rightarrow> (u32 \<times> string) list \<times> ((u32 \<times> string) \<times> u32 \<times> string list) list" where
  "svc_view s = (map sr_key (sv_sub_tab s), pat_view (sv_pat_tab s))"

definition host_view :: "rvd_host \<Rightarrow> string \<times> nat option" where
  "host_view h = (rh_service h, rh_rpc h)"

definition started_ok :: "'r svc \<Rightarrow> bool" where
  "started_ok s \<longleftrightarrow> (sv_host_started s \<longrightarrow> sv_host s \<noteq> None)"

text \<open>The hosts keep their names, the connections their descriptors and hosts.\<close>

definition keeps :: "'r daemon \<Rightarrow> 'r daemon \<Rightarrow> bool" where
  "keeps dm dm' \<longleftrightarrow>
     map host_view (dm_hosts dm') = map host_view (dm_hosts dm) \<and>
     length (dm_rpcs dm') = length (dm_rpcs dm) \<and>
     map sv_fd (dm_svcs dm') = map sv_fd (dm_svcs dm) \<and>
     map sv_host (dm_svcs dm') = map sv_host (dm_svcs dm) \<and>
     ((\<forall>s\<in>set (dm_svcs dm). started_ok s) \<longrightarrow> (\<forall>s\<in>set (dm_svcs dm'). started_ok s))"

definition quiet :: "'r daemon \<Rightarrow> 'r daemon \<Rightarrow> bool" where
  "quiet dm dm' \<longleftrightarrow>
     map sv_fd (dm_svcs dm') = map sv_fd (dm_svcs dm) \<and>
     map svc_view (dm_svcs dm') = map svc_view (dm_svcs dm) \<and>
     (\<forall>fd. plain_routes fd (dm_out dm') = plain_routes fd (dm_out dm) \<and>
           wild_routes fd (dm_out dm') = wild_routes fd (dm_out dm))"

text \<open>A relation between the states before and after, carried along an operation.\<close>

locale frame_rel =
  fixes R :: "'d \<Rightarrow> 'd \<Rightarrow> bool"
  assumes frefl: "R d d"
    and ftrans: "R a b \<Longrightarrow> R b c \<Longrightarrow> R a c"
begin

lemma fif: "(b \<Longrightarrow> R a x) \<Longrightarrow> (\<not> b \<Longrightarrow> R a y) \<Longrightarrow> R a (if b then x else y)"
  by simp

lemma ffold:
  assumes "\<And>x d. x \<in> set xs \<Longrightarrow> R d (f x d)"
  shows "R d (fold f xs d)"
  using assms by (induction xs arbitrary: d) (auto intro: frefl ftrans)

lemma fopt: "(\<And>x. v = Some x \<Longrightarrow> R a (g x)) \<Longrightarrow> (v = None \<Longrightarrow> R a y) \<Longrightarrow>
  R a (case v of Some x \<Rightarrow> g x | None \<Rightarrow> y)"
  by (cases v) auto

end

interpretation kp: frame_rel keeps
  by unfold_locales (auto simp: keeps_def)

interpretation qt: frame_rel quiet
  by unfold_locales (auto simp: quiet_def)

definition frame :: "'r daemon \<Rightarrow> 'r daemon \<Rightarrow> bool" where
  "frame dm dm' \<longleftrightarrow> keeps dm dm' \<and> quiet dm dm'"

interpretation fr: frame_rel frame
  by unfold_locales (auto simp: frame_def intro: kp.frefl qt.frefl kp.ftrans qt.ftrans)

section \<open>Rules for the elementary updates\<close>

lemma map_upd_same: "f y = f (xs ! k) \<Longrightarrow> map f (xs[k := y]) = map f xs"
  by (cases "k < length xs") (auto simp: list_eq_iff_nth_eq nth_list_update)

lemma keeps_emit: "keeps dm (dm_emit e dm)"
  by (simp add: keeps_def dm_emit_def)

lemma quiet_emit: "\<not> is_route e \<Longrightarrow> quiet dm (dm_emit e dm)"
  by (simp add: quiet_def dm_emit_def step_not_route)

lemma keeps_upd_hst: "host_view (f (dm_hosts dm ! hi)) = host_view (dm_hosts dm ! hi) \<Longrightarrow> keeps dm (upd_hst hi f dm)"
  by (simp add: keeps_def upd_hst_def map_upd_same)

lemma quiet_upd_hst: "quiet dm (upd_hst hi f dm)"
  by (simp add: quiet_def upd_hst_def)

lemma keeps_upd_rpc: "keeps dm (upd_rpc ri f dm)"
  by (simp add: keeps_def upd_rpc_def)

lemma quiet_upd_rpc: "quiet dm (upd_rpc ri f dm)"
  by (simp add: quiet_def upd_rpc_def)

lemma keeps_upd_svc:
  assumes "sv_fd (f (dm_svcs dm ! k)) = sv_fd (dm_svcs dm ! k)" "sv_host (f (dm_svcs dm ! k)) = sv_host (dm_svcs dm ! k)"
    and "started_ok (dm_svcs dm ! k) \<longrightarrow> started_ok (f (dm_svcs dm ! k))"
  shows "keeps dm (upd_svc k f dm)"
proof (cases "k < length (dm_svcs dm)")
  case True
  then show ?thesis using assms
    by (auto simp: keeps_def upd_svc_def map_upd_same dest!: set_update_subset_insert [THEN subsetD])
next
  case False
  then show ?thesis by (simp add: keeps_def upd_svc_def list_update_beyond)
qed

lemma quiet_upd_svc:
  assumes "sv_fd (f (dm_svcs dm ! k)) = sv_fd (dm_svcs dm ! k)" "svc_view (f (dm_svcs dm ! k)) = svc_view (dm_svcs dm ! k)"
  shows "quiet dm (upd_svc k f dm)"
  using assms by (simp add: quiet_def upd_svc_def map_upd_same)

named_theorems frame_rules

lemma frame_emit [frame_rules]: "frame dm d \<Longrightarrow> \<not> is_route e \<Longrightarrow> frame dm (dm_emit e d)"
  by (rule fr.ftrans) (auto simp: frame_def keeps_emit quiet_emit)

lemma frame_upd_hst [frame_rules]:
  "frame dm d \<Longrightarrow> host_view (f (dm_hosts d ! hi)) = host_view (dm_hosts d ! hi) \<Longrightarrow> frame dm (upd_hst hi f d)"
  by (rule fr.ftrans) (auto simp: frame_def keeps_upd_hst quiet_upd_hst)

lemma frame_upd_rpc [frame_rules]: "frame dm d \<Longrightarrow> frame dm (upd_rpc ri f d)"
  by (rule fr.ftrans) (auto simp: frame_def keeps_upd_rpc quiet_upd_rpc)

lemma frame_upd_svc [frame_rules]:
  assumes "frame dm d" "sv_fd (f (dm_svcs d ! k)) = sv_fd (dm_svcs d ! k)"
    "sv_host (f (dm_svcs d ! k)) = sv_host (dm_svcs d ! k)"
    "started_ok (dm_svcs d ! k) \<longrightarrow> started_ok (f (dm_svcs d ! k))"
    "svc_view (f (dm_svcs d ! k)) = svc_view (dm_svcs d ! k)"
  shows "frame dm (upd_svc k f d)"
  using assms(1) by (rule fr.ftrans) (simp add: frame_def keeps_upd_svc quiet_upd_svc assms)

lemmas [frame_rules] = fr.frefl

section \<open>Operations that stay in the frame\<close>

lemma frame_fwd [frame_rules]: "frame dm d \<Longrightarrow> frame dm (fwd E hi flags a d)"
  by (auto simp: fwd_def Let_def fwd_stats_def host_view_def intro!: frame_rules)

lemma frame_host_start [frame_rules]: "frame dm d \<Longrightarrow> frame dm (send_host_start E hi so d)"
  by (auto simp: send_host_start_def host_view_def intro!: frame_rules)

lemma frame_host_stop [frame_rules]: "frame dm d \<Longrightarrow> frame dm (send_host_stop E hi so d)"
  by (auto simp: send_host_stop_def host_view_def intro!: frame_rules)

lemma frame_session_start [frame_rules]: "frame dm d \<Longrightarrow> frame dm (send_session_start E hi k d)"
  by (auto simp: send_session_start_def started_ok_def svc_view_def intro!: frame_rules)

lemma frame_session_stop [frame_rules]: "frame dm d \<Longrightarrow> frame dm (send_session_stop E hi k d)"
  by (auto simp: send_session_stop_def Let_def drop_losses_def host_view_def started_ok_def svc_view_def intro!: frame_rules)

lemma frame_unreachable [frame_rules]: "frame dm d \<Longrightarrow> frame dm (send_unreachable_tport E hi k d)"
  by (auto simp: send_unreachable_tport_def Let_def drop_losses_def host_view_def started_ok_def svc_view_def intro!: frame_rules)

lemma frame_listen [frame_rules]:
  "frame dm d \<Longrightarrow> frame dm (send_listen_start E hi ss sub rep n d)"
  "frame dm d \<Longrightarrow> frame dm (send_listen_stop E hi ss sub n d)"
  by (auto simp: send_listen_start_def send_listen_stop_def intro!: frame_rules)

lemma frame_host_status [frame_rules]: "frame dm d \<Longrightarrow> frame dm (send_host_status E hi cur d)"
  by (cases cur) (auto simp: send_host_status_def other_stats_def host_view_def Let_def split: prod.splits intro!: frame_rules)

lemma frame_inbox [frame_rules]:
  "frame dm d \<Longrightarrow> frame dm (subscribe_daemon_inbox ri d)" "frame dm d \<Longrightarrow> frame dm (unsubscribe_daemon_inbox ri d)"
  by (auto simp: subscribe_daemon_inbox_def unsubscribe_daemon_inbox_def Let_def intro!: frame_rules)

lemma frame_send_start [frame_rules]: "frame dm d \<Longrightarrow> frame dm (send_start E hi k d)"
  by (auto simp: send_start_def Let_def started_ok_def svc_view_def intro!: frame_rules)

lemma frame_start_client [frame_rules]: "frame dm d \<Longrightarrow> frame dm (start_client E hi k d)"
  by (auto simp: start_client_def Let_def host_view_def started_ok_def svc_view_def intro!: frame_rules)

lemma frame_fold [frame_rules]:
  assumes "frame dm d" "\<And>x d. frame d (f x d)"
  shows "frame dm (fold f xs d)"
  using assms(1) by (rule fr.ftrans) (simp add: fr.ffold assms)

lemma frame_status_timer [frame_rules]: "frame dm d \<Longrightarrow> frame dm (start_status_timer hi d)"
  by (auto simp: start_status_timer_def Let_def host_view_def intro!: frame_rules)

lemma frame_start_inbox [frame_rules]: "frame dm d \<Longrightarrow> frame dm (start_inbox hi d)"
  by (auto simp: start_inbox_def host_view_def split: option.splits intro!: frame_rules)

lemma frame_stop_inbox [frame_rules]: "frame dm d \<Longrightarrow> frame dm (stop_inbox hi d)"
  by (auto simp: stop_inbox_def host_view_def split: option.splits intro!: frame_rules)

lemma frame_start_delayed [frame_rules]: "frame dm d \<Longrightarrow> frame dm (start_delayed hi n d)"
  by (auto simp: start_delayed_def Let_def host_view_def intro!: frame_rules)

lemma frame_start_host2 [frame_rules]: "frame dm d \<Longrightarrow> frame dm (start_host2 E hi n d)"
  by (auto simp: start_host2_def Let_def host_view_def intro!: frame_rules)

lemma frame_start_host [frame_rules]: "frame dm d \<Longrightarrow> frame dm (start_host E hi d)"
  by (auto simp: start_host_def reassert_subs_def Let_def intro!: frame_rules)

lemma frame_stop_host [frame_rules]: "frame dm d \<Longrightarrow> frame dm (stop_host E hi d)"
  by (auto simp: stop_host_def host_view_def intro!: frame_rules)

lemma frame_emit_report [frame_rules]: "frame dm d \<Longrightarrow> frame dm (emit_report E hi r d)"
  by (auto simp: emit_report_def Let_def intro!: frame_rules)

lemma frame_host_timer: "frame dm (snd (host_timer E hi tid cur dm))"
  by (auto simp: host_timer_def Let_def host_view_def split: prod.splits intro!: frame_rules)

lemma frame_send_info [frame_rules]: "frame dm d \<Longrightarrow> frame dm (send_info b fd d)"
  by (auto simp: send_info_def intro!: frame_rules)

lemma frame_info_reply [frame_rules]: "frame dm d \<Longrightarrow> frame dm (info_reply k hi e d)"
  by (auto simp: info_reply_def Let_def started_ok_def svc_view_def intro!: frame_rules)

lemma frame_svc_sent [frame_rules]: "frame dm d \<Longrightarrow> frame dm (svc_sent hi fd len mt sub rep lay d)"
  by (auto simp: svc_sent_def host_view_def intro!: frame_rules)

end
