(* ===== verification/Svc_Routes.thy ===== *)
theory Svc_Routes
  imports Svc_Frame
begin

text \<open>
  The tables of a connection and the routes that the router holds for it: every operation that changes
  a table emits the event that makes the same change at the router.
\<close>

section \<open>Tables of wildcards\<close>

definition entry_keys :: "'r pat_route \<Rightarrow> (u32 \<times> string) set" where
  "entry_keys r = (\<lambda>m. (pr_hash r, wm_value m)) ` set (pr_list r)"

definition wild_keys :: "'r pat_route list \<Rightarrow> (u32 \<times> string) set" where
  "wild_keys t = (\<Union>r\<in>set t. entry_keys r)"

text \<open>The wildcards of an entry are counted, all different, and have the prefix and hash of the entry.\<close>

definition wild_of :: "'r svc_env \<Rightarrow> u32 \<times> string \<Rightarrow> string \<Rightarrow> bool" where
  "wild_of E k v \<longleftrightarrow> (\<exists>n. se_convert_rv E v = Some n \<and> k = (pat_hash E v n, take n v))"

definition pat_entry_ok :: "'r svc_env \<Rightarrow> (u32 \<times> string) \<times> u32 \<times> string list \<Rightarrow> bool" where
  "pat_entry_ok E = (\<lambda>(k, c, vs). distinct vs \<and> c = of_nat (length vs) \<and> (\<forall>v\<in>set vs. wild_of E k v))"

definition pat_tab_ok :: "'r svc_env \<Rightarrow> 'r pat_route list \<Rightarrow> bool" where
  "pat_tab_ok E t \<longleftrightarrow> distinct (map fst (pat_view t)) \<and> (\<forall>v\<in>set (pat_view t). pat_entry_ok E v)"

lemma wild_keys_view: "wild_keys t = (\<Union>(k, c, vs)\<in>set (pat_view t). Pair (fst k) ` set vs)"
  by (auto simp: wild_keys_def entry_keys_def pat_view_def pr_key_def)

lemma pat_tab_okD:
  assumes "pat_tab_ok E t" "r \<in> set t"
  shows "pat_entry_ok E (pr_key r, pr_count r, map wm_value (pr_list r))" "distinct (map pr_key t)"
  using assms by (auto simp: pat_tab_ok_def pat_view_def comp_def)

lemma find_pat_Some: "find_pat h pre t = Some r \<Longrightarrow> r \<in> set t \<and> pr_key r = (h, pre)"
  by (auto simp: find_pat_def find_Some_iff)

lemma find_wild_Some: "find_wild sub ms = Some m \<Longrightarrow> m \<in> set ms \<and> wm_value m = sub"
  by (auto simp: find_wild_def find_Some_iff)

lemma find_wild_None: "find_wild sub ms = None \<longleftrightarrow> sub \<notin> wm_value ` set ms"
  by (auto simp: find_wild_def find_None_iff)

lemma values_upd_wild: "(\<And>m. wm_value (f m) = wm_value m) \<Longrightarrow> map wm_value (upd_wild sub f ms) = map wm_value ms"
  by (auto simp: upd_wild_def)

lemma pat_view_upd:
  "pat_view (upd_pat h pre f t) =
     map (\<lambda>r. if pr_key r = (h, pre) then (pr_key (f r), pr_count (f r), map wm_value (pr_list (f r)))
              else (pr_key r, pr_count r, map wm_value (pr_list r))) t"
  by (simp add: pat_view_def upd_pat_def)

lemma pat_view_upd_same:
  assumes "\<And>r. r \<in> set t \<Longrightarrow> pr_key r = (h, pre) \<Longrightarrow>
    pr_key (f r) = pr_key r \<and> pr_count (f r) = pr_count r \<and> map wm_value (pr_list (f r)) = map wm_value (pr_list r)"
  shows "pat_view (upd_pat h pre f t) = pat_view t"
  using assms by (auto simp: pat_view_def upd_pat_def)

lemma fst_pat_view [simp]: "map fst (pat_view t) = map pr_key t"
  by (simp add: pat_view_def)

lemma pat_key_unique:
  "pat_tab_ok E t \<Longrightarrow> r \<in> set t \<Longrightarrow> r' \<in> set t \<Longrightarrow> pr_key r = pr_key r' \<Longrightarrow> r = r'"
  by (metis distinct_map inj_onD pat_tab_okD(2))

text \<open>Two entries of a table with a wildcard and a hash in common are the same.\<close>

lemma wild_entry_unique:
  assumes "pat_tab_ok E t" "r \<in> set t" "r' \<in> set t"
    and "m \<in> set (pr_list r)" "m' \<in> set (pr_list r')" "wm_value m = wm_value m'"
  shows "r = r'"
proof -
  have "pr_key r = pr_key r'"
    using pat_tab_okD(1) [OF assms(1,2)] pat_tab_okD(1) [OF assms(1,3)] assms(4-6)
    by (fastforce simp: pat_entry_ok_def wild_of_def)
  then show ?thesis using pat_key_unique assms(1-3) by blast
qed

lemma pat_put_ok:
  assumes "pat_put E h pre t = (rt, coll, t1)" "pat_tab_ok E t"
  shows "pat_tab_ok E t1" "wild_keys t1 = wild_keys t" "rt \<in> set t1" "pr_key rt = (h, pre)"
proof -
  have new: "(h, pre) \<notin> pr_key ` set t" if "find_pat h pre t = None"
    using that by (auto simp: find_pat_def find_None_iff)
  have "pat_view (t @ [r]) = pat_view t @ [(pr_key r, pr_count r, map wm_value (pr_list r))]" for r
    by (simp add: pat_view_def)
  moreover have "pat_entry_ok E ((h, pre), 0, [])" by (simp add: pat_entry_ok_def)
  ultimately show "pat_tab_ok E t1"
    using assms new by (auto simp: pat_put_def Let_def pat_tab_ok_def pr_key_def
        [of "\<lparr>pr_hash = h, pr_value = pre, pr_count = 0, pr_list = []\<rparr>"] split: option.splits)
  show "wild_keys t1 = wild_keys t"
    using assms(1) by (auto simp: pat_put_def Let_def wild_keys_def
        entry_keys_def [of "\<lparr>pr_hash = h, pr_value = pre, pr_count = 0, pr_list = []\<rparr>"] split: option.splits)
  show "rt \<in> set t1" "pr_key rt = (h, pre)"
    using assms(1) find_pat_Some [of h pre t] by (auto simp: pat_put_def Let_def pr_key_def split: option.splits)
qed

text \<open>The change of one entry: the table stays in order and only the keys of that entry change.\<close>

lemma upd_entry_ok:
  assumes ok: "pat_tab_ok E t" and rt: "rt \<in> set t" "pr_key rt = (h, pre)"
    and f: "\<And>r. pr_key (f r) = pr_key r" "pat_entry_ok E ((h, pre), pr_count (f rt), map wm_value (pr_list (f rt)))"
  shows "pat_tab_ok E (upd_pat h pre f t)"
    and "wild_keys (upd_pat h pre f t) = (wild_keys t - entry_keys rt) \<union> entry_keys (f rt)"
proof -
  have one: "pr_key r = (h, pre) \<longleftrightarrow> r = rt" if "r \<in> set t" for r
    using pat_key_unique [OF ok that rt(1)] rt by auto
  have "map pr_key (upd_pat h pre f t) = map pr_key t" using f by (simp add: upd_pat_def)
  moreover have "pat_entry_ok E v" if vt: "v \<in> set (pat_view (upd_pat h pre f t))" for v
  proof -
    obtain r where r: "r \<in> set t" and v: "v = (if r = rt then (pr_key (f r), pr_count (f r), map wm_value (pr_list (f r)))
        else (pr_key r, pr_count r, map wm_value (pr_list r)))"
      using vt one by (auto simp: pat_view_upd)
    show ?thesis using pat_tab_okD(1) [OF ok r] f rt v by (cases "r = rt") auto
  qed
  ultimately show "pat_tab_ok E (upd_pat h pre f t)" using ok by (simp add: pat_tab_ok_def)
  have "entry_keys r \<inter> entry_keys rt = {}" if "r \<in> set t" "r \<noteq> rt" for r
    using wild_entry_unique [OF ok that(1) rt(1)] that(2) by (auto simp: entry_keys_def)
  then have "wild_keys t - entry_keys rt = (\<Union>r\<in>set t - {rt}. entry_keys r)"
    using rt by (auto simp: wild_keys_def)
  moreover have "set (upd_pat h pre f t) = insert (f rt) (set t - {rt})"
    using one rt by (auto simp: upd_pat_def)
  ultimately show "wild_keys (upd_pat h pre f t) = (wild_keys t - entry_keys rt) \<union> entry_keys (f rt)"
    by (auto simp: wild_keys_def)
qed

lemma entry_keys_sub: "r \<in> set t \<Longrightarrow> entry_keys r \<subseteq> wild_keys t"
  by (auto simp: wild_keys_def)

lemma pat_add_ok:
  assumes ok: "pat_tab_ok E t" and rt: "rt \<in> set t" "pr_key rt = (h, pre)"
    and new: "find_wild sub (pr_list rt) = None" "wild_of E (h, pre) sub" and m: "wm_value m = sub"
    and t1: "t1 = upd_pat h pre (\<lambda>r. r\<lparr>pr_list := m # pr_list r, pr_count := pr_count r + 1\<rparr>) t"
  shows "pat_tab_ok E t1" "wild_keys t1 = insert (h, sub) (wild_keys t)"
proof -
  let ?f = "\<lambda>r. r\<lparr>pr_list := m # pr_list r, pr_count := pr_count r + 1\<rparr>"
  have e: "pat_entry_ok E ((h, pre), pr_count (?f rt), map wm_value (pr_list (?f rt)))"
    using pat_tab_okD(1) [OF ok rt(1)] new m rt by (auto simp: pat_entry_ok_def find_wild_None)
  have k: "pr_key (?f r) = pr_key r" for r by (simp add: pr_key_def)
  show "pat_tab_ok E t1" unfolding t1 by (rule upd_entry_ok(1) [OF ok rt k e])
  have "entry_keys (?f rt) = insert (h, sub) (entry_keys rt)"
    using rt m by (simp add: entry_keys_def pr_key_def)
  then show "wild_keys t1 = insert (h, sub) (wild_keys t)"
    unfolding t1 upd_entry_ok(2) [OF ok rt k e] using entry_keys_sub [OF rt(1)] by auto
qed

lemma length_filter_one:
  "distinct (map f xs) \<Longrightarrow> y \<in> f ` set xs \<Longrightarrow> Suc (length (filter (\<lambda>x. f x \<noteq> y) xs)) = length xs"
proof (induction xs)
  case (Cons x xs)
  show ?case
  proof (cases "f x = y")
    case True
    then have "filter (\<lambda>x. f x \<noteq> y) xs = xs" using Cons.prems(1) by (force simp: filter_id_conv image_iff)
    then show ?thesis using True by simp
  next
    case False
    then show ?thesis using Cons by auto
  qed
qed simp

lemma pat_rem_ok:
  assumes ok: "pat_tab_ok E t" and rt: "rt \<in> set t" "pr_key rt = (h, pre)"
    and sub: "sub \<in> wm_value ` set (pr_list rt)"
    and t1: "t1 = upd_pat h pre
      (\<lambda>r. r\<lparr>pr_count := pr_count rt - 1, pr_list := filter (\<lambda>m. wm_value m \<noteq> sub) (pr_list r)\<rparr>) t"
  shows "pat_tab_ok E t1" "wild_keys t1 = wild_keys t - {(h, sub)}"
proof -
  let ?f = "\<lambda>r. r\<lparr>pr_count := pr_count rt - 1, pr_list := filter (\<lambda>m. wm_value m \<noteq> sub) (pr_list r)\<rparr>"
  have old: "pat_entry_ok E ((h, pre), pr_count rt, map wm_value (pr_list rt))"
    using pat_tab_okD(1) [OF ok rt(1)] rt by simp
  then have d: "distinct (map wm_value (pr_list rt))" and c: "pr_count rt = of_nat (length (pr_list rt))"
    by (auto simp: pat_entry_ok_def)
  have len: "pr_count rt - 1 = of_nat (length (filter (\<lambda>m. wm_value m \<noteq> sub) (pr_list rt)))"
    using length_filter_one [OF d sub] c by (metis add_diff_cancel_left' of_nat_Suc)
  have e: "pat_entry_ok E ((h, pre), pr_count (?f rt), map wm_value (pr_list (?f rt)))"
    using old len by (auto simp: pat_entry_ok_def distinct_map_filter)
  have k: "pr_key (?f r) = pr_key r" for r by (simp add: pr_key_def)
  show "pat_tab_ok E t1" unfolding t1 by (rule upd_entry_ok(1) [OF ok rt k e])
  have "entry_keys (?f rt) = entry_keys rt - {(h, sub)}" "(h, sub) \<in> entry_keys rt"
    using rt sub by (auto simp: entry_keys_def pr_key_def)
  then show "wild_keys t1 = wild_keys t - {(h, sub)}"
    unfolding t1 upd_entry_ok(2) [OF ok rt k e] using entry_keys_sub [OF rt(1)] by auto
qed

text \<open>The last wildcard of an entry takes the entry with it.\<close>

lemma pat_drop_ok:
  assumes ok: "pat_tab_ok E t" and rt: "rt \<in> set t" "pr_key rt = (h, pre)"
    and sub: "sub \<in> wm_value ` set (pr_list rt)" "pr_count rt - 1 = 0" "length (pr_list rt) < 2 ^ 32"
    and t1: "t1 = filter (\<lambda>r. pr_key r \<noteq> (h, pre)) t"
  shows "pat_tab_ok E t1" "wild_keys t1 = wild_keys t - {(h, sub)}"
proof -
  have c: "pr_count rt = of_nat (length (pr_list rt))"
    using pat_tab_okD(1) [OF ok rt(1)] by (auto simp: pat_entry_ok_def split: prod.splits)
  have "unat (of_nat (length (pr_list rt)) :: u32) = 1" using c sub(2) by simp
  then have "length (pr_list rt) = 1" using sub(3) by (simp add: unat_of_nat)
  then obtain m where m: "pr_list rt = [m]" "wm_value m = sub" using sub(1) by (auto simp: length_Suc_conv)
  have "map pr_key t1 = filter (\<lambda>k. k \<noteq> (h, pre)) (map pr_key t)"
    by (simp add: t1 filter_map comp_def)
  moreover have "set (pat_view t1) \<subseteq> set (pat_view t)" by (auto simp: t1 pat_view_def)
  ultimately show "pat_tab_ok E t1" using ok by (auto simp: pat_tab_ok_def)
  have "pr_key r = (h, pre) \<longleftrightarrow> r = rt" if "r \<in> set t" for r
    using pat_key_unique [OF ok that rt(1)] rt by auto
  then have "set t1 = set t - {rt}" by (auto simp: t1)
  moreover have "entry_keys r \<inter> entry_keys rt = {}" if "r \<in> set t" "r \<noteq> rt" for r
    using wild_entry_unique [OF ok that(1) rt(1)] that(2) by (auto simp: entry_keys_def)
  moreover have "entry_keys rt = {(h, sub)}" using m rt by (simp add: entry_keys_def pr_key_def)
  ultimately show "wild_keys t1 = wild_keys t - {(h, sub)}" by (fastforce simp: wild_keys_def)
qed

section \<open>Tables and routes agree\<close>

definition svc_exact :: "'r svc_env \<Rightarrow> dm_event list \<Rightarrow> 'r svc \<Rightarrow> bool" where
  "svc_exact E out s \<longleftrightarrow>
     plain_routes (sv_fd s) out = sr_key ` set (sv_sub_tab s) \<and>
     wild_routes (sv_fd s) out = wild_keys (sv_pat_tab s) \<and> pat_tab_ok E (sv_pat_tab s)"

text \<open>For every connection outside \<open>K\<close>.\<close>

definition exact_but :: "'r svc_env \<Rightarrow> nat set \<Rightarrow> 'r daemon \<Rightarrow> bool" where
  "exact_but E K dm \<longleftrightarrow> (\<forall>i<length (dm_svcs dm). i \<notin> K \<longrightarrow> svc_exact E (dm_out dm) (dm_svcs dm ! i))"

lemma view_sub: "svc_view s' = svc_view s \<Longrightarrow> sr_key ` set (sv_sub_tab s') = sr_key ` set (sv_sub_tab s)"
  by (metis fst_conv list.set_map svc_view_def)

lemma view_pat:
  assumes "pat_view t' = pat_view t"
  shows "wild_keys t' = wild_keys t" "pat_tab_ok E t' = pat_tab_ok E t"
  using assms by (simp_all add: wild_keys_view pat_tab_ok_def flip: fst_pat_view)

lemma svc_exact_view:
  assumes "sv_fd s' = sv_fd s" "svc_view s' = svc_view s"
    and "plain_routes (sv_fd s) out' = plain_routes (sv_fd s) out" "wild_routes (sv_fd s) out' = wild_routes (sv_fd s) out"
  shows "svc_exact E out' s' = svc_exact E out s"
  using assms view_sub [OF assms(2)] view_pat [of "sv_pat_tab s'" "sv_pat_tab s"]
  by (simp add: svc_exact_def svc_view_def)

lemma exact_quiet: "quiet dm dm' \<Longrightarrow> exact_but E K dm \<Longrightarrow> exact_but E K dm'"
  unfolding exact_but_def quiet_def
  by (metis (no_types, lifting) length_map nth_map svc_exact_view)

lemmas exact_frame = exact_quiet [OF frame_def [THEN iffD1, THEN conjunct2]]

text \<open>An event of one connection that comes with a change of its tables.\<close>

definition touches :: "nat \<Rightarrow> dm_event \<Rightarrow> bool" where
  "touches fd e \<longleftrightarrow> (\<forall>fd' R. fd' \<noteq> fd \<longrightarrow> plain_step fd' e R = R \<and> wild_step fd' e R = R)"

lemma touches_simps [simp]:
  "touches fd (AddSub fd sub rep h c)" "touches fd (DelSub fd sub h c)"
  "touches fd (AddPat fd sub rep h c)" "touches fd (DelPat fd sub h c)"
  "\<not> is_route e \<Longrightarrow> touches fd e"
  by (auto simp: touches_def step_not_route)

lemma exact_event:
  assumes "exact_but E K dm" "distinct (map sv_fd (dm_svcs dm))" "touches (sv_fd (dm_svcs dm ! k)) e"
    and "sv_fd (f (dm_svcs dm ! k)) = sv_fd (dm_svcs dm ! k)" "K \<subseteq> K'"
    and "k < length (dm_svcs dm) \<Longrightarrow> k \<notin> K' \<Longrightarrow> svc_exact E (dm_out dm @ [e]) (f (dm_svcs dm ! k))"
    and "k < length (dm_svcs dm)"
  shows "exact_but E K' (dm_emit e (upd_svc k f dm))"
  unfolding exact_but_def
proof (intro allI impI)
  let ?d = "dm_emit e (upd_svc k f dm)"
  fix i assume i: "i < length (dm_svcs ?d)" "i \<notin> K'"
  then have il: "i < length (dm_svcs dm)" by (simp add: dm_emit_def upd_svc_def)
  show "svc_exact E (dm_out ?d) (dm_svcs ?d ! i)"
  proof (cases "i = k")
    case True
    then show ?thesis using assms(6) i il by (simp add: dm_emit_def upd_svc_def)
  next
    case False
    then have "sv_fd (dm_svcs dm ! i) \<noteq> sv_fd (dm_svcs dm ! k)"
      using assms(2,7) il by (simp add: distinct_conv_nth)
    then have "svc_exact E (dm_out dm @ [e]) (dm_svcs dm ! i) = svc_exact E (dm_out dm) (dm_svcs dm ! i)"
      using assms(3) by (intro svc_exact_view) (auto simp: touches_def)
    then show ?thesis using False assms(1,5) i il by (auto simp: exact_but_def dm_emit_def upd_svc_def)
  qed
qed

section \<open>Subscribing and unsubscribing\<close>

lemma key_set_upd_route: "(\<And>r. sr_key (f r) = sr_key r) \<Longrightarrow> sr_key ` set (upd_route h sub f t) = sr_key ` set t"
  using keys_upd_route [of f h sub t] by (metis list.set_map)

lemma sr_key_refcnt [simp]: "sr_key (r\<lparr>sr_refcnt := n\<rparr>) = sr_key r"
  by (simp add: sr_key_def)

lemma key_set_filter: "sr_key ` set (filter (\<lambda>r. sr_key r \<noteq> k) t) = sr_key ` set t - {k}"
  by (auto simp: image_iff)

lemma sub_put_keys:
  "sub_put E h sub t = (status, cnt, coll, t1) \<Longrightarrow>
     sr_key ` set t1 = (if status = RV_SUB_OK then insert (h, sub) (sr_key ` set t) else sr_key ` set t)"
  by (cases "find_route h sub t"; clarsimp simp: sub_put_def Let_def key_set_upd_route sr_key_def
      [of "\<lparr>sr_hash = h, sr_value = sub, sr_refcnt = 1, sr_msg_cnt = 0\<rparr>"])

lemma sub_rem_keys:
  "sub_rem E h sub t = Some (cnt, coll, t1) \<Longrightarrow>
     sr_key ` set t1 = (if cnt = 0 then sr_key ` set t - {(h, sub)} else sr_key ` set t)"
  by (cases "find_route h sub t"; clarsimp simp: sub_rem_def Let_def key_set_upd_route key_set_filter simp del: set_filter)

lemma add_plain_exact:
  assumes "exact_but E {} dm" "distinct (map sv_fd (dm_svcs dm))" "k < length (dm_svcs dm)"
  shows "exact_but E {} (snd (add_plain E k dm))"
proof -
  let ?s = "dm_svcs dm ! k" and ?h = "se_crc E (full_subject (dm_svcs dm ! k)) 0"
  obtain status cnt coll t where p: "sub_put E ?h (full_subject ?s) (sv_sub_tab ?s) = (status, cnt, coll, t)"
    by (metis prod_cases4)
  have "svc_exact E (dm_out dm) ?s" using assms by (simp add: exact_but_def)
  then show ?thesis using sub_put_keys [OF p] assms
    by (auto simp: add_plain_def Let_def p svc_exact_def intro!: exact_event)
qed

lemma rem_plain_exact:
  assumes "exact_but E {} dm" "distinct (map sv_fd (dm_svcs dm))" "k < length (dm_svcs dm)"
    and "rem_plain E k dm = Some (cnt, dm1)"
  shows "exact_but E {} dm1"
proof -
  let ?s = "dm_svcs dm ! k" and ?h = "se_crc E (full_subject (dm_svcs dm ! k)) 0"
  obtain coll t where p: "sub_rem E ?h (full_subject ?s) (sv_sub_tab ?s) = Some (cnt, coll, t)"
    and d: "dm1 = dm_emit (if cnt = 0 then DelSub (sv_fd ?s) (full_subject ?s) ?h coll
        else NotifyUnsub (sv_fd ?s) (full_subject ?s) ?h coll cnt) (upd_svc k (\<lambda>s. s\<lparr>sv_sub_tab := t\<rparr>) dm)"
    using assms(4) by (auto simp: rem_plain_def Let_def split: option.splits)
  have "svc_exact E (dm_out dm) ?s" using assms by (simp add: exact_but_def)
  then show ?thesis using sub_rem_keys [OF p] assms
    by (auto simp: d svc_exact_def intro!: exact_event)
qed

text \<open>The library compiles every wildcard that it converts.\<close>

definition compiles :: "'r svc_env \<Rightarrow> bool" where
  "compiles E \<longleftrightarrow> (\<forall>sub n. se_convert_rv E sub = Some n \<longrightarrow> compile_wild E sub n \<noteq> None)"

lemma add_wild_exact:
  assumes "exact_but E {} dm" "distinct (map sv_fd (dm_svcs dm))" "k < length (dm_svcs dm)" "compiles E"
  shows "exact_but E {} (snd (add_wild E k dm))"
proof -
  let ?s = "dm_svcs dm ! k"
  let ?sub = "full_subject ?s"
  have ex: "svc_exact E (dm_out dm) ?s" using assms by (simp add: exact_but_def)
  show ?thesis
  proof (cases "se_convert_rv E ?sub")
    case None
    then show ?thesis using assms(1) by (simp add: add_wild_def Let_def)
  next
    case (Some n)
    let ?h = "pat_hash E ?sub n" and ?pre = "take n ?sub"
    obtain rt coll t where p: "pat_put E ?h ?pre (sv_pat_tab ?s) = (rt, coll, t)" by (metis prod_cases3)
    have ok: "pat_tab_ok E (sv_pat_tab ?s)" using ex by (simp add: svc_exact_def)
    note put = pat_put_ok [OF p ok]
    obtain re where re: "compile_wild E ?sub n = Some re" using assms(4) Some by (auto simp: compiles_def)
    show ?thesis
    proof (cases "find_wild ?sub (pr_list rt)")
      case None
      let ?m = "\<lparr>wm_value = ?sub, wm_refcnt = 1, wm_msg_cnt = 0, wm_re = re\<rparr>"
      have w: "wild_of E (?h, ?pre) ?sub" using Some by (simp add: wild_of_def)
      note a = pat_add_ok [OF put(1,3,4) None w, of ?m, OF _ refl, simplified]
      show ?thesis using ex a put(2) assms
        by (auto simp: add_wild_def Let_def Some p None re svc_exact_def intro!: exact_event)
    next
      case (Some m)
      have v: "pat_view (upd_pat ?h ?pre (\<lambda>r. r\<lparr>pr_list := upd_wild ?sub (\<lambda>m. m\<lparr>wm_refcnt := c\<rparr>) (pr_list r)\<rparr>) t) = pat_view t" for c
        by (rule pat_view_upd_same) (simp add: pr_key_def values_upd_wild)
      show ?thesis using ex view_pat [OF v] put assms
        by (auto simp: add_wild_def Let_def \<open>se_convert_rv E ?sub = Some n\<close> p Some svc_exact_def intro!: exact_event)
    qed
  qed
qed

text \<open>A connection has fewer than \<open>2 ^ 32\<close> wildcards with one prefix, so that their count is exact.\<close>

definition roomy :: "'r daemon \<Rightarrow> bool" where
  "roomy dm \<longleftrightarrow> (\<forall>s\<in>set (dm_svcs dm). \<forall>r\<in>set (sv_pat_tab s). length (pr_list r) < 2 ^ 32)"

lemma pat_find_Some: "pat_find E h pre t = (Some rt, coll) \<Longrightarrow> rt \<in> set t \<and> pr_key rt = (h, pre)"
  using find_pat_Some by (auto simp: pat_find_def Let_def split: option.splits)

lemma rem_wild_exact:
  assumes ex: "exact_but E {} dm" "distinct (map sv_fd (dm_svcs dm))" "k < length (dm_svcs dm)" "roomy dm"
    and r: "rem_wild E k dm = Some (cnt, dm1)"
  shows "exact_but E {} dm1"
proof -
  let ?s = "dm_svcs dm ! k"
  let ?sub = "full_subject ?s"
  obtain n where n: "se_convert_rv E ?sub = Some n" using r by (auto simp: rem_wild_def Let_def split: option.splits)
  let ?h = "pat_hash E ?sub n" and ?pre = "take n ?sub"
  obtain rt coll where p: "pat_find E ?h ?pre (sv_pat_tab ?s) = (Some rt, coll)"
    using r n by (auto simp: rem_wild_def Let_def split: option.splits prod.splits)
  obtain m where m: "find_wild ?sub (pr_list rt) = Some m"
    using r n p by (auto simp: rem_wild_def Let_def split: option.splits)
  have se: "svc_exact E (dm_out dm) ?s" and ok: "pat_tab_ok E (sv_pat_tab ?s)"
    using ex by (auto simp: exact_but_def svc_exact_def)
  have rt: "rt \<in> set (sv_pat_tab ?s)" "pr_key rt = (?h, ?pre)" using pat_find_Some [OF p] by auto
  have sub: "?sub \<in> wm_value ` set (pr_list rt)" using find_wild_Some [OF m] by force
  have len: "length (pr_list rt) < 2 ^ 32" using ex(3,4) rt(1) by (auto simp: roomy_def)
  have v: "pat_view (upd_pat ?h ?pre (\<lambda>r. r\<lparr>pr_list := upd_wild ?sub (\<lambda>m. m\<lparr>wm_refcnt := c\<rparr>) (pr_list r)\<rparr>) (sv_pat_tab ?s))
      = pat_view (sv_pat_tab ?s)" for c
    by (rule pat_view_upd_same) (simp add: pr_key_def values_upd_wild)
  note drop = pat_drop_ok [OF ok rt sub _ len refl]
  note rem = pat_rem_ok [OF ok rt sub refl]
  show ?thesis using r se drop rem view_pat [OF v] ex(1-3)
    by (auto simp: rem_wild_def Let_def n p m svc_exact_def split: if_splits intro!: exact_event)
qed

section \<open>What the other parts of these operations keep\<close>

lemma keeps_event:
  "sv_fd (f (dm_svcs dm ! k)) = sv_fd (dm_svcs dm ! k) \<Longrightarrow> sv_host (f (dm_svcs dm ! k)) = sv_host (dm_svcs dm ! k) \<Longrightarrow>
   sv_host_started (f (dm_svcs dm ! k)) = sv_host_started (dm_svcs dm ! k) \<Longrightarrow> keeps dm (dm_emit e (upd_svc k f dm))"
  by (rule kp.ftrans [OF keeps_upd_svc keeps_emit]) (auto simp: started_ok_def)

lemma keeps_add: "keeps dm (snd (add_plain E k dm))" "keeps dm (snd (add_wild E k dm))"
proof -
  show "keeps dm (snd (add_plain E k dm))"
    by (simp add: add_plain_def Let_def keeps_event split: prod.splits)
  have "keeps dm (upd_svc k (\<lambda>s. s\<lparr>sv_pat_tab := t\<rparr>) dm)" for t
    by (rule keeps_upd_svc) (auto simp: started_ok_def)
  then show "keeps dm (snd (add_wild E k dm))"
    by (simp add: add_wild_def Let_def keeps_event kp.frefl split: prod.splits option.splits)
qed

lemma keeps_rem:
  "rem_plain E k dm = Some (cnt, dm1) \<Longrightarrow> keeps dm dm1" "rem_wild E k dm = Some (cnt, dm1) \<Longrightarrow> keeps dm dm1"
  by (auto simp: rem_plain_def rem_wild_def Let_def keeps_event split: option.splits prod.splits if_splits)

lemma host_view_ref:
  "host_view (snd (add_ref E sub h x)) = host_view x" "host_view (snd (rem_ref E sub h n x)) = host_view x"
  by (auto simp: add_ref_def rem_ref_def Let_def host_view_def split: option.splits)

lemma host_view_refD:
  "add_ref E sub h x = (c, y) \<Longrightarrow> host_view y = host_view x" "rem_ref E sub h n x = (c, y) \<Longrightarrow> host_view y = host_view x"
  using host_view_ref by (metis snd_conv)+

lemma frame_set_host:
  "frame dm d \<Longrightarrow> host_view h = host_view (dm_hosts d ! hi) \<Longrightarrow> frame dm (upd_hst hi (\<lambda>_. h) d)"
  by (rule frame_upd_hst)

text \<open>The tail of \<open>add_sub\<close> and \<open>rem_sub\<close>: the shared count and the advisory stay in the frame.\<close>

lemma add_sub_parts:
  assumes "add_sub E k dm = Some dm'"
  shows "\<exists>dm1. dm1 = snd (if mi_is_wild (sv_msg_in (dm_svcs dm ! k)) then add_wild E k dm else add_plain E k dm) \<and> frame dm1 dm'"
proof -
  obtain cnt dm1 where a: "(if mi_is_wild (sv_msg_in (dm_svcs dm ! k)) then add_wild E k dm else add_plain E k dm) = (cnt, dm1)"
    by (metis surj_pair)
  have "frame dm1 dm'"
    using assms a
    by (auto simp: add_sub_def Let_def fr.frefl split: if_splits option.splits prod.splits
        intro!: frame_rules frame_set_host host_view_refD(1))
  then show ?thesis using a by simp
qed

lemma rem_sub_parts:
  assumes "rem_sub E k dm = Some dm'"
  shows "frame (case (if mi_is_wild (sv_msg_in (dm_svcs dm ! k)) then rem_wild E k dm else rem_plain E k dm) of
    None \<Rightarrow> dm | Some (cnt, dm1) \<Rightarrow> dm1) dm'"
proof (cases "if mi_is_wild (sv_msg_in (dm_svcs dm ! k)) then rem_wild E k dm else rem_plain E k dm")
  case None
  then show ?thesis using assms by (simp add: rem_sub_def Let_def fr.frefl del: if_split)
next
  case (Some r)
  then show ?thesis using assms
    by (cases r) (auto simp: rem_sub_def Let_def fr.frefl simp del: if_split split: if_splits option.splits prod.splits
        intro!: frame_rules frame_set_host host_view_refD(2))
qed

lemma keeps_frame: "frame a b \<Longrightarrow> keeps a b"
  by (simp add: frame_def)

lemma keeps_distinct: "keeps dm dm' \<Longrightarrow> distinct (map sv_fd (dm_svcs dm)) \<Longrightarrow> distinct (map sv_fd (dm_svcs dm'))"
  by (simp add: keeps_def)

lemma keeps_length: "keeps dm dm' \<Longrightarrow> length (dm_svcs dm') = length (dm_svcs dm)"
  unfolding keeps_def by (metis length_map)

lemma keeps_add_sub: "add_sub E k dm = Some dm' \<Longrightarrow> keeps dm dm'"
  using add_sub_parts [of E k dm dm'] keeps_add kp.ftrans keeps_frame by (metis (mono_tags))

lemma keeps_rem_sub:
  assumes "rem_sub E k dm = Some dm'"
  shows "keeps dm dm'"
proof (rule kp.ftrans [OF _ keeps_frame [OF rem_sub_parts [OF assms]]])
  show "keeps dm (case (if mi_is_wild (sv_msg_in (dm_svcs dm ! k)) then rem_wild E k dm else rem_plain E k dm) of
    None \<Rightarrow> dm | Some (cnt, dm1) \<Rightarrow> dm1)"
    by (auto simp: keeps_rem kp.frefl split: option.splits)
qed

lemma add_sub_exact:
  assumes "exact_but E {} dm" "distinct (map sv_fd (dm_svcs dm))" "k < length (dm_svcs dm)" "compiles E"
    and "add_sub E k dm = Some dm'"
  shows "exact_but E {} dm'"
  using add_sub_parts [OF assms(5)] add_plain_exact [OF assms(1-3)] add_wild_exact [OF assms(1-4)] exact_frame
  by (metis (mono_tags))

lemma rem_sub_exact:
  assumes "exact_but E {} dm" "distinct (map sv_fd (dm_svcs dm))" "k < length (dm_svcs dm)" "roomy dm"
    and "rem_sub E k dm = Some dm'"
  shows "exact_but E {} dm'"
proof -
  let ?r = "if mi_is_wild (sv_msg_in (dm_svcs dm ! k)) then rem_wild E k dm else rem_plain E k dm"
  have "exact_but E {} (case ?r of None \<Rightarrow> dm | Some (cnt, dm1) \<Rightarrow> dm1)"
    using assms(1) rem_plain_exact [OF assms(1-3)] rem_wild_exact [OF assms(1-4)]
    by (auto split: option.splits)
  then show ?thesis by (rule exact_frame [OF rem_sub_parts [OF assms(5)]])
qed

section \<open>The end of a connection\<close>

lemma frame_stop_listen: "frame dm (stop_listen E hi s v dm)"
  by (cases v) (auto simp: stop_listen_def Let_def fr.frefl split: prod.splits
      intro!: frame_rules frame_set_host host_view_refD(2))

lemma keeps_drop: "keeps dm (drop_route k r dm)" "keeps dm (drop_wild E k rm dm)"
  by (auto simp: drop_route_def drop_wild_def Let_def keeps_event kp.frefl split: prod.splits)

lemma drop_exact:
  assumes "exact_but E {k} dm" "distinct (map sv_fd (dm_svcs dm))" "k < length (dm_svcs dm)"
  shows "exact_but E {k} (drop_route k r dm)" "exact_but E {k} (drop_wild E k rm dm)"
  using assms by (auto simp: drop_route_def drop_wild_def Let_def split: prod.splits intro!: exact_event)

lemma fold_drop_exact:
  assumes "\<And>d. exact_but E {k} d \<Longrightarrow> distinct (map sv_fd (dm_svcs d)) \<Longrightarrow> k < length (dm_svcs d) \<Longrightarrow>
      (\<forall>x. exact_but E {k} (f x d))" "\<And>x d. keeps d (f x d)"
    and "exact_but E {k} dm" "distinct (map sv_fd (dm_svcs dm))" "k < length (dm_svcs dm)"
  shows "exact_but E {k} (fold f xs dm)"
  using assms(3-5)
proof (induction xs arbitrary: dm)
  case (Cons x xs)
  then show ?case using assms(1) [OF Cons.prems] keeps_distinct [OF assms(2)] keeps_length [OF assms(2)] by simp
qed simp

lemma exact_mono: "exact_but E K dm \<Longrightarrow> K \<subseteq> K' \<Longrightarrow> exact_but E K' dm"
  by (auto simp: exact_but_def)

definition stopped_listens :: "'r svc_env \<Rightarrow> nat \<Rightarrow> 'r daemon \<Rightarrow> 'r daemon" where
  "stopped_listens E k dm =
     (case sv_host (dm_svcs dm ! k) of
        Some hi \<Rightarrow> if dm_quit dm then dm else fold (stop_listen E hi (dm_svcs dm ! k)) (svc_subjects (dm_svcs dm ! k)) dm
      | None \<Rightarrow> dm)"

lemma frame_stopped_listens: "frame dm (stopped_listens E k dm)"
  by (auto simp: stopped_listens_def fr.frefl frame_stop_listen split: option.splits intro!: fr.ffold)

lemma rem_all_sub_eq:
  "rem_all_sub E k dm =
     fold (drop_wild E k) (concat (map (\<lambda>r. map (Pair r) (pr_list r)) (sv_pat_tab (dm_svcs dm ! k))))
       (fold (drop_route k) (sv_sub_tab (dm_svcs dm ! k)) (stopped_listens E k dm))"
  by (simp add: rem_all_sub_def stopped_listens_def Let_def)

lemma keeps_rem_all: "keeps dm (rem_all_sub E k dm)"
  unfolding rem_all_sub_eq
  using keeps_frame [OF frame_stopped_listens] kp.ffold [of _ "drop_route k"] kp.ffold [of _ "drop_wild E k"] keeps_drop
    kp.ftrans by (metis (no_types, lifting))

lemma rem_all_exact:
  assumes "exact_but E {} dm" "distinct (map sv_fd (dm_svcs dm))" "k < length (dm_svcs dm)"
  shows "exact_but E {k} (rem_all_sub E k dm)"
proof -
  let ?d = "stopped_listens E k dm"
  note fl = frame_stopped_listens [of dm E k]
  have "exact_but E {k} dm" using exact_mono [OF assms(1)] by simp
  then have d: "exact_but E {k} ?d" "distinct (map sv_fd (dm_svcs ?d))" "k < length (dm_svcs ?d)"
    using exact_frame [OF fl] keeps_distinct [OF keeps_frame [OF fl]] keeps_length [OF keeps_frame [OF fl]] assms by auto
  let ?e = "fold (drop_route k) (sv_sub_tab (dm_svcs dm ! k)) ?d"
  have k: "keeps ?d ?e" by (intro kp.ffold keeps_drop)
  have "exact_but E {k} ?e"
    by (rule fold_drop_exact [where f = "drop_route k", OF _ keeps_drop(1) d]) (simp add: drop_exact)
  moreover have "distinct (map sv_fd (dm_svcs ?e))" "k < length (dm_svcs ?e)"
    using keeps_distinct [OF k] keeps_length [OF k] d by auto
  ultimately show ?thesis unfolding rem_all_sub_eq
    by (intro fold_drop_exact [where f = "drop_wild E k", OF _ keeps_drop(2)]) (simp_all add: drop_exact)
qed

text \<open>The routes of the connection itself are withdrawn one by one.\<close>

lemma drop_route_routes:
  assumes "k < length (dm_svcs dm)"
  shows "plain_routes (sv_fd (dm_svcs dm ! k)) (dm_out (drop_route k r dm)) =
      plain_routes (sv_fd (dm_svcs dm ! k)) (dm_out dm) - {sr_key r}"
    "wild_routes (sv_fd (dm_svcs dm ! k)) (dm_out (drop_route k r dm)) = wild_routes (sv_fd (dm_svcs dm ! k)) (dm_out dm)"
  by (auto simp: drop_route_def Let_def dm_emit_def upd_svc_def sr_key_def split: prod.splits)

lemma drop_wild_routes:
  assumes "k < length (dm_svcs dm)" "se_convert_rv E (wm_value m) \<noteq> None"
  shows "wild_routes (sv_fd (dm_svcs dm ! k)) (dm_out (drop_wild E k (r, m) dm)) =
      wild_routes (sv_fd (dm_svcs dm ! k)) (dm_out dm) - {(pr_hash r, wm_value m)}"
    "plain_routes (sv_fd (dm_svcs dm ! k)) (dm_out (drop_wild E k (r, m) dm)) = plain_routes (sv_fd (dm_svcs dm ! k)) (dm_out dm)"
  using assms by (auto simp: drop_wild_def Let_def dm_emit_def upd_svc_def split: prod.splits)

lemma keeps_fd: "keeps dm dm' \<Longrightarrow> k < length (dm_svcs dm) \<Longrightarrow> sv_fd (dm_svcs dm' ! k) = sv_fd (dm_svcs dm ! k)"
  unfolding keeps_def by (metis length_map nth_map)

lemma keeps_svc_host: "keeps dm dm' \<Longrightarrow> k < length (dm_svcs dm) \<Longrightarrow> sv_host (dm_svcs dm' ! k) = sv_host (dm_svcs dm ! k)"
  unfolding keeps_def by (metis length_map nth_map)

lemma fold_drop_route_routes:
  "k < length (dm_svcs dm) \<Longrightarrow>
     plain_routes (sv_fd (dm_svcs dm ! k)) (dm_out (fold (drop_route k) rs dm)) =
       plain_routes (sv_fd (dm_svcs dm ! k)) (dm_out dm) - sr_key ` set rs \<and>
     wild_routes (sv_fd (dm_svcs dm ! k)) (dm_out (fold (drop_route k) rs dm)) =
       wild_routes (sv_fd (dm_svcs dm ! k)) (dm_out dm)"
proof (induction rs arbitrary: dm)
  case (Cons r rs)
  note kd = keeps_drop(1) [of dm k r]
  show ?case using Cons.IH [of "drop_route k r dm"] Cons.prems drop_route_routes [OF Cons.prems, of r]
      keeps_length [OF kd] keeps_fd [OF kd] by auto
qed simp

lemma fold_drop_wild_routes:
  "k < length (dm_svcs dm) \<Longrightarrow> \<forall>(r, m)\<in>set ms. se_convert_rv E (wm_value m) \<noteq> None \<Longrightarrow>
     wild_routes (sv_fd (dm_svcs dm ! k)) (dm_out (fold (drop_wild E k) ms dm)) =
       wild_routes (sv_fd (dm_svcs dm ! k)) (dm_out dm) - (\<lambda>(r, m). (pr_hash r, wm_value m)) ` set ms \<and>
     plain_routes (sv_fd (dm_svcs dm ! k)) (dm_out (fold (drop_wild E k) ms dm)) =
       plain_routes (sv_fd (dm_svcs dm ! k)) (dm_out dm)"
proof (induction ms arbitrary: dm)
  case (Cons rm ms)
  obtain r m where rm: "rm = (r, m)" by (cases rm)
  note kd = keeps_drop(2) [of dm E k rm]
  have "se_convert_rv E (wm_value m) \<noteq> None" using Cons.prems rm by auto
  note this = drop_wild_routes [OF Cons.prems(1) this, of r]
  then show ?case using Cons.IH [of "drop_wild E k rm dm"] Cons.prems
      keeps_length [OF kd] keeps_fd [OF kd] by (auto simp: rm)
qed simp

lemma rem_all_no_routes:
  assumes ex: "svc_exact E (dm_out dm) (dm_svcs dm ! k)" and k: "k < length (dm_svcs dm)"
  shows "plain_routes (sv_fd (dm_svcs dm ! k)) (dm_out (rem_all_sub E k dm)) = {}"
    "wild_routes (sv_fd (dm_svcs dm ! k)) (dm_out (rem_all_sub E k dm)) = {}"
proof -
  let ?s = "dm_svcs dm ! k" and ?d = "stopped_listens E k dm"
  let ?e = "fold (drop_route k) (sv_sub_tab ?s) ?d" and ?ms = "concat (map (\<lambda>r. map (Pair r) (pr_list r)) (sv_pat_tab ?s))"
  note fl = frame_stopped_listens [of dm E k]
  have ke: "keeps dm ?e" by (rule kp.ftrans [OF keeps_frame [OF fl] kp.ffold]) (rule keeps_drop)
  have d: "k < length (dm_svcs ?d)" "sv_fd (dm_svcs ?d ! k) = sv_fd ?s"
      "plain_routes (sv_fd ?s) (dm_out ?d) = plain_routes (sv_fd ?s) (dm_out dm)"
      "wild_routes (sv_fd ?s) (dm_out ?d) = wild_routes (sv_fd ?s) (dm_out dm)"
    using fl k keeps_length [OF keeps_frame [OF fl]] keeps_fd [OF keeps_frame [OF fl] k]
    by (auto simp: frame_def quiet_def)
  have e: "k < length (dm_svcs ?e)" "sv_fd (dm_svcs ?e ! k) = sv_fd ?s"
    using keeps_length [OF ke] keeps_fd [OF ke k] k by auto
  have "se_convert_rv E (wm_value m) \<noteq> None" if "r \<in> set (sv_pat_tab ?s)" "m \<in> set (pr_list r)" for r m
    using pat_tab_okD(1) [of E "sv_pat_tab ?s" r] ex that by (auto simp: svc_exact_def pat_entry_ok_def wild_of_def)
  then have c: "\<forall>(r, m)\<in>set ?ms. se_convert_rv E (wm_value m) \<noteq> None" by auto
  have "(\<lambda>(r, m). (pr_hash r, wm_value m)) ` set ?ms = wild_keys (sv_pat_tab ?s)"
    by (auto simp: wild_keys_def entry_keys_def image_iff)
  then show "plain_routes (sv_fd ?s) (dm_out (rem_all_sub E k dm)) = {}"
    "wild_routes (sv_fd ?s) (dm_out (rem_all_sub E k dm)) = {}"
    using fold_drop_wild_routes [OF e(1) c] fold_drop_route_routes [OF d(1), of "sv_sub_tab ?s"] e d ex
    unfolding rem_all_sub_eq svc_exact_def by auto
qed

end
