(* ===== verification/Svc_Reach.thy ===== *)
theory Svc_Reach
  imports Svc_Routes
begin

text \<open>
  The steps of the daemon and the states that they reach. Every message, timer and event of the
  library is one step; \<open>svc_process\<close> is a sequence of them.
\<close>

section \<open>Well-formed states\<close>

text \<open>
  Descriptors identify connections and service names hosts; a connection that was started has a host,
  and the hosts and inboxes that are named exist.
\<close>

definition dm_typed :: "'r daemon \<Rightarrow> bool" where
  "dm_typed dm \<longleftrightarrow>
     distinct (map sv_fd (dm_svcs dm)) \<and> distinct (map rh_service (dm_hosts dm)) \<and>
     (\<forall>s\<in>set (dm_svcs dm). started_ok s \<and> (\<forall>hi. sv_host s = Some hi \<longrightarrow> hi < length (dm_hosts dm))) \<and>
     (\<forall>h\<in>set (dm_hosts dm). \<forall>ri. rh_rpc h = Some ri \<longrightarrow> ri < length (dm_rpcs dm))"

lemma host_view_map:
  assumes "map host_view hs' = map host_view hs"
  shows "map rh_service hs' = map rh_service hs" "map rh_rpc hs' = map rh_rpc hs"
  using arg_cong [OF assms, of "map fst"] arg_cong [OF assms, of "map snd"] by (simp_all add: host_view_def comp_def)

lemma typed_keeps:
  assumes "dm_typed dm" "keeps dm dm'"
  shows "dm_typed dm'"
proof -
  note hv = host_view_map [OF assms(2) [unfolded keeps_def, THEN conjunct1]]
  have l: "length (dm_hosts dm') = length (dm_hosts dm)" using hv(1) by (metis length_map)
  have rp: "rh_rpc ` set (dm_hosts dm') = rh_rpc ` set (dm_hosts dm)" using hv(2) by (metis list.set_map)
  have sh: "sv_host ` set (dm_svcs dm') = sv_host ` set (dm_svcs dm)"
    using assms(2) unfolding keeps_def by (metis list.set_map)
  have "ri < length (dm_rpcs dm')" if "h \<in> set (dm_hosts dm')" "rh_rpc h = Some ri" for h ri
  proof -
    have "Some ri \<in> rh_rpc ` set (dm_hosts dm)" using that rp by (metis imageI)
    then show ?thesis using assms by (auto simp: dm_typed_def keeps_def)
  qed
  moreover have "hi < length (dm_hosts dm')" if "s \<in> set (dm_svcs dm')" "sv_host s = Some hi" for s hi
  proof -
    have "Some hi \<in> sv_host ` set (dm_svcs dm)" using that sh by (metis imageI)
    then show ?thesis using assms(1) l by (auto simp: dm_typed_def)
  qed
  ultimately show ?thesis using assms hv by (auto simp: dm_typed_def keeps_def)
qed

lemmas typed_frame = typed_keeps [OF _ keeps_frame]

section \<open>The end of a connection\<close>

lemma frame_send_stop: "frame (rem_all_sub E k dm) (send_stop E hi k dm)"
  by (auto simp: send_stop_def Let_def intro!: frame_rules)

lemma stop_network_view: "stop_network h = (b, h1) \<Longrightarrow> host_view h1 = host_view h"
  by (auto simp: stop_network_def Let_def host_view_def split: if_splits)

lemma process_close_parts:
  assumes "process_close E k dm = Some dm'"
  shows "frame (if sv_host_started (dm_svcs dm ! k) then rem_all_sub E k dm else dm) dm'"
  using assms
  by (auto simp: process_close_def Let_def fr.frefl started_ok_def svc_view_def split: option.splits prod.splits if_splits
      intro!: frame_rules frame_set_host stop_network_view frame_send_stop)

lemma keeps_close:
  assumes "process_close E k dm = Some dm'"
  shows "keeps dm dm'"
  by (rule kp.ftrans [OF _ keeps_frame [OF process_close_parts [OF assms]]]) (simp add: keeps_rem_all kp.frefl)

lemma take_drop_sub: "set (take k xs @ drop (Suc k) xs) \<subseteq> set xs"
  using set_take_subset [of k xs] set_drop_subset [of "Suc k" xs] by simp

lemma distinct_take_drop: "distinct xs \<Longrightarrow> distinct (take k xs @ drop (Suc k) xs)"
  by (simp add: set_take_disj_set_drop_if_distinct)

lemma typed_release: "dm_typed dm \<Longrightarrow> dm_typed (svc_release k dm)"
  using take_drop_sub [of k "dm_svcs dm"] distinct_take_drop [of "map sv_fd (dm_svcs dm)" k]
  by (auto simp: dm_typed_def svc_release_def take_map drop_map dest: in_set_takeD in_set_dropD)

lemma exact_release:
  assumes "exact_but E {k} dm" "k < length (dm_svcs dm)"
  shows "exact_but E {} (svc_release k dm)"
  unfolding exact_but_def
proof (intro allI impI)
  let ?xs = "dm_svcs dm"
  fix i assume "i < length (dm_svcs (svc_release k dm))"
  then have i: "i < length ?xs - 1" using assms(2) by (simp add: svc_release_def)
  let ?j = "if i < k then i else Suc i"
  have "dm_svcs (svc_release k dm) ! i = ?xs ! ?j"
    using i assms(2) by (auto simp: svc_release_def nth_append min_def)
  moreover have "?j < length ?xs" "?j \<noteq> k" using i by auto
  ultimately show "svc_exact E (dm_out (svc_release k dm)) (dm_svcs (svc_release k dm) ! i)"
    using assms(1) by (simp add: exact_but_def svc_release_def)
qed

lemma close_exact:
  assumes "exact_but E {} dm" "dm_typed dm" "k < length (dm_svcs dm)" "process_close E k dm = Some dm'"
  shows "exact_but E {} (svc_release k dm')"
proof (rule exact_release)
  have "exact_but E {k} (rem_all_sub E k dm)" "exact_but E {k} dm"
    using rem_all_exact [OF assms(1)] assms(2,3) exact_mono [OF assms(1)] by (auto simp: dm_typed_def)
  then show "exact_but E {k} dm'" using exact_frame [OF process_close_parts [OF assms(4)]] by (auto split: if_splits)
  show "k < length (dm_svcs dm')" using keeps_length [OF keeps_close [OF assms(4)]] assms(3) by simp
qed

section \<open>New connections\<close>

lemma typed_accept: "dm_typed dm \<Longrightarrow> fd \<notin> sv_fd ` set (dm_svcs dm) \<Longrightarrow> dm_typed (svc_accept fd dm)"
  by (auto simp: dm_typed_def svc_accept_def dm_emit_def svc_init_def started_ok_def)

lemma exact_accept:
  assumes "exact_but E {} dm" "plain_routes fd (dm_out dm) = {}" "wild_routes fd (dm_out dm) = {}"
  shows "exact_but E {} (svc_accept fd dm)"
  unfolding exact_but_def
proof (intro allI impI)
  let ?d = "svc_accept fd dm"
  fix i assume i: "i < length (dm_svcs ?d)"
  have r: "plain_routes x (dm_out ?d) = plain_routes x (dm_out dm)" "wild_routes x (dm_out ?d) = wild_routes x (dm_out dm)" for x
    by (simp_all add: svc_accept_def dm_emit_def)
  have s: "dm_svcs ?d = dm_svcs dm @ [svc_init fd (dm_now dm)]" by (simp add: svc_accept_def dm_emit_def)
  show "svc_exact E (dm_out ?d) (dm_svcs ?d ! i)"
  proof (cases "i < length (dm_svcs dm)")
    case True
    then have "svc_exact E (dm_out dm) (dm_svcs dm ! i)" using assms(1) by (simp add: exact_but_def)
    then show ?thesis using True by (simp add: s nth_append svc_exact_def r)
  next
    case False
    then have "dm_svcs ?d ! i = svc_init fd (dm_now dm)" using i by (simp add: s nth_append)
    then show ?thesis using assms(2,3) r
      by (simp add: svc_exact_def svc_init_def wild_keys_def pat_tab_ok_def pat_view_def)
  qed
qed

section \<open>Messages to a client\<close>

lemma data_loss_view:
  assumes "data_loss E pub hid pl h = Some (pl', h', rep)"
  shows "host_view h' = host_view h"
proof -
  obtain la where la: "count_status E (pb_status pub) (rh_loss h) = Some la"
    using assms by (auto simp: data_loss_def bind_eq_Some_conv)
  show ?thesis using assms unfolding data_loss_def la
    by (simp add: Let_def split_beta host_view_def split: if_splits) auto
qed

lemma inbound_data_loss_view:
  assumes "inbound_data_loss E fd pub hid h = Some (h', rep)"
  shows "host_view h' = host_view h"
proof -
  let ?ptr = "grow_to fd (la_ptr (rh_loss h))"
  obtain pl g where p: "(case ?ptr ! fd of
                        Some pl \<Rightarrow> (pl, h\<lparr>rh_loss := (rh_loss h)\<lparr>la_ptr := ?ptr\<rparr>\<rparr>)
                      | None \<Rightarrow> (\<lparr>pl_fd = fd, pl_queue = None\<rparr>,
                                 h\<lparr>rh_loss := (rh_loss h)\<lparr>la_ptr := ?ptr, la_refs := la_refs (rh_loss h) + 1\<rparr>\<rparr>)) = (pl, g)"
    by (metis surj_pair)
  then have g: "host_view g = host_view h" by (auto simp: host_view_def split: option.splits)
  obtain pl1 h2 r where d: "data_loss E pub hid pl g = Some (pl1, h2, r)"
    using assms unfolding inbound_data_loss_def Let_def p by (auto simp: bind_eq_Some_conv)
  have "host_view h' = host_view h2"
    using assms unfolding inbound_data_loss_def Let_def p by (simp add: d host_view_def split: if_splits) auto
  then show ?thesis using data_loss_view [OF d] g by simp
qed

lemma frame_fwd_loss: "fwd_loss E hi fd pub dm = Some dm' \<Longrightarrow> frame dm dm'"
  by (auto simp: fwd_loss_def Let_def bind_eq_Some_conv fr.frefl split: if_splits option.splits
      intro!: frame_rules frame_set_host inbound_data_loss_view)

lemma frame_fwd_msg: "fwd_msg E k pub dm = Some dm' \<Longrightarrow> frame dm dm'"
  by (auto simp: fwd_msg_def Let_def bind_eq_Some_conv fr.frefl started_ok_def svc_view_def
      split: if_splits option.splits prod.splits intro!: frame_rules dest!: frame_fwd_loss)

lemma msg_hit_view:
  "msg_hit E pub rs s = Some s' \<Longrightarrow> sv_fd s' = sv_fd s \<and> sv_host s' = sv_host s \<and>
     sv_host_started s' = sv_host_started s \<and> svc_view s' = svc_view s"
proof (induction rs)
  case (Cons r rs)
  have "sr_key (r\<lparr>sr_msg_cnt := n\<rparr>) = sr_key r" for r n by (simp add: sr_key_def)
  then have "map sr_key (upd_route h sub (\<lambda>r. r\<lparr>sr_msg_cnt := sr_msg_cnt r + 1\<rparr>) t) = map sr_key t" for h sub t
    by (simp add: keys_upd_route)
  moreover have "pat_view (upd_pat h pre (\<lambda>r. r\<lparr>pr_list := upd_wild v (\<lambda>m. m\<lparr>wm_msg_cnt := wm_msg_cnt m + 1\<rparr>) (pr_list r)\<rparr>) t) = pat_view t"
    for h pre v and t :: "'a pat_route list"
    by (rule pat_view_upd_same) (simp add: pr_key_def values_upd_wild)
  ultimately show ?case using Cons
    by (cases r) (auto simp: sub_updcnt_def svc_view_def split: if_splits option.splits prod.splits sub_status.splits)
qed simp

lemma frame_on_msg:
  assumes "on_msg E k pub dm = Some dm'"
  shows "frame dm dm'"
proof (cases "msg_hit E pub (pb_routes pub) (dm_svcs dm ! k)")
  case None
  then show ?thesis using assms by (auto simp: on_msg_def Let_def bind_eq_Some_conv fr.frefl split: if_splits dest: frame_fwd_msg)
next
  case (Some s)
  note v = msg_hit_view [OF this]
  have "frame dm (upd_svc k (\<lambda>_. s) dm)"
    by (rule frame_upd_svc [OF fr.frefl]) (use v in \<open>auto simp: started_ok_def\<close>)
  then show ?thesis using assms Some by (auto simp: on_msg_def dest!: frame_fwd_msg intro: fr.ftrans)
qed

section \<open>Information messages\<close>

lemma start_service_ok:
  assumes "start_service E hn hs = (e, hi, hs')" "distinct (map rh_service hs)"
  shows "distinct (map rh_service hs')" "hi < length hs'" "length hs \<le> length hs'"
    "rh_service (hs' ! hi) = hn_service hn" "h \<in> set hs' \<Longrightarrow> rh_rpc h = Some ri \<Longrightarrow> \<exists>g\<in>set hs. rh_rpc g = Some ri"
proof -
  have none: "hn_service hn \<notin> rh_service ` set hs" if "get_service (hn_service hn) hs = None"
    using that by (auto simp: get_service_def find_None_iff in_set_conv_nth)
  have some: "i < length hs \<and> rh_service (hs ! i) = hn_service hn" if "get_service (hn_service hn) hs = Some i" for i
    using that by (auto simp: get_service_def find_Some_iff)
  have "rh_service (x\<lparr>rh_ipport := p\<rparr>) = rh_service x" for x p by simp
  then have up: "map rh_service (hs[i := (if b then (hs ! i)\<lparr>rh_ipport := p\<rparr> else hs ! i)]) = map rh_service hs" for i b p
    by (intro map_upd_same) simp
  show "distinct (map rh_service hs')"
    using assms none up by (auto simp: start_service_def Let_def host_new_def split: option.splits)
  show "hi < length hs'" "length hs \<le> length hs'" "rh_service (hs' ! hi) = hn_service hn"
    using assms some by (auto simp: start_service_def Let_def host_new_def split: option.splits)
  show "\<exists>g\<in>set hs. rh_rpc g = Some ri" if "h \<in> set hs'" "rh_rpc h = Some ri"
    using assms(1) that some
    by (fastforce simp: start_service_def Let_def host_new_def split: option.splits if_splits
        dest!: set_update_subset_insert [THEN subsetD])
qed

lemma start_daemon_ok:
  assumes "start_daemon E h rs = (h1, rs1)"
  shows "rh_service h1 = rh_service h" "length rs \<le> length rs1" "rh_rpc h1 = Some ri \<Longrightarrow> ri < length rs1"
  using assms by (auto simp: start_daemon_def find_rpc_def find_Some_iff split: option.splits)

lemma copy_network_ok:
  assumes "copy_network E mc hn h rs = (e, h1, rs1)" "rh_service h = hn_service hn"
  shows "rh_service h1 = hn_service hn \<and> length rs \<le> length rs1 \<and>
    (\<forall>ri. rh_rpc h1 = Some ri \<longrightarrow> rh_rpc h = Some ri \<or> ri < length rs1)"
proof (cases "host_copy hn h")
  case None
  then show ?thesis using assms by (simp add: copy_network_def)
next
  case (Some h0)
  then have h0: "rh_service h0 = hn_service hn" "rh_rpc h0 = rh_rpc h"
    using assms by (auto simp: host_copy_def split: if_splits)
  show ?thesis using assms(1) Some h0 start_daemon_ok
    by (fastforce simp: copy_network_def Let_def split: if_splits prod.splits)
qed

lemma check_network_ok:
  assumes "check_network E now hn h rs = (e, h1, rs1)" "rh_service h = hn_service hn"
  shows "rh_service h1 = hn_service hn \<and> length rs \<le> length rs1 \<and>
    (\<forall>ri. rh_rpc h1 = Some ri \<longrightarrow> rh_rpc h = Some ri \<or> ri < length rs1)"
proof -
  have z: "rh_service (zero_stats now h) = hn_service hn" "rh_rpc (zero_stats now h) = rh_rpc h"
    using assms(2) by (simp_all add: zero_stats_def)
  show ?thesis using assms copy_network_ok [OF _ z(1), of E _ rs] z
    by (auto simp: check_network_def start_network_def split: if_splits prod.splits host_error.splits)
qed

lemma typed_set_host:
  assumes "dm_typed dm" "hi < length (dm_hosts dm)" "rh_service h1 = rh_service (dm_hosts dm ! hi)"
    and "length (dm_rpcs dm) \<le> length rs" "\<forall>ri. rh_rpc h1 = Some ri \<longrightarrow> ri < length rs"
  shows "dm_typed (upd_hst hi (\<lambda>_. h1) (dm\<lparr>dm_rpcs := rs\<rparr>))"
proof -
  have "map rh_service ((dm_hosts dm)[hi := h1]) = map rh_service (dm_hosts dm)" using assms(3) by (rule map_upd_same)
  then show ?thesis using assms
    by (fastforce simp: dm_typed_def upd_hst_def dest!: set_update_subset_insert [THEN subsetD])
qed

lemma quiet_fields: "quiet dm (dm\<lparr>dm_hosts := hs\<rparr>)" "quiet dm (dm\<lparr>dm_rpcs := rs\<rparr>)"
  by (simp_all add: quiet_def)

lemma quiet_frame: "frame a b \<Longrightarrow> quiet a b"
  by (simp add: frame_def)

text \<open>What holds after the network of a connection was looked up.\<close>

definition network_ok :: "'r daemon \<Rightarrow> 'r daemon \<Rightarrow> bool" where
  "network_ok dm dm' \<longleftrightarrow> dm_typed dm' \<and> quiet dm dm' \<and> map sv_host (dm_svcs dm') = map sv_host (dm_svcs dm) \<and>
     length (dm_hosts dm') = length (dm_hosts dm)"

lemma network_ok_frame: "network_ok dm d \<Longrightarrow> frame d d' \<Longrightarrow> network_ok dm d'"
  unfolding network_ok_def
  by (metis frame_def host_view_map(1) keeps_def length_map qt.ftrans typed_keeps)

lemma network_ok_set:
  assumes "dm_typed dm" "hi < length (dm_hosts dm)" "rh_service h1 = rh_service (dm_hosts dm ! hi)"
    and "length (dm_rpcs dm) \<le> length rs" "\<forall>ri. rh_rpc h1 = Some ri \<longrightarrow> ri < length rs"
  shows "network_ok dm (upd_hst hi (\<lambda>_. h1) (dm\<lparr>dm_rpcs := rs\<rparr>))"
  using typed_set_host [OF assms] qt.ftrans [OF quiet_fields(2) quiet_upd_hst]
  by (simp add: network_ok_def) (simp add: upd_hst_def)

lemma listen_start_host_ok:
  assumes "dm_typed dm" "hi < length (dm_hosts dm)" "rh_service (dm_hosts dm ! hi) = hn_service hn"
    and "listen_start_host E hi hn dm = (e, dm')"
  shows "network_ok dm dm'"
proof -
  have refl: "network_ok dm dm" using assms(1) by (simp add: network_ok_def qt.frefl)
  let ?h = "dm_hosts dm ! hi"
  obtain e1 h1 rs where c: "check_network E (dm_now dm) hn ?h (dm_rpcs dm) = (e1, h1, rs)" by (metis prod_cases3)
  note ok = check_network_ok [OF c assms(3)]
  have rp: "\<forall>ri. rh_rpc h1 = Some ri \<longrightarrow> ri < length rs"
  proof (intro allI impI)
    fix ri assume r: "rh_rpc h1 = Some ri"
    have "rh_rpc ?h = Some ri \<longrightarrow> ri < length (dm_rpcs dm)" using assms(1) nth_mem [OF assms(2)] by (auto simp: dm_typed_def)
    then show "ri < length rs" using ok r by force
  qed
  have s: "network_ok dm (upd_hst hi (\<lambda>_. h1) (dm\<lparr>dm_rpcs := rs\<rparr>))"
    by (rule network_ok_set [OF assms(1,2)]) (use ok rp assms(3) in auto)
  have s2: "network_ok dm (upd_hst hi (\<lambda>_. h1\<lparr>rh_start_in_progress := True\<rparr>) (dm\<lparr>dm_rpcs := rs\<rparr>))"
    by (rule network_ok_set [OF assms(1,2)]) (use ok rp assms(3) in auto)
  have f: "frame d (start_host E hi d)" for d by (rule frame_start_host [OF fr.frefl])
  show ?thesis using assms(4) refl s network_ok_frame [OF s2 f]
    by (cases e1) (auto simp: listen_start_host_def Let_def c split: if_splits)
qed

lemma listen_start_network_ok:
  assumes "dm_typed dm" "k < length (dm_svcs dm)" "listen_start_network E k hn dm = (e, hi, dm')"
  shows "dm_typed dm'" "quiet dm dm'" "sv_host (dm_svcs dm' ! k) = Some hi"
proof -
  obtain e0 hs where s: "start_service E hn (dm_hosts dm) = (e0, hi, hs)"
    using assms(3) by (auto simp: listen_start_network_def Let_def split: prod.splits if_splits)
  note ok = start_service_ok [OF s]
  let ?d = "upd_svc k (\<lambda>s. s\<lparr>sv_host := Some hi\<rparr>) (dm\<lparr>dm_hosts := hs\<rparr>)"
  have t: "dm_typed ?d"
  proof -
    have "distinct (map sv_fd (dm_svcs ?d))"
      using assms(1) map_upd_same [of sv_fd "(dm_svcs dm ! k)\<lparr>sv_host := Some hi\<rparr>" "dm_svcs dm" k]
      by (simp add: dm_typed_def upd_svc_def)
    moreover have "started_ok s \<and> (\<forall>i. sv_host s = Some i \<longrightarrow> i < length hs)" if "s \<in> set (dm_svcs ?d)" for s
      using that assms(1) ok(2,3)
      by (fastforce simp: upd_svc_def dm_typed_def started_ok_def dest!: set_update_subset_insert [THEN subsetD])
    ultimately show ?thesis using assms(1) ok by (fastforce simp: dm_typed_def upd_svc_def)
  qed
  have q: "quiet dm ?d" by (rule qt.ftrans [OF quiet_fields(1) quiet_upd_svc]) (simp_all add: svc_view_def)
  have h: "sv_host (dm_svcs ?d ! k) = Some hi" using assms(2) by (simp add: upd_svc_def)
  have hi: "hi < length (dm_hosts ?d)" "rh_service (dm_hosts ?d ! hi) = hn_service hn"
    using ok(2,4) assms(1) by (simp_all add: upd_svc_def dm_typed_def)
  have "network_ok ?d dm'"
  proof (cases "e0 = HOST_OK")
    case True
    then show ?thesis using listen_start_host_ok [OF t hi, of E] assms(3) s
      by (auto simp: listen_start_network_def Let_def split: prod.splits)
  next
    case False
    then show ?thesis using t assms(3) s by (auto simp: listen_start_network_def Let_def network_ok_def qt.frefl)
  qed
  then show "dm_typed dm'" "quiet dm dm'" "sv_host (dm_svcs dm' ! k) = Some hi"
    using q h assms(2) unfolding network_ok_def
    by (auto intro: qt.ftrans) (metis (no_types, lifting) length_map nth_map qt.ftrans quiet_def)
qed

lemma respond_info_ok:
  assumes "dm_typed dm" "k < length (dm_svcs dm)" "respond_info E k fs dm = (b, dm')"
  shows "dm_typed dm' \<and> quiet dm dm'"
proof -
  obtain ok i where i: "info_fields E fs (info_of (dm_svcs dm ! k)) = (ok, i)" by (metis surj_pair)
  let ?d = "upd_svc k (info_put E i) dm"
  have f: "frame dm ?d" by (rule frame_upd_svc [OF fr.frefl]) (auto simp: info_put_def started_ok_def svc_view_def)
  show ?thesis
  proof (cases ok)
    case False
    then show ?thesis using assms i f typed_frame [OF assms(1) f] quiet_frame [OF f] by (simp add: respond_info_def Let_def)
  next
    case True
    define hn where "hn = \<lparr>hn_service = (if in_service i = [] then ''7500'' else in_service i), hn_network = in_network i,
      hn_ipport = dm_ipport dm, hn_prefix = dm_prefix dm\<rparr>"
    obtain e hi d2 where n: "listen_start_network E k hn ?d = (e, hi, d2)" by (metis prod_cases3)
    have kl: "k < length (dm_svcs ?d)" using keeps_length [OF keeps_frame [OF f]] assms(2) by simp
    note net = listen_start_network_ok [OF typed_frame [OF assms(1) f] kl n]
    have f2: "frame d2 (count_client k hi d2)"
      using net(3) by (auto simp: count_client_def host_view_def started_ok_def svc_view_def intro!: frame_rules)
    have f3: "frame d2 (info_reply k hi e (count_client k hi d2))" by (rule frame_info_reply [OF f2])
    have "frame d2 dm'"
      using assms(3) n True f3
      by (auto simp: respond_info_def Let_def i hn_def [symmetric] choose_session_def started_ok_def svc_view_def
          intro!: frame_rules split: if_splits)
    then show ?thesis using net typed_frame quiet_frame f by (blast intro: qt.ftrans)
  qed
qed

section \<open>Messages from a client\<close>

lemma frame_fwd_pub: "fwd_pub E k dm = Some (fl, dm') \<Longrightarrow> frame dm dm'"
  by (auto simp: fwd_pub_def Let_def split: option.splits prod.splits intro!: frame_rules)

lemma frame_count_recv: "count_recv k n dm = Some dm' \<Longrightarrow> frame dm dm'"
  by (auto simp: count_recv_def host_view_def split: option.splits intro!: frame_rules)

text \<open>The message that was read, and what was done with it.\<close>

inductive dispatched :: "'r svc_env \<Rightarrow> nat \<Rightarrow> 'r daemon \<Rightarrow> 'r daemon \<Rightarrow> bool" for E k where
  dp_frame: "frame dm dm' \<Longrightarrow> dispatched E k dm dm'"
| dp_add: "frame dm d \<Longrightarrow> add_sub E k d = Some dm' \<Longrightarrow> dispatched E k dm dm'"
| dp_rem: "frame dm d \<Longrightarrow> rem_sub E k d = Some dm' \<Longrightarrow> dispatched E k dm dm'"
| dp_info: "frame dm d \<Longrightarrow> respond_info E k fs d = (b, dm') \<Longrightarrow> dispatched E k dm dm'"

lemma dispatch_dispatched:
  assumes "dispatch_msg E info k msg dm = Some (st, dm')"
  shows "dispatched E k dm dm'"
proof -
  obtain rs m where m: "msg_unpack (se_unpack_rv E) msg (sv_msg_in (dm_svcs dm ! k)) = (rs, m)" by (metis surj_pair)
  let ?d = "upd_svc k (\<lambda>s. s\<lparr>sv_msg_in := m\<rparr>) dm"
  have f: "frame dm ?d" by (rule frame_upd_svc [OF fr.frefl]) (auto simp: started_ok_def svc_view_def)
  have fl: "frame dm (upd_svc k (\<lambda>s. s\<lparr>sv_state := g s\<rparr>) d)" if "fwd_pub E k ?d = Some (x, d)" for x d g
    by (rule frame_upd_svc [OF fr.ftrans [OF f frame_fwd_pub [OF that]]]) (auto simp: started_ok_def svc_view_def)
  show ?thesis using assms f fl unfolding dispatch_msg_def m
    by (auto simp: Let_def split: if_splits prod.splits intro: dispatched.intros)
qed

lemma roomy_view:
  assumes "frame dm dm'" "roomy dm"
  shows "roomy dm'"
proof -
  have v: "map svc_view (dm_svcs dm') = map svc_view (dm_svcs dm)" using assms(1) by (simp add: frame_def quiet_def)
  have "length (pr_list r) < 2 ^ 32" if "s \<in> set (dm_svcs dm')" "r \<in> set (sv_pat_tab s)" for s r
  proof -
    have "svc_view s \<in> svc_view ` set (dm_svcs dm)" using that(1) v by (metis image_eqI list.set_map)
    then obtain s' where s': "s' \<in> set (dm_svcs dm)" "pat_view (sv_pat_tab s) = pat_view (sv_pat_tab s')"
      by (auto simp: svc_view_def)
    have "(pr_key r, pr_count r, map wm_value (pr_list r)) \<in> set (pat_view (sv_pat_tab s'))"
      using that(2) by (simp flip: s'(2)) (force simp: pat_view_def)
    then obtain r' where "r' \<in> set (sv_pat_tab s')" "map wm_value (pr_list r') = map wm_value (pr_list r)"
      by (auto simp: pat_view_def)
    then show ?thesis using assms(2) s'(1) by (metis length_map roomy_def)
  qed
  then show ?thesis by (simp add: roomy_def)
qed

lemma frame_facts:
  assumes "frame dm d" "dm_typed dm"
  shows "dm_typed d" "length (dm_svcs d) = length (dm_svcs dm)" "distinct (map sv_fd (dm_svcs d))"
proof -
  show t: "dm_typed d" using typed_frame assms by blast
  then show "distinct (map sv_fd (dm_svcs d))" by (simp add: dm_typed_def)
  show "length (dm_svcs d) = length (dm_svcs dm)" by (rule keeps_length [OF keeps_frame [OF assms(1)]])
qed

lemma dispatched_typed:
  assumes "dispatched E k dm dm'" "dm_typed dm" "k < length (dm_svcs dm)"
  shows "dm_typed dm' \<and> length (dm_svcs dm') = length (dm_svcs dm)"
  using assms(1)
proof cases
  case dp_frame
  then show ?thesis using typed_frame assms(2) keeps_length [OF keeps_frame] by blast
next
  case (dp_add d)
  then show ?thesis using typed_frame typed_keeps assms(2) keeps_add_sub keeps_length keeps_frame by metis
next
  case (dp_rem d)
  then show ?thesis using typed_frame typed_keeps assms(2) keeps_rem_sub keeps_length keeps_frame by metis
next
  case (dp_info d fs b)
  then have "dm_typed d" "k < length (dm_svcs d)" "length (dm_svcs d) = length (dm_svcs dm)"
    using frame_facts [OF _ assms(2)] assms(3) by auto
  then have "dm_typed dm'" "quiet d dm'" using respond_info_ok dp_info(2) by blast+
  then show ?thesis using \<open>length (dm_svcs d) = _\<close> unfolding quiet_def by (metis length_map)
qed

lemma dispatched_exact:
  assumes "dispatched E k dm dm'" "dm_typed dm" "k < length (dm_svcs dm)" "compiles E" "roomy dm" "exact_but E {} dm"
  shows "exact_but E {} dm'"
proof -
  have d: "exact_but E {} d" "distinct (map sv_fd (dm_svcs d))" "k < length (dm_svcs d)" "dm_typed d" "roomy d" if "frame dm d" for d
    using frame_facts [OF that assms(2)] assms(3) exact_frame [OF that assms(6)] roomy_view [OF that assms(5)] by auto
  show ?thesis using assms(1)
  proof cases
    case dp_frame
    then show ?thesis by (rule d(1))
  next
    case (dp_add x)
    then show ?thesis using add_sub_exact [OF d(1-3) assms(4)] by blast
  next
    case (dp_rem x)
    then show ?thesis using rem_sub_exact [OF d(1-3,5)] by blast
  next
    case (dp_info x fs b)
    then show ?thesis using exact_quiet [OF _ d(1)] respond_info_ok [OF d(4,3)] by blast
  qed
qed

section \<open>Steps\<close>

text \<open>
  The router has no routes for the descriptor of a new connection. The library may change the clock,
  its answer to publications and the sessions of other kinds of connections at any time.
\<close>

inductive dm_step :: "'r svc_env \<Rightarrow> 'r daemon \<Rightarrow> 'r daemon \<Rightarrow> bool" for E where
  st_accept: "fd \<notin> sv_fd ` set (dm_svcs dm) \<Longrightarrow> plain_routes fd (dm_out dm) = {} \<Longrightarrow> wild_routes fd (dm_out dm) = {} \<Longrightarrow>
     dm_step E dm (svc_accept fd dm)"
| st_hello: "k < length (dm_svcs dm) \<Longrightarrow>
     dm_step E dm (upd_svc k (\<lambda>s. s\<lparr>sv_state := n\<rparr>) (send_info b (sv_fd (dm_svcs dm ! k)) dm))"
| st_buffer: "k < length (dm_svcs dm) \<Longrightarrow> dm_step E dm (upd_svc k (\<lambda>s. s\<lparr>sv_state := g (sv_state s)\<rparr>) dm)"
| st_dispatch: "k < length (dm_svcs dm) \<Longrightarrow> dispatch_msg E info k msg dm = Some (st, dm') \<Longrightarrow> dm_step E dm dm'"
| st_count: "k < length (dm_svcs dm) \<Longrightarrow> count_recv k n dm = Some dm' \<Longrightarrow> dm_step E dm dm'"
| st_msg: "k < length (dm_svcs dm) \<Longrightarrow> on_msg E k pub dm = Some dm' \<Longrightarrow> dm_step E dm dm'"
| st_close: "k < length (dm_svcs dm) \<Longrightarrow> process_close E k dm = Some dm' \<Longrightarrow> dm_step E dm (svc_release k dm')"
| st_timer: "hi < length (dm_hosts dm) \<Longrightarrow> dm_step E dm (snd (host_timer E hi tid cur dm))"
| st_rpc: "ri < length (dm_rpcs dm) \<Longrightarrow> dm_step E dm (rpc_on_msg ri reply msg dm)"
| st_library: "dm_step E dm (dm\<lparr>dm_now := now, dm_flow := fl, dm_quit := q, dm_others := oth\<rparr>)"

lemma frame_rpc: "frame dm (rpc_on_msg ri reply msg dm)"
  by (auto simp: rpc_on_msg_def send_sessions_def send_subscriptions_def Let_def fr.frefl
      split: list.splits option.splits info_val.splits prod.splits intro!: frame_rules)

lemma frame_library: "frame dm (dm\<lparr>dm_now := now, dm_flow := fl, dm_quit := q, dm_others := oth\<rparr>)"
  by (simp add: frame_def keeps_def quiet_def)

lemma frame_state: "frame dm d \<Longrightarrow> frame dm (upd_svc k (\<lambda>s. s\<lparr>sv_state := g (sv_state s)\<rparr>) d)"
  by (erule frame_upd_svc) (auto simp: started_ok_def svc_view_def)

text \<open>Every step is the start or the end of a connection, a message, or in the frame.\<close>

lemma dm_step_cases:
  assumes "dm_step E dm dm'"
  obtains (accept) fd where "fd \<notin> sv_fd ` set (dm_svcs dm)" "plain_routes fd (dm_out dm) = {}" "wild_routes fd (dm_out dm) = {}"
      "dm' = svc_accept fd dm"
  | (close) k d where "k < length (dm_svcs dm)" "process_close E k dm = Some d" "dm' = svc_release k d"
  | (dispatch) k where "k < length (dm_svcs dm)" "dispatched E k dm dm'"
  | (frame) "frame dm dm'"
  using assms
proof cases
  case (st_hello k n b)
  then have "frame dm dm'" using frame_state [OF frame_send_info [OF fr.frefl], where g = "\<lambda>_. n"] by simp
  then show ?thesis by (rule that(4))
next
  case (st_buffer k g)
  then have "frame dm dm'" using frame_state [OF fr.frefl] by simp
  then show ?thesis by (rule that(4))
next
  case (st_dispatch k info msg st)
  then show ?thesis using that(3) dispatch_dispatched by metis
next
  case (st_count k n)
  then show ?thesis using that(4) frame_count_recv by metis
next
  case (st_msg k pub)
  then show ?thesis using that(4) frame_on_msg by metis
next
  case (st_timer hi tid cur)
  then show ?thesis using that(4) frame_host_timer by metis
next
  case (st_rpc ri reply msg)
  then show ?thesis using that(4) frame_rpc by metis
next
  case (st_library now fl q oth)
  then show ?thesis using that(4) frame_library by metis
qed (rule that(1) that(2); assumption)+

lemma dm_step_typed: "dm_step E dm dm' \<Longrightarrow> dm_typed dm \<Longrightarrow> dm_typed dm'"
  by (erule dm_step_cases) (metis typed_accept, metis typed_keeps keeps_close typed_release, metis dispatched_typed, metis typed_frame)

lemma dm_step_exact:
  assumes "dm_step E dm dm'" "dm_typed dm" "compiles E" "roomy dm" "exact_but E {} dm"
  shows "exact_but E {} dm'"
  using assms(1)
  by (rule dm_step_cases) (metis assms(5) exact_accept, metis assms(2,5) close_exact, metis assms(2-5) dispatched_exact, metis assms(5) exact_frame)

end
