(* ===== verification/Svc_Properties.thy ===== *)
theory Svc_Properties
  imports Svc_Reach
begin

text \<open>
  The properties of the daemon: its states are well-formed, the router's table agrees with the tables
  of the connections, a closed connection leaves nothing behind, and a client that does not begin with
  an information message brings the daemon down.
\<close>

section \<open>Reachable states\<close>

definition dm_init :: "u16 \<Rightarrow> bool \<Rightarrow> bool \<Rightarrow> u64 \<Rightarrow> 'r daemon" where
  "dm_init ipport pre notify now = \<lparr>dm_hosts = [], dm_rpcs = [], dm_svcs = [], dm_others = (\<lambda>_. []), dm_now = now,
     dm_quit = False, dm_ipport = ipport, dm_prefix = pre, dm_notify = notify, dm_flow = RV_FLOW_GOOD, dm_out = []\<rparr>"

inductive dm_reach :: "'r svc_env \<Rightarrow> 'r daemon \<Rightarrow> bool" for E where
  reach_init: "dm_reach E (dm_init ipport pre notify now)"
| reach_step: "dm_reach E dm \<Longrightarrow> roomy dm \<Longrightarrow> dm_step E dm dm' \<Longrightarrow> dm_reach E dm'"

lemma reach_typed: "dm_reach E dm \<Longrightarrow> dm_typed dm"
proof (induction rule: dm_reach.induct)
  case reach_init
  show ?case by (simp add: dm_init_def dm_typed_def)
qed (rule dm_step_typed)

lemma reach_exact: "dm_reach E dm \<Longrightarrow> compiles E \<Longrightarrow> exact_but E {} dm"
proof (induction rule: dm_reach.induct)
  case reach_init
  show ?case by (simp add: dm_init_def exact_but_def)
next
  case (reach_step dm dm')
  then show ?case using dm_step_exact reach_typed by blast
qed

section \<open>The loop over messages is a sequence of steps\<close>

lemma recv_loop_steps:
  "recv_loop E info k buf dm = Some y \<Longrightarrow> dm_typed dm \<Longrightarrow> k < length (dm_svcs dm) \<Longrightarrow>
     (dm_step E)\<^sup>*\<^sup>* dm (snd (snd y))"
proof (induction E info k buf dm y rule: recv_loop.raw_induct [rotated, consumes 1])
  case (1 loop E info k buf dm y)
  let ?n = "unat (se_be32 E buf)"
  show ?case
  proof (cases "length buf < 8 \<or> length buf < ?n")
    case True
    then show ?thesis using 1(2) by (auto simp: Let_def split: if_splits)
  next
    case False
    then obtain st d where d: "dispatch_msg E info k (take ?n buf) dm = Some (st, d)"
      using 1(2) by (auto simp: Let_def bind_eq_Some_conv)
    have s: "dm_step E dm d" by (rule st_dispatch [OF 1(4) d])
    have t: "dm_typed d" "k < length (dm_svcs d)"
      using dispatched_typed [OF dispatch_dispatched [OF d] 1(3,4)] 1(4) by auto
    show ?thesis
    proof (cases "st = DOk")
      case True
      then obtain d2 where d2: "count_recv k ?n d = Some d2" and l: "loop E info k (drop ?n buf) d2 = Some y"
        using 1(2) False d by (auto simp: Let_def bind_eq_Some_conv)
      have s2: "dm_step E d d2" by (rule st_count [OF t(2) d2])
      have "(dm_step E)\<^sup>*\<^sup>* d2 (snd (snd y))"
        using 1(1) [OF l] frame_facts [OF frame_count_recv [OF d2] t(1)] t(2) by simp
      then show ?thesis using s s2 by (meson converse_rtranclp_into_rtranclp)
    next
      case False
      then have "snd (snd y) = d" using 1(2) \<open>\<not> (length buf < 8 \<or> _)\<close> d by (cases st) (auto simp: Let_def)
      then show ?thesis using s by blast
    qed
  qed
qed

lemma svc_process_steps:
  assumes "svc_process E info k buf dm = Some (r, rest, dm')" "dm_typed dm" "k < length (dm_svcs dm)"
  shows "(dm_step E)\<^sup>*\<^sup>* dm dm'"
proof -
  have dr: "(dm_step E)\<^sup>*\<^sup>* d dm'"
    if run: "data_recv E info k b d = Some (r, rest, dm')" and "dm_typed d" "k < length (dm_svcs d)" for b d
  proof -
    note ok = that(2,3)
    obtain g where g: "recv_loop E info k b (upd_svc k (\<lambda>s. s\<lparr>sv_state := g (sv_state s)\<rparr>) d) = Some (r, rest, dm')"
    proof
      show "recv_loop E info k b (upd_svc k (\<lambda>s. s\<lparr>sv_state := (\<lambda>v. if length b > se_highwater E
          then v OR FWD_BUFFERSIZE else v AND NOT FWD_BUFFERSIZE) (sv_state s)\<rparr>) d) = Some (r, rest, dm')"
        using run by (simp add: data_recv_def)
    qed
    let ?d = "upd_svc k (\<lambda>s. s\<lparr>sv_state := g (sv_state s)\<rparr>) d"
    have "dm_step E d ?d" by (rule st_buffer [OF ok(2)])
    moreover have "(dm_step E)\<^sup>*\<^sup>* ?d dm'"
      using recv_loop_steps [OF g] frame_facts [OF frame_state [OF fr.frefl] ok(1)] ok(2) by simp
    ultimately show ?thesis by (meson converse_rtranclp_into_rtranclp)
  qed
  let ?hello = "\<lambda>n b d. upd_svc k (\<lambda>s. s\<lparr>sv_state := n\<rparr>) (send_info b (sv_fd (dm_svcs dm ! k)) d)"
  have hs: "dm_step E d (?hello n b d) \<and> dm_typed (?hello n b d) \<and> k < length (dm_svcs (?hello n b d)) \<and>
      sv_fd (dm_svcs (?hello n b d) ! k) = sv_fd (dm_svcs dm ! k)"
    if "dm_typed d" "k < length (dm_svcs d)" "sv_fd (dm_svcs d ! k) = sv_fd (dm_svcs dm ! k)" for n b d
  proof -
    have f: "frame d (?hello n b d)" by (rule frame_state [OF frame_send_info [OF fr.frefl], where g = "\<lambda>_. n"])
    show ?thesis using st_hello [OF that(2), of E n b] that frame_facts [OF f that(1)] keeps_fd [OF keeps_frame [OF f] that(2)]
      by simp
  qed
  have ir: "(dm_step E)\<^sup>*\<^sup>* d dm'"
    if "(if length b < 64 then Some (RWait, b, d) else data_recv E info k (drop 64 b) (?hello DATA_RECV True d)) = Some (r, rest, dm')"
      "dm_typed d" "k < length (dm_svcs d)" "sv_fd (dm_svcs d ! k) = sv_fd (dm_svcs dm ! k)" for b d
    using that(1) dr [of "drop 64 b" "?hello DATA_RECV True d"] hs [OF that(2-4), of DATA_RECV True]
    by (auto split: if_splits intro: converse_rtranclp_into_rtranclp)
  show ?thesis
    using assms dr [OF _ assms(2,3)] ir [OF _ assms(2,3)] hs [OF assms(2,3), of INFO_RECV False]
      ir [of "drop 12 buf" "?hello INFO_RECV False dm"]
    by (auto simp: svc_process_def Let_def split: if_splits intro: converse_rtranclp_into_rtranclp)
qed

section \<open>Properties\<close>

text \<open>
  C21: In every state that the daemon reaches, descriptors and service names are unique, a started connection has a
  host, and every host and inbox that is referred to exists.
\<close>

theorem daemon_well_typed: "dm_reach E dm \<Longrightarrow> dm_typed dm"
  by (rule reach_typed)

lemma sample_dm_reach: "dm_reach E (svc_accept 5 (dm_init 7500 False False now))"
  by (rule reach_step [OF reach_init], simp add: roomy_def dm_init_def, rule st_accept) (simp_all add: dm_init_def)

theorem daemon_well_typed_witness: "dm_typed (svc_accept 5 (dm_init 7500 False False 1000 :: unit daemon))"
  by (rule daemon_well_typed [OF sample_dm_reach [of sample_svc]])



text \<open>
  C7: Closing a connection that was started succeeds, and the router keeps no route of it.
\<close>

theorem close_leaves_no_routes:
  assumes "dm_reach E dm" "compiles E" "k < length (dm_svcs dm)" "sv_host_started (dm_svcs dm ! k)"
  shows "\<exists>dm'. process_close E k dm = Some dm' \<and> plain_routes (sv_fd (dm_svcs dm ! k)) (dm_out dm') = {} \<and>
    wild_routes (sv_fd (dm_svcs dm ! k)) (dm_out dm') = {}"
proof -
  have "started_ok (dm_svcs dm ! k)" using reach_typed [OF assms(1)] nth_mem [OF assms(3)] by (auto simp: dm_typed_def)
  then obtain dm' where d: "process_close E k dm = Some dm'"
    using assms(4) by (auto simp: process_close_def started_ok_def Let_def split_beta)
  have "svc_exact E (dm_out dm) (dm_svcs dm ! k)" using reach_exact [OF assms(1,2)] assms(3) by (simp add: exact_but_def)
  then show ?thesis using rem_all_no_routes [OF _ assms(3)] process_close_parts [OF d] assms(4) d
    by (simp add: frame_def quiet_def)
qed

text \<open>A library for the example: a message is its type and a zero byte, and the host has an address.\<close>

definition sample_rv :: "unit svc_env" where
  "sample_rv = sample_svc\<lparr>se_hostname := Some ''h'', se_lookup_ip4_mask := (\<lambda>s. (1, 255)),
     se_unpack_rv := (\<lambda>b. Some [Some \<lparr>wf_name = zstr ''mtype'', wf_start = 4, wf_end = 6, wf_type = MD_STRING,
       wf_ptr = 4, wf_size = 2\<rparr>])\<rparr>"

definition sample_info :: "(dispatch_end \<times> unit daemon) option" where
  "sample_info = dispatch_msg sample_rv (\<lambda>_. []) 0 [0, 0, 0, 8, 73, 0, 0, 0]
     (svc_accept 5 (dm_init 7500 False False 5000000))"

lemma sample_info_started: "map_option (\<lambda>(st, d). map sv_host_started (dm_svcs d)) sample_info = Some [True]"
  by code_simp

theorem close_leaves_no_routes_witness:
  "\<exists>st dm dm'. sample_info = Some (st, dm) \<and> process_close sample_rv 0 dm = Some dm' \<and> plain_routes (sv_fd (dm_svcs dm ! 0)) (dm_out dm') = {}"
proof -
  let ?a = "svc_accept 5 (dm_init 7500 False False 5000000) :: unit daemon"
  obtain st dm where d: "sample_info = Some (st, dm)" "map sv_host_started (dm_svcs dm) = [True]"
    using sample_info_started by (auto simp: map_option_case split: option.splits)
  have l: "length (dm_svcs ?a) = 1" "roomy ?a"
    by (simp_all add: svc_accept_def dm_emit_def dm_init_def svc_init_def roomy_def)
  have "dm_reach sample_rv dm"
    by (rule reach_step [OF sample_dm_reach l(2) st_dispatch]) (use d(1) l(1) in \<open>auto simp: sample_info_def\<close>)
  moreover have "compiles sample_rv" by (simp add: compiles_def sample_rv_def sample_svc_def)
  moreover have "0 < length (dm_svcs dm)" "sv_host_started (dm_svcs dm ! 0)"
    using d(2) by (cases "dm_svcs dm"; simp)+
  ultimately show ?thesis using close_leaves_no_routes [of sample_rv dm 0] d(1) by blast
qed

text \<open>
  C27: The client must begin with an information message: a first message that publishes, subscribes or cancels
  makes the daemon use the host of the connection, a null pointer.
\<close>

theorem first_message_needs_host:
  assumes "k < length (dm_svcs dm)" "sv_host (dm_svcs dm ! k) = None" "8 \<le> length buf" "unat (se_be32 E buf) \<le> length buf"
    and "msg_unpack (se_unpack_rv E) (take (unat (se_be32 E buf)) buf) (sv_msg_in (dm_svcs dm ! k)) = (RV_OK, m)"
    and "mi_mtype m \<in> {67, 68, 76}"
  shows "recv_loop E info k buf dm = None"
proof -
  let ?n = "unat (se_be32 E buf)"
  let ?d = "upd_svc k (\<lambda>s. s\<lparr>sv_msg_in := m\<rparr>) dm"
  have h: "sv_host (dm_svcs ?d ! k) = None" "k < length (dm_svcs ?d)" using assms(1,2) by (simp_all add: upd_svc_def)
  have c: "count_recv k ?n d' = None" if "keeps ?d d'" for d'
    using keeps_svc_host [OF that h(2)] h(1) by (simp add: count_recv_def)
  have "(\<exists>d'. dispatch_msg E info k (take ?n buf) dm = Some (DOk, d') \<and> keeps ?d d') \<or>
      dispatch_msg E info k (take ?n buf) dm = None"
    using assms(5,6) h(1) keeps_add_sub [of E k ?d] keeps_rem_sub [of E k ?d]
    by (cases "add_sub E k ?d"; cases "rem_sub E k ?d") (auto simp: dispatch_msg_def fwd_pub_def Let_def split: prod.splits)
  then show ?thesis using assms(3,4) c by (subst recv_loop.simps) (auto simp: Let_def)
qed

theorem first_message_needs_host_witness:
  "recv_loop sample_rv (\<lambda>_. []) 0 [0, 0, 0, 8, 68, 0, 0, 0] (svc_accept 5 (dm_init 7500 False False 1000)) = None"
proof (rule first_message_needs_host)
  let ?d = "svc_accept 5 (dm_init 7500 False False 1000) :: unit daemon"
  have s: "dm_svcs ?d = [svc_init 5 1000]" by (simp add: svc_accept_def dm_emit_def dm_init_def)
  show "0 < length (dm_svcs ?d)" "sv_host (dm_svcs ?d ! 0) = None" by (simp_all add: s svc_init_def)
  have n: "unat (se_be32 sample_rv [0, 0, 0, 8, 68, 0, 0, 0]) = 8" by (simp add: sample_rv_def sample_svc_def)
  then show "unat (se_be32 sample_rv [0, 0, 0, 8, 68, 0, 0, 0]) \<le> length [0, 0, 0, 8, 68, 0, 0, 0]" by simp
  let ?m = "msg_in_init\<lparr>mi_buf := [0, 0, 0, 8, 68, 0, 0, 0], mi_mtype := 68\<rparr>"
  show "msg_unpack (se_unpack_rv sample_rv) (take (unat (se_be32 sample_rv [0, 0, 0, 8, 68, 0, 0, 0])) [0, 0, 0, 8, 68, 0, 0, 0])
      (sv_msg_in (dm_svcs ?d ! 0)) = (RV_OK, ?m)"
    unfolding n s by (simp add: svc_init_def sample_rv_def msg_unpack_def match_field_def field_bytes_def zstr_def
        valid_mtype_def unpack_init_def unpack_end_def msg_in_init_def numeral_eq_Suc)
  show "mi_mtype ?m \<in> {67, 68, 76}" by simp
qed simp

end
