(* ===== verification/Sub_Entries.thy ===== *)
theory Sub_Entries
  imports Rv_Subject
begin

text \<open>
  The entries of the subscription database (\<open>include/sassrv/submgr.h\<close>, first half of
  \<open>src/submgr.cpp\<close>): the kinds of advisory subjects, host ids and their hexadecimal form, the
  entries for subscriptions, sessions, hosts and SASS3 subscribers, and their operations.

  \<open>UIntHashTab\<close> of the library raikv maps a 32 bit key to a 32 bit value. An entry's table is
  modelled by its contents, an association list; \<open>None\<close> is the null pointer that a stopped entry
  has. The order in which the library visits a table is an argument of the database.
\<close>

section \<open>Advisory subjects\<close>

datatype sub_kind =
  IS_HOST_STATUS | IS_HOST_START | IS_HOST_STOP | IS_UNREACHABLE | IS_SESSION_START
| IS_SESSION_STOP | IS_LISTEN_START | IS_LISTEN_STOP | IS_SNAP | IS_SASS | IS_TIC_REPLY

definition rv_info_sub :: "(string \<times> sub_kind) list" where
  "rv_info_sub =
    [(''_RV.INFO.SYSTEM.HOST.STATUS.>'', IS_HOST_STATUS),
     (''_RV.INFO.SYSTEM.HOST.START.>'', IS_HOST_START),
     (''_RV.INFO.SYSTEM.HOST.STOP.>'', IS_HOST_STOP),
     (''_RV.INFO.SYSTEM.UNREACHABLE.TRANSPORT.>'', IS_UNREACHABLE),
     (''_RV.INFO.SYSTEM.SESSION.START.>'', IS_SESSION_START),
     (''_RV.INFO.SYSTEM.SESSION.STOP.>'', IS_SESSION_STOP),
     (''_RV.INFO.SYSTEM.LISTEN.START.>'', IS_LISTEN_START),
     (''_RV.INFO.SYSTEM.LISTEN.STOP.>'', IS_LISTEN_STOP),
     (''_SNAP.>'', IS_SNAP), (''_SASS.>'', IS_SASS), (''_TIC.REPLY.>'', IS_TIC_REPLY)]"

text \<open>The inner loop of \<open>match_rv_info\<close>: compare from position \<open>len\<close> down to 0.\<close>

fun same_back :: "string \<Rightarrow> string \<Rightarrow> nat \<Rightarrow> bool" where
  "same_back sub pat 0 = (sub ! 0 = pat ! 0)"
| "same_back sub pat (Suc n) = (sub ! Suc n = pat ! Suc n \<and> same_back sub pat n)"

fun match_info_in :: "(string \<times> sub_kind) list \<Rightarrow> string \<Rightarrow> (string \<times> sub_kind) option" where
  "match_info_in [] sub = None"
| "match_info_in (m # ms) sub =
     (if length sub > length (fst m) \<and> same_back sub (fst m) (length (fst m) - 2)
      then Some m else match_info_in ms sub)"

definition match_rv_info :: "string \<Rightarrow> (string \<times> sub_kind) option" where
  "match_rv_info sub = match_info_in rv_info_sub sub"

section \<open>Host ids\<close>

definition hexval :: "char \<Rightarrow> u32" where
  "hexval c =
     (let n = of_char c :: nat
      in if 48 \<le> n \<and> n \<le> 57 then of_nat (n - 48)
         else if 65 \<le> n \<and> n \<le> 70 then of_nat (n - 65 + 10)
         else if 97 \<le> n \<and> n \<le> 102 then of_nat (n - 97 + 10)
         else 0)"

text \<open>The loop \<open>id |= hexval( str[ i ] ) << ( --j * 4 )\<close> over the first \<open>j\<close> characters.\<close>

fun hex_id :: "nat \<Rightarrow> string \<Rightarrow> u32 \<Rightarrow> u32" where
  "hex_id 0 cs h = h"
| "hex_id (Suc j) cs h = hex_id j (tl cs) (h OR push_bit (j * 4) (hexval (hd cs)))"

text \<open>Eight (four) characters are read whatever the length: \<open>None\<close> is a read past the end.\<close>

definition string_to_host_id :: "string \<Rightarrow> u32 option" where
  "string_to_host_id str = (if length str < 8 then None else Some (hex_id 8 str 0))"

definition string_to_cid :: "string \<Rightarrow> u16 option" where
  "string_to_cid str = (if length str < 4 then None else Some (ucast (hex_id 4 str 0)))"

text \<open>\<open>hexchar2\<close> belongs to the library.\<close>

fun hex_chars :: "(u32 \<Rightarrow> char) \<Rightarrow> nat \<Rightarrow> u32 \<Rightarrow> string" where
  "hex_chars hexchar2 0 v = []"
| "hex_chars hexchar2 (Suc n) v = hex_chars hexchar2 n (drop_bit 4 v) @ [hexchar2 (v AND 15)]"

definition host_id_to_string :: "(u32 \<Rightarrow> char) \<Rightarrow> u32 \<Rightarrow> u16 \<Rightarrow> string" where
  "host_id_to_string hexchar2 host_id cid =
     hex_chars hexchar2 8 host_id @
     (if cid \<noteq> 0 then ''.U'' @ hex_chars hexchar2 4 (ucast cid) else [])"

definition hash_host_id :: "(u32 \<Rightarrow> u32) \<Rightarrow> u32 \<Rightarrow> u16 \<Rightarrow> u32" where
  "hash_host_id kv_hash_uint host_id cid =
     (if cid = 0 then host_id else host_id XOR kv_hash_uint (ucast cid))"

text \<open>The host and cid of a session name, \<open>XXXXXXXX.Uxxxx.\<close> when the daemon has a cid.\<close>

definition session_cid :: "u16 \<Rightarrow> string \<Rightarrow> u16" where
  "session_cid cid x =
     (if cid = 0 \<and> length x > 14 \<and> x ! 8 = dot \<and> x ! 9 = CHR ''U'' \<and> x ! 14 = dot
      then ucast (hex_id 4 (drop 10 x) 0) else cid)"

definition inbox_session_len :: "string \<Rightarrow> nat" where
  "inbox_session_len rep =
     (if length rep > 7
      then let r = dropWhile (\<lambda>c. c \<noteq> dot) (rev (drop 7 rep))
           in if r \<noteq> [] then length r - 1 else 0
      else 0)"

section \<open>Hash tables\<close>

type_synonym uint_ht = "(u32 \<times> u32) list"

definition ht_set :: "u32 \<Rightarrow> u32 \<Rightarrow> uint_ht \<Rightarrow> uint_ht" where
  "ht_set k v t = t @ [(k, v)]"

definition ht_remove :: "u32 \<Rightarrow> uint_ht \<Rightarrow> uint_ht" where
  "ht_remove k t = filter (\<lambda>p. fst p \<noteq> k) t"

section \<open>Subscriptions\<close>

record rv_subscription =
  subject_id :: u32
  refcnt :: "31 word"
  ref7cnt :: bool
  sub_start_mono :: u32
  sub_ref_mono :: u32
  sub_hash :: u32
  sub_value :: string

definition sub_start :: "string \<Rightarrow> u32 \<Rightarrow> u32 \<Rightarrow> u32 \<Rightarrow> rv_subscription" where
  "sub_start value hash ident cur_mono =
     \<lparr>subject_id = ident, refcnt = 0, ref7cnt = False, sub_start_mono = cur_mono,
      sub_ref_mono = cur_mono, sub_hash = hash, sub_value = value\<rparr>"

section \<open>Sessions\<close>

datatype session_state =
  RV_SESSION_UNKNOWN | RV_SESSION_CID | RV_SESSION_RV5 | RV_SESSION_QUERY | RV_SESSION_STOP
| RV_SESSION_RV7 | RV_SESSION_SELF

record rv_session =
  sub_ht :: "uint_ht option"
  user_id :: "string option"
  ses_host_id :: u32
  session_id :: u32
  ses_start_mono :: u32
  ses_ref_mono :: u32
  ses_stop_mono :: u32
  ses_query_mono :: u32
  ses_state :: session_state
  ses_cid :: u16
  has_daemon :: bool
  ses_hash :: u32
  ses_value :: string

text \<open>The scan for \<open>.DAEMON.\<close> stops with eight characters left.\<close>

fun scan_daemon :: "string \<Rightarrow> bool" where
  "scan_daemon [] = False"
| "scan_daemon (c # cs) =
     (length (c # cs) > 8 \<and> (take 8 (c # cs) = ''.DAEMON.'' \<or> scan_daemon cs))"

definition session_start_entry ::
  "string \<Rightarrow> u32 \<Rightarrow> u32 \<Rightarrow> u16 \<Rightarrow> u32 \<Rightarrow> u32 \<Rightarrow> bool \<Rightarrow> string option \<Rightarrow> rv_session" where
  "session_start_entry value hash host cid sess_id cur_mono is_start user =
     \<lparr>sub_ht = Some [], user_id = user, ses_host_id = host, session_id = sess_id,
      ses_start_mono = (if is_start then cur_mono else 0), ses_ref_mono = cur_mono,
      ses_stop_mono = 0, ses_query_mono = 0,
      ses_state =
        (if cid \<noteq> 0 then RV_SESSION_CID
         else if is_start then RV_SESSION_RV5
         else if scan_daemon value then RV_SESSION_RV7 else RV_SESSION_QUERY),
      ses_cid = cid, has_daemon = scan_daemon value, ses_hash = hash, ses_value = value\<rparr>"

definition session_stop_entry :: "u32 \<Rightarrow> rv_session \<Rightarrow> rv_session" where
  "session_stop_entry cur_mono s =
     s\<lparr>ses_state := RV_SESSION_STOP, ses_stop_mono := cur_mono, sub_ht := None, user_id := None\<rparr>"

text \<open>
  \<open>add_subject\<close> and \<open>rem_subject\<close>: the new session, the new subscription and the result;
  \<open>None\<close> when the table is the null pointer.
\<close>

definition add_subject ::
  "rv_session \<Rightarrow> rv_subscription \<Rightarrow> (rv_session \<times> rv_subscription \<times> bool) option" where
  "add_subject s script =
     (case sub_ht s of
        None \<Rightarrow> None
      | Some t \<Rightarrow>
          Some (if map_of t (subject_id script) = None
                then (s\<lparr>sub_ht := Some (ht_set (subject_id script) (sub_hash script) t)\<rparr>,
                      script\<lparr>refcnt := refcnt script + 1,
                             ref7cnt := has_daemon s \<or> ref7cnt script\<rparr>, True)
                else (s, script, False)))"

definition rem_subject ::
  "rv_session \<Rightarrow> rv_subscription \<Rightarrow> (rv_session \<times> rv_subscription \<times> bool) option" where
  "rem_subject s script =
     (if refcnt script > 0
      then (case sub_ht s of
              None \<Rightarrow> None
            | Some t \<Rightarrow>
                Some (if map_of t (subject_id script) \<noteq> None
                      then (s\<lparr>sub_ht := Some (ht_remove (subject_id script) t)\<rparr>,
                            script\<lparr>refcnt := refcnt script - 1,
                                   ref7cnt := \<not> has_daemon s \<and> ref7cnt script\<rparr>, True)
                      else (s, script, False)))
      else Some (s, script, False))"

section \<open>Hosts\<close>

datatype host_state =
  RV_HOST_UNKNOWN | RV_HOST_CID | RV_HOST_START | RV_HOST_STATUS | RV_HOST_QUERY | RV_HOST_STOP

record rv_host =
  hst_sess_ht :: "uint_ht option"
  host_id :: u32
  hst_start_mono :: u32
  status_mono :: u32
  hst_ref_mono :: u32
  hst_stop_mono :: u32
  hst_query_mono :: u32
  hst_data_loss :: u32
  rv7_sess_id :: u32
  sub_count :: u32
  sub_digest :: u32
  hst_state :: host_state
  hst_cid :: u16

definition host_start_entry :: "u32 \<Rightarrow> u16 \<Rightarrow> u32 \<Rightarrow> bool \<Rightarrow> bool \<Rightarrow> rv_host" where
  "host_start_entry h cid cur_mono is_start is_status =
     \<lparr>hst_sess_ht = Some [], host_id = h, hst_start_mono = (if is_start then cur_mono else 0),
      status_mono = (if is_status then cur_mono else 0), hst_ref_mono = cur_mono,
      hst_stop_mono = 0, hst_query_mono = 0, hst_data_loss = 0, rv7_sess_id = 0,
      sub_count = 0, sub_digest = 0,
      hst_state = (if cid \<noteq> 0 then RV_HOST_CID
                   else if is_start then RV_HOST_START else RV_HOST_QUERY),
      hst_cid = cid\<rparr>"

definition host_stop_entry :: "u32 \<Rightarrow> rv_host \<Rightarrow> rv_host" where
  "host_stop_entry cur_mono h =
     h\<lparr>hst_stop_mono := cur_mono, hst_state := RV_HOST_STOP, hst_sess_ht := None\<rparr>"

definition check_query_needed :: "u32 \<Rightarrow> rv_host \<Rightarrow> u32 \<times> rv_host" where
  "check_query_needed cur_mono h =
     (if hst_state h \<in> {RV_HOST_QUERY, RV_HOST_CID, RV_HOST_STOP} then (0, h)
      else if cur_mono > hst_ref_mono h \<and> cur_mono - hst_ref_mono h > 100
      then (cur_mono - hst_ref_mono h, h\<lparr>hst_state := RV_HOST_QUERY\<rparr>)
      else (0, h))"

definition host_status_entry :: "u32 \<Rightarrow> rv_host \<Rightarrow> rv_host" where
  "host_status_entry cur_mono h0 =
     (let h = (snd (check_query_needed cur_mono h0))
                \<lparr>status_mono := cur_mono, hst_ref_mono := cur_mono\<rparr>
      in if hst_state h \<noteq> RV_HOST_QUERY \<and> hst_state h \<noteq> RV_HOST_CID
         then h\<lparr>hst_state := RV_HOST_STATUS\<rparr> else h)"

definition host_add_session :: "rv_host \<Rightarrow> rv_session \<Rightarrow> (rv_host \<times> bool) option" where
  "host_add_session h s =
     (case hst_sess_ht h of
        None \<Rightarrow> None
      | Some t \<Rightarrow>
          Some (if map_of t (session_id s) = None
                then (h\<lparr>hst_sess_ht := Some (ht_set (session_id s) (ses_hash s) t),
                        rv7_sess_id := (if has_daemon s then session_id s else rv7_sess_id h)\<rparr>,
                      True)
                else (h, False)))"

definition host_rem_session :: "rv_host \<Rightarrow> rv_session \<Rightarrow> (rv_host \<times> bool) option" where
  "host_rem_session h s =
     (case hst_sess_ht h of
        None \<Rightarrow> None
      | Some t \<Rightarrow>
          Some (if map_of t (session_id s) \<noteq> None
                then (h\<lparr>hst_sess_ht := Some (ht_remove (session_id s) t),
                        rv7_sess_id := (if has_daemon s then 0 else rv7_sess_id h)\<rparr>, True)
                else (h, False)))"

section \<open>SASS3 subscribers\<close>

record rv_sass3 =
  s3_subj_hash :: u32
  s3_subject_id :: u32
  s3_pid :: u32
  s3_user_id :: string
  s3_host :: string
  s3_app :: string
  s3_start_mono :: u32
  s3_ref_mono :: u32
  s3_in_tab :: bool

text \<open>
  An entry is linked into \<open>sass3_list\<close>; \<open>s3_in_tab\<close> says whether \<open>sass3_tab\<close> points to it as well.
\<close>

definition s3_equals :: "rv_sass3 \<Rightarrow> rv_sass3 \<Rightarrow> bool" where
  "s3_equals k e \<longleftrightarrow> s3_subj_hash k = s3_subj_hash e \<and> s3_subject_id k = s3_subject_id e \<and>
     s3_pid k = s3_pid e \<and> s3_user_id k = s3_user_id e \<and> s3_host k = s3_host e \<and>
     s3_app k = s3_app e"

definition s3_expired :: "u32 \<Rightarrow> rv_sass3 \<Rightarrow> bool" where
  "s3_expired cur_mono e \<longleftrightarrow> s3_ref_mono e + 480 < cur_mono"

end
