(* ===== verification/Sub_Db.thy ===== *)
theory Sub_Db
  imports Sub_Entries
begin

text \<open>
  The subscription database \<open>RvSubscriptionDB\<close> (\<open>include/sassrv/submgr.h\<close>, \<open>src/submgr.cpp\<close>):
  its state and the operations on hosts, sessions and subscriptions, up to the queries and the
  garbage collection. The messages that drive it are in \<open>Sub_Message\<close>.

  An operation returns an option: \<open>None\<close> is a run that does not come back or that leaves the
  defined behaviour of C++ (a null pointer, an array bound). A reference to an entry is the entry's
  key: the name of a session, the subject of a subscription, the index of a host. The tables
  \<open>session_tab\<close> and \<open>sub_tab\<close> are lists of entries, looked up by hash and value like \<open>RouteVec\<close>
  does. The calls of the listener and of the client are appended to \<open>out\<close>.
\<close>

section \<open>State\<close>

text \<open>
  What the database takes from outside: the libraries raikv (hashes, the order of a table) and
  raimd (reading messages, whose fields have the type \<open>'f\<close>; the SASS flags), and its client.
\<close>

record 'f sdb_env =
  kv_crc_c :: "string \<Rightarrow> u32 \<Rightarrow> u32"
  kv_hash_uint :: "u32 \<Rightarrow> u32"
  ht_order :: "uint_ht \<Rightarrow> uint_ht"
  hexchar2 :: "u32 \<Rightarrow> char"
  uint32_to_string :: "u32 \<Rightarrow> string"
  string_to_uint64 :: "string \<Rightarrow> u64"
  unpack :: "u32 \<Rightarrow> string \<Rightarrow> (string \<times> 'f) list option"
  rd_find :: "(string \<times> 'f) list \<Rightarrow> string \<Rightarrow> 'f option"
  nm_equals :: "string \<Rightarrow> string \<Rightarrow> bool"
  rd_string :: "'f \<Rightarrow> string option"
  rd_u32 :: "'f \<Rightarrow> u32 option"
  rd_u16 :: "'f \<Rightarrow> u16 option"
  rd_msg :: "'f \<Rightarrow> (string \<times> 'f) list option"
  rd_is_msg :: "'f \<Rightarrow> bool"
  qf_unsubscribe :: u16
  qf_snapshot :: u16
  qf_resubscribe :: u16
  qf_refresh :: u16
  cl_ipaddr :: u32
  cl_cid :: u16
  cl_session :: string
  cl_control :: string
  has_cb :: bool

datatype sdb_out =
  OnListenStart string string string bool bool "31 word"
| OnListenStop string string bool bool bool "31 word"
| OnSnapshot string "string option" string u16
| OnSass3 rv_sass3 string string u16 bool bool
| OnTicReply string "string option" string
| Subscribe string
| Unsubscribe string
| Publish string string string "string option"

record gc_counters =
  active :: u32
  removed :: u32

definition gc_reset :: gc_counters where
  "gc_reset = \<lparr>active = 0, removed = 0\<rparr>"

record sdb =
  host_ht :: "(u32 \<Rightarrow> nat option) option"
  sess_ht :: "(u32 \<Rightarrow> u32 option) option"
  host_tab :: "rv_host list"
  session_tab :: "rv_session list"
  sub_tab :: "rv_subscription list"
  filters :: "string list"
  sass3_list :: "rv_sass3 list"
  cur_mono :: u32
  next_session_ctr :: u32
  next_subject_ctr :: u32
  soft_host_query :: nat
  first_free_host :: nat
  subscriptions :: gc_counters
  sessions :: gc_counters
  hosts :: gc_counters
  next_gc :: u32
  host_inbox_base :: u32
  session_inbox_base :: u32
  is_subscribed :: bool
  is_all_subscribed :: bool
  is_sass2 :: bool
  is_sass3 :: bool
  is_tic :: bool
  out :: "sdb_out list"

text \<open>The constructor leaves \<open>is_tic\<close> unset: it is an argument.\<close>

definition sdb_new :: "bool \<Rightarrow> sdb" where
  "sdb_new tic0 =
     \<lparr>host_ht = None, sess_ht = None, host_tab = [], session_tab = [], sub_tab = [], filters = [],
      sass3_list = [], cur_mono = 0, next_session_ctr = 0, next_subject_ctr = 0,
      soft_host_query = 0, first_free_host = 0, subscriptions = gc_reset, sessions = gc_reset,
      hosts = gc_reset, next_gc = 0, host_inbox_base = 1000000, session_inbox_base = 1000,
      is_subscribed = False, is_all_subscribed = False, is_sass2 = False, is_sass3 = False,
      is_tic = tic0, out = []\<rparr>"

text \<open>\<open>release\<close> resets the counters of subscriptions twice and never those of hosts.\<close>

definition release :: "sdb \<Rightarrow> sdb" where
  "release db =
     db\<lparr>sass3_list := [], host_tab := [], session_tab := [], sub_tab := [], filters := [],
        cur_mono := 0, next_session_ctr := 0, next_subject_ctr := 0, soft_host_query := 0,
        first_free_host := 0, next_gc := 0, host_ht := None, sess_ht := None,
        is_subscribed := False, is_all_subscribed := False, is_sass2 := False,
        is_sass3 := False, subscriptions := gc_reset, sessions := gc_reset\<rparr>"

definition emit :: "sdb_out \<Rightarrow> sdb \<Rightarrow> sdb" where
  "emit x db = db\<lparr>out := out db @ [x]\<rparr>"

definition emit_cb :: "'f sdb_env \<Rightarrow> sdb_out \<Rightarrow> sdb \<Rightarrow> sdb" where
  "emit_cb E x db = (if has_cb E then emit x db else db)"

section \<open>Table access\<close>

definition find_session :: "u32 \<Rightarrow> string \<Rightarrow> sdb \<Rightarrow> rv_session option" where
  "find_session h nm db = find (\<lambda>s. ses_hash s = h \<and> ses_value s = nm) (session_tab db)"

definition find_sub :: "u32 \<Rightarrow> string \<Rightarrow> sdb \<Rightarrow> rv_subscription option" where
  "find_sub h v db = find (\<lambda>s. sub_hash s = h \<and> sub_value s = v) (sub_tab db)"

text \<open>Assignments through a reference to an entry.\<close>

definition upd_session :: "string \<Rightarrow> (rv_session \<Rightarrow> rv_session) \<Rightarrow> sdb \<Rightarrow> sdb" where
  "upd_session nm f db =
     db\<lparr>session_tab := map (\<lambda>s. if ses_value s = nm then f s else s) (session_tab db)\<rparr>"

definition upd_sub :: "string \<Rightarrow> (rv_subscription \<Rightarrow> rv_subscription) \<Rightarrow> sdb \<Rightarrow> sdb" where
  "upd_sub v f db = db\<lparr>sub_tab := map (\<lambda>s. if sub_value s = v then f s else s) (sub_tab db)\<rparr>"

text \<open>The count of a subscription, which the calls of the listener read.\<close>

definition sub_refs :: "string \<Rightarrow> sdb \<Rightarrow> 31 word" where
  "sub_refs v db = (case find (\<lambda>s. sub_value s = v) (sub_tab db) of Some s \<Rightarrow> refcnt s | None \<Rightarrow> 0)"

definition upd_host :: "nat \<Rightarrow> (rv_host \<Rightarrow> rv_host) \<Rightarrow> sdb \<Rightarrow> sdb" where
  "upd_host i f db =
     (if i < length (host_tab db) then db\<lparr>host_tab := (host_tab db)[i := f (host_tab db ! i)]\<rparr>
      else db)"

text \<open>The chains of entries with one hash (\<open>find_by_hash\<close>, \<open>find_next_by_hash\<close>).\<close>

definition get_session_by :: "u32 \<Rightarrow> u32 \<Rightarrow> sdb \<Rightarrow> rv_session option" where
  "get_session_by sess_id h db =
     find (\<lambda>s. session_id s = sess_id) (filter (\<lambda>s. ses_hash s = h) (session_tab db))"

definition get_session_id :: "u32 \<Rightarrow> sdb \<Rightarrow> rv_session option option" where
  "get_session_id sess_id db =
     (case sess_ht db of
        None \<Rightarrow> None
      | Some t \<Rightarrow>
          Some (case t sess_id of None \<Rightarrow> None | Some h \<Rightarrow> get_session_by sess_id h db))"

definition get_subject :: "u32 \<Rightarrow> u32 \<Rightarrow> sdb \<Rightarrow> rv_subscription option" where
  "get_subject ident h db =
     find (\<lambda>s. subject_id s = ident) (filter (\<lambda>s. sub_hash s = h) (sub_tab db))"

definition host_lookup :: "'f sdb_env \<Rightarrow> u32 \<Rightarrow> u16 \<Rightarrow> sdb \<Rightarrow> nat option option" where
  "host_lookup E h cid db =
     (case host_ht db of
        None \<Rightarrow> None
      | Some t \<Rightarrow> Some (t (hash_host_id (kv_hash_uint E) h cid)))"

definition find_host :: "'f sdb_env \<Rightarrow> u32 \<Rightarrow> u16 \<Rightarrow> sdb \<Rightarrow> nat option" where
  "find_host E h cid db =
     (case host_lookup E h cid db of
        Some (Some i) \<Rightarrow> if i < length (host_tab db) then Some i else None
      | _ \<Rightarrow> None)"

definition next_session_id :: "sdb \<Rightarrow> u32 \<times> sdb" where
  "next_session_id db =
     (next_session_ctr db + 1, db\<lparr>next_session_ctr := next_session_ctr db + 1\<rparr>)"

definition next_subject_id :: "'f sdb_env \<Rightarrow> sdb \<Rightarrow> u32 \<times> sdb" where
  "next_subject_id E db =
     (kv_hash_uint E (next_subject_ctr db + 1), db\<lparr>next_subject_ctr := next_subject_ctr db + 1\<rparr>)"

section \<open>Filters\<close>

text \<open>
  The suffix is \<open>.>\<close> for every wildcard that does not end in \<open>>\<close>, the empty one and the null
  pointer included.
\<close>

definition add_wildcard :: "string option \<Rightarrow> sdb \<Rightarrow> sdb" where
  "add_wildcard wildcard db =
     (let w = (case wildcard of None \<Rightarrow> [] | Some s \<Rightarrow> s)
      in db\<lparr>filters := filters db @ [if w = [] \<or> last w \<noteq> gtc then w @ ''.>'' else w]\<rparr>)"

definition is_matched :: "string \<Rightarrow> sdb \<Rightarrow> bool" where
  "is_matched sub db \<longleftrightarrow> filters db = [] \<or> (\<exists>f\<in>set (filters db). match_rv_wildcard f sub)"

text \<open>The subject that \<open>do_wild_subscription\<close> builds for a filter and a kind of advisory.\<close>

definition wild_subject :: "string \<Rightarrow> string \<times> sub_kind \<Rightarrow> string" where
  "wild_subject f m =
     butlast (fst m) @
     (if snd m = IS_SASS
      then (if length f > 2 \<and> last f = gtc then take (length f - 2) f else f) @ ''.SUB''
      else f)"

definition do_wild_subscription :: "string \<Rightarrow> bool \<Rightarrow> string \<times> sub_kind \<Rightarrow> sdb \<Rightarrow> sdb" where
  "do_wild_subscription f is_sub m db =
     emit (if is_sub then Subscribe (wild_subject f m) else Unsubscribe (wild_subject f m)) db"

definition do_subscription :: "bool \<Rightarrow> string \<times> sub_kind \<Rightarrow> sdb \<Rightarrow> sdb" where
  "do_subscription is_sub m db =
     (let wilds = (\<lambda>db. fold (\<lambda>f. do_wild_subscription f is_sub m) (filters db) db);
          db1 = (if is_sass3 db \<and> snd m = IS_SASS
                 then if is_all_subscribed db then do_wild_subscription ''*'' is_sub m db
                      else wilds db
                 else db);
          db2 = (if is_tic db1 \<and> snd m = IS_TIC_REPLY
                 then do_wild_subscription ''>'' is_sub m db1 else db1)
      in if is_sass2 db2 \<and> snd m \<noteq> IS_SASS \<and> snd m \<noteq> IS_TIC_REPLY
         then if \<not> is_all_subscribed db2 \<and> snd m \<in> {IS_LISTEN_START, IS_LISTEN_STOP, IS_SNAP}
              then wilds db2
              else emit (if is_sub then Subscribe (fst m) else Unsubscribe (fst m)) db2
         else db2)"

definition do_subscriptions :: "bool \<Rightarrow> sdb \<Rightarrow> sdb" where
  "do_subscriptions is_sub db = fold (do_subscription is_sub) rv_info_sub db"

definition stop_subscriptions :: "sdb \<Rightarrow> sdb" where
  "stop_subscriptions db =
     (if \<not> is_subscribed db then db
      else do_subscriptions False (db\<lparr>is_subscribed := False\<rparr>))"

section \<open>Hosts\<close>

text \<open>
  The loop of \<open>host_ref\<close> that waits for a free slot: it changes nothing, so it ends at once or
  never.
\<close>

definition slot_free :: "sdb \<Rightarrow> bool" where
  "slot_free db \<longleftrightarrow> first_free_host db = length (host_tab db) \<or>
     (first_free_host db < length (host_tab db) \<and>
      hst_state (host_tab db ! first_free_host db) = RV_HOST_STOP)"

partial_function (option) wait_free :: "sdb \<Rightarrow> nat option" where
  "wait_free db = (if slot_free db then Some (first_free_host db) else wait_free db)"

text \<open>\<open>host_ref\<close> and \<open>host_start\<close> store into a slot of the table or push a new one.\<close>

definition put_host :: "nat \<Rightarrow> rv_host \<Rightarrow> sdb \<Rightarrow> sdb" where
  "put_host i h db =
     db\<lparr>host_tab := (if i < length (host_tab db) then (host_tab db)[i := h]
                     else host_tab db @ [h])\<rparr>"

definition set_host_ht :: "'f sdb_env \<Rightarrow> u32 \<Rightarrow> u16 \<Rightarrow> nat \<Rightarrow> sdb \<Rightarrow> sdb" where
  "set_host_ht E h cid i db =
     db\<lparr>host_ht := map_option (\<lambda>t. t(hash_host_id (kv_hash_uint E) h cid \<mapsto> i)) (host_ht db)\<rparr>"

definition hosts_active_inc :: "sdb \<Rightarrow> sdb" where
  "hosts_active_inc db = db\<lparr>hosts := (hosts db)\<lparr>active := active (hosts db) + 1\<rparr>\<rparr>"

definition host_ref :: "'f sdb_env \<Rightarrow> u32 \<Rightarrow> u16 \<Rightarrow> bool \<Rightarrow> sdb \<Rightarrow> (nat \<times> sdb) option" where
  "host_ref E h cid is_status db = do {
     found \<leftarrow> host_lookup E h cid db;
     (case found of
        None \<Rightarrow> do {
          i \<leftarrow> wait_free db;
          Some (i, put_host i (host_start_entry h cid (cur_mono db) False is_status)
                     (set_host_ht E h cid i (hosts_active_inc (db\<lparr>first_free_host := i + 1\<rparr>))))
        }
      | Some i \<Rightarrow> do {
          host \<leftarrow> nth_opt (host_tab db) i;
          Some (i,
            if hst_state host = RV_HOST_STOP
            then upd_host i (\<lambda>_. host_start_entry h cid (cur_mono db) False is_status)
                   (hosts_active_inc db)
            else if is_status then upd_host i (host_status_entry (cur_mono db)) db
            else upd_host i (\<lambda>x. x\<lparr>hst_ref_mono := cur_mono db\<rparr>) db)
        })
   }"

definition host_start :: "'f sdb_env \<Rightarrow> u32 \<Rightarrow> u16 \<Rightarrow> sdb \<Rightarrow> sdb option" where
  "host_start E h cid db = do {
     found \<leftarrow> host_lookup E h cid db;
     (case found of
        None \<Rightarrow>
          let i = length (host_tab db)
          in Some (put_host i (host_start_entry h cid (cur_mono db) True False)
                     (set_host_ht E h cid i db))
      | Some i \<Rightarrow> do {
          host \<leftarrow> nth_opt (host_tab db) i;
          let new = host_start_entry h cid (cur_mono db) True False;
          Some (upd_host i
                  (\<lambda>_. if hst_state host \<noteq> RV_HOST_STOP then new\<lparr>hst_state := RV_HOST_QUERY\<rparr>
                       else new) db)
        })
   }"

definition host_exists :: "'f sdb_env \<Rightarrow> u32 \<Rightarrow> u16 \<Rightarrow> sdb \<Rightarrow> nat option option" where
  "host_exists E h cid db = do {
     found \<leftarrow> host_lookup E h cid db;
     (case found of
        None \<Rightarrow> Some None
      | Some i \<Rightarrow> do {
          host \<leftarrow> nth_opt (host_tab db) i;
          Some (if hst_state host \<in> {RV_HOST_START, RV_HOST_STATUS, RV_HOST_QUERY} then Some i
                else None)
        })
   }"

text \<open>
  \<open>host_digest\<close>: the count and the exclusive or of the hashes of the pairs (session, subject) that
  a host holds. Subjects that start with an underscore are left out.
\<close>

definition pair_hash :: "'f sdb_env \<Rightarrow> string \<Rightarrow> string \<Rightarrow> u32" where
  "pair_hash E sess sub =
     (let s = (if sess \<noteq> [] \<and> last sess = CHR 0x00 then butlast sess else sess)
      in kv_crc_c E sub (kv_crc_c E s 0))"

definition host_digest :: "'f sdb_env \<Rightarrow> rv_session \<Rightarrow> string \<Rightarrow> bool \<Rightarrow> sdb \<Rightarrow> sdb" where
  "host_digest E sess sub is_add db =
     (if sub = [] \<or> hd sub = CHR ''_'' then db
      else case find_host E (ses_host_id sess) (ses_cid sess) db of
        None \<Rightarrow> db
      | Some i \<Rightarrow>
          upd_host i
            (\<lambda>h. h\<lparr>sub_count := (if is_add then sub_count h + 1
                                 else if sub_count h > 0 then sub_count h - 1 else sub_count h),
                   sub_digest := sub_digest h XOR pair_hash E (ses_value sess) sub\<rparr>) db)"

section \<open>Subscriptions\<close>

definition is_wild :: "string \<Rightarrow> bool" where
  "is_wild sub \<longleftrightarrow> is_rv_wildcard sub \<noteq> None"

definition sub_hash_count :: "string \<Rightarrow> u32 \<Rightarrow> sdb \<Rightarrow> nat" where
  "sub_hash_count sub h db =
     length (filter (\<lambda>s. sub_hash s = h \<and> refcnt s \<noteq> 0 \<and> is_wild (sub_value s) = is_wild sub)
               (sub_tab db))"

text \<open>\<open>get_rv7_session\<close> returns the daemon's own session of a host.\<close>

definition get_rv7_session :: "'f sdb_env \<Rightarrow> u32 \<Rightarrow> sdb \<Rightarrow> rv_session option option" where
  "get_rv7_session E h db = do {
     found \<leftarrow> host_lookup E h 0 db;
     (case found of
        None \<Rightarrow> Some None
      | Some i \<Rightarrow> do {
          host \<leftarrow> nth_opt (host_tab db) i;
          if rv7_sess_id host \<noteq> 0
          then do {
            r \<leftarrow> get_session_id (rv7_sess_id host) db;
            Some (case r of None \<Rightarrow> None | Some s \<Rightarrow> if has_daemon s then Some s else None)
          }
          else Some None
        })
   }"

definition set_query :: "rv_session \<Rightarrow> rv_session" where
  "set_query s =
     (if ses_state s \<noteq> RV_SESSION_SELF \<and> ses_state s \<noteq> RV_SESSION_CID
      then s\<lparr>ses_state := RV_SESSION_QUERY\<rparr> else s)"

definition query_rv7_session :: "'f sdb_env \<Rightarrow> u32 \<Rightarrow> sdb \<Rightarrow> sdb option" where
  "query_rv7_session E h db = do {
     r \<leftarrow> get_rv7_session E h db;
     Some (case r of None \<Rightarrow> db | Some s \<Rightarrow> upd_session (ses_value s) set_query db)
   }"

definition sub_removed :: "sdb \<Rightarrow> sdb" where
  "sub_removed db =
     db\<lparr>subscriptions := \<lparr>active = active (subscriptions db) - 1,
                          removed = removed (subscriptions db) + 1\<rparr>\<rparr>"

text \<open>The common tail of a dropped reference: the counters, the collision and the rv7 query.\<close>

definition sub_dropped :: "'f sdb_env \<Rightarrow> u32 \<Rightarrow> rv_subscription \<Rightarrow> sdb \<Rightarrow> (bool \<times> sdb) option" where
  "sub_dropped E h script db =
     (if refcnt script = 0
      then Some (sub_hash_count (sub_value script) (sub_hash script) db > 0, sub_removed db)
      else if ref7cnt script \<and> refcnt script = 1
      then do { db' \<leftarrow> query_rv7_session E h db; Some (False, db') }
      else Some (False, db))"

definition get_subscription :: "'f sdb_env \<Rightarrow> string \<Rightarrow> sdb \<Rightarrow> rv_subscription \<times> sdb" where
  "get_subscription E sub db =
     (case find_sub (kv_crc_c E sub 0) sub db of
        Some s \<Rightarrow> (s, db)
      | None \<Rightarrow>
          let (ident, db1) = next_subject_id E db;
              s = sub_start sub (kv_crc_c E sub 0) ident (cur_mono db)
          in (s, db1\<lparr>sub_tab := sub_tab db1 @ [s]\<rparr>))"

text \<open>
  \<open>listen_ref\<close> (\<open>listen_start\<close> logs and calls it): the subject is stripped of a final zero byte.
  The result is the subject's key, whether it was added and whether its hash collides.
\<close>

definition strip_nul :: "string \<Rightarrow> string" where
  "strip_nul sub = (if sub \<noteq> [] \<and> last sub = CHR 0x00 then butlast sub else sub)"

definition touch_sub :: "'f sdb_env \<Rightarrow> string \<Rightarrow> sdb \<Rightarrow> rv_subscription \<times> sdb" where
  "touch_sub E sub db =
     (let (s, db1) = get_subscription E sub db;
          s1 = s\<lparr>sub_ref_mono := cur_mono db\<rparr>
      in (s1, upd_sub sub (\<lambda>_. s1) db1))"

definition listen_ref ::
  "'f sdb_env \<Rightarrow> string \<Rightarrow> string \<Rightarrow> sdb \<Rightarrow> (string \<times> bool \<times> bool \<times> sdb) option" where
  "listen_ref E nm sub0 db = do {
     let sub = strip_nul sub0;
     let (script, db1) = touch_sub E sub db;
     session \<leftarrow> find_session (kv_crc_c E nm 0) nm db1;
     (session', script', is_added) \<leftarrow> add_subject session script;
     let db2 = upd_session nm (\<lambda>_. session') (upd_sub sub (\<lambda>_. script') db1);
     let db3 = (if is_added then host_digest E session' sub True db2 else db2);
     Some (if is_added \<and> refcnt script' = 1
           then let db4 = db3\<lparr>subscriptions :=
                        (subscriptions db3)\<lparr>active := active (subscriptions db3) + 1\<rparr>\<rparr>
                in (sub, is_added, sub_hash_count sub (kv_crc_c E sub 0) db4 > 1, db4)
           else (sub, is_added, False, db3))
   }"

definition deref_subscription ::
  "'f sdb_env \<Rightarrow> rv_session \<Rightarrow> rv_subscription \<Rightarrow> sdb \<Rightarrow> (bool \<times> bool \<times> sdb) option" where
  "deref_subscription E session script db = do {
     (session', script', is_removed) \<leftarrow> rem_subject session script;
     if \<not> is_removed then Some (False, False, db)
     else do {
       let db1 = upd_session (ses_value session) (\<lambda>_. session')
                   (upd_sub (sub_value script) (\<lambda>_. script') db);
       let db2 = host_digest E session' (sub_value script) False db1;
       (coll, db3) \<leftarrow> sub_dropped E (ses_host_id session) script' db2;
       Some (True, coll, db3)
     }
   }"

text \<open>The result is the subject, whether it was an orphan, the collision flag and the state.\<close>

definition listen_stop ::
  "'f sdb_env \<Rightarrow> string \<Rightarrow> string \<Rightarrow> sdb \<Rightarrow> (bool \<times> bool \<times> sdb) option" where
  "listen_stop E nm sub db = do {
     session \<leftarrow> find_session (kv_crc_c E nm 0) nm db;
     (is_orphan, coll, db1) \<leftarrow>
       (case find_sub (kv_crc_c E sub 0) sub db of
          Some script \<Rightarrow> do {
            (ok, coll, db1) \<leftarrow> deref_subscription E session script db;
            Some (\<not> ok, coll, db1)
          }
        | None \<Rightarrow> Some (True, False, snd (get_subscription E sub db)));
     Some (is_orphan, coll, if is_orphan then upd_session nm set_query db1 else db1)
   }"

section \<open>Sessions\<close>

text \<open>
  The loop of \<open>unsub_session\<close> over the visited part of the session's table; it ends at an entry
  that \<open>get_subject\<close> does not find.
\<close>

fun unsub_subjects :: "'f sdb_env \<Rightarrow> rv_session \<Rightarrow> uint_ht \<Rightarrow> sdb \<Rightarrow> sdb option" where
  "unsub_subjects E sess [] db = Some db"
| "unsub_subjects E sess ((ident, h) # t) db =
     (case get_subject ident h db of
        None \<Rightarrow> Some db
      | Some sub \<Rightarrow> do {
          let sub' = sub\<lparr>ref7cnt := \<not> has_daemon sess \<and> ref7cnt sub, refcnt := refcnt sub - 1\<rparr>;
          let db1 = host_digest E sess (sub_value sub) False (upd_sub (sub_value sub) (\<lambda>_. sub') db);
          (coll, db2) \<leftarrow> sub_dropped E (ses_host_id sess) sub' db1;
          unsub_subjects E sess t
            (emit_cb E (OnListenStop (ses_value sess) (sub_value sub) False False coll
               (sub_refs (sub_value sub) db2)) db2)
        })"

definition ht_visit :: "'f sdb_env \<Rightarrow> uint_ht option \<Rightarrow> uint_ht" where
  "ht_visit E t = (case t of None \<Rightarrow> [] | Some t \<Rightarrow> ht_order E t)"

definition unsub_session :: "'f sdb_env \<Rightarrow> rv_session \<Rightarrow> sdb \<Rightarrow> sdb option" where
  "unsub_session E sess db = do {
     db1 \<leftarrow> unsub_subjects E sess (ht_visit E (sub_ht sess)) db;
     t \<leftarrow> sess_ht db1;
     Some (upd_session (ses_value sess) (session_stop_entry (cur_mono db1))
             (db1\<lparr>sess_ht := Some (t(session_id sess := None))\<rparr>))
   }"

definition add_session :: "nat \<Rightarrow> rv_session \<Rightarrow> sdb \<Rightarrow> sdb option" where
  "add_session i sess db = do {
     host \<leftarrow> nth_opt (host_tab db) i;
     (host', is_added) \<leftarrow> host_add_session host sess;
     if is_added
     then do {
       t \<leftarrow> sess_ht db;
       Some ((upd_host i (\<lambda>_. host') db)
               \<lparr>sess_ht := Some (t(session_id sess \<mapsto> ses_hash sess)),
                sessions := (sessions db)\<lparr>active := active (sessions db) + 1\<rparr>\<rparr>)
     }
     else Some db
   }"

definition rem_session :: "'f sdb_env \<Rightarrow> nat \<Rightarrow> rv_session \<Rightarrow> sdb \<Rightarrow> sdb option" where
  "rem_session E i sess db = do {
     db1 \<leftarrow> unsub_session E sess db;
     host \<leftarrow> nth_opt (host_tab db1) i;
     (host', is_removed) \<leftarrow> host_rem_session host sess;
     Some (if is_removed
           then (upd_host i (\<lambda>_. host') db1)
                  \<lparr>sessions := \<lparr>active = active (sessions db1) - 1,
                                removed = removed (sessions db1) + 1\<rparr>\<rparr>
           else db1)
   }"

text \<open>\<open>upsert\<close> of the session table followed by \<open>start\<close>, which sets every other field.\<close>

definition put_session :: "rv_session \<Rightarrow> sdb \<Rightarrow> sdb" where
  "put_session s db =
     (if ses_value s \<in> set (map ses_value (session_tab db)) then upd_session (ses_value s) (\<lambda>_. s) db
      else db\<lparr>session_tab := session_tab db @ [s]\<rparr>)"

text \<open>A session that is started without a stop is removed first.\<close>

definition session_clear :: "'f sdb_env \<Rightarrow> nat \<Rightarrow> string \<Rightarrow> sdb \<Rightarrow> (bool \<times> sdb) option" where
  "session_clear E i nm db =
     (case find_session (kv_crc_c E nm 0) nm db of
        None \<Rightarrow> Some (False, db)
      | Some entry \<Rightarrow>
          if ses_state entry \<noteq> RV_SESSION_STOP
          then map_option (Pair True) (rem_session E i entry db)
          else Some (False, db))"

definition session_start ::
  "'f sdb_env \<Rightarrow> u32 \<Rightarrow> u16 \<Rightarrow> string \<Rightarrow> bool \<Rightarrow> string option \<Rightarrow> sdb \<Rightarrow> sdb option" where
  "session_start E h cid nm is_self u db = do {
     found \<leftarrow> host_exists E h cid db;
     (case found of
        None \<Rightarrow> Some db
      | Some i \<Rightarrow> do {
          (restart, db1) \<leftarrow> session_clear E i nm db;
          let (sess_id, db2) = next_session_id db1;
          let entry = session_start_entry nm (kv_crc_c E nm 0) h cid sess_id (cur_mono db2) True u;
          let entry = (if restart \<and> ses_state entry \<noteq> RV_SESSION_CID
                       then entry\<lparr>ses_state := RV_SESSION_QUERY\<rparr> else entry);
          db3 \<leftarrow> add_session i entry (put_session entry db2);
          Some (if is_self then upd_session nm (\<lambda>s. s\<lparr>ses_state := RV_SESSION_SELF\<rparr>) db3
                else db3)
        })
   }"

definition session_stop :: "'f sdb_env \<Rightarrow> string \<Rightarrow> sdb \<Rightarrow> sdb option" where
  "session_stop E nm db =
     (case find_session (kv_crc_c E nm 0) nm db of
        None \<Rightarrow> Some db
      | Some entry \<Rightarrow> do {
          found \<leftarrow> host_exists E (ses_host_id entry) (ses_cid entry) db;
          (case found of
             None \<Rightarrow> Some db
           | Some i \<Rightarrow> rem_session E i entry db)
        })"

text \<open>
  \<open>session_ref\<close> returns the session of a name. Its host id is read from the name only when the
  session is new or stopped.
\<close>

definition session_ref_new ::
  "'f sdb_env \<Rightarrow> u16 \<Rightarrow> string \<Rightarrow> u32 \<Rightarrow> sdb \<Rightarrow> (rv_session \<times> sdb) option" where
  "session_ref_new E cid nm hash db = do {
     h \<leftarrow> string_to_host_id nm;
     (i, db1) \<leftarrow> host_ref E h cid False db;
     let (sess_id, db2) = next_session_id db1;
     let entry = session_start_entry nm hash h cid sess_id (cur_mono db2) False None;
     db3 \<leftarrow> add_session i entry (put_session entry db2);
     Some (entry, db3)
   }"

definition session_ref :: "'f sdb_env \<Rightarrow> u16 \<Rightarrow> string \<Rightarrow> sdb \<Rightarrow> (rv_session \<times> sdb) option" where
  "session_ref E cid0 nm db = do {
     let cid = session_cid cid0 nm;
     let hash = kv_crc_c E nm 0;
     (case find_session hash nm db of
        Some entry \<Rightarrow>
          if ses_state entry \<noteq> RV_SESSION_STOP
          then Some (entry\<lparr>ses_ref_mono := cur_mono db\<rparr>,
                     upd_session nm (\<lambda>s. s\<lparr>ses_ref_mono := cur_mono db\<rparr>) db)
          else session_ref_new E cid nm hash db
      | None \<Rightarrow> session_ref_new E cid nm hash db)
   }"

section \<open>Stopping hosts\<close>

fun unsub_sessions :: "'f sdb_env \<Rightarrow> uint_ht \<Rightarrow> sdb \<Rightarrow> sdb option" where
  "unsub_sessions E [] db = Some db"
| "unsub_sessions E ((ident, h) # t) db =
     (case get_session_by ident h db of
        None \<Rightarrow> Some db
      | Some entry \<Rightarrow> do { db1 \<leftarrow> unsub_session E entry db; unsub_sessions E t db1 })"

definition unsub_host :: "'f sdb_env \<Rightarrow> nat \<Rightarrow> sdb \<Rightarrow> sdb option" where
  "unsub_host E i db = do {
     host \<leftarrow> nth_opt (host_tab db) i;
     db1 \<leftarrow> unsub_sessions E (ht_visit E (hst_sess_ht host)) db;
     Some ((upd_host i (host_stop_entry (cur_mono db1)) db1)
             \<lparr>hosts := \<lparr>active = active (hosts db1) - 1, removed = removed (hosts db1) + 1\<rparr>\<rparr>)
   }"

definition host_stop :: "'f sdb_env \<Rightarrow> u32 \<Rightarrow> u16 \<Rightarrow> sdb \<Rightarrow> sdb option" where
  "host_stop E h cid db = do {
     found \<leftarrow> host_lookup E h cid db;
     (case found of None \<Rightarrow> Some db | Some i \<Rightarrow> unsub_host E i db)
   }"

fun unsub_all_from :: "'f sdb_env \<Rightarrow> nat list \<Rightarrow> sdb \<Rightarrow> sdb option" where
  "unsub_all_from E [] db = Some db"
| "unsub_all_from E (i # is) db = do {
     host \<leftarrow> nth_opt (host_tab db) i;
     db1 \<leftarrow> (if hst_state host = RV_HOST_STOP then Some db else unsub_host E i db);
     unsub_all_from E is db1
   }"

definition unsub_all :: "'f sdb_env \<Rightarrow> sdb \<Rightarrow> sdb option" where
  "unsub_all E db = unsub_all_from E [0..<length (host_tab db)] db"

section \<open>Garbage collection\<close>

definition gc :: "sdb \<Rightarrow> sdb" where
  "gc db =
     (let db1 = (if removed (subscriptions db) > active (subscriptions db)
                 then db\<lparr>subscriptions := (subscriptions db)\<lparr>removed := 0\<rparr>,
                         sub_tab := filter (\<lambda>s. refcnt s \<noteq> 0) (sub_tab db)\<rparr>
                 else db);
          db2 = (if removed (sessions db1) > active (sessions db1)
                 then db1\<lparr>sessions := (sessions db1)\<lparr>removed := 0\<rparr>,
                          session_tab := filter (\<lambda>s. ses_state s \<noteq> RV_SESSION_STOP)
                                           (session_tab db1)\<rparr>
                 else db1)
      in if removed (hosts db2) > active (hosts db2) \<and>
            first_free_host db2 = length (host_tab db2)
         then db2\<lparr>hosts := (hosts db2)\<lparr>removed := 0\<rparr>,
                  first_free_host :=
                    (case find (\<lambda>i. hst_state (host_tab db2 ! i) = RV_HOST_STOP)
                            [0..<length (host_tab db2)] of
                       None \<Rightarrow> first_free_host db2
                     | Some i \<Rightarrow> i)\<rparr>
         else db2)"

section \<open>Marking\<close>

fun mark_session_list :: "u32 \<Rightarrow> uint_ht \<Rightarrow> sdb \<Rightarrow> sdb" where
  "mark_session_list q [] db = db"
| "mark_session_list q ((ident, h) # t) db =
     (case get_session_by ident h db of
        None \<Rightarrow> db
      | Some s \<Rightarrow>
          mark_session_list q t
            (upd_session (ses_value s)
               (\<lambda>s. if ses_ref_mono s < q then s\<lparr>ses_ref_mono := 0\<rparr> else s) db))"

definition mark_sessions :: "'f sdb_env \<Rightarrow> nat \<Rightarrow> sdb \<Rightarrow> sdb option" where
  "mark_sessions E i db = do {
     host \<leftarrow> nth_opt (host_tab db) i;
     Some (mark_session_list (hst_query_mono host) (ht_visit E (hst_sess_ht host)) db)
   }"

text \<open>
  One pass of \<open>stop_marked_sessions\<close> over the table: the marked sessions are stored into arrays of
  256 elements, the others are queried. \<open>None\<close> is a store behind the end of the arrays.
\<close>

fun scan_marked_sessions :: "uint_ht \<Rightarrow> uint_ht \<Rightarrow> sdb \<Rightarrow> (uint_ht \<times> sdb) option" where
  "scan_marked_sessions [] acc db = Some (acc, db)"
| "scan_marked_sessions ((ident, h) # t) acc db =
     (case get_session_by ident h db of
        None \<Rightarrow> Some (acc, db)
      | Some s \<Rightarrow>
          if ses_ref_mono s = 0
          then if length acc \<ge> 256 then None
               else let acc1 = acc @ [(session_id s, ses_hash s)]
                    in if length acc1 = 256 then Some (acc1, db)
                       else scan_marked_sessions t acc1 db
          else scan_marked_sessions t acc (upd_session (ses_value s) set_query db))"

fun rem_sessions :: "'f sdb_env \<Rightarrow> nat \<Rightarrow> uint_ht \<Rightarrow> sdb \<Rightarrow> sdb option" where
  "rem_sessions E i [] db = Some db"
| "rem_sessions E i ((ident, h) # t) db = do {
     s \<leftarrow> get_session_by ident h db;
     db1 \<leftarrow> rem_session E i s db;
     rem_sessions E i t db1
   }"

text \<open>The outer loop does not reset the arrays' fill before the next pass.\<close>

partial_function (option) stop_marked_loop :: "'f sdb_env \<Rightarrow> nat \<Rightarrow> uint_ht \<Rightarrow> sdb \<Rightarrow> sdb option" where
  "stop_marked_loop E i acc db =
     Option.bind (nth_opt (host_tab db) i) (\<lambda>host.
     Option.bind (scan_marked_sessions (ht_visit E (hst_sess_ht host)) acc db) (\<lambda>(acc1, db1).
     Option.bind (rem_sessions E i acc1 db1) (\<lambda>db2.
     if length acc1 < 256 then Some db2 else stop_marked_loop E i acc1 db2)))"

definition stop_marked_sessions :: "'f sdb_env \<Rightarrow> nat \<Rightarrow> sdb \<Rightarrow> sdb option" where
  "stop_marked_sessions E i db = stop_marked_loop E i [] db"

fun mark_sub_list :: "u32 \<Rightarrow> uint_ht \<Rightarrow> sdb \<Rightarrow> sdb" where
  "mark_sub_list q [] db = db"
| "mark_sub_list q ((ident, h) # t) db =
     (case get_subject ident h db of
        None \<Rightarrow> db
      | Some s \<Rightarrow>
          mark_sub_list q t
            (upd_sub (sub_value s)
               (\<lambda>s. if sub_start_mono s < q then s\<lparr>sub_ref_mono := 0\<rparr> else s) db))"

definition mark_subscriptions :: "'f sdb_env \<Rightarrow> rv_session \<Rightarrow> sdb \<Rightarrow> sdb" where
  "mark_subscriptions E s db = mark_sub_list (ses_query_mono s) (ht_visit E (sub_ht s)) db"

fun scan_marked_subs :: "uint_ht \<Rightarrow> uint_ht \<Rightarrow> sdb \<Rightarrow> uint_ht option" where
  "scan_marked_subs [] acc db = Some acc"
| "scan_marked_subs ((ident, h) # t) acc db =
     (case get_subject ident h db of
        None \<Rightarrow> Some acc
      | Some s \<Rightarrow>
          if sub_ref_mono s = 0
          then if length acc \<ge> 256 then None
               else let acc1 = acc @ [(subject_id s, sub_hash s)]
                    in if length acc1 = 256 then Some acc1 else scan_marked_subs t acc1 db
          else scan_marked_subs t acc db)"

fun deref_subs :: "'f sdb_env \<Rightarrow> string \<Rightarrow> uint_ht \<Rightarrow> sdb \<Rightarrow> sdb option" where
  "deref_subs E nm [] db = Some db"
| "deref_subs E nm ((ident, h) # t) db = do {
     script \<leftarrow> get_subject ident h db;
     session \<leftarrow> find_session (kv_crc_c E nm 0) nm db;
     (ok, coll, db1) \<leftarrow> deref_subscription E session script db;
     deref_subs E nm t
       (if ok then emit_cb E (OnListenStop nm (sub_value script) False False coll
                             (sub_refs (sub_value script) db1)) db1 else db1)
   }"

partial_function (option) stop_marked_sub_loop ::
  "'f sdb_env \<Rightarrow> string \<Rightarrow> uint_ht \<Rightarrow> sdb \<Rightarrow> sdb option" where
  "stop_marked_sub_loop E nm acc db =
     Option.bind (find_session (kv_crc_c E nm 0) nm db) (\<lambda>session.
     Option.bind (scan_marked_subs (ht_visit E (sub_ht session)) acc db) (\<lambda>acc1.
     Option.bind (deref_subs E nm acc1 db) (\<lambda>db2.
     if length acc1 < 256 then Some db2 else stop_marked_sub_loop E nm acc1 db2)))"

definition stop_marked_subscriptions :: "'f sdb_env \<Rightarrow> string \<Rightarrow> sdb \<Rightarrow> sdb option" where
  "stop_marked_subscriptions E nm db = stop_marked_sub_loop E nm [] db"

end
