(* ===== verification/Sub_Message.thy ===== *)
theory Sub_Message
  imports Sub_Db
begin

text \<open>
  What drives the subscription database: the start of the subscriptions, the queries that
  \<open>process_events\<close> sends, the SASS3 subscribers, the advisory messages and the replies to the
  queries (\<open>process_pub2\<close>), and the exchange of a database's contents (\<open>make_sync\<close>,
  \<open>update_sync\<close>). A message is its list of named fields, a name with its final zero byte.
\<close>

section \<open>Start\<close>

definition ntohl :: "u32 \<Rightarrow> u32" where
  "ntohl x = push_bit 24 (x AND 255) OR push_bit 16 (drop_bit 8 x AND 255) OR
             push_bit 8 (drop_bit 16 x AND 255) OR drop_bit 24 x"

definition mono_secs :: "u64 \<Rightarrow> u32" where
  "mono_secs mono_ns = ucast (mono_ns div 1000000000)"

definition start_subscriptions ::
  "'f sdb_env \<Rightarrow> u64 \<Rightarrow> bool \<Rightarrow> bool \<Rightarrow> bool \<Rightarrow> bool \<Rightarrow> sdb \<Rightarrow> sdb option" where
  "start_subscriptions E mono_ns all s2 s3 tic db =
     (if is_subscribed db then Some db
      else do {
        let db1 = do_subscriptions True
              (db\<lparr>host_ht := Some (\<lambda>_. None), sess_ht := Some (\<lambda>_. None), is_subscribed := True,
                  is_all_subscribed := all, is_sass2 := s2, is_sass3 := s3, is_tic := tic,
                  cur_mono := mono_secs mono_ns, next_gc := mono_secs mono_ns + 131\<rparr>);
        if s2
        then do {
          (i, db2) \<leftarrow> host_ref E (ntohl (cl_ipaddr E)) (cl_cid E) True db1;
          let db3 = upd_host i (\<lambda>h. h\<lparr>hst_state := RV_HOST_QUERY\<rparr>) db2;
          host \<leftarrow> nth_opt (host_tab db3) i;
          session_start E (host_id host) (cl_cid E) (cl_session E) True (Some ''self'') db3
        }
        else Some db1
      })"

section \<open>Queries\<close>

definition daemon_inbox :: "'f sdb_env \<Rightarrow> rv_host \<Rightarrow> string" where
  "daemon_inbox E h =
     ''_INBOX.'' @ host_id_to_string (hexchar2 E) (host_id h) (hst_cid h) @ ''.DAEMON''"

definition send_host_query :: "'f sdb_env \<Rightarrow> nat \<Rightarrow> sdb \<Rightarrow> sdb option" where
  "send_host_query E i db = do {
     host \<leftarrow> nth_opt (host_tab db) i;
     if hst_query_mono host + 30 > cur_mono db then Some db
     else if hst_ref_mono host + 120 < cur_mono db then unsub_host E i db
     else Some (upd_host i (\<lambda>h. h\<lparr>hst_query_mono := cur_mono db\<rparr>)
            (emit (Publish (daemon_inbox E host)
                     (make_inbox (uint32_to_string E) (cl_session E)
                        (of_nat i + host_inbox_base db))
                     ''sessions'' None) db))
   }"

definition send_session_query :: "'f sdb_env \<Rightarrow> nat \<Rightarrow> rv_session \<Rightarrow> sdb \<Rightarrow> sdb option" where
  "send_session_query E i session db = do {
     host \<leftarrow> nth_opt (host_tab db) i;
     if ses_query_mono session + 30 > cur_mono db then Some db
     else if ses_ref_mono session + 60 < cur_mono db
     then Some (upd_host i (\<lambda>h. h\<lparr>hst_state := RV_HOST_QUERY\<rparr>) db)
     else if ses_value session = cl_session E
     then Some (upd_session (ses_value session) (\<lambda>s. s\<lparr>ses_state := RV_SESSION_SELF\<rparr>) db)
     else Some (upd_session (ses_value session) (\<lambda>s. s\<lparr>ses_query_mono := cur_mono db\<rparr>)
            (emit (Publish (daemon_inbox E host)
                     (make_inbox (uint32_to_string E) (cl_session E)
                        (session_id session + session_inbox_base db))
                     ''subscriptions'' (Some (ses_value session))) db))
   }"

section \<open>Timer events\<close>

text \<open>
  The expiry of SASS3 subscribers. The listener is called without a test of the pointer, so
  \<open>None\<close> is a run without one.
\<close>

definition s3_tab_remove :: "rv_sass3 \<Rightarrow> rv_sass3 list \<Rightarrow> rv_sass3 list" where
  "s3_tab_remove e = map (\<lambda>x. if s3_equals e x then x\<lparr>s3_in_tab := False\<rparr> else x)"

function expire_sass3 :: "'f sdb_env \<Rightarrow> sdb \<Rightarrow> sdb option" where
  "expire_sass3 E db =
     (case sass3_list db of
        [] \<Rightarrow> Some db
      | e # rest \<Rightarrow>
          if s3_expired (cur_mono db) e
          then let db1 = db\<lparr>sass3_list := s3_tab_remove e rest\<rparr>
               in (case get_subject (s3_subject_id e) (s3_subj_hash e) db1 of
                     Some sub \<Rightarrow>
                       if refcnt sub > 0
                       then if has_cb E
                            then expire_sass3 E
                                   (emit (OnSass3 e (sub_value sub) [] (qf_unsubscribe E) False True)
                                      (upd_sub (sub_value sub) (\<lambda>s. s\<lparr>refcnt := refcnt s - 1\<rparr>) db1))
                            else None
                       else expire_sass3 E db1
                   | None \<Rightarrow> expire_sass3 E db1)
          else Some db)"
  by pat_completeness auto
termination
  by (relation "measure (\<lambda>(E, db). length (sass3_list db))")
     (auto simp: s3_tab_remove_def emit_def upd_sub_def)

declare expire_sass3.simps [simp del]

text \<open>The pass over the hosts to refresh them one after the other.\<close>

fun soft_query :: "nat \<Rightarrow> sdb \<Rightarrow> sdb option" where
  "soft_query 0 db = Some (db\<lparr>soft_host_query := 0\<rparr>)"
| "soft_query (Suc n) db =
     (if Suc n < length (host_tab db) \<and> hst_state (host_tab db ! Suc n) = RV_HOST_QUERY
      then Some (db\<lparr>soft_host_query := Suc n\<rparr>)
      else do {
        host \<leftarrow> nth_opt (host_tab db) n;
        if hst_state host \<noteq> RV_HOST_STOP
        then Some ((upd_host n (\<lambda>h. h\<lparr>hst_state := RV_HOST_QUERY\<rparr>) db)\<lparr>soft_host_query := n\<rparr>)
        else soft_query n db
      })"

fun query_sessions :: "'f sdb_env \<Rightarrow> nat \<Rightarrow> uint_ht \<Rightarrow> sdb \<Rightarrow> sdb option" where
  "query_sessions E i [] db = Some db"
| "query_sessions E i ((ident, h) # t) db =
     (case get_session_by ident h db of
        None \<Rightarrow> Some db
      | Some entry \<Rightarrow>
          if ses_state entry = RV_SESSION_QUERY
          then do {
            db1 \<leftarrow> send_session_query E i entry db;
            host \<leftarrow> nth_opt (host_tab db1) i;
            if hst_state host = RV_HOST_QUERY then send_host_query E i db1
            else query_sessions E i t db1
          }
          else query_sessions E i t db)"

definition host_events :: "'f sdb_env \<Rightarrow> nat \<Rightarrow> sdb \<Rightarrow> sdb option" where
  "host_events E i db = do {
     host \<leftarrow> nth_opt (host_tab db) i;
     if hst_state host = RV_HOST_STOP then Some db
     else do {
       let db1 = upd_host i (\<lambda>h. snd (check_query_needed (cur_mono db) h)) db;
       host1 \<leftarrow> nth_opt (host_tab db1) i;
       db2 \<leftarrow> (if hst_state host1 = RV_HOST_QUERY then send_host_query E i db1 else Some db1);
       host2 \<leftarrow> nth_opt (host_tab db2) i;
       if hst_state host2 \<notin> {RV_HOST_QUERY, RV_HOST_STOP}
       then query_sessions E i (ht_visit E (hst_sess_ht host2)) db2
       else Some db2
     }
   }"

fun all_host_events :: "'f sdb_env \<Rightarrow> nat list \<Rightarrow> sdb \<Rightarrow> sdb option" where
  "all_host_events E [] db = Some db"
| "all_host_events E (i # is) db = do { db1 \<leftarrow> host_events E i db; all_host_events E is db1 }"

definition process_events :: "'f sdb_env \<Rightarrow> u64 \<Rightarrow> sdb \<Rightarrow> sdb option" where
  "process_events E mono_ns db = do {
     db1 \<leftarrow> expire_sass3 E (db\<lparr>cur_mono := mono_secs mono_ns\<rparr>);
     db2 \<leftarrow> soft_query (soft_host_query db1) db1;
     db3 \<leftarrow> all_host_events E [0..<length (host_tab db2)] db2;
     Some (if next_gc db3 < cur_mono db3 then gc (db3\<lparr>next_gc := cur_mono db3 + 131\<rparr>) else db3)
   }"

section \<open>SASS3 subscribers\<close>

text \<open>A C string ends at its first zero byte.\<close>

definition cstr :: "string \<Rightarrow> string" where
  "cstr s = takeWhile (\<lambda>c. c \<noteq> CHR 0x00) s"

definition sass3_key :: "rv_subscription \<Rightarrow> string \<Rightarrow> string \<Rightarrow> string \<Rightarrow> u32 \<Rightarrow> u32 \<Rightarrow> rv_sass3" where
  "sass3_key script u h a pid now =
     \<lparr>s3_subj_hash = sub_hash script, s3_subject_id = subject_id script, s3_pid = pid,
      s3_user_id = (if u \<noteq> [] then cstr u else ''nobody''),
      s3_host = (if h \<noteq> [] then cstr h else ''localhost''),
      s3_app = (if a \<noteq> [] then cstr a else ''unknown''),
      s3_start_mono = now, s3_ref_mono = now, s3_in_tab = True\<rparr>"

definition s3_locate :: "rv_sass3 \<Rightarrow> rv_sass3 list \<Rightarrow> nat option" where
  "s3_locate k xs = find (\<lambda>j. s3_in_tab (xs ! j) \<and> s3_equals k (xs ! j)) [0..<length xs]"

text \<open>
  \<open>sass3\<close> returns the position of the entry in the list. \<open>drop_nth\<close> unlinks an entry.
\<close>

definition drop_nth :: "nat \<Rightarrow> 'a list \<Rightarrow> 'a list" where
  "drop_nth j xs = take j xs @ drop (Suc j) xs"

definition sass3 ::
  "'f sdb_env \<Rightarrow> rv_subscription \<Rightarrow> string \<Rightarrow> string \<Rightarrow> string \<Rightarrow> u32 \<Rightarrow> u16 \<Rightarrow> sdb \<Rightarrow> nat \<times> sdb" where
  "sass3 E script u h a pid flags db =
     (let k = sass3_key script u h a pid (cur_mono db);
          xs = sass3_list db;
          addref = (\<lambda>d. upd_sub (sub_value script) (\<lambda>s. s\<lparr>refcnt := refcnt s + d\<rparr>))
      in case s3_locate k xs of
           Some j \<Rightarrow>
             if flags = qf_snapshot E then (j, db)
             else if flags = qf_unsubscribe E
             then (0, addref (- 1)
                        (db\<lparr>sass3_list :=
                              (xs ! j)\<lparr>s3_in_tab := False, s3_ref_mono := 0, s3_subject_id := 0\<rparr> #
                              drop_nth j xs\<rparr>))
             else (length xs - 1,
                   db\<lparr>sass3_list := drop_nth j xs @ [(xs ! j)\<lparr>s3_ref_mono := cur_mono db\<rparr>]\<rparr>)
         | None \<Rightarrow>
             if flags = qf_snapshot E \<or> flags = qf_unsubscribe E
             then (0, db\<lparr>sass3_list :=
                           k\<lparr>s3_start_mono := 0, s3_ref_mono := 0, s3_subject_id := 0,
                             s3_in_tab := False\<rparr> # xs\<rparr>)
             else (length xs,
                   addref 1
                     (db\<lparr>sass3_list :=
                           xs @ [if flags AND qf_resubscribe E \<noteq> 0 then k\<lparr>s3_start_mono := 0\<rparr>
                                 else k]\<rparr>)))"

section \<open>Advisory messages\<close>

type_synonym 'f md_msg = "(string \<times> 'f) list"

record rv_pub =
  pub_subject :: string
  pub_reply :: string
  pub_msg :: string
  pub_enc :: u32

text \<open>A field that is absent or has another type leaves the variable at its initial zero.\<close>

definition find_field :: "'f sdb_env \<Rightarrow> 'f md_msg option \<Rightarrow> string \<Rightarrow> 'f option" where
  "find_field E m nm = Option.bind m (\<lambda>flds. rd_find E flds nm)"

definition find_u32 :: "'f sdb_env \<Rightarrow> 'f md_msg option \<Rightarrow> string \<Rightarrow> u32 option" where
  "find_u32 E m nm = Option.bind (find_field E m nm) (rd_u32 E)"

definition find_u16 :: "'f sdb_env \<Rightarrow> 'f md_msg option \<Rightarrow> string \<Rightarrow> u16 option" where
  "find_u16 E m nm = Option.bind (find_field E m nm) (rd_u16 E)"

definition find_string :: "'f sdb_env \<Rightarrow> 'f md_msg option \<Rightarrow> string \<Rightarrow> string option" where
  "find_string E m nm = Option.bind (find_field E m nm) (rd_string E)"

definition or_zero :: "'a::zero option \<Rightarrow> 'a" where
  "or_zero v = (case v of None \<Rightarrow> 0 | Some x \<Rightarrow> x)"

definition or_empty :: "string option \<Rightarrow> string" where
  "or_empty v = (case v of None \<Rightarrow> [] | Some x \<Rightarrow> x)"

text \<open>The digest of a host status: count and exclusive or, when both are there.\<close>

definition find_digest :: "'f sdb_env \<Rightarrow> 'f md_msg option \<Rightarrow> (u32 \<times> u32) option" where
  "find_digest E m = do { sc \<leftarrow> find_u32 E m ''sc''; sx \<leftarrow> find_u32 E m ''sx''; Some (sc, sx) }"

definition on_host_status :: "'f sdb_env \<Rightarrow> u32 \<Rightarrow> 'f md_msg option \<Rightarrow> sdb \<Rightarrow> sdb option" where
  "on_host_status E h m db = do {
     let loss = or_zero (find_u32 E m ''idl'') + or_zero (find_u32 E m ''odl'');
     (i, db1) \<leftarrow> host_ref E h (or_zero (find_u16 E m ''cid'')) True db;
     host \<leftarrow> nth_opt (host_tab db1) i;
     let requery = (\<lambda>db. if host_id host = ntohl (cl_ipaddr E)
                         then db\<lparr>soft_host_query := length (host_tab db)\<rparr> else db);
     Some (if hst_data_loss host \<noteq> loss
           then requery (upd_host i
                  (\<lambda>x. x\<lparr>hst_state := RV_HOST_QUERY, hst_data_loss := loss\<rparr>) db1)
           else case find_digest E m of
             None \<Rightarrow> db1
           | Some (sc, sx) \<Rightarrow>
               if is_all_subscribed db1 \<and> hst_state host \<noteq> RV_HOST_QUERY \<and>
                  (sub_count host \<noteq> sc \<or> sub_digest host \<noteq> sx)
               then requery (upd_host i (\<lambda>x. x\<lparr>hst_state := RV_HOST_QUERY\<rparr>) db1)
               else db1)
   }"

definition on_listen :: "'f sdb_env \<Rightarrow> bool \<Rightarrow> string \<Rightarrow> 'f md_msg option \<Rightarrow> sdb \<Rightarrow> sdb option" where
  "on_listen E is_start reply m db = do {
     let x = or_empty (find_string E m ''id'');
     let sub = or_empty (find_string E m ''sub'');
     (session, db1) \<leftarrow> session_ref E (session_cid (or_zero (find_u16 E m ''cid'')) x) x db;
     if ses_state session = RV_SESSION_SELF then Some db1
     else if is_start
     then do {
       (v, is_added, coll, db2) \<leftarrow> listen_ref E x sub db1;
       Some (emit_cb E (OnListenStart x v reply True coll (sub_refs v db2)) db2)
     }
     else do {
       (is_orphan, coll, db2) \<leftarrow> listen_stop E x sub db1;
       Some (emit_cb E (OnListenStop x sub is_orphan True coll (sub_refs sub db2)) db2)
     }
   }"

definition get_session ::
  "'f sdb_env \<Rightarrow> string \<Rightarrow> string \<Rightarrow> sdb \<Rightarrow> rv_session option option" where
  "get_session E raw nm db =
     (case find_session (kv_crc_c E nm 0) nm db of
        Some s \<Rightarrow> Some (Some s)
      | None \<Rightarrow> do { h \<leftarrow> string_to_host_id raw; get_rv7_session E h db })"

text \<open>
  \<open>snapshot\<close> and \<open>tic\<close>: \<open>raw\<close> is the reply from its eighth character on, the session's name is a
  prefix of it. An unknown session makes the host be queried.
\<close>

definition query_reply_host :: "'f sdb_env \<Rightarrow> string \<Rightarrow> sdb \<Rightarrow> sdb option" where
  "query_reply_host E raw db = do {
     h \<leftarrow> string_to_host_id raw;
     (i, db1) \<leftarrow> host_ref E h 0 False db;
     Some (upd_host i (\<lambda>x. x\<lparr>hst_state := RV_HOST_QUERY\<rparr>) db1)
   }"

definition snapshot ::
  "'f sdb_env \<Rightarrow> string \<Rightarrow> string \<Rightarrow> string \<Rightarrow> sdb \<Rightarrow> (string option \<times> sdb) option" where
  "snapshot E sub raw nm db = do {
     let (script, db1) = get_subscription E sub db;
     r \<leftarrow> get_session E raw nm db1;
     (case r of
        None \<Rightarrow> do { db2 \<leftarrow> query_reply_host E raw db1; Some (None, db2) }
      | Some s \<Rightarrow>
          Some (Some (ses_value s),
                if refcnt script \<noteq> 0 \<and> \<not> ref7cnt script
                then upd_session (ses_value s) set_query db1 else db1))
   }"

definition tic ::
  "'f sdb_env \<Rightarrow> string \<Rightarrow> string \<Rightarrow> string \<Rightarrow> sdb \<Rightarrow> (string option \<times> sdb) option" where
  "tic E sub raw nm db = do {
     let (script, db1) = get_subscription E sub db;
     r \<leftarrow> get_session E raw nm db1;
     (case r of
        None \<Rightarrow> do { db2 \<leftarrow> query_reply_host E raw db1; Some (None, db2) }
      | Some s \<Rightarrow> Some (Some (ses_value s), db1))
   }"

definition on_snap :: "'f sdb_env \<Rightarrow> string \<Rightarrow> string \<Rightarrow> 'f md_msg option \<Rightarrow> sdb \<Rightarrow> sdb option" where
  "on_snap E subject reply m db =
     (if has_cb E \<and> length subject > 6 \<and> length reply > 15
      then do {
        let sub = drop 6 subject;
        (s, db1) \<leftarrow> snapshot E sub (drop 7 reply)
                      (take (inbox_session_len reply) (drop 7 reply)) db;
        Some (emit (OnSnapshot sub s reply (or_zero (find_u16 E m ''flags''))) db1)
      }
      else Some db)"

definition on_tic :: "'f sdb_env \<Rightarrow> string \<Rightarrow> string \<Rightarrow> sdb \<Rightarrow> sdb option" where
  "on_tic E subject reply db =
     (if has_cb E \<and> length reply > 15
      then do {
        (s, db1) \<leftarrow> tic E subject (drop 7 reply)
                      (take (inbox_session_len reply) (drop 7 reply)) db;
        Some (emit (OnTicReply subject s reply) db1)
      }
      else Some db)"

section \<open>SASS3 messages\<close>

definition read_who ::
  "'f sdb_env \<Rightarrow> string \<times> 'f \<Rightarrow> string \<times> string \<times> string \<times> u32 \<Rightarrow> string \<times> string \<times> string \<times> u32" where
  "read_who E fld = (\<lambda>(u, h, a, p).
     let str = (\<lambda>old. case rd_string E (snd fld) of None \<Rightarrow> old | Some s \<Rightarrow> s)
     in if nm_equals E (fst fld) ''U'' then (str u, h, a, p)
        else if nm_equals E (fst fld) ''H'' then (u, str h, a, p)
        else if nm_equals E (fst fld) ''A'' then (u, h, str a, p)
        else if nm_equals E (fst fld) ''P''
        then (u, h, a, case rd_u32 E (snd fld) of None \<Rightarrow> p | Some v \<Rightarrow> v)
        else (u, h, a, p))"

definition sass3_flags :: "'f sdb_env \<Rightarrow> u16 \<Rightarrow> u16" where
  "sass3_flags E flags =
     (if flags AND qf_unsubscribe E \<noteq> 0 then qf_unsubscribe E
      else if flags AND qf_snapshot E \<noteq> 0 then qf_snapshot E else flags)"

text \<open>One subject of the message; the name's final zero byte is cut off.\<close>

definition sass3_subject ::
  "'f sdb_env \<Rightarrow> string \<Rightarrow> string \<times> string \<times> string \<times> u32 \<Rightarrow> u16 \<Rightarrow> string \<Rightarrow> sdb \<Rightarrow> sdb option" where
  "sass3_subject E reply who flags fname db =
     (if length fname > 1
      then let (u, h, a, pid) = who;
               (sub, db1) = get_subscription E (butlast fname) db;
               (j, db2) = sass3 E sub u h a pid flags db1;
               e = sass3_list db2 ! j;
               resub = (flags = qf_resubscribe E)
           in if resub \<and> s3_start_mono e \<noteq> 0 then Some db2
              else if \<not> has_cb E then None
              else let e1 = (if resub then e\<lparr>s3_start_mono := cur_mono db2\<rparr> else e);
                       f = (if resub then flags OR qf_refresh E else flags)
                   in Some (emit (OnSass3 e1 (sub_value sub) reply f
                                    (f = qf_unsubscribe E \<and> s3_start_mono e1 = 0) resub)
                              (db2\<lparr>sass3_list := (sass3_list db2)[j := e1]\<rparr>))
      else Some db)"

fun sass3_subjects ::
  "'f sdb_env \<Rightarrow> string \<Rightarrow> string \<times> string \<times> string \<times> u32 \<Rightarrow> u16 \<Rightarrow> 'f md_msg \<Rightarrow> sdb \<Rightarrow> sdb option" where
  "sass3_subjects E reply who flags [] db = Some db"
| "sass3_subjects E reply who flags (fld # flds) db = do {
     db1 \<leftarrow> sass3_subject E reply who flags (fst fld) db;
     sass3_subjects E reply who flags flds db1
   }"

definition on_sass3_msg :: "'f sdb_env \<Rightarrow> string \<Rightarrow> 'f md_msg option \<Rightarrow> sdb \<Rightarrow> sdb option" where
  "on_sass3_msg E reply m db =
     (if find_field E m ''T'' = None then Some db
      else let flags = sass3_flags E (or_zero (find_u16 E m ''T''))
           in case find_field E m ''A'' of
                None \<Rightarrow> Some db
              | Some fa \<Rightarrow>
                  let who = (case rd_msg E fa of
                               None \<Rightarrow> ([], [], [], 0)
                             | Some n \<Rightarrow> fold (read_who E) n ([], [], [], 0))
                  in case Option.bind (find_field E m ''S'') (rd_msg E) of
                       None \<Rightarrow> Some db
                     | Some x \<Rightarrow> sass3_subjects E reply who flags x db)"

text \<open>The temporary entries at the head of the list are freed at the end of the message.\<close>

definition free_temps :: "sdb \<Rightarrow> sdb" where
  "free_temps db =
     db\<lparr>sass3_list := dropWhile (\<lambda>e. s3_subject_id e = 0 \<and> s3_ref_mono e = 0) (sass3_list db)\<rparr>"

section \<open>Dispatch\<close>

text \<open>
  The two switches of \<open>process_pub2\<close>: the host id in the subject (eight characters, \<open>None\<close> when
  they are not there), the fields and the operation. \<open>m\<close> is the null pointer for a message without data.
\<close>

definition on_info ::
  "'f sdb_env \<Rightarrow> string \<times> sub_kind \<Rightarrow> string \<Rightarrow> string \<Rightarrow> 'f md_msg option \<Rightarrow>
   sdb \<Rightarrow> sdb option" where
  "on_info E match subject reply m db =
     (let h = string_to_host_id (drop (length (fst match) - 1) subject);
          cid = or_zero (find_u16 E m ''cid'');
          x = or_empty (find_string E m ''id'')
      in case snd match of
           IS_HOST_STATUS \<Rightarrow> Option.bind h (\<lambda>h. on_host_status E h m db)
         | IS_HOST_START \<Rightarrow> Option.bind h (\<lambda>h. host_start E h cid db)
         | IS_HOST_STOP \<Rightarrow> Option.bind h (\<lambda>h. host_stop E h cid db)
         | IS_UNREACHABLE \<Rightarrow> Option.bind h (\<lambda>h. query_rv7_session E h db)
         | IS_SESSION_START \<Rightarrow>
             Option.bind h (\<lambda>h. session_start E h (session_cid 0 x) x False
                                  (find_string E m ''userid'') db)
         | IS_SESSION_STOP \<Rightarrow> Option.bind h (\<lambda>h. session_stop E x db)
         | IS_LISTEN_START \<Rightarrow> on_listen E True reply m db
         | IS_LISTEN_STOP \<Rightarrow> on_listen E False reply m db
         | IS_SNAP \<Rightarrow> on_snap E subject reply m db
         | IS_TIC_REPLY \<Rightarrow> on_tic E subject reply db
         | IS_SASS \<Rightarrow> map_option free_temps (on_sass3_msg E reply m db))"

text \<open>The reply to a host query lists its sessions.\<close>

fun ref_sessions :: "'f sdb_env \<Rightarrow> u16 \<Rightarrow> 'f md_msg \<Rightarrow> sdb \<Rightarrow> sdb option" where
  "ref_sessions E cid [] db = Some db"
| "ref_sessions E cid (fld # flds) db =
     (if fst fld = []
      then (case rd_string E (snd fld) of
              None \<Rightarrow> ref_sessions E cid flds db
            | Some x \<Rightarrow> do { (s, db1) \<leftarrow> session_ref E cid x db; ref_sessions E cid flds db1 })
      else ref_sessions E cid flds db)"

definition on_host_reply :: "'f sdb_env \<Rightarrow> nat \<Rightarrow> 'f md_msg \<Rightarrow> sdb \<Rightarrow> sdb option" where
  "on_host_reply E i m db =
     (if i < length (host_tab db) \<and> hst_state (host_tab db ! i) = RV_HOST_QUERY
      then do {
        db1 \<leftarrow> mark_sessions E i db;
        db2 \<leftarrow> ref_sessions E (hst_cid (host_tab db ! i)) m db1;
        db3 \<leftarrow> stop_marked_sessions E i db2;
        Some (upd_host i (\<lambda>h. h\<lparr>hst_state := RV_HOST_STATUS\<rparr>) db3)
      }
      else Some db)"

text \<open>The reply to a session query lists its subjects.\<close>

fun ref_subjects :: "'f sdb_env \<Rightarrow> string \<Rightarrow> 'f md_msg \<Rightarrow> sdb \<Rightarrow> sdb option" where
  "ref_subjects E nm [] db = Some db"
| "ref_subjects E nm (fld # flds) db =
     (if fst fld \<noteq> []
      then ref_subjects E nm flds
             (if nm_equals E (fst fld) ''user''
              then upd_session nm (\<lambda>s. s\<lparr>user_id := rd_string E (snd fld)\<rparr>) db else db)
      else case rd_string E (snd fld) of
        None \<Rightarrow> ref_subjects E nm flds db
      | Some sub \<Rightarrow>
          if is_matched sub db
          then do {
            (v, is_added, coll, db1) \<leftarrow> listen_ref E nm sub db;
            ref_subjects E nm flds
              (if is_added then emit_cb E (OnListenStart nm v [] False coll (sub_refs v db1)) db1 else db1)
          }
          else ref_subjects E nm flds db)"

definition on_session_reply :: "'f sdb_env \<Rightarrow> u32 \<Rightarrow> 'f md_msg \<Rightarrow> sdb \<Rightarrow> sdb option" where
  "on_session_reply E ident m db = do {
     r \<leftarrow> get_session_id ident db;
     (case r of
        None \<Rightarrow> Some db
      | Some s \<Rightarrow>
          if ses_state s = RV_SESSION_QUERY
          then do {
            db1 \<leftarrow> ref_subjects E (ses_value s) m (mark_subscriptions E s db);
            stop_marked_subscriptions E (ses_value s)
              (upd_session (ses_value s)
                 (\<lambda>s. s\<lparr>ses_state := (if has_daemon s then RV_SESSION_RV7 else RV_SESSION_RV5)\<rparr>)
                 db1)
          }
          else Some db)
   }"

text \<open>
  A reply to one of the client's inboxes: its number says which query it answers. The fields are
  read without a test for a message without data.
\<close>

definition on_inbox :: "'f sdb_env \<Rightarrow> u64 \<Rightarrow> 'f md_msg option \<Rightarrow> sdb \<Rightarrow> sdb option" where
  "on_inbox E which m db = do {
     flds \<leftarrow> m;
     (if which \<ge> ucast (host_inbox_base db)
      then on_host_reply E (unat (ucast (which - ucast (host_inbox_base db)) :: u32)) flds db
      else on_session_reply E (ucast (which - ucast (session_inbox_base db))) flds db)
   }"

text \<open>The message of a publish, the null pointer when it has no data.\<close>

definition pub_fields :: "'f sdb_env \<Rightarrow> rv_pub \<Rightarrow> 'f md_msg option" where
  "pub_fields E pub = (if length (pub_msg pub) > 0 then unpack E (pub_enc pub) (pub_msg pub) else None)"

definition process_pub2 :: "'f sdb_env \<Rightarrow> u64 \<Rightarrow> rv_pub \<Rightarrow> sdb \<Rightarrow> (bool \<times> sdb) option" where
  "process_pub2 E mono_ns pub db =
     (let match = match_rv_info (pub_subject pub);
          which = (if match = None
                   then is_inbox (string_to_uint64 E) (cl_control E) (pub_subject pub) else 0);
          db1 = db\<lparr>cur_mono := mono_secs mono_ns\<rparr>;
          m = pub_fields E pub
      in if match = None \<and>
            (which = 0 \<or> (which < ucast (session_inbox_base db) \<and> which < ucast (host_inbox_base db)))
         then Some (False, db)
         else if length (pub_msg pub) > 0 \<and> m = None then Some (True, db1)
         else map_option (Pair True)
                (case match of
                   Some sm \<Rightarrow> on_info E sm (pub_subject pub) (pub_reply pub) m db1
                 | None \<Rightarrow> on_inbox E which m db1))"

section \<open>Synchronisation\<close>

text \<open>
  The calls that \<open>make_host_sync\<close> makes on the message writer of the library, as the tree of fields
  that they write.
\<close>

datatype sync_val = SyncUint u32 | SyncString string | SyncMsg "(string \<times> sync_val) list"

fun sync_subjects :: "uint_ht \<Rightarrow> sdb \<Rightarrow> (string \<times> sync_val) list" where
  "sync_subjects [] db = []"
| "sync_subjects ((ident, h) # t) db =
     (case get_subject ident h db of
        None \<Rightarrow> []
      | Some s \<Rightarrow> ([], SyncString (sub_value s)) # sync_subjects t db)"

fun sync_sessions :: "'f sdb_env \<Rightarrow> uint_ht \<Rightarrow> sdb \<Rightarrow> (string \<times> sync_val) list" where
  "sync_sessions E [] db = []"
| "sync_sessions E ((ident, h) # t) db =
     (case get_session_by ident h db of
        None \<Rightarrow> []
      | Some s \<Rightarrow>
          (ses_value s,
           let subs = sync_subjects (ht_visit E (sub_ht s)) db
           in if subs \<noteq> [] then SyncMsg subs else SyncUint 0) # sync_sessions E t db)"

definition make_host_sync :: "'f sdb_env \<Rightarrow> nat \<Rightarrow> sdb \<Rightarrow> (string \<times> sync_val) list" where
  "make_host_sync E i db =
     (if i < length (host_tab db) \<and>
         hst_state (host_tab db ! i) \<notin> {RV_HOST_UNKNOWN, RV_HOST_STOP}
      then let host = host_tab db ! i;
               sess = sync_sessions E (ht_visit E (hst_sess_ht host)) db
           in [(''host'', SyncMsg
                 ([(''id'', SyncUint (host_id host))] @
                  (if hst_cid host \<noteq> 0 then [(''cid'', SyncUint (ucast (hst_cid host)))] else []) @
                  (if hst_data_loss host \<noteq> 0
                   then [(''data_loss'', SyncUint (hst_data_loss host))] else []) @
                  (if sess \<noteq> [] then [(''sessions'', SyncMsg sess)] else [])))]
      else [])"

definition make_sync :: "'f sdb_env \<Rightarrow> sdb \<Rightarrow> (string \<times> sync_val) list" where
  "make_sync E db = concat (map (\<lambda>i. make_host_sync E i db) [0..<length (host_tab db)])"

text \<open>
  \<open>update_sync\<close> reads such a message. A session's name is its field name less the final zero byte;
  \<open>None\<close> is the wrapped length of an empty name.
\<close>

fun sync_listen :: "'f sdb_env \<Rightarrow> string \<Rightarrow> 'f md_msg \<Rightarrow> sdb \<Rightarrow> sdb option" where
  "sync_listen E nm [] db = Some db"
| "sync_listen E nm (fld # flds) db =
     (case rd_string E (snd fld) of
        None \<Rightarrow> sync_listen E nm flds db
      | Some sub \<Rightarrow> do {
          (v, is_added, coll, db1) \<leftarrow> listen_ref E nm sub db;
          sync_listen E nm flds
            (if is_added then emit_cb E (OnListenStart nm v [] False coll (sub_refs v db1)) db1 else db1)
        })"

fun update_sessions :: "'f sdb_env \<Rightarrow> u16 \<Rightarrow> 'f md_msg \<Rightarrow> sdb \<Rightarrow> sdb option" where
  "update_sessions E cid [] db = Some db"
| "update_sessions E cid (fld # flds) db =
     (if fst fld = [] then None
      else do {
        (session, db1) \<leftarrow> session_ref E cid (butlast (fst fld)) db;
        db2 \<leftarrow>
          (if ses_state session \<noteq> RV_SESSION_SELF \<and> rd_is_msg E (snd fld)
           then (case rd_msg E (snd fld) of
                   None \<Rightarrow> Some db1
                 | Some subs \<Rightarrow> sync_listen E (butlast (fst fld)) subs db1)
           else Some db1);
        update_sessions E cid flds db2
      })"

fun update_host :: "'f sdb_env \<Rightarrow> u32 \<Rightarrow> u16 \<Rightarrow> 'f md_msg \<Rightarrow> sdb \<Rightarrow> sdb option" where
  "update_host E h cid [] db = Some db"
| "update_host E h cid (fld # flds) db =
     (if nm_equals E (fst fld) ''id''
      then update_host E (case rd_u32 E (snd fld) of None \<Rightarrow> h | Some v \<Rightarrow> v) cid flds db
      else if nm_equals E (fst fld) ''cid''
      then update_host E h (case rd_u16 E (snd fld) of None \<Rightarrow> cid | Some v \<Rightarrow> v) flds db
      else if nm_equals E (fst fld) ''sessions'' \<and> h \<noteq> 0
      then (case rd_msg E (snd fld) of
              None \<Rightarrow> update_host E h cid flds db
            | Some sess \<Rightarrow> do {
                (i, db1) \<leftarrow> host_ref E h cid True db;
                db2 \<leftarrow> update_sessions E cid sess db1;
                update_host E h cid flds db2
              })
      else update_host E h cid flds db)"

fun update_sync :: "'f sdb_env \<Rightarrow> 'f md_msg \<Rightarrow> sdb \<Rightarrow> sdb option" where
  "update_sync E [] db = Some db"
| "update_sync E (fld # flds) db =
     (case (if nm_equals E (fst fld) ''host'' then rd_msg E (snd fld) else None) of
        None \<Rightarrow> update_sync E flds db
      | Some hf \<Rightarrow> do { db1 \<leftarrow> update_host E 0 0 hf db; update_sync E flds db1 })"

end
