(* ===== verification/Sub_Invariant.thy ===== *)
theory Sub_Invariant
  imports Sub_Message
begin

text \<open>
  The invariant of the subscription database, stated on its books: the rows of the subscriptions
  (subject, id, hash, reference count), the rows of the sessions (name, hash, table) and the SASS3
  subscribers. The rows have distinct keys and ids, the tables of the sessions refer to rows that
  exist, and a reference count is the number of sessions and of SASS3 subscribers that hold the
  subject. The lemmas say which changes of the books keep this and which operations leave the books
  alone.
\<close>

section \<open>What the database relies on\<close>

text \<open>
  The library visits every entry of a table once, \<open>kv_hash_uint\<close> maps different counters to
  different ids, and no counter to the id 0 that marks an entry without a subject.
\<close>

definition env_ok :: "'f sdb_env \<Rightarrow> bool" where
  "env_ok E \<longleftrightarrow> (\<forall>t. mset (ht_order E t) = mset t) \<and> inj (kv_hash_uint E) \<and>
     (\<forall>c. c \<noteq> 0 \<longrightarrow> kv_hash_uint E c \<noteq> 0)"

section \<open>The books\<close>

type_synonym sub_row = "string \<times> u32 \<times> u32 \<times> 31 word"
type_synonym ses_row = "string \<times> u32 \<times> uint_ht option"

definition sub_rows :: "sdb \<Rightarrow> sub_row list" where
  "sub_rows db = map (\<lambda>s. (sub_value s, subject_id s, sub_hash s, refcnt s)) (sub_tab db)"

definition ses_rows :: "sdb \<Rightarrow> ses_row list" where
  "ses_rows db = map (\<lambda>s. (ses_value s, ses_hash s, sub_ht s)) (session_tab db)"

definition keys :: "uint_ht option \<Rightarrow> u32 set" where
  "keys t = (case t of None \<Rightarrow> {} | Some l \<Rightarrow> fst ` set l)"

definition s3_holds :: "u32 \<Rightarrow> rv_sass3 \<Rightarrow> bool" where
  "s3_holds ident e \<longleftrightarrow> s3_in_tab e \<and> s3_subject_id e = ident"

definition s3_count :: "rv_sass3 list \<Rightarrow> u32 \<Rightarrow> nat" where
  "s3_count s3 ident = length (filter (s3_holds ident) s3)"

definition ses_count :: "ses_row list \<Rightarrow> u32 \<Rightarrow> nat" where
  "ses_count sess ident = length (filter (\<lambda>(v, h, t). ident \<in> keys t) sess)"

definition known :: "sub_row list \<Rightarrow> u32 \<Rightarrow> u32 \<Rightarrow> bool" where
  "known subs ident h \<longleftrightarrow> (\<exists>v r. (v, ident, h, r) \<in> set subs)"

definition subs_ok :: "'f sdb_env \<Rightarrow> u32 \<Rightarrow> sub_row list \<Rightarrow> bool" where
  "subs_ok E ctr subs \<longleftrightarrow>
     distinct (map fst subs) \<and> distinct (map (\<lambda>(v, i, h, r). i) subs) \<and>
     (\<forall>(v, i, h, r)\<in>set subs. h = kv_crc_c E v 0 \<and>
        (\<exists>c. c \<noteq> 0 \<and> c \<le> ctr \<and> i = kv_hash_uint E c))"

definition ht_ok :: "sub_row list \<Rightarrow> uint_ht option \<Rightarrow> bool" where
  "ht_ok subs t \<longleftrightarrow>
     (\<forall>l. t = Some l \<longrightarrow> distinct (map fst l) \<and> (\<forall>(i, h)\<in>set l. known subs i h))"

definition sess_ok :: "'f sdb_env \<Rightarrow> sub_row list \<Rightarrow> ses_row list \<Rightarrow> bool" where
  "sess_ok E subs sess \<longleftrightarrow> distinct (map fst sess) \<and>
     (\<forall>(v, h, t)\<in>set sess. h = kv_crc_c E v 0 \<and> ht_ok subs t)"

text \<open>
  An entry of the SASS3 table has a subject, an entry outside of it has the id 0, and the table has
  no key twice.
\<close>

definition s3_key :: "rv_sass3 \<Rightarrow> u32 \<times> u32 \<times> u32 \<times> string \<times> string \<times> string" where
  "s3_key e = (s3_subj_hash e, s3_subject_id e, s3_pid e, s3_user_id e, s3_host e, s3_app e)"

definition s3_ok :: "sub_row list \<Rightarrow> rv_sass3 list \<Rightarrow> bool" where
  "s3_ok subs s3 \<longleftrightarrow>
     (\<forall>e\<in>set s3. if s3_in_tab e then known subs (s3_subject_id e) (s3_subj_hash e)
                else s3_subject_id e = 0) \<and>
     distinct (map s3_key (filter s3_in_tab s3))"

definition counts_ok :: "sub_row list \<Rightarrow> ses_row list \<Rightarrow> rv_sass3 list \<Rightarrow> bool" where
  "counts_ok subs sess s3 \<longleftrightarrow>
     (\<forall>(v, i, h, r)\<in>set subs. r = of_nat (ses_count sess i + s3_count s3 i))"

definition books_ok ::
  "'f sdb_env \<Rightarrow> u32 \<Rightarrow> sub_row list \<Rightarrow> ses_row list \<Rightarrow> rv_sass3 list \<Rightarrow> bool" where
  "books_ok E ctr subs sess s3 \<longleftrightarrow>
     subs_ok E ctr subs \<and> sess_ok E subs sess \<and> s3_ok subs s3 \<and> counts_ok subs sess s3"

text \<open>A stopped session has no table.\<close>

definition stop_ok :: "sdb \<Rightarrow> bool" where
  "stop_ok db \<longleftrightarrow> (\<forall>s\<in>set (session_tab db). ses_state s = RV_SESSION_STOP \<longrightarrow> sub_ht s = None)"

definition sdb_core :: "'f sdb_env \<Rightarrow> sdb \<Rightarrow> bool" where
  "sdb_core E db \<longleftrightarrow>
     books_ok E (next_subject_ctr db) (sub_rows db) (ses_rows db) (sass3_list db) \<and> stop_ok db"

text \<open>
  The counter of active subscriptions counts those with a reference, as long as no SASS3 message
  was processed: \<open>sass3\<close> does not maintain it.
\<close>

definition live_rows :: "sub_row list \<Rightarrow> nat" where
  "live_rows subs = length (filter (\<lambda>(v, i, h, r). r \<noteq> 0) subs)"

definition active_ok :: "sdb \<Rightarrow> bool" where
  "active_ok db \<longleftrightarrow> active (subscriptions db) = of_nat (live_rows (sub_rows db))"

text \<open>
  There is room for \<open>n\<close> more entries before the counter of subject ids or a reference count of 31
  bits wraps around.
\<close>

definition room :: "nat \<Rightarrow> sdb \<Rightarrow> bool" where
  "room n db \<longleftrightarrow> unat (next_subject_ctr db) + n < 2 ^ 32 \<and>
     length (session_tab db) + length (sass3_list db) + n < 2 ^ 31"

text \<open>The invariant; \<open>b\<close> says that no SASS3 message was processed.\<close>

definition sdb_inv :: "'f sdb_env \<Rightarrow> nat \<Rightarrow> bool \<Rightarrow> sdb \<Rightarrow> bool" where
  "sdb_inv E n b db \<longleftrightarrow>
     sdb_core E db \<and> room n db \<and> (b \<longrightarrow> active_ok db \<and> sass3_list db = [])"

section \<open>Operations that leave the books alone\<close>

definition same_books :: "sdb \<Rightarrow> sdb \<Rightarrow> bool" where
  "same_books db db' \<longleftrightarrow> sub_rows db' = sub_rows db \<and> ses_rows db' = ses_rows db \<and>
     sass3_list db' = sass3_list db \<and> next_subject_ctr db' = next_subject_ctr db \<and>
     active (subscriptions db') = active (subscriptions db) \<and> (stop_ok db \<longrightarrow> stop_ok db')"

lemma same_books_refl [simp]: "same_books db db"
  by (simp add: same_books_def)

lemma same_books_trans [trans]: "same_books a b \<Longrightarrow> same_books b c \<Longrightarrow> same_books a c"
  by (simp add: same_books_def)

lemma same_books_core: "same_books db db' \<Longrightarrow> sdb_core E db \<Longrightarrow> sdb_core E db'"
  by (simp add: same_books_def sdb_core_def)

lemma same_books_active: "same_books db db' \<Longrightarrow> active_ok db \<Longrightarrow> active_ok db'"
  by (simp add: same_books_def active_ok_def)

lemma length_ses_rows: "length (ses_rows db) = length (session_tab db)"
  by (simp add: ses_rows_def)

lemma same_books_room: "same_books db db' \<Longrightarrow> room n db \<Longrightarrow> room n db'"
  by (simp add: same_books_def room_def flip: length_ses_rows)

lemma same_books_inv: "same_books db db' \<Longrightarrow> sdb_inv E n b db \<Longrightarrow> sdb_inv E n b db'"
  unfolding sdb_inv_def
  by (metis same_books_core same_books_active same_books_room same_books_def)

lemma sdb_inv_mono: "sdb_inv E n b db \<Longrightarrow> m \<le> n \<Longrightarrow> sdb_inv E m b db"
  by (auto simp: sdb_inv_def room_def)

text \<open>A change outside of the tables and counters of the books.\<close>

lemma same_booksI:
  "sub_tab db' = sub_tab db \<Longrightarrow> session_tab db' = session_tab db \<Longrightarrow>
   sass3_list db' = sass3_list db \<Longrightarrow> next_subject_ctr db' = next_subject_ctr db \<Longrightarrow>
   subscriptions db' = subscriptions db \<Longrightarrow> same_books db db'"
  by (simp add: same_books_def sub_rows_def ses_rows_def stop_ok_def)

lemma same_books_sub:
  assumes "\<And>s. s \<in> set (sub_tab db) \<Longrightarrow> sub_value s = v \<Longrightarrow>
    sub_value (f s) = v \<and> subject_id (f s) = subject_id s \<and> sub_hash (f s) = sub_hash s \<and>
    refcnt (f s) = refcnt s"
  shows "same_books db (upd_sub v f db)"
  using assms by (auto simp: same_books_def upd_sub_def sub_rows_def ses_rows_def stop_ok_def)

lemma same_books_session:
  assumes "\<And>s. s \<in> set (session_tab db) \<Longrightarrow> ses_value s = nm \<Longrightarrow>
    ses_value (f s) = nm \<and> ses_hash (f s) = ses_hash s \<and> sub_ht (f s) = sub_ht s \<and>
    (ses_state (f s) = RV_SESSION_STOP \<longrightarrow> ses_state s = RV_SESSION_STOP)"
  shows "same_books db (upd_session nm f db)"
  using assms by (auto simp: same_books_def upd_session_def sub_rows_def ses_rows_def stop_ok_def)

lemma same_books_emit [simp]: "same_books db (emit x db)" "same_books db (emit_cb E x db)"
  by (auto simp: emit_def emit_cb_def intro: same_booksI)

lemma same_books_host [simp]:
  "same_books db (upd_host i f db)" "same_books db (put_host i h db)"
  "same_books db (set_host_ht E h' c i db)" "same_books db (hosts_active_inc db)"
  by (auto simp: upd_host_def put_host_def set_host_ht_def hosts_active_inc_def intro: same_booksI)

lemma same_books_digest [simp]: "same_books db (host_digest E s v b db)"
  by (auto simp: host_digest_def split: option.split)

lemma same_books_set_query [simp]: "same_books db (upd_session nm set_query db)"
  by (rule same_books_session) (auto simp: set_query_def)

lemma same_books_state:
  "st \<noteq> RV_SESSION_STOP \<Longrightarrow> same_books db (upd_session nm (\<lambda>s. s\<lparr>ses_state := st\<rparr>) db)"
  by (rule same_books_session) auto

lemma host_ref_books: "host_ref E h cid b db = Some (i, db') \<Longrightarrow> same_books db db'"
proof -
  assume "host_ref E h cid b db = Some (i, db')"
  then show ?thesis
    by (auto simp: host_ref_def upd_host_def put_host_def set_host_ht_def hosts_active_inc_def
          split: bind_splits option.splits if_splits intro!: same_booksI)
qed

lemma host_start_books: "host_start E h cid db = Some db' \<Longrightarrow> same_books db db'"
  by (auto simp: host_start_def Let_def upd_host_def put_host_def set_host_ht_def
        split: bind_splits option.splits if_splits intro!: same_booksI)

lemma query_rv7_books: "query_rv7_session E h db = Some db' \<Longrightarrow> same_books db db'"
  by (auto simp: query_rv7_session_def split: bind_splits option.splits)

lemma add_session_books: "add_session i s db = Some db' \<Longrightarrow> same_books db db'"
  by (auto simp: add_session_def upd_host_def split: bind_splits if_splits intro!: same_booksI)

lemma mark_session_books: "same_books db (mark_session_list q t db)"
proof (induction q t db rule: mark_session_list.induct)
  case (2 q ident h t db)
  show ?case
  proof (cases "get_session_by ident h db")
    case (Some s)
    have "same_books db (upd_session (ses_value s)
            (\<lambda>s. if ses_ref_mono s < q then s\<lparr>ses_ref_mono := 0\<rparr> else s) db)"
      by (rule same_books_session) auto
    with 2 Some show ?thesis by (auto intro: same_books_trans)
  qed simp
qed simp

lemma mark_sub_books: "same_books db (mark_sub_list q t db)"
proof (induction q t db rule: mark_sub_list.induct)
  case (2 q ident h t db)
  show ?case
  proof (cases "get_subject ident h db")
    case (Some s)
    have "same_books db (upd_sub (sub_value s)
            (\<lambda>s. if sub_start_mono s < q then s\<lparr>sub_ref_mono := 0\<rparr> else s) db)"
      by (rule same_books_sub) auto
    with 2 Some show ?thesis by (auto intro: same_books_trans)
  qed simp
qed simp

lemma scan_marked_books: "scan_marked_sessions t acc db = Some (acc', db') \<Longrightarrow> same_books db db'"
proof (induction t acc db rule: scan_marked_sessions.induct)
  case (2 ident h t acc db)
  then show ?case
    by (auto simp: Let_def split: option.splits if_splits intro: same_books_trans [rotated])
qed simp

lemma do_subscriptions_books: "same_books db (do_subscriptions b db)"
proof -
  have wild: "same_books d (do_wild_subscription f b m d)" for f m d
    by (simp add: do_wild_subscription_def)
  have wilds: "same_books d (fold (\<lambda>f. do_wild_subscription f b m) fs d)" for fs m d
    by (induction fs arbitrary: d) (auto intro: same_books_trans [OF wild])
  have one: "same_books d (do_subscription b m d)" for m d
    unfolding do_subscription_def Let_def
    by (auto intro: same_books_trans wild wilds)
  have "same_books d (fold (do_subscription b) ms d)" for ms d
    by (induction ms arbitrary: d) (auto intro: same_books_trans [OF one])
  then show ?thesis by (simp add: do_subscriptions_def)
qed

section \<open>Changes of the books\<close>

lemma length_filter_upd:
  "distinct (map key xs) \<Longrightarrow> x \<in> set xs \<Longrightarrow> key x = k \<Longrightarrow>
   length (filter P (map (\<lambda>y. if key y = k then f y else y) xs)) + of_bool (P x) =
   length (filter P xs) + of_bool (P (f x))"
proof (induction xs)
  case (Cons y ys)
  show ?case
  proof (cases "key y = k")
    case True
    with Cons.prems have "y = x" by (auto dest: image_eqI)
    moreover have "key z \<noteq> k" if "z \<in> set ys" for z
      using Cons.prems(1) True that by (metis distinct.simps(2) image_eqI list.simps(9) set_map)
    then have "map (\<lambda>y. if key y = k then f y else y) ys = ys"
      by (simp add: map_idI)
    ultimately show ?thesis using True by (auto simp: comp_def)
  next
    case False
    with Cons show ?thesis by auto
  qed
qed simp

lemma distinct_map_eqD:
  "distinct (map f xs) \<Longrightarrow> x \<in> set xs \<Longrightarrow> y \<in> set xs \<Longrightarrow> f x = f y \<Longrightarrow> x = y"
  by (auto simp: distinct_map dest: inj_onD)

lemma subs_ok_id: "subs_ok E ctr subs \<Longrightarrow> (v, i, h, r) \<in> set subs \<Longrightarrow> (v', i, h', r') \<in> set subs \<Longrightarrow>
  v' = v \<and> h' = h \<and> r' = r"
  using distinct_map_eqD [of "\<lambda>(v, i, h, r). i" subs "(v, i, h, r)" "(v', i, h', r')"]
  by (simp add: subs_ok_def)

lemma subs_ok_value: "subs_ok E ctr subs \<Longrightarrow> (v, i, h, r) \<in> set subs \<Longrightarrow> (v, i', h', r') \<in> set subs \<Longrightarrow>
  i' = i \<and> h' = h \<and> r' = r"
  using distinct_map_eqD [of fst subs "(v, i, h, r)" "(v, i', h', r')"]
  by (simp add: subs_ok_def)

lemma unknown_uncounted:
  assumes "sess_ok E subs sess" and "s3_ok subs s3" and "\<forall>h. \<not> known subs i h"
  shows "ses_count sess i = 0" and "s3_count s3 i = 0"
proof -
  have "i \<notin> keys t" if "(v, h, t) \<in> set sess" for v h t
  proof
    assume "i \<in> keys t"
    then obtain l h' where "t = Some l" and "(i, h') \<in> set l"
      by (auto simp: keys_def split: option.splits)
    with assms(1) that have "known subs i h'" unfolding sess_ok_def ht_ok_def by fastforce
    with assms(3) show False by blast
  qed
  then show "ses_count sess i = 0" by (auto simp: ses_count_def filter_empty_conv)
  show "s3_count s3 i = 0"
    using assms(2,3)
    by (auto simp: s3_count_def s3_ok_def s3_holds_def filter_empty_conv split: if_splits)
qed

text \<open>A new subject gets a new id and has no reference.\<close>

lemma known_mono: "set subs \<subseteq> set subs' \<Longrightarrow> known subs i h \<Longrightarrow> known subs' i h"
  unfolding known_def by blast

lemma ht_ok_mono: "(\<And>i h. known subs i h \<Longrightarrow> known subs' i h) \<Longrightarrow> ht_ok subs t \<Longrightarrow> ht_ok subs' t"
  unfolding ht_ok_def by blast

lemma sess_ok_mono:
  assumes "\<And>i h. known subs i h \<Longrightarrow> known subs' i h" and "sess_ok E subs sess"
  shows "sess_ok E subs' sess"
  using assms(2) ht_ok_mono [OF assms(1)] by (auto simp: sess_ok_def)

lemma s3_ok_mono:
  "(\<And>i h. known subs i h \<Longrightarrow> known subs' i h) \<Longrightarrow> s3_ok subs s3 \<Longrightarrow> s3_ok subs' s3"
  by (auto simp: s3_ok_def split: if_splits)

lemma ctr_Suc:
  fixes ctr :: u32
  assumes "unat ctr + Suc n < 2 ^ 32"
  shows "ctr < ctr + 1" and "unat (ctr + 1) + n < 2 ^ 32"
proof -
  have "unat (ctr + 1) = Suc (unat ctr)"
    using assms unat_word_ariths(1) [of ctr 1] by simp
  then show "ctr < ctr + 1" and "unat (ctr + 1) + n < 2 ^ 32"
    using assms by (simp_all add: word_less_nat_alt)
qed

lemma books_new_sub:
  assumes ok: "books_ok E ctr subs sess s3" and env: "env_ok E" and lt: "ctr < ctr + 1"
    and new: "v \<notin> fst ` set subs"
  shows "books_ok E (ctr + 1) (subs @ [(v, kv_hash_uint E (ctr + 1), kv_crc_c E v 0, 0)]) sess s3"
proof -
  let ?i = "kv_hash_uint E (ctr + 1)"
  let ?subs = "subs @ [(v, ?i, kv_crc_c E v 0, 0)]"
  from ok have so: "subs_ok E ctr subs" and se: "sess_ok E subs sess" and s3: "s3_ok subs s3"
    and co: "counts_ok subs sess s3"
    by (auto simp: books_ok_def)
  have fresh: "i \<noteq> ?i" if "(w, i, h, r) \<in> set subs" for w i h r
  proof
    assume "i = ?i"
    moreover from so that obtain c where "c \<le> ctr" and "i = kv_hash_uint E c"
      unfolding subs_ok_def by fastforce
    ultimately have "c = ctr + 1" using env by (auto simp: env_ok_def inj_def)
    with \<open>c \<le> ctr\<close> lt show False by simp
  qed
  have k: "known subs i h \<Longrightarrow> known ?subs i h" for i h by (rule known_mono) auto
  have "subs_ok E (ctr + 1) ?subs"
    unfolding subs_ok_def
  proof (intro conjI)
    show "distinct (map fst ?subs)" using so new by (simp add: subs_ok_def)
    show "distinct (map (\<lambda>(v, i, h, r). i) ?subs)" using so fresh by (auto simp: subs_ok_def)
    have "ctr + 1 \<noteq> 0" using lt by auto
    moreover have "c \<le> ctr \<Longrightarrow> c \<le> ctr + 1" for c using lt by simp
    ultimately show "\<forall>(v, i, h, r)\<in>set ?subs. h = kv_crc_c E v 0 \<and>
        (\<exists>c. c \<noteq> 0 \<and> c \<le> ctr + 1 \<and> i = kv_hash_uint E c)"
      using so unfolding subs_ok_def by fastforce
  qed
  moreover have "counts_ok ?subs sess s3"
  proof -
    have "\<forall>h. \<not> known subs ?i h" using fresh by (auto simp: known_def)
    from unknown_uncounted [OF se s3 this] co show ?thesis by (auto simp: counts_ok_def)
  qed
  ultimately show ?thesis
    using sess_ok_mono [OF k se] s3_ok_mono [OF k s3] by (simp add: books_ok_def)
qed

text \<open>
  A session exchanges its table and the reference counts follow: \<open>d\<close> is the change of the count.
\<close>

definition recount :: "(u32 \<Rightarrow> 31 word) \<Rightarrow> sub_row list \<Rightarrow> sub_row list" where
  "recount d subs = map (\<lambda>(v, i, h, r). (v, i, h, r + d i)) subs"

definition retable :: "string \<Rightarrow> uint_ht option \<Rightarrow> ses_row list \<Rightarrow> ses_row list" where
  "retable nm t sess = map (\<lambda>x. if fst x = nm then (fst x, fst (snd x), t) else x) sess"

lemma set_recount: "set (recount d subs) = (\<lambda>(v, i, h, r). (v, i, h, r + d i)) ` set subs"
  by (simp add: recount_def)

lemma known_recount [simp]: "known (recount d subs) i h = known subs i h"
  by (force simp: known_def set_recount)

lemma ht_ok_recount [simp]: "ht_ok (recount d subs) t = ht_ok subs t"
  by (simp add: ht_ok_def)

lemma subs_ok_recount [simp]: "subs_ok E ctr (recount d subs) = subs_ok E ctr subs"
proof -
  have "map fst (recount d subs) = map fst subs"
    and "map (\<lambda>(v, i, h, r). i) (recount d subs) = map (\<lambda>(v, i, h, r). i) subs"
    by (auto simp: recount_def)
  then show ?thesis by (auto simp: subs_ok_def set_recount)
qed

lemma sess_ok_recount [simp]: "sess_ok E (recount d subs) sess = sess_ok E subs sess"
  by (simp add: sess_ok_def)

lemma s3_ok_recount [simp]: "s3_ok (recount d subs) s3 = s3_ok subs s3"
  by (simp add: s3_ok_def)

lemma counts_recount:
  assumes "counts_ok subs sess s3"
    and "\<And>i h. known subs i h \<Longrightarrow> of_nat (ses_count sess' i + s3_count s3' i) =
           of_nat (ses_count sess i + s3_count s3 i) + d i"
  shows "counts_ok (recount d subs) sess' s3'"
  using assms unfolding counts_ok_def set_recount known_def by fastforce

lemma map_fst_retable [simp]: "map fst (retable nm t sess) = map fst sess"
  by (auto simp: retable_def)

lemma books_retable:
  assumes ok: "books_ok E ctr subs sess s3" and nm: "(nm, hh, t0) \<in> set sess"
    and t: "ht_ok subs t" and d: "\<And>i. d i = of_bool (i \<in> keys t) - of_bool (i \<in> keys t0)"
  shows "books_ok E ctr (recount d subs) (retable nm t sess) s3"
proof -
  from ok have se: "sess_ok E subs sess" and co: "counts_ok subs sess s3"
    by (auto simp: books_ok_def)
  have "sess_ok E subs (retable nm t sess)"
  proof -
    have "\<exists>t''. (v, h, t'') \<in> set sess \<and> (t' = t \<or> t' = t'')"
      if "(v, h, t') \<in> set (retable nm t sess)" for v h t'
      using that by (force simp: retable_def)
    then show ?thesis using se t unfolding sess_ok_def by fastforce
  qed
  moreover have "counts_ok (recount d subs) (retable nm t sess) s3"
  proof (rule counts_recount [OF co])
    fix i h
    have "distinct (map fst sess)" using se by (simp add: sess_ok_def)
    from length_filter_upd [OF this nm, of nm "\<lambda>(v, h, t). i \<in> keys t"
        "\<lambda>x. (fst x, fst (snd x), t)"]
    have "ses_count (retable nm t sess) i + of_bool (i \<in> keys t0) =
          ses_count sess i + of_bool (i \<in> keys t)"
      by (simp add: ses_count_def retable_def)
    from arg_cong [OF this, of "of_nat :: nat \<Rightarrow> 31 word"]
    show "of_nat (ses_count (retable nm t sess) i + s3_count s3 i) =
          of_nat (ses_count sess i + s3_count s3 i) + d i"
      by (simp add: d algebra_simps)
  qed
  ultimately show ?thesis using ok by (simp add: books_ok_def)
qed

lemma books_new_session:
  assumes "books_ok E ctr subs sess s3" and "nm \<notin> fst ` set sess"
  shows "books_ok E ctr subs (sess @ [(nm, kv_crc_c E nm 0, Some [])]) s3"
  using assms
  by (auto simp: books_ok_def sess_ok_def ht_ok_def counts_ok_def ses_count_def keys_def)

text \<open>The SASS3 subscribers change and the counts follow.\<close>

lemma books_s3:
  assumes "books_ok E ctr subs sess s3" and "s3_ok subs s3'"
    and "\<And>i. of_nat (s3_count s3' i) = of_nat (s3_count s3 i) + d i"
  shows "books_ok E ctr (recount d subs) sess s3'"
proof -
  have "counts_ok (recount d subs) sess s3'"
    by (rule counts_recount [of subs sess s3]) (use assms in \<open>auto simp: books_ok_def algebra_simps\<close>)
  then show ?thesis using assms by (simp add: books_ok_def)
qed

text \<open>
  The collection removes rows without a reference and sessions without a table. A zero count means
  no reference as long as fewer than \<open>2 ^ 31\<close> sessions and subscribers exist.
\<close>

lemma of_nat_31_0: "n < 2 ^ 31 \<Longrightarrow> (of_nat n :: 31 word) = 0 \<Longrightarrow> n = 0"
  using nat_dvd_not_less [of n "2 ^ 31"] by (auto simp: word_of_nat_eq_0_iff)

lemma books_gc_subs:
  assumes ok: "books_ok E ctr subs sess s3" and room: "length sess + length s3 < 2 ^ 31"
  shows "books_ok E ctr (filter (\<lambda>(v, i, h, r). r \<noteq> 0) subs) sess s3"
proof -
  let ?subs = "filter (\<lambda>(v, i, h, r). r \<noteq> 0) subs"
  from ok have se: "sess_ok E subs sess" and s3: "s3_ok subs s3" and co: "counts_ok subs sess s3"
    and so: "subs_ok E ctr subs" by (auto simp: books_ok_def)
  have zero: "ses_count sess i = 0 \<and> s3_count s3 i = 0" if "(v, i, h, 0) \<in> set subs" for v i h
  proof -
    let ?n = "ses_count sess i + s3_count s3 i"
    have "?n \<le> length sess + length s3"
      by (simp add: ses_count_def s3_count_def add_mono)
    with room have "?n < 2 ^ 31" by simp
    moreover have "(of_nat ?n :: 31 word) = 0"
      using co that unfolding counts_ok_def by fastforce
    ultimately have "?n = 0" by (rule of_nat_31_0)
    then show ?thesis by simp
  qed
  have keep: "known ?subs i h" if k: "known subs i h" and "ses_count sess i > 0 \<or> s3_count s3 i > 0"
    for i h
    using that zero by (fastforce simp: known_def)
  have "sess_ok E ?subs sess"
  proof -
    have "known ?subs i h" if "(v, hh, Some l) \<in> set sess" "(i, h) \<in> set l" for v hh l i h
    proof (rule keep)
      show "known subs i h" using se that unfolding sess_ok_def ht_ok_def by fastforce
      have "(v, hh, Some l) \<in> set (filter (\<lambda>(v, h, t). i \<in> keys t) sess)"
        using that by (force simp: keys_def)
      then show "ses_count sess i > 0 \<or> s3_count s3 i > 0"
        unfolding ses_count_def by (metis length_pos_if_in_set)
    qed
    with se show ?thesis unfolding sess_ok_def ht_ok_def by fastforce
  qed
  moreover have "s3_ok ?subs s3"
  proof -
    have "known ?subs (s3_subject_id e) (s3_subj_hash e)" if "e \<in> set s3" "s3_in_tab e" for e
    proof (rule keep)
      show "known subs (s3_subject_id e) (s3_subj_hash e)" using s3 that by (simp add: s3_ok_def)
      have "e \<in> set (filter (s3_holds (s3_subject_id e)) s3)" using that by (simp add: s3_holds_def)
      then show "ses_count sess (s3_subject_id e) > 0 \<or> s3_count s3 (s3_subject_id e) > 0"
        unfolding s3_count_def by (metis length_pos_if_in_set)
    qed
    with s3 show ?thesis by (simp add: s3_ok_def)
  qed
  moreover have "counts_ok ?subs sess s3" using co by (auto simp: counts_ok_def)
  moreover have "subs_ok E ctr ?subs" using so by (auto simp: subs_ok_def distinct_map_filter)
  ultimately show ?thesis by (simp add: books_ok_def)
qed

lemma books_gc_sessions:
  assumes "books_ok E ctr subs sess s3" and "\<And>v h t. (v, h, t) \<in> set sess \<Longrightarrow> \<not> P (v, h, t) \<Longrightarrow> t = None"
  shows "books_ok E ctr subs (filter P sess) s3"
proof -
  have "ses_count (filter P sess) i = ses_count sess i" for i
  proof -
    have "filter (\<lambda>(v, h, t). i \<in> keys t) (filter P sess) = filter (\<lambda>(v, h, t). i \<in> keys t) sess"
      unfolding filter_filter
      by (rule filter_cong) (use assms(2) in \<open>force simp: keys_def split: option.splits\<close>)+
    then show ?thesis by (simp add: ses_count_def)
  qed
  with assms(1) show ?thesis
    by (auto simp: books_ok_def sess_ok_def counts_ok_def distinct_map_filter)
qed

section \<open>SASS3 subscribers\<close>

lemma s3_equals_key: "s3_equals k e \<longleftrightarrow> s3_key k = s3_key e"
  by (auto simp: s3_equals_def s3_key_def)

lemma s3_ok_Cons:
  "s3_ok subs (e # s3) \<longleftrightarrow>
     (if s3_in_tab e
      then known subs (s3_subject_id e) (s3_subj_hash e) \<and> s3_key e \<notin> s3_key ` set (filter s3_in_tab s3)
      else s3_subject_id e = 0) \<and> s3_ok subs s3"
  by (auto simp: s3_ok_def)

lemma s3_count_Cons: "s3_count (e # s3) i = of_bool (s3_holds i e) + s3_count s3 i"
  by (simp add: s3_count_def)

lemma s3_perm:
  assumes "mset a = mset c"
  shows "s3_ok subs a = s3_ok subs c" and "s3_count a i = s3_count c i"
proof -
  have "set a = set c" using assms by (metis set_mset_mset)
  moreover have "distinct (map s3_key (filter s3_in_tab a)) = distinct (map s3_key (filter s3_in_tab c))"
    by (rule mset_eq_imp_distinct_iff) (use assms in simp)
  ultimately show "s3_ok subs a = s3_ok subs c" by (simp add: s3_ok_def)
  show "s3_count a i = s3_count c i" unfolding s3_count_def by (metis assms mset_filter size_mset)
qed

text \<open>Times are not part of the books.\<close>

lemma s3_same:
  assumes "map (\<lambda>e. (s3_in_tab e, s3_key e)) a = map (\<lambda>e. (s3_in_tab e, s3_key e)) c"
  shows "s3_ok subs a = s3_ok subs c" and "s3_count a i = s3_count c i"
proof -
  have "list_all2 (\<lambda>e f. s3_in_tab e = s3_in_tab f \<and> s3_key e = s3_key f) a c"
    using assms by (auto simp: list_eq_iff_nth_eq list_all2_conv_all_nth)
  then have "s3_ok subs a = s3_ok subs c \<and> s3_count a i = s3_count c i \<and>
      s3_key ` set (filter s3_in_tab a) = s3_key ` set (filter s3_in_tab c)"
  proof induction
    case (Cons e xs f ys)
    then show ?case
      by (auto simp: s3_ok_Cons s3_count_Cons s3_holds_def s3_key_def)
  qed (simp add: s3_ok_def s3_count_def)
  then show "s3_ok subs a = s3_ok subs c" and "s3_count a i = s3_count c i" by auto
qed

lemma mset_drop_nth: "j < length xs \<Longrightarrow> mset (xs ! j # drop_nth j xs) = mset xs"
  unfolding drop_nth_def
  by (metis append_take_drop_id Cons_nth_drop_Suc mset.simps(2) mset_append union_mset_add_mset_right)

end
