(* ===== verification/Sub_Steps.thy ===== *)
theory Sub_Steps
  imports Sub_Invariant
begin

text \<open>
  Every operation of the subscription database keeps the invariant of \<open>Sub_Invariant\<close>: the
  operations on one pair of a session and a subject, the loops over the tables, the messages and the
  timer, and with them every state that a sequence of them reaches.
\<close>

section \<open>Rows of changed entries\<close>

abbreviation single :: "u32 \<Rightarrow> 31 word \<Rightarrow> u32 \<Rightarrow> 31 word" where
  "single i d \<equiv> (\<lambda>j. if j = i then d else 0)"

lemma sdb_core_D:
  assumes "sdb_core E db"
  shows "subs_ok E (next_subject_ctr db) (sub_rows db)" "sess_ok E (sub_rows db) (ses_rows db)"
    "s3_ok (sub_rows db) (sass3_list db)" "counts_ok (sub_rows db) (ses_rows db) (sass3_list db)"
    "stop_ok db"
  using assms by (auto simp: sdb_core_def books_ok_def)

lemma sub_row_in: "s \<in> set (sub_tab db) \<Longrightarrow>
  (sub_value s, subject_id s, sub_hash s, refcnt s) \<in> set (sub_rows db)"
  by (auto simp: sub_rows_def)

lemma ses_row_in: "s \<in> set (session_tab db) \<Longrightarrow> (ses_value s, ses_hash s, sub_ht s) \<in> set (ses_rows db)"
  by (auto simp: ses_rows_def)

lemma sub_rows_upd:
  assumes ok: "subs_ok E ctr (sub_rows db)" and s: "s \<in> set (sub_tab db)"
    and f: "sub_value (f s) = sub_value s" "subject_id (f s) = subject_id s"
      "sub_hash (f s) = sub_hash s" "refcnt (f s) = refcnt s + d"
  shows "sub_rows (upd_sub (sub_value s) f db) = recount (single (subject_id s) d) (sub_rows db)"
proof -
  have "(if sub_value x = sub_value s then f x else x) = (if x = s then f s else x) \<and>
        (subject_id x = subject_id s \<longleftrightarrow> x = s)" if x: "x \<in> set (sub_tab db)" for x
  proof -
    have "sub_value x = sub_value s \<longleftrightarrow> x = s" and "subject_id x = subject_id s \<longleftrightarrow> x = s"
      using ok s x distinct_map_eqD [of sub_value "sub_tab db" x s]
        distinct_map_eqD [of subject_id "sub_tab db" x s]
      by (auto simp: subs_ok_def sub_rows_def comp_def)
    then show ?thesis by auto
  qed
  then show ?thesis using f by (auto simp: sub_rows_def upd_sub_def recount_def)
qed

lemma ses_rows_upd:
  assumes d: "distinct (map fst (ses_rows db))" and s: "s \<in> set (session_tab db)"
    and f: "ses_value (f s) = ses_value s" "ses_hash (f s) = ses_hash s"
  shows "ses_rows (upd_session (ses_value s) f db) = retable (ses_value s) (sub_ht (f s)) (ses_rows db)"
proof -
  have "ses_value x = ses_value s \<longleftrightarrow> x = s" if x: "x \<in> set (session_tab db)" for x
    using d s x distinct_map_eqD [of ses_value "session_tab db" x s]
    by (auto simp: ses_rows_def comp_def)
  then show ?thesis using f by (auto simp: ses_rows_def upd_session_def retable_def)
qed

lemma live_rows_single:
  assumes ok: "subs_ok E ctr subs" and m: "(v, i, h, r) \<in> set subs"
  shows "live_rows (recount (single i d) subs) + of_bool (r \<noteq> 0) =
         live_rows subs + of_bool (r + d \<noteq> 0)"
proof -
  have "recount (single i d) subs =
        map (\<lambda>y. if (\<lambda>(v, i, h, r). i) y = i then (\<lambda>(v, i, h, r). (v, i, h, r + d)) y else y) subs"
    by (auto simp: recount_def)
  then show ?thesis
    using length_filter_upd [of "\<lambda>(v, i, h, r). i" subs "(v, i, h, r)" i
        "\<lambda>(v, i, h, r). r \<noteq> 0" "\<lambda>(v, i, h, r). (v, i, h, r + d)"] ok m
    by (simp add: live_rows_def subs_ok_def)
qed

lemma find_session_in: "find_session h nm db = Some s \<Longrightarrow> s \<in> set (session_tab db) \<and> ses_value s = nm"
  by (auto simp: find_session_def find_Some_iff)

lemma find_sub_in: "find_sub h v db = Some s \<Longrightarrow> s \<in> set (sub_tab db) \<and> sub_value s = v"
  by (auto simp: find_sub_def find_Some_iff)

lemma get_session_by_in: "get_session_by i h db = Some s \<Longrightarrow> s \<in> set (session_tab db)"
  by (auto simp: get_session_by_def find_Some_iff dest: nth_mem)

lemma get_session_id_in: "get_session_id i db = Some (Some s) \<Longrightarrow> s \<in> set (session_tab db)"
  by (auto simp: get_session_id_def get_session_by_in split: option.splits)

lemma get_subject_in: "get_subject i h db = Some s \<Longrightarrow>
  s \<in> set (sub_tab db) \<and> subject_id s = i \<and> sub_hash s = h"
proof -
  assume "get_subject i h db = Some s"
  then have "s \<in> set (filter (\<lambda>s. sub_hash s = h) (sub_tab db))" "subject_id s = i"
    by (auto simp: get_subject_def find_Some_iff dest: nth_mem)
  then show ?thesis by simp
qed

lemma get_subject_known: "known (sub_rows db) i h \<Longrightarrow> \<exists>s. get_subject i h db = Some s"
proof (rule ccontr)
  assume "known (sub_rows db) i h" and "\<nexists>s. get_subject i h db = Some s"
  then show False by (auto simp: known_def sub_rows_def get_subject_def find_None_iff)
qed

lemma find_sub_None: "subs_ok E ctr (sub_rows db) \<Longrightarrow> find_sub (kv_crc_c E v 0) v db = None \<Longrightarrow>
  v \<notin> fst ` set (sub_rows db)"
  by (fastforce simp: find_sub_def find_None_iff sub_rows_def subs_ok_def)

section \<open>One subscription\<close>

lemma get_subscription_inv:
  assumes inv: "sdb_inv E (Suc n) b db" and env: "env_ok E"
    and g: "get_subscription E v db = (s, db')"
  shows "sdb_inv E n b db' \<and> s \<in> set (sub_tab db') \<and> sub_value s = v \<and>
         session_tab db' = session_tab db"
proof (cases "find_sub (kv_crc_c E v 0) v db")
  case (Some x)
  with g have "s = x" "db' = db" by (auto simp: get_subscription_def)
  with Some inv find_sub_in show ?thesis by (auto intro: sdb_inv_mono)
next
  case None
  let ?c = "next_subject_ctr db + 1"
  from None g have s: "s = sub_start v (kv_crc_c E v 0) (kv_hash_uint E ?c) (cur_mono db)"
    and db': "db' = db\<lparr>next_subject_ctr := ?c, sub_tab := sub_tab db @ [s]\<rparr>"
    by (auto simp: get_subscription_def next_subject_id_def Let_def)
  from inv have core: "sdb_core E db" and rm: "room (Suc n) db"
    and act: "b \<longrightarrow> active_ok db \<and> sass3_list db = []" by (auto simp: sdb_inv_def)
  have rows: "sub_rows db' = sub_rows db @ [(v, kv_hash_uint E ?c, kv_crc_c E v 0, 0)]"
    by (simp add: db' s sub_rows_def sub_start_def)
  have same: "ses_rows db' = ses_rows db" "sass3_list db' = sass3_list db" "stop_ok db' = stop_ok db"
    and ctr: "next_subject_ctr db' = ?c"
    by (simp_all add: db' ses_rows_def stop_ok_def)
  have "sdb_core E db'"
    using books_new_sub [of E "next_subject_ctr db" "sub_rows db" "ses_rows db" "sass3_list db" v]
      core env ctr_Suc(1) [of "next_subject_ctr db" n] rm find_sub_None [OF _ None, of "next_subject_ctr db"]
    by (auto simp: sdb_core_def rows same ctr room_def books_ok_def)
  moreover have "room n db'" using rm ctr_Suc(2) [of "next_subject_ctr db" n]
    by (simp add: room_def db')
  moreover have "b \<longrightarrow> active_ok db' \<and> sass3_list db' = []"
    using act by (simp add: active_ok_def live_rows_def rows same) (simp add: db')
  ultimately show ?thesis by (simp add: sdb_inv_def db' s sub_start_def)
qed

lemma touch_sub_inv:
  assumes inv: "sdb_inv E (Suc n) b db" and env: "env_ok E" and t: "touch_sub E v db = (s, db')"
  shows "sdb_inv E n b db' \<and> s \<in> set (sub_tab db') \<and> sub_value s = v \<and>
         session_tab db' = session_tab db"
proof -
  obtain x d where g: "get_subscription E v db = (x, d)" by fastforce
  from get_subscription_inv [OF inv env g] have d: "sdb_inv E n b d" "x \<in> set (sub_tab d)"
    "sub_value x = v" "session_tab d = session_tab db" by auto
  from t g have s: "s = x\<lparr>sub_ref_mono := cur_mono db\<rparr>" and db': "db' = upd_sub v (\<lambda>_. s) d"
    by (auto simp: touch_sub_def Let_def)
  have "y = x" if "y \<in> set (sub_tab d)" "sub_value y = v" for y
    using that d distinct_map_eqD [of sub_value "sub_tab d" y x]
    by (auto simp: sdb_inv_def sdb_core_def books_ok_def subs_ok_def sub_rows_def comp_def)
  then have "same_books d db'" unfolding db' by (intro same_books_sub) (auto simp: s d)
  with d show ?thesis by (auto simp: db' upd_sub_def s intro: same_books_inv image_eqI)
qed

section \<open>One pair of a session and a subject\<close>

text \<open>
  A session exchanges its table and one subscription its count. The counter of active subscriptions
  is not part of the core, the caller adjusts it.
\<close>

lemma pair_core:
  assumes core: "sdb_core E db" and s: "s \<in> set (session_tab db)" and x: "x \<in> set (sub_tab db)"
    and s': "ses_value s' = ses_value s" "ses_hash s' = ses_hash s"
      "ses_state s' = RV_SESSION_STOP \<longrightarrow> sub_ht s' = None"
    and x': "sub_value x' = sub_value x" "subject_id x' = subject_id x" "sub_hash x' = sub_hash x"
      "refcnt x' = refcnt x + d"
    and t: "ht_ok (sub_rows db) (sub_ht s')"
    and d: "\<And>i. single (subject_id x) d i = of_bool (i \<in> keys (sub_ht s')) - of_bool (i \<in> keys (sub_ht s))"
    and db1: "db1 = upd_session (ses_value s) (\<lambda>_. s') (upd_sub (sub_value x) (\<lambda>_. x') db)"
  shows "sdb_core E db1" and "room n db \<Longrightarrow> room n db1" and "sass3_list db1 = sass3_list db"
    and "sub_rows db1 = recount (single (subject_id x) d) (sub_rows db)"
    and "subscriptions db1 = subscriptions db"
proof -
  note ok = sdb_core_D [OF core]
  have sub: "sub_rows db1 = recount (single (subject_id x) d) (sub_rows db)"
    using sub_rows_upd [of E _ db x "\<lambda>_. x'" d, OF ok(1) x] x'
    by (simp add: db1 upd_session_def sub_rows_def)
  have ses: "ses_rows db1 = retable (ses_value s) (sub_ht s') (ses_rows db)"
    using ses_rows_upd [of "upd_sub (sub_value x) (\<lambda>_. x') db" s "\<lambda>_. s'"] s s' ok(2)
    by (simp add: db1 upd_sub_def ses_rows_def sess_ok_def)
  have rest: "next_subject_ctr db1 = next_subject_ctr db" "sass3_list db1 = sass3_list db"
    "subscriptions db1 = subscriptions db" "length (session_tab db1) = length (session_tab db)"
    by (simp_all add: db1 upd_session_def upd_sub_def)
  have "books_ok E (next_subject_ctr db) (recount (single (subject_id x) d) (sub_rows db))
          (retable (ses_value s) (sub_ht s') (ses_rows db)) (sass3_list db)"
    by (rule books_retable [OF _ ses_row_in [OF s] t])
       (use core d in \<open>auto simp: sdb_core_def\<close>)
  moreover have "stop_ok db1"
    using ok(5) s'(3) by (auto simp: db1 stop_ok_def upd_session_def upd_sub_def)
  ultimately show "sdb_core E db1" by (simp add: sdb_core_def sub ses rest)
  show "sub_rows db1 = recount (single (subject_id x) d) (sub_rows db)" by (rule sub)
  show "room n db \<Longrightarrow> room n db1" "sass3_list db1 = sass3_list db" "subscriptions db1 = subscriptions db"
    by (simp_all add: room_def rest)
qed

text \<open>The counter follows when the count leaves or reaches zero.\<close>

definition bump :: "u32 \<Rightarrow> sdb \<Rightarrow> sdb" where
  "bump k db = db\<lparr>subscriptions := (subscriptions db)\<lparr>active := active (subscriptions db) + k\<rparr>\<rparr>"

lemma bump_core [simp]: "sdb_core E (bump k db) = sdb_core E db" "room n (bump k db) = room n db"
  "sass3_list (bump k db) = sass3_list db" "sub_rows (bump k db) = sub_rows db"
  by (simp_all add: bump_def sdb_core_def room_def sub_rows_def ses_rows_def stop_ok_def)

lemma bump_0: "same_books db (bump 0 db)"
  by (simp add: bump_def same_books_def sub_rows_def ses_rows_def stop_ok_def)

lemma active_bump:
  assumes ok: "subs_ok E ctr (sub_rows db)" and x: "(v, i, h, r) \<in> set (sub_rows db)"
    and rows: "sub_rows db1 = recount (single i d) (sub_rows db)"
    and act: "active_ok db" "subscriptions db1 = subscriptions db"
    and k: "k = of_bool (r + d \<noteq> 0) - of_bool (r \<noteq> 0)"
  shows "active_ok (bump k db1)"
proof -
  have "live_rows (recount (single i d) (sub_rows db)) + of_bool (r \<noteq> 0) =
        live_rows (sub_rows db) + of_bool (r + d \<noteq> 0)"
    by (rule live_rows_single [OF ok x])
  then have "of_nat (live_rows (sub_rows db1)) + of_bool (r \<noteq> 0) =
             of_nat (live_rows (sub_rows db)) + (of_bool (r + d \<noteq> 0) :: u32)"
    unfolding rows by (drule_tac f = "of_nat :: nat \<Rightarrow> u32" in arg_cong) (simp only: of_nat_add of_nat_of_bool)
  then have "of_nat (live_rows (sub_rows db1)) = of_nat (live_rows (sub_rows db)) + k"
    unfolding k by (simp only: add_diff_eq eq_diff_eq)
  moreover have "active (subscriptions (bump k db1)) = active (subscriptions db) + k"
    using act(2) by (simp add: bump_def)
  ultimately show ?thesis using act(1) by (simp add: active_ok_def)
qed

lemma keys_add: "keys (Some (ht_set i h l)) = insert i (keys (Some l))"
  by (auto simp: keys_def ht_set_def)

lemma keys_remove: "keys (Some (ht_remove i l)) = keys (Some l) - {i}"
  by (auto simp: keys_def ht_remove_def)

lemma map_of_keys: "map_of l i = None \<longleftrightarrow> i \<notin> keys (Some l)"
  by (simp add: keys_def map_of_eq_None_iff)

lemma ht_ok_session:
  "sdb_core E db \<Longrightarrow> s \<in> set (session_tab db) \<Longrightarrow> ht_ok (sub_rows db) (sub_ht s)"
  using sdb_core_D(2) ses_row_in unfolding sess_ok_def by fast

lemma live_session: "sdb_core E db \<Longrightarrow> s \<in> set (session_tab db) \<Longrightarrow> sub_ht s = Some l \<Longrightarrow>
  ses_state s \<noteq> RV_SESSION_STOP"
  using sdb_core_D(5) by (fastforce simp: stop_ok_def)

lemma count_held:
  assumes core: "sdb_core E db" and x: "x \<in> set (sub_tab db)"
  shows "refcnt x = of_nat (ses_count (ses_rows db) (subject_id x) + s3_count (sass3_list db) (subject_id x))"
  using sdb_core_D(4) [OF core] sub_row_in [OF x] unfolding counts_ok_def by fast

lemma ses_count_less:
  assumes "(v, h, t) \<in> set sess" and "i \<notin> keys t"
  shows "ses_count sess i < length sess"
  unfolding ses_count_def using assms by (intro length_filter_less) auto

lemma bump_books: "same_books d d' \<Longrightarrow> same_books (bump k d) (bump k d')"
  by (simp add: same_books_def bump_def sub_rows_def ses_rows_def stop_ok_def)

lemma sub_unique:
  "sdb_core E db \<Longrightarrow> x \<in> set (sub_tab db) \<Longrightarrow> y \<in> set (sub_tab db) \<Longrightarrow> sub_value y = sub_value x \<Longrightarrow>
   y = x"
  using sdb_core_D(1) distinct_map_eqD [of sub_value "sub_tab db" y x]
  by (fastforce simp: subs_ok_def sub_rows_def comp_def)

lemma session_unique:
  "sdb_core E db \<Longrightarrow> s \<in> set (session_tab db) \<Longrightarrow> y \<in> set (session_tab db) \<Longrightarrow>
   ses_value y = ses_value s \<Longrightarrow> y = s"
  using sdb_core_D(2) distinct_map_eqD [of ses_value "session_tab db" y s]
  by (fastforce simp: sess_ok_def ses_rows_def comp_def)

text \<open>Storing the entries that are already there changes nothing.\<close>

lemma restore_books:
  assumes core: "sdb_core E db" and s: "s \<in> set (session_tab db)" and x: "x \<in> set (sub_tab db)"
  shows "same_books db (upd_session (ses_value s) (\<lambda>_. s) (upd_sub (sub_value x) (\<lambda>_. x) db))"
proof -
  have "same_books db (upd_sub (sub_value x) (\<lambda>_. x) db)"
    by (rule same_books_sub) (auto dest: sub_unique [OF core x])
  also have "same_books (upd_sub (sub_value x) (\<lambda>_. x) db)
    (upd_session (ses_value s) (\<lambda>_. s) (upd_sub (sub_value x) (\<lambda>_. x) db))"
    by (rule same_books_session) (auto simp: upd_sub_def dest: session_unique [OF core s])
  finally show ?thesis .
qed

lemma hold_inv:
  assumes inv: "sdb_inv E n b db" and s: "s \<in> set (session_tab db)" and x: "x \<in> set (sub_tab db)"
    and t: "sub_ht s = Some t" and new: "subject_id x \<notin> keys (Some t)"
    and s': "s' = s\<lparr>sub_ht := Some (ht_set (subject_id x) (sub_hash x) t)\<rparr>"
    and x': "x' = x\<lparr>refcnt := refcnt x + 1, ref7cnt := q\<rparr>"
  shows "sdb_inv E n b (bump (of_bool (refcnt x' = 1))
           (upd_session (ses_value s) (\<lambda>_. s') (upd_sub (sub_value x) (\<lambda>_. x') db)))"
    (is "sdb_inv E n b (bump ?k ?d)")
proof -
  have core: "sdb_core E db" and rm: "room n db" and act: "b \<longrightarrow> active_ok db \<and> sass3_list db = []"
    using inv by (auto simp: sdb_inv_def)
  have "known (sub_rows db) (subject_id x) (sub_hash x)"
    using sub_row_in [OF x] by (auto simp: known_def)
  then have ht: "ht_ok (sub_rows db) (sub_ht s')"
    using ht_ok_session [OF core s] t new by (auto simp: ht_ok_def s' ht_set_def keys_def)
  have dk: "single (subject_id x) 1 i = of_bool (i \<in> keys (sub_ht s')) - of_bool (i \<in> keys (sub_ht s))"
    for i using new by (auto simp: s' t keys_add)
  have e: "ses_value s' = ses_value s" "ses_hash s' = ses_hash s"
    "ses_state s' = RV_SESSION_STOP \<longrightarrow> sub_ht s' = None" "sub_value x' = sub_value x"
    "subject_id x' = subject_id x" "sub_hash x' = sub_hash x" "refcnt x' = refcnt x + 1"
    using live_session [OF core s t] by (simp_all add: s' x')
  note p = pair_core [OF core s x e ht dk refl]
  have "active_ok (bump ?k ?d)" if "active_ok db"
  proof (rule active_bump [OF sdb_core_D(1) [OF core] sub_row_in [OF x] p(4) that p(5)])
    have "ses_count (ses_rows db) (subject_id x) < length (ses_rows db)"
      using ses_count_less [OF ses_row_in [OF s]] new t by simp
    moreover have "s3_count (sass3_list db) (subject_id x) \<le> length (sass3_list db)"
      by (simp add: s3_count_def)
    ultimately have "Suc (ses_count (ses_rows db) (subject_id x) +
        s3_count (sass3_list db) (subject_id x)) < 2 ^ 31"
      using rm by (simp add: room_def length_ses_rows)
    from of_nat_31_0 [OF this] have "refcnt x + 1 \<noteq> 0"
      using count_held [OF core x] by (auto simp: add.commute)
    then show "?k = of_bool (refcnt x + 1 \<noteq> 0) - of_bool (refcnt x \<noteq> 0)"
      by (auto simp: x')
  qed
  then show ?thesis using p(1,3) p(2) [OF rm] act by (simp add: sdb_inv_def)
qed

lemma unhold_inv:
  assumes inv: "sdb_inv E n b db" and s: "s \<in> set (session_tab db)" and x: "x \<in> set (sub_tab db)"
    and t: "sub_ht s = Some t" and old: "subject_id x \<in> keys (Some t)" and r: "refcnt x \<noteq> 0"
    and s': "s' = s\<lparr>sub_ht := Some (ht_remove (subject_id x) t)\<rparr>"
    and x': "x' = x\<lparr>refcnt := refcnt x - 1, ref7cnt := q\<rparr>"
  shows "sdb_inv E n b (bump (- of_bool (refcnt x' = 0))
           (upd_session (ses_value s) (\<lambda>_. s') (upd_sub (sub_value x) (\<lambda>_. x') db)))"
    (is "sdb_inv E n b (bump ?k ?d)")
proof -
  have core: "sdb_core E db" and rm: "room n db" and act: "b \<longrightarrow> active_ok db \<and> sass3_list db = []"
    using inv by (auto simp: sdb_inv_def)
  have ht: "ht_ok (sub_rows db) (sub_ht s')"
    using ht_ok_session [OF core s] t by (auto simp: ht_ok_def s' ht_remove_def distinct_map_filter)
  have dk: "single (subject_id x) (- 1) i = of_bool (i \<in> keys (sub_ht s')) - of_bool (i \<in> keys (sub_ht s))"
    for i using old by (auto simp: s' t keys_remove)
  have e: "ses_value s' = ses_value s" "ses_hash s' = ses_hash s"
    "ses_state s' = RV_SESSION_STOP \<longrightarrow> sub_ht s' = None" "sub_value x' = sub_value x"
    "subject_id x' = subject_id x" "sub_hash x' = sub_hash x" "refcnt x' = refcnt x + (- 1)"
    using live_session [OF core s t] by (simp_all add: s' x')
  note p = pair_core [OF core s x e ht dk refl]
  have "active_ok (bump ?k ?d)" if "active_ok db"
    by (rule active_bump [OF sdb_core_D(1) [OF core] sub_row_in [OF x] p(4) that p(5)])
       (use r in \<open>auto simp: x'\<close>)
  then show ?thesis using p(1,3) p(2) [OF rm] act by (simp add: sdb_inv_def)
qed

lemma listen_ref_inv:
  assumes inv: "sdb_inv E (Suc n) b db" and env: "env_ok E"
    and l: "listen_ref E nm sub db = Some (v, added, coll, db')"
  shows "sdb_inv E n b db'"
proof -
  obtain x d1 where tch: "touch_sub E (strip_nul sub) db = (x, d1)" by fastforce
  from touch_sub_inv [OF inv env tch] have d1: "sdb_inv E n b d1" and x: "x \<in> set (sub_tab d1)"
    and xv: "sub_value x = strip_nul sub" by auto
  from l tch obtain s s' x' where fs: "find_session (kv_crc_c E nm 0) nm d1 = Some s"
    and a: "add_subject s x = Some (s', x', added)"
    and db': "db' = (let d2 = upd_session nm (\<lambda>_. s') (upd_sub (strip_nul sub) (\<lambda>_. x') d1);
                         d3 = (if added then host_digest E s' (strip_nul sub) True d2 else d2)
                     in if added \<and> refcnt x' = 1 then bump 1 d3 else d3)"
    by (auto simp: listen_ref_def Let_def bump_def split: bind_splits if_splits)
  from find_session_in [OF fs] have s: "s \<in> set (session_tab d1)" and nm: "ses_value s = nm" by auto
  from a obtain t where t: "sub_ht s = Some t" by (auto simp: add_subject_def split: option.splits)
  define d2 where "d2 = upd_session nm (\<lambda>_. s') (upd_sub (strip_nul sub) (\<lambda>_. x') d1)"
  show ?thesis
  proof (cases added)
    case True
    with a t have "subject_id x \<notin> keys (Some t)"
      and "s' = s\<lparr>sub_ht := Some (ht_set (subject_id x) (sub_hash x) t)\<rparr>"
      and "x' = x\<lparr>refcnt := refcnt x + 1, ref7cnt := has_daemon s \<or> ref7cnt x\<rparr>"
      by (auto simp: add_subject_def map_of_keys split: if_splits)
    from hold_inv [OF d1 s x t this]
    have "sdb_inv E n b (bump (of_bool (refcnt x' = 1)) d2)" by (simp add: nm xv d2_def)
    moreover have "same_books (bump (of_bool (refcnt x' = 1)) d2) db'"
      using True bump_books [OF same_books_digest [of d2 E s' "strip_nul sub" True], of 1]
        bump_books [OF same_books_digest [of d2 E s' "strip_nul sub" True], of 0]
      by (cases "refcnt x' = 1") (auto simp: db' d2_def Let_def bump_def)
    ultimately show ?thesis by (rule same_books_inv [rotated])
  next
    case False
    with a t have "s' = s" and "x' = x" by (auto simp: add_subject_def split: if_splits)
    moreover have "db' = d2" using False by (simp add: db' d2_def)
    moreover have "sdb_core E d1" using d1 by (simp add: sdb_inv_def)
    ultimately have "same_books d1 db'"
      using restore_books [OF _ s x] by (simp add: d2_def nm xv)
    then show ?thesis using d1 by (rule same_books_inv)
  qed
qed

lemma sub_dropped_books:
  "sub_dropped E h x db = Some (c, db') \<Longrightarrow> same_books (bump (- of_bool (refcnt x = 0)) db) db'"
proof -
  assume s: "sub_dropped E h x db = Some (c, db')"
  show ?thesis
  proof (cases "refcnt x = 0")
    case True
    with s have "db' = sub_removed db" by (auto simp: sub_dropped_def)
    with True show ?thesis
      by (simp add: same_books_def sub_removed_def bump_def sub_rows_def ses_rows_def stop_ok_def)
  next
    case False
    with s have "same_books db db'"
      by (auto simp: sub_dropped_def query_rv7_books split: if_splits bind_splits)
    then show ?thesis using False by (simp add: bump_def)
  qed
qed

lemma deref_inv:
  assumes inv: "sdb_inv E n b db" and s: "s \<in> set (session_tab db)" and x: "x \<in> set (sub_tab db)"
    and d: "deref_subscription E s x db = Some (ok, coll, db')"
  shows "sdb_inv E n b db'"
proof -
  obtain s' x' rem where r: "rem_subject s x = Some (s', x', rem)"
    using d by (auto simp: deref_subscription_def split: bind_splits)
  show ?thesis
  proof (cases rem)
    case True
    let ?d = "upd_session (ses_value s) (\<lambda>_. s') (upd_sub (sub_value x) (\<lambda>_. x') db)"
    let ?d2 = "host_digest E s' (sub_value x) False ?d"
    from r True obtain t where t: "sub_ht s = Some t" and "subject_id x \<in> keys (Some t)"
      and "refcnt x \<noteq> 0" and "s' = s\<lparr>sub_ht := Some (ht_remove (subject_id x) t)\<rparr>"
      and "x' = x\<lparr>refcnt := refcnt x - 1, ref7cnt := \<not> has_daemon s \<and> ref7cnt x\<rparr>"
      by (auto simp: rem_subject_def map_of_keys [THEN arg_cong, of Not, simplified] keys_def
          split: if_splits option.splits)
    from unhold_inv [OF inv s x this]
    have i: "sdb_inv E n b (bump (- of_bool (refcnt x' = 0)) ?d)" .
    from d r True have "sub_dropped E (ses_host_id s) x' ?d2 = Some (coll, db')"
      by (auto simp: deref_subscription_def Let_def split: bind_splits)
    from sub_dropped_books [OF this] have "same_books (bump (- of_bool (refcnt x' = 0)) ?d) db'"
      by (rule same_books_trans [OF bump_books [OF same_books_digest]])
    from same_books_inv [OF this i] show ?thesis .
  next
    case False
    with d r inv show ?thesis by (auto simp: deref_subscription_def split: bind_splits)
  qed
qed

lemma listen_stop_inv:
  assumes inv: "sdb_inv E (Suc n) b db" and env: "env_ok E"
    and l: "listen_stop E nm v db = Some (orphan, coll, db')"
  shows "sdb_inv E n b db'"
proof -
  from l obtain s orph db1 where fs: "find_session (kv_crc_c E nm 0) nm db = Some s"
    and d: "(case find_sub (kv_crc_c E v 0) v db of
          Some x \<Rightarrow> do { (ok, coll, db1) \<leftarrow> deref_subscription E s x db; Some (\<not> ok, coll, db1) }
        | None \<Rightarrow> Some (True, False, snd (get_subscription E v db))) = Some (orph, coll, db1)"
    and db': "db' = (if orph then upd_session nm set_query db1 else db1)"
    by (auto simp: listen_stop_def split: bind_splits)
  have s: "s \<in> set (session_tab db)" using find_session_in [OF fs] by simp
  have "sdb_inv E n b db1"
  proof (cases "find_sub (kv_crc_c E v 0) v db")
    case None
    then have "db1 = snd (get_subscription E v db)" using d by auto
    then show ?thesis using get_subscription_inv [OF inv env] by (metis prod.collapse)
  next
    case (Some x)
    then obtain ok where "deref_subscription E s x db = Some (ok, coll, db1)"
      using d by (auto split: bind_splits)
    from deref_inv [OF inv s _ this] find_sub_in [OF Some] show ?thesis
      by (auto intro: sdb_inv_mono)
  qed
  then show ?thesis using same_books_inv [OF same_books_set_query] by (auto simp: db')
qed

section \<open>Stopping a session\<close>

text \<open>The rows change to the given ones, everything else of the books stays.\<close>

definition to_rows :: "sub_row list \<Rightarrow> sdb \<Rightarrow> sdb \<Rightarrow> bool" where
  "to_rows subs db db' \<longleftrightarrow> sub_rows db' = subs \<and> ses_rows db' = ses_rows db \<and>
     sass3_list db' = sass3_list db \<and> next_subject_ctr db' = next_subject_ctr db \<and>
     (stop_ok db \<longrightarrow> stop_ok db') \<and> (active_ok db \<longrightarrow> active_ok db')"

lemma recount_recount: "recount d (recount d' subs) = recount (\<lambda>i. d' i + d i) subs"
  by (auto simp: recount_def)

lemma to_rows_trans:
  "to_rows (recount d (sub_rows a)) a b \<Longrightarrow> to_rows (recount d' (sub_rows b)) b c \<Longrightarrow>
   to_rows (recount (\<lambda>i. d i + d' i) (sub_rows a)) a c"
  by (auto simp: to_rows_def recount_recount)

lemma unsub_one:
  assumes ok: "subs_ok E ctr (sub_rows db)" and x: "x \<in> set (sub_tab db)" and r: "refcnt x \<noteq> 0"
    and x': "x' = x\<lparr>ref7cnt := q, refcnt := refcnt x - 1\<rparr>"
    and d: "sub_dropped E hh x' (host_digest E s v False (upd_sub (sub_value x) (\<lambda>_. x') db)) =
            Some (c, d2)"
  shows "to_rows (recount (single (subject_id x) (- 1)) (sub_rows db)) db (emit_cb E ev d2)"
proof -
  let ?d = "upd_sub (sub_value x) (\<lambda>_. x') db" and ?k = "- of_bool (refcnt x' = 0)"
  have rows: "sub_rows ?d = recount (single (subject_id x) (- 1)) (sub_rows db)"
    by (rule sub_rows_upd [OF ok x]) (simp_all add: x')
  have "same_books (bump ?k ?d) d2"
    using bump_books [OF same_books_digest] sub_dropped_books [OF d] by (rule same_books_trans)
  then have sb: "same_books (bump ?k ?d) (emit_cb E ev d2)"
    by (rule same_books_trans) simp
  have "active_ok (bump ?k ?d)" if "active_ok db"
    by (rule active_bump [OF ok sub_row_in [OF x] rows that])
       (use r in \<open>auto simp: x' upd_sub_def\<close>)
  moreover have "ses_rows (bump ?k ?d) = ses_rows db" "stop_ok (bump ?k ?d) = stop_ok db"
    "next_subject_ctr (bump ?k ?d) = next_subject_ctr db" "sass3_list ?d = sass3_list db"
    by (simp_all add: bump_def upd_sub_def ses_rows_def stop_ok_def)
  ultimately show ?thesis using sb rows same_books_active [OF sb]
    by (simp add: to_rows_def same_books_def)
qed

lemma unsub_subjects_rows:
  assumes "unsub_subjects E s t db = Some db'" and "subs_ok E ctr (sub_rows db)"
    and "distinct (map fst t)" and "\<forall>(i, h)\<in>set t. \<exists>v r. (v, i, h, r) \<in> set (sub_rows db) \<and> r \<noteq> 0"
  shows "to_rows (recount (\<lambda>i. - of_bool (i \<in> fst ` set t)) (sub_rows db)) db db'"
  using assms
proof (induction E s t db rule: unsub_subjects.induct)
  case (1 E s db)
  moreover have "recount (\<lambda>i. 0) (sub_rows db) = sub_rows db" by (auto simp: recount_def intro: map_idI)
  ultimately show ?case by (simp add: to_rows_def)
next
  case (2 E s ident h t db)
  have "known (sub_rows db) ident h" using 2(5) by (auto simp: known_def)
  then obtain x where g: "get_subject ident h db = Some x" using get_subject_known by blast
  from get_subject_in [OF g] have x: "x \<in> set (sub_tab db)" "subject_id x = ident" "sub_hash x = h"
    by auto
  have r: "refcnt x \<noteq> 0"
    using 2(5) subs_ok_id [OF 2(3) sub_row_in [OF x(1)]] by (auto simp: x)
  define x' where "x' = x\<lparr>ref7cnt := \<not> has_daemon s \<and> ref7cnt x, refcnt := refcnt x - 1\<rparr>"
  from 2(2) g obtain coll d2 where
    dr: "sub_dropped E (ses_host_id s) x'
          (host_digest E s (sub_value x) False (upd_sub (sub_value x) (\<lambda>_. x') db)) = Some (coll, d2)"
    and rest: "unsub_subjects E s t
          (emit_cb E (OnListenStop (ses_value s) (sub_value x) False False coll (sub_refs (sub_value x) d2)) d2) = Some db'"
      (is "unsub_subjects E s t ?d3 = _")
    by (auto simp: Let_def x'_def split: bind_splits)
  have one: "to_rows (recount (single ident (- 1)) (sub_rows db)) db ?d3"
    using unsub_one [OF 2(3) x(1) r x'_def dr] x(2) by simp
  then have rows: "sub_rows ?d3 = recount (single ident (- 1)) (sub_rows db)"
    by (simp add: to_rows_def)
  have "to_rows (recount (\<lambda>i. - of_bool (i \<in> fst ` set t)) (sub_rows ?d3)) ?d3 db'"
  proof (rule 2(1) [OF g x'_def refl dr refl rest])
    show "subs_ok E ctr (sub_rows ?d3)" using 2(3) by (simp add: rows)
    show "distinct (map fst t)" using 2(4) by simp
    have "(v, i, hh, r) \<in> set (sub_rows ?d3)" if "(v, i, hh, r) \<in> set (sub_rows db)" "i \<noteq> ident" for v i hh r
      using that by (force simp: rows set_recount)
    moreover have "i \<noteq> ident" if "(i, hh) \<in> set t" for i hh
      using 2(4) that by (force simp: image_iff)
    ultimately show "\<forall>(i, h)\<in>set t. \<exists>v r. (v, i, h, r) \<in> set (sub_rows ?d3) \<and> r \<noteq> 0"
      using 2(5) by fastforce
  qed
  from to_rows_trans [OF one this]
  have "to_rows (recount (\<lambda>i. single ident (- 1) i + - of_bool (i \<in> fst ` set t)) (sub_rows db)) db db'" .
  moreover have "(\<lambda>i. single ident (- 1) i + - of_bool (i \<in> fst ` set t)) =
      (\<lambda>i. - of_bool (i \<in> fst ` set ((ident, h) # t)) :: 31 word)"
    using 2(4) by (intro ext) auto
  ultimately show ?case by simp
qed

lemma order_set: "env_ok E \<Longrightarrow> set (ht_order E t) = set t"
  unfolding env_ok_def by (metis set_mset_mset)

lemma order_distinct: "env_ok E \<Longrightarrow> distinct (map fst (ht_order E t)) \<longleftrightarrow> distinct (map fst t)"
  unfolding env_ok_def by (metis mset_map mset_eq_imp_distinct_iff)

lemma visit_keys: "env_ok E \<Longrightarrow> fst ` set (ht_visit E t) = keys t"
  by (auto simp: ht_visit_def keys_def order_set split: option.split)

text \<open>What a session holds has a reference.\<close>

lemma held_counted:
  assumes core: "sdb_core E db" and rm: "room n db" and s: "s \<in> set (session_tab db)"
    and i: "i \<in> keys (sub_ht s)" and row: "(v, i, h, r) \<in> set (sub_rows db)"
  shows "r \<noteq> 0"
proof -
  let ?n = "ses_count (ses_rows db) i + s3_count (sass3_list db) i"
  have "r = of_nat ?n"
    using sdb_core_D(4) [OF core] row unfolding counts_ok_def by fast
  moreover have "?n \<noteq> 0"
  proof -
    have "(ses_value s, ses_hash s, sub_ht s) \<in> set (filter (\<lambda>(v, h, t). i \<in> keys t) (ses_rows db))"
      using ses_row_in [OF s] i by simp
    then have "ses_count (ses_rows db) i > 0" unfolding ses_count_def by (rule length_pos_if_in_set)
    then show ?thesis by simp
  qed
  moreover have "?n < 2 ^ 31"
  proof -
    have "ses_count (ses_rows db) i \<le> length (session_tab db)"
      by (simp add: ses_count_def flip: length_ses_rows)
    moreover have "s3_count (sass3_list db) i \<le> length (sass3_list db)" by (simp add: s3_count_def)
    ultimately show ?thesis using rm by (simp add: room_def)
  qed
  ultimately show ?thesis by (metis of_nat_31_0)
qed

lemma visited_rows:
  assumes core: "sdb_core E db" and rm: "room n db" and env: "env_ok E"
    and s: "s \<in> set (session_tab db)"
  shows "distinct (map fst (ht_visit E (sub_ht s)))"
    and "\<forall>(i, h)\<in>set (ht_visit E (sub_ht s)). \<exists>v r. (v, i, h, r) \<in> set (sub_rows db) \<and> r \<noteq> 0"
proof -
  note ht = ht_ok_session [OF core s]
  show "distinct (map fst (ht_visit E (sub_ht s)))"
    using ht order_distinct [OF env] by (auto simp: ht_visit_def ht_ok_def split: option.split)
  show "\<forall>(i, h)\<in>set (ht_visit E (sub_ht s)). \<exists>v r. (v, i, h, r) \<in> set (sub_rows db) \<and> r \<noteq> 0"
  proof clarify
    fix i h assume m: "(i, h) \<in> set (ht_visit E (sub_ht s))"
    then have k: "i \<in> keys (sub_ht s)" using visit_keys [OF env, of "sub_ht s"] by force
    from m ht have "known (sub_rows db) i h"
      by (cases "sub_ht s") (auto simp: ht_visit_def ht_ok_def order_set [OF env])
    then obtain v r where row: "(v, i, h, r) \<in> set (sub_rows db)" by (auto simp: known_def)
    with held_counted [OF core rm s k] show "\<exists>v r. (v, i, h, r) \<in> set (sub_rows db) \<and> r \<noteq> 0"
      by blast
  qed
qed

lemma session_in_rows: "ses_rows db' = ses_rows db \<Longrightarrow> s \<in> set (session_tab db) \<Longrightarrow>
  \<exists>s'\<in>set (session_tab db'). ses_value s' = ses_value s \<and> ses_hash s' = ses_hash s \<and> sub_ht s' = sub_ht s"
proof -
  assume eq: "ses_rows db' = ses_rows db" and "s \<in> set (session_tab db)"
  then have "(ses_value s, ses_hash s, sub_ht s) \<in> set (ses_rows db')" using ses_row_in by metis
  then show ?thesis by (auto simp: ses_rows_def)
qed

text \<open>A stopped entry in the place of a session.\<close>

lemma unsub_session_inv:
  assumes inv: "sdb_inv E n b db" and env: "env_ok E" and s: "s \<in> set (session_tab db)"
    and u: "unsub_session E s db = Some db'"
  shows "sdb_inv E n b db' \<and>
    (\<forall>y\<in>set (session_tab db'). ses_value y = ses_value s \<longrightarrow>
       sub_ht y = None \<and> ses_state y = RV_SESSION_STOP) \<and>
    fst ` set (ses_rows db') = fst ` set (ses_rows db)"
proof -
  have core: "sdb_core E db" and rm: "room n db" and act: "b \<longrightarrow> active_ok db \<and> sass3_list db = []"
    using inv by (auto simp: sdb_inv_def)
  from u obtain d1 t where us: "unsub_subjects E s (ht_visit E (sub_ht s)) db = Some d1"
    and db': "db' = upd_session (ses_value s) (session_stop_entry (cur_mono d1)) (d1\<lparr>sess_ht := t\<rparr>)"
    by (auto simp: unsub_session_def split: bind_splits)
  define d where "d = (\<lambda>i. - of_bool (i \<in> keys (sub_ht s)) :: 31 word)"
  have "to_rows (recount d (sub_rows db)) db d1"
    using unsub_subjects_rows [OF us sdb_core_D(1) [OF core] visited_rows [OF core rm env s]]
    by (simp add: visit_keys [OF env] d_def)
  then have rows: "sub_rows d1 = recount d (sub_rows db)" "ses_rows d1 = ses_rows db"
    "sass3_list d1 = sass3_list db" "next_subject_ctr d1 = next_subject_ctr db" "stop_ok d1"
    "active_ok db \<longrightarrow> active_ok d1"
    using sdb_core_D(5) [OF core] by (auto simp: to_rows_def)
  from session_in_rows [OF rows(2) s] obtain s1 where s1: "s1 \<in> set (session_tab d1)"
    "ses_value s1 = ses_value s" "ses_hash s1 = ses_hash s" "sub_ht s1 = sub_ht s" by blast
  have "ses_rows (d1\<lparr>sess_ht := t\<rparr>) = ses_rows db" using rows(2) by (simp add: ses_rows_def)
  then have ses: "ses_rows db' = retable (ses_value s) None (ses_rows db)"
    using ses_rows_upd [of "d1\<lparr>sess_ht := t\<rparr>" s1 "session_stop_entry (cur_mono d1)"] s1
      sdb_core_D(2) [OF core]
    by (simp add: db' session_stop_entry_def sess_ok_def)
  have sub: "sub_rows db' = recount d (sub_rows db)" "sass3_list db' = sass3_list db"
    "next_subject_ctr db' = next_subject_ctr db" "active_ok db' = active_ok d1"
    using rows by (simp_all add: db' upd_session_def sub_rows_def active_ok_def)
  have "books_ok E (next_subject_ctr db) (recount d (sub_rows db))
          (retable (ses_value s) None (ses_rows db)) (sass3_list db)"
    by (rule books_retable [OF _ ses_row_in [OF s]])
       (use core in \<open>auto simp: sdb_core_def d_def ht_ok_def keys_def\<close>)
  moreover have "stop_ok db'"
    using rows(5) by (auto simp: db' stop_ok_def upd_session_def session_stop_entry_def)
  ultimately have "sdb_core E db'" by (simp add: sdb_core_def ses sub)
  moreover have "room n db'"
    using rm rows(2) by (simp add: room_def sub flip: length_ses_rows) (simp add: ses retable_def)
  moreover have "\<forall>y\<in>set (session_tab db'). ses_value y = ses_value s \<longrightarrow>
       sub_ht y = None \<and> ses_state y = RV_SESSION_STOP"
    by (auto simp: db' upd_session_def session_stop_entry_def)
  moreover have "fst ` set (ses_rows db') = fst ` set (ses_rows db)"
    unfolding ses by (metis map_fst_retable set_map)
  ultimately show ?thesis using act rows(6) sub by (simp add: sdb_inv_def)
qed

lemma rem_session_inv:
  assumes inv: "sdb_inv E n b db" and env: "env_ok E" and s: "s \<in> set (session_tab db)"
    and r: "rem_session E i s db = Some db'"
  shows "sdb_inv E n b db' \<and>
    (\<forall>y\<in>set (session_tab db'). ses_value y = ses_value s \<longrightarrow> sub_ht y = None)"
proof -
  from r obtain d1 h rm where u: "unsub_session E s db = Some d1"
    and d: "db' = (if rm then (upd_host i (\<lambda>_. h) d1)
                  \<lparr>sessions := \<lparr>active = active (sessions d1) - 1,
                                removed = removed (sessions d1) + 1\<rparr>\<rparr> else d1)"
    by (auto simp: rem_session_def split: bind_splits)
  from d have "same_books d1 db' \<and> session_tab db' = session_tab d1"
    by (auto simp: upd_host_def intro: same_booksI)
  with unsub_session_inv [OF inv env s u] show ?thesis by (auto intro: same_books_inv)
qed

text \<open>A started session replaces an entry that holds nothing, or is new.\<close>

lemma put_session_inv:
  assumes inv: "sdb_inv E (Suc n) b db" and e: "sub_ht e = Some []"
    "ses_hash e = kv_crc_c E (ses_value e) 0" "ses_state e \<noteq> RV_SESSION_STOP"
    and old: "\<forall>y\<in>set (session_tab db). ses_value y = ses_value e \<longrightarrow> sub_ht y = None"
  shows "sdb_inv E n b (put_session e db)"
proof -
  have core: "sdb_core E db" and rm: "room (Suc n) db"
    and act: "b \<longrightarrow> active_ok db \<and> sass3_list db = []"
    using inv by (auto simp: sdb_inv_def)
  let ?db = "put_session e db"
  have same: "sub_rows ?db = sub_rows db" "sass3_list ?db = sass3_list db"
    "next_subject_ctr ?db = next_subject_ctr db" "subscriptions ?db = subscriptions db"
    by (simp_all add: put_session_def upd_session_def sub_rows_def)
  have st: "stop_ok ?db" using sdb_core_D(5) [OF core] e(3)
    by (auto simp: put_session_def upd_session_def stop_ok_def)
  have "books_ok E (next_subject_ctr db) (sub_rows db) (ses_rows ?db) (sass3_list db)"
  proof (cases "ses_value e \<in> set (map ses_value (session_tab db))")
    case True
    then obtain y where y: "y \<in> set (session_tab db)" "ses_value y = ses_value e" by auto
    then have "ses_hash y = kv_crc_c E (ses_value e) 0"
      using sdb_core_D(2) [OF core] ses_row_in [OF y(1)] unfolding sess_ok_def by fastforce
    then have "ses_rows ?db = retable (ses_value e) (Some []) (ses_rows db)"
      using ses_rows_upd [of db y "\<lambda>_. e"] True y e sdb_core_D(2) [OF core]
      by (simp add: put_session_def sess_ok_def)
    moreover have "recount (\<lambda>i. 0) (sub_rows db) = sub_rows db"
      by (auto simp: recount_def intro: map_idI)
    moreover have "books_ok E (next_subject_ctr db) (recount (\<lambda>i. 0) (sub_rows db))
        (retable (ses_value y) (Some []) (ses_rows db)) (sass3_list db)"
      by (rule books_retable [OF _ ses_row_in [OF y(1)]])
         (use core old y in \<open>auto simp: sdb_core_def ht_ok_def keys_def\<close>)
    ultimately show ?thesis using y by simp
  next
    case False
    then have "ses_rows ?db = ses_rows db @ [(ses_value e, kv_crc_c E (ses_value e) 0, Some [])]"
      using e by (simp add: put_session_def ses_rows_def)
    moreover have "ses_value e \<notin> fst ` set (ses_rows db)" using False by (auto simp: ses_rows_def)
    ultimately show ?thesis
      using core books_new_session [of E "next_subject_ctr db" "sub_rows db" "ses_rows db"]
      by (simp add: sdb_core_def)
  qed
  moreover have "room n ?db" using rm
    by (auto simp: room_def put_session_def upd_session_def)
  ultimately show ?thesis using st act same
    by (simp add: sdb_inv_def sdb_core_def active_ok_def)
qed

lemma started_entry:
  "sub_ht (session_start_entry nm h host cid i now st u) = Some []"
  "ses_hash (session_start_entry nm h host cid i now st u) = h"
  "ses_value (session_start_entry nm h host cid i now st u) = nm"
  "ses_state (session_start_entry nm h host cid i now st u) \<noteq> RV_SESSION_STOP"
  by (simp_all add: session_start_entry_def)

lemma next_session_id_books: "next_session_id db = (i, db') \<Longrightarrow> same_books db db' \<and> session_tab db' = session_tab db"
  by (auto simp: next_session_id_def intro: same_booksI)

section \<open>Sessions\<close>

lemma find_session_None:
  "sdb_core E db \<Longrightarrow> find_session (kv_crc_c E nm 0) nm db = None \<Longrightarrow> y \<in> set (session_tab db) \<Longrightarrow>
   ses_value y \<noteq> nm"
  using sdb_core_D(2) ses_row_in [of y db]
  by (fastforce simp: find_session_def find_None_iff sess_ok_def)

text \<open>No entry of the name holds anything.\<close>

definition vacant :: "string \<Rightarrow> sdb \<Rightarrow> bool" where
  "vacant nm db \<longleftrightarrow> (\<forall>y\<in>set (session_tab db). ses_value y = nm \<longrightarrow> sub_ht y = None)"

lemma stopped_vacant:
  assumes core: "sdb_core E db" and f: "find_session (kv_crc_c E nm 0) nm db = r"
    and r: "r = None \<or> (\<exists>e. r = Some e \<and> ses_state e = RV_SESSION_STOP)"
  shows "vacant nm db"
  unfolding vacant_def
proof (intro ballI impI)
  fix y assume y: "y \<in> set (session_tab db)" "ses_value y = nm"
  with find_session_None [OF core] f r obtain e where e: "r = Some e" "ses_state e = RV_SESSION_STOP"
    by blast
  with f have "e \<in> set (session_tab db)" "ses_value e = nm" using find_session_in by auto
  with session_unique [OF core] y have "y = e" by auto
  with e y show "sub_ht y = None" using sdb_core_D(5) [OF core] by (simp add: stop_ok_def)
qed

lemma session_clear_inv:
  assumes inv: "sdb_inv E n b db" and env: "env_ok E"
    and c: "session_clear E i nm db = Some (restart, d1)"
  shows "sdb_inv E n b d1 \<and> vacant nm d1"
proof -
  have core: "sdb_core E db" using inv by (simp add: sdb_inv_def)
  show ?thesis
  proof (cases "\<exists>e. find_session (kv_crc_c E nm 0) nm db = Some e \<and> ses_state e \<noteq> RV_SESSION_STOP")
    case True
    then obtain e where e: "find_session (kv_crc_c E nm 0) nm db = Some e"
      "ses_state e \<noteq> RV_SESSION_STOP" by blast
    then have "rem_session E i e db = Some d1" using c by (auto simp: session_clear_def)
    from rem_session_inv [OF inv env _ this] find_session_in [OF e(1)] show ?thesis
      by (auto simp: vacant_def)
  next
    case False
    then have "d1 = db" using c by (auto simp: session_clear_def split: option.splits)
    moreover have "vacant nm db" using False by (intro stopped_vacant [OF core refl]) auto
    ultimately show ?thesis using inv by simp
  qed
qed

lemma start_entry_inv:
  assumes inv: "sdb_inv E (Suc n) b db" and v: "vacant (ses_value e) db"
    and k: "next_session_id db = (k, d2)"
    and e: "sub_ht e = Some []" "ses_hash e = kv_crc_c E (ses_value e) 0" "ses_state e \<noteq> RV_SESSION_STOP"
    and d3: "add_session i e (put_session e d2) = Some d3"
  shows "sdb_inv E n b d3"
proof -
  from next_session_id_books [OF k] have "sdb_inv E (Suc n) b d2" and "vacant (ses_value e) d2"
    using same_books_inv inv v by (auto simp: vacant_def)
  then have "sdb_inv E n b (put_session e d2)"
    using put_session_inv e by (auto simp: vacant_def)
  then show ?thesis using add_session_books [OF d3] same_books_inv by blast
qed

lemma session_start_inv:
  assumes inv: "sdb_inv E (Suc n) b db" and env: "env_ok E"
    and st: "session_start E h cid nm self u db = Some db'"
  shows "sdb_inv E n b db'"
proof -
  obtain found where f: "host_exists E h cid db = Some found"
    using st by (auto simp: session_start_def split: bind_splits)
  show ?thesis
  proof (cases found)
    case None
    with st f inv show ?thesis by (auto simp: session_start_def intro: sdb_inv_mono)
  next
    case (Some i)
    from st f Some obtain restart d1 where c: "session_clear E i nm db = Some (restart, d1)"
      by (auto simp: session_start_def split: bind_splits)
    obtain k d2 where k: "next_session_id d1 = (k, d2)" by fastforce
    define e where "e = (let entry = session_start_entry nm (kv_crc_c E nm 0) h cid k (cur_mono d2) True u
       in if restart \<and> ses_state entry \<noteq> RV_SESSION_CID
          then entry\<lparr>ses_state := RV_SESSION_QUERY\<rparr> else entry)"
    from st f Some c k obtain d3 where d3: "add_session i e (put_session e d2) = Some d3"
      and db': "db' = (if self then upd_session nm (\<lambda>s. s\<lparr>ses_state := RV_SESSION_SELF\<rparr>) d3 else d3)"
      by (auto simp: session_start_def Let_def e_def split: bind_splits)
    have e: "sub_ht e = Some []" "ses_hash e = kv_crc_c E (ses_value e) 0"
      "ses_state e \<noteq> RV_SESSION_STOP" "ses_value e = nm"
      by (simp_all add: e_def Let_def session_start_entry_def)
    have "sdb_inv E n b d3"
      using session_clear_inv [OF inv env c] start_entry_inv [OF _ _ k e(1-3) d3] e(4) by blast
    moreover have "same_books d3 db'" using same_books_state [of RV_SESSION_SELF] by (simp add: db')
    ultimately show ?thesis using same_books_inv by blast
  qed
qed

lemma session_stop_inv:
  assumes inv: "sdb_inv E n b db" and env: "env_ok E" and st: "session_stop E nm db = Some db'"
  shows "sdb_inv E n b db'"
proof (cases "find_session (kv_crc_c E nm 0) nm db")
  case None
  with st inv show ?thesis by (simp add: session_stop_def)
next
  case (Some e)
  with st obtain found where f: "host_exists E (ses_host_id e) (ses_cid e) db = Some found"
    by (auto simp: session_stop_def split: bind_splits)
  show ?thesis
  proof (cases found)
    case None
    with st f Some inv show ?thesis by (simp add: session_stop_def)
  next
    case (Some i)
    with st f \<open>find_session _ _ _ = _\<close> have "rem_session E i e db = Some db'"
      by (simp add: session_stop_def)
    from rem_session_inv [OF inv env _ this] find_session_in [OF \<open>find_session _ _ _ = _\<close>]
    show ?thesis by blast
  qed
qed

text \<open>\<open>session_ref\<close> returns a live session, or one that was stopped and revived by a query.\<close>

lemma session_ref_new_inv:
  assumes inv: "sdb_inv E (Suc n) b db" and v: "vacant nm db"
    and r: "session_ref_new E cid nm (kv_crc_c E nm 0) db = Some (e, db')"
  shows "sdb_inv E n b db'"
proof -
  from r obtain h i d1 k d2 where hr: "host_ref E h cid False db = Some (i, d1)"
    and k: "next_session_id d1 = (k, d2)"
    and e: "e = session_start_entry nm (kv_crc_c E nm 0) h cid k (cur_mono d2) False None"
    and d3: "add_session i e (put_session e d2) = Some db'"
    by (auto simp: session_ref_new_def Let_def split: bind_splits prod.splits)
  note b1 = host_ref_books [OF hr]
  have "vacant nm d1"
    unfolding vacant_def
  proof (intro ballI impI)
    fix y assume y: "y \<in> set (session_tab d1)" "ses_value y = nm"
    have "ses_rows db = ses_rows d1" using b1 by (simp add: same_books_def)
    from session_in_rows [OF this y(1)] v y(2) show "sub_ht y = None" by (auto simp: vacant_def)
  qed
  with start_entry_inv [OF same_books_inv [OF b1 inv] _ k _ _ _ d3] show ?thesis
    by (simp add: e started_entry)
qed

lemma session_ref_inv:
  assumes inv: "sdb_inv E (Suc n) b db" and r: "session_ref E cid nm db = Some (e, db')"
  shows "sdb_inv E n b db'"
proof (cases "\<exists>x. find_session (kv_crc_c E nm 0) nm db = Some x \<and> ses_state x \<noteq> RV_SESSION_STOP")
  case True
  with r have db': "db' = upd_session nm (\<lambda>s. s\<lparr>ses_ref_mono := cur_mono db\<rparr>) db"
    by (auto simp: session_ref_def Let_def)
  have "same_books db db'" unfolding db' by (rule same_books_session) auto
  with inv show ?thesis by (auto intro: same_books_inv sdb_inv_mono)
next
  case False
  then have "session_ref_new E (session_cid cid nm) nm (kv_crc_c E nm 0) db = Some (e, db')"
    using r by (auto simp: session_ref_def Let_def split: option.splits)
  moreover have "vacant nm db"
    using inv False by (intro stopped_vacant [OF _ refl]) (auto simp: sdb_inv_def)
  ultimately show ?thesis using session_ref_new_inv [OF inv] by blast
qed

section \<open>Loops over the tables\<close>

lemma unsub_sessions_inv:
  "unsub_sessions E t db = Some db' \<Longrightarrow> env_ok E \<Longrightarrow> sdb_inv E n b db \<Longrightarrow> sdb_inv E n b db'"
proof (induction E t db rule: unsub_sessions.induct)
  case (2 E ident h t db)
  show ?case
  proof (cases "get_session_by ident h db")
    case (Some s)
    with 2(2) obtain d where d: "unsub_session E s db = Some d" "unsub_sessions E t d = Some db'"
      by (auto split: bind_splits)
    with unsub_session_inv [OF 2(4,3) get_session_by_in [OF Some]] 2(1) [OF Some d 2(3)]
    show ?thesis by blast
  qed (use 2 in simp)
qed simp

lemma unsub_host_inv:
  assumes "unsub_host E i db = Some db'" and "env_ok E" and "sdb_inv E n b db"
  shows "sdb_inv E n b db'"
proof -
  from assms(1) obtain t d c where u: "unsub_sessions E t db = Some d"
    and db': "db' = (upd_host i (host_stop_entry (cur_mono d)) d)\<lparr>hosts := c\<rparr>"
    by (auto simp: unsub_host_def split: bind_splits)
  have "same_books d db'" by (auto simp: db' upd_host_def intro: same_booksI)
  with unsub_sessions_inv [OF u assms(2,3)] show ?thesis by (rule same_books_inv [rotated])
qed

lemma host_stop_inv:
  "host_stop E h cid db = Some db' \<Longrightarrow> env_ok E \<Longrightarrow> sdb_inv E n b db \<Longrightarrow> sdb_inv E n b db'"
  by (auto simp: host_stop_def unsub_host_inv split: bind_splits option.splits)

lemma unsub_all_from_inv:
  "unsub_all_from E is db = Some db' \<Longrightarrow> env_ok E \<Longrightarrow> sdb_inv E n b db \<Longrightarrow> sdb_inv E n b db'"
  by (induction E "is" db rule: unsub_all_from.induct)
     (auto split: bind_splits if_splits intro: unsub_host_inv)

lemma gc_subs_inv:
  assumes inv: "sdb_inv E n b db"
  shows "sdb_inv E n b (db\<lparr>subscriptions := (subscriptions db)\<lparr>removed := 0\<rparr>,
           sub_tab := filter (\<lambda>s. refcnt s \<noteq> 0) (sub_tab db)\<rparr>)" (is "sdb_inv E n b ?d")
proof -
  have rows: "sub_rows ?d = filter (\<lambda>(v, i, h, r). r \<noteq> 0) (sub_rows db)"
    by (simp add: sub_rows_def filter_map comp_def)
  have same: "ses_rows ?d = ses_rows db" "stop_ok ?d = stop_ok db"
    by (simp_all add: ses_rows_def stop_ok_def)
  have "books_ok E (next_subject_ctr db) (sub_rows ?d) (ses_rows db) (sass3_list db)"
    unfolding rows
    by (rule books_gc_subs) (use inv in \<open>auto simp: sdb_inv_def sdb_core_def room_def length_ses_rows\<close>)
  then show ?thesis
    using inv same by (simp add: sdb_inv_def sdb_core_def room_def active_ok_def rows live_rows_def)
qed

lemma gc_sessions_inv:
  assumes inv: "sdb_inv E n b db"
  shows "sdb_inv E n b (db\<lparr>sessions := (sessions db)\<lparr>removed := 0\<rparr>,
           session_tab := filter (\<lambda>s. ses_state s \<noteq> RV_SESSION_STOP) (session_tab db)\<rparr>)"
    (is "sdb_inv E n b ?d")
proof -
  have core: "sdb_core E db" using inv by (simp add: sdb_inv_def)
  define P :: "ses_row \<Rightarrow> bool" where "P = (\<lambda>x. \<exists>s\<in>set (session_tab db). ses_value s = fst x \<and> ses_state s \<noteq> RV_SESSION_STOP)"
  have P: "P (ses_value s, y) \<longleftrightarrow> ses_state s \<noteq> RV_SESSION_STOP" if "s \<in> set (session_tab db)" for s y
    using that session_unique [OF core that] by (auto simp: P_def)
  then have rows: "ses_rows ?d = filter P (ses_rows db)"
    by (simp add: ses_rows_def filter_map comp_def cong: filter_cong)
  have "books_ok E (next_subject_ctr db) (sub_rows db) (ses_rows ?d) (sass3_list db)"
    unfolding rows
  proof (rule books_gc_sessions)
    fix v h t assume "(v, h, t) \<in> set (ses_rows db)" "\<not> P (v, h, t)"
    then obtain s where "s \<in> set (session_tab db)" "t = sub_ht s" "ses_state s = RV_SESSION_STOP"
      by (auto simp: ses_rows_def P_def)
    then show "t = None" using sdb_core_D(5) [OF core] by (simp add: stop_ok_def)
  qed (use core in \<open>simp add: sdb_core_def\<close>)
  moreover have "length (filter (\<lambda>s. ses_state s \<noteq> RV_SESSION_STOP) (session_tab db)) \<le> length (session_tab db)"
    by simp
  ultimately show ?thesis using inv
    by (auto simp: sdb_inv_def sdb_core_def room_def active_ok_def sub_rows_def stop_ok_def
          simp del: length_filter_le)
qed

lemma gc_inv:
  assumes inv: "sdb_inv E n b db"
  shows "sdb_inv E n b (gc db)"
proof -
  define d1 where "d1 = (if removed (subscriptions db) > active (subscriptions db)
    then db\<lparr>subscriptions := (subscriptions db)\<lparr>removed := 0\<rparr>,
            sub_tab := filter (\<lambda>s. refcnt s \<noteq> 0) (sub_tab db)\<rparr> else db)"
  define d2 where "d2 = (if removed (sessions d1) > active (sessions d1)
    then d1\<lparr>sessions := (sessions d1)\<lparr>removed := 0\<rparr>,
            session_tab := filter (\<lambda>s. ses_state s \<noteq> RV_SESSION_STOP) (session_tab d1)\<rparr> else d1)"
  have "sdb_inv E n b d1" unfolding d1_def using inv by (auto intro: gc_subs_inv)
  then have "sdb_inv E n b d2" unfolding d2_def by (auto intro: gc_sessions_inv)
  moreover have "same_books d2 (gc db)"
    by (simp add: gc_def Let_def flip: d1_def d2_def) (simp add: same_booksI)
  ultimately show ?thesis by (rule same_books_inv [rotated])
qed

lemma rem_sessions_inv:
  "rem_sessions E i t db = Some db' \<Longrightarrow> env_ok E \<Longrightarrow> sdb_inv E n b db \<Longrightarrow> sdb_inv E n b db'"
proof (induction E i t db rule: rem_sessions.induct)
  case (2 E i ident h t db)
  then obtain s d where s: "get_session_by ident h db = Some s" and d: "rem_session E i s db = Some d"
    "rem_sessions E i t d = Some db'"
    by (auto split: bind_splits)
  with rem_session_inv [OF 2(4,3) get_session_by_in [OF s] d(1)] 2(1) [OF s d 2(3)]
  show ?case by blast
qed simp

lemma stop_marked_loop_inv:
  assumes "stop_marked_loop E i acc db = Some db'" and env: "env_ok E" and "sdb_inv E n b db"
  shows "sdb_inv E n b db'"
proof -
  have "env_ok E \<longrightarrow> sdb_inv E n b db \<longrightarrow> sdb_inv E n b db'"
  proof (rule stop_marked_loop.raw_induct [OF _ assms(1)], goal_cases)
    case (1 f E i acc db y)
    from 1(2) obtain t acc1 d1 d2 where sc: "scan_marked_sessions t acc db = Some (acc1, d1)"
      and rm: "rem_sessions E i acc1 d1 = Some d2"
      and rest: "(if length acc1 < 256 then Some d2 else f E i acc1 d2) = Some y"
      by (auto split: bind_splits)
    show ?case
    proof (intro impI)
      assume env: "env_ok E" and inv: "sdb_inv E n b db"
      from rem_sessions_inv [OF rm env] same_books_inv [OF scan_marked_books [OF sc] inv]
      have d2: "sdb_inv E n b d2" by blast
      show "sdb_inv E n b y"
      proof (cases "length acc1 < 256")
        case True
        with rest d2 show ?thesis by simp
      next
        case False
        with 1(1) rest env d2 show ?thesis by auto
      qed
    qed
  qed
  with assms show ?thesis by blast
qed

lemma deref_subs_inv:
  "deref_subs E nm t db = Some db' \<Longrightarrow> sdb_inv E n b db \<Longrightarrow> sdb_inv E n b db'"
proof (induction E nm t db rule: deref_subs.induct)
  case (2 E nm ident h t db)
  then obtain x s ok coll d where x: "get_subject ident h db = Some x"
    and s: "find_session (kv_crc_c E nm 0) nm db = Some s"
    and d: "deref_subscription E s x db = Some (ok, coll, d)"
    and rest: "deref_subs E nm t (if ok
        then emit_cb E (OnListenStop nm (sub_value x) False False coll (sub_refs (sub_value x) d)) d else d) = Some db'"
      (is "deref_subs E nm t ?d = _")
    by (auto split: bind_splits)
  have "sdb_inv E n b d"
    using deref_inv [OF 2(3) _ _ d] find_session_in [OF s] get_subject_in [OF x] by blast
  then have "sdb_inv E n b ?d" by (auto intro: same_books_inv [OF same_books_emit(2)])
  with 2(1) [OF x s d refl refl rest] show ?case by blast
qed simp

lemma stop_marked_sub_loop_inv:
  assumes "stop_marked_sub_loop E nm acc db = Some db'" and "sdb_inv E n b db"
  shows "sdb_inv E n b db'"
proof -
  have "sdb_inv E n b db \<longrightarrow> sdb_inv E n b db'"
  proof (rule stop_marked_sub_loop.raw_induct [OF _ assms(1)], goal_cases)
    case (1 f E nm acc db y)
    from 1(2) obtain acc1 d2 where rm: "deref_subs E nm acc1 db = Some d2"
      and rest: "(if length acc1 < 256 then Some d2 else f E nm acc1 d2) = Some y"
      by (auto split: bind_splits)
    from deref_subs_inv [OF rm] 1(1) rest show ?case by (cases "length acc1 < 256") auto
  qed
  with assms show ?thesis by blast
qed

end
