(* ===== verification/Sub_Reach.thy ===== *)
theory Sub_Reach
  imports Sub_Steps
begin

text \<open>
  The messages and the timer of the subscription database keep its invariant: the SASS3 subscribers,
  the queries, \<open>process_events\<close>, \<open>process_pub2\<close> and \<open>update_sync\<close>; and so does every sequence of
  them.
\<close>

section \<open>SASS3 subscribers\<close>

lemma no_zero_id: "sdb_core E db \<Longrightarrow> env_ok E \<Longrightarrow> \<not> known (sub_rows db) 0 h"
  using sdb_core_D(1) [of E db] by (force simp: known_def subs_ok_def env_ok_def)

lemma sub_of_row:
  "known (sub_rows db) i h \<Longrightarrow> \<exists>x\<in>set (sub_tab db). subject_id x = i \<and> sub_hash x = h"
  by (auto simp: known_def sub_rows_def)

text \<open>The count of one subscription changes with the subscribers.\<close>

lemma s3_change_core:
  assumes core: "sdb_core E db" and x: "x \<in> set (sub_tab db)"
    and ok: "s3_ok (sub_rows db) s3"
    and cnt: "\<And>i. of_nat (s3_count s3 i) = of_nat (s3_count (sass3_list db) i) + single (subject_id x) d i"
  shows "sdb_core E (upd_sub (sub_value x) (\<lambda>s. s\<lparr>refcnt := refcnt s + d\<rparr>) (db\<lparr>sass3_list := s3\<rparr>))"
    (is "sdb_core E (upd_sub _ ?f ?d)")
proof -
  have "sub_rows ?d = sub_rows db" by (simp add: sub_rows_def)
  then have rows: "sub_rows (upd_sub (sub_value x) ?f ?d) = recount (single (subject_id x) d) (sub_rows db)"
    using sub_rows_upd [of E "next_subject_ctr db" ?d x ?f d] sdb_core_D(1) [OF core] x by simp
  have "books_ok E (next_subject_ctr db) (recount (single (subject_id x) d) (sub_rows db)) (ses_rows db) s3"
    by (rule books_s3 [OF _ ok cnt]) (use core in \<open>simp add: sdb_core_def\<close>)
  then show ?thesis using sdb_core_D(5) [OF core] rows
    by (simp add: sdb_core_def upd_sub_def ses_rows_def stop_ok_def)
qed

text \<open>The subscribers change and no count does.\<close>

lemma s3_keep_core:
  assumes core: "sdb_core E db" and ok: "s3_ok (sub_rows db) s3"
    and cnt: "\<And>i. s3_count s3 i = s3_count (sass3_list db) i"
  shows "sdb_core E (db\<lparr>sass3_list := s3\<rparr>)"
proof -
  have z: "recount (\<lambda>i. 0) (sub_rows db) = sub_rows db" by (auto simp: recount_def intro: map_idI)
  have "books_ok E (next_subject_ctr db) (recount (\<lambda>i. 0) (sub_rows db)) (ses_rows db) s3"
    by (rule books_s3 [OF _ ok]) (use core cnt in \<open>auto simp: sdb_core_def\<close>)
  then show ?thesis using sdb_core_D(5) [OF core] unfolding z
    by (simp add: sdb_core_def sub_rows_def ses_rows_def stop_ok_def)
qed

lemma s3_remove_other:
  assumes "s3_key e \<notin> s3_key ` set (filter s3_in_tab s3)"
  shows "map (\<lambda>e. (s3_in_tab e, s3_key e)) (s3_tab_remove e s3) = map (\<lambda>e. (s3_in_tab e, s3_key e)) s3"
proof -
  have "s3_in_tab (if s3_equals e x then x\<lparr>s3_in_tab := False\<rparr> else x) = s3_in_tab x \<and>
        s3_key (if s3_equals e x then x\<lparr>s3_in_tab := False\<rparr> else x) = s3_key x" if "x \<in> set s3" for x
    using assms that by (auto simp: s3_equals_key s3_key_def image_iff)
  then show ?thesis by (simp add: s3_tab_remove_def)
qed

text \<open>One expired subscriber leaves the list.\<close>

lemma expire_one:
  assumes core: "sdb_core E db" and env: "env_ok E" and rm: "room n db"
    and hd: "sass3_list db = e # rest"
  shows "case get_subject (s3_subject_id e) (s3_subj_hash e) db of
      None \<Rightarrow> sdb_core E (db\<lparr>sass3_list := s3_tab_remove e rest\<rparr>)
    | Some x \<Rightarrow> refcnt x \<noteq> 0 \<and>
        sdb_core E (upd_sub (sub_value x) (\<lambda>s. s\<lparr>refcnt := refcnt s - 1\<rparr>)
                      (db\<lparr>sass3_list := s3_tab_remove e rest\<rparr>))"
proof -
  note s3 = sdb_core_D(3) [OF core, unfolded hd s3_ok_Cons]
  show ?thesis
  proof (cases "s3_in_tab e")
    case True
    note keep = s3_same [OF s3_remove_other, of e rest]
    from True s3 have key: "s3_key e \<notin> s3_key ` set (filter s3_in_tab rest)"
      and kn: "known (sub_rows db) (s3_subject_id e) (s3_subj_hash e)" by auto
    from get_subject_known [OF kn] obtain x where x: "get_subject (s3_subject_id e) (s3_subj_hash e) db = Some x"
      by blast
    from get_subject_in [OF x] have x': "x \<in> set (sub_tab db)" "subject_id x = s3_subject_id e" by auto
    have ok: "s3_ok (sub_rows db) (s3_tab_remove e rest)" using keep(1) key s3 by auto
    have cnt: "of_nat (s3_count (s3_tab_remove e rest) i) =
        (of_nat (s3_count (sass3_list db) i) :: 31 word) + single (subject_id x) (- 1) i" for i
      using keep(2) [OF key] True by (auto simp: hd s3_count_Cons s3_holds_def x')
    have "sdb_core E (upd_sub (sub_value x) (\<lambda>s. s\<lparr>refcnt := refcnt s + (- 1)\<rparr>)
            (db\<lparr>sass3_list := s3_tab_remove e rest\<rparr>))"
      by (rule s3_change_core [OF core x'(1) ok cnt])
    moreover have "refcnt x \<noteq> 0"
    proof -
      let ?n = "ses_count (ses_rows db) (subject_id x) + s3_count (sass3_list db) (subject_id x)"
      have "ses_count (ses_rows db) (subject_id x) \<le> length (session_tab db)"
        by (simp add: ses_count_def flip: length_ses_rows)
      moreover have "s3_count (sass3_list db) (subject_id x) \<le> length (sass3_list db)"
        by (simp add: s3_count_def)
      ultimately have "?n < 2 ^ 31" using rm by (simp add: room_def)
      moreover have "?n \<noteq> 0" using True by (simp add: hd s3_count_Cons s3_holds_def x')
      ultimately show ?thesis using of_nat_31_0 count_held [OF core x'(1)] by metis
    qed
    ultimately show ?thesis by (simp add: x)
  next
    case False
    with s3 have z: "s3_subject_id e = 0" by simp
    have key: "s3_key e \<notin> s3_key ` set (filter s3_in_tab rest)"
    proof
      assume "s3_key e \<in> s3_key ` set (filter s3_in_tab rest)"
      then obtain f where "f \<in> set rest" "s3_in_tab f" "s3_subject_id f = 0"
        using z by (auto simp: s3_key_def)
      with s3 have "known (sub_rows db) 0 (s3_subj_hash f)" by (fastforce simp: s3_ok_def)
      then show False using no_zero_id [OF core env] by blast
    qed
    note keep = s3_same [OF s3_remove_other [OF key]]
    have "get_subject (s3_subject_id e) (s3_subj_hash e) db = None"
    proof (cases "get_subject (s3_subject_id e) (s3_subj_hash e) db")
      case (Some x)
      from sub_row_in get_subject_in [OF this] have "known (sub_rows db) 0 (s3_subj_hash e)"
        by (metis known_def z)
      then show ?thesis using no_zero_id [OF core env] by blast
    qed
    moreover have "sdb_core E (db\<lparr>sass3_list := s3_tab_remove e rest\<rparr>)"
      by (rule s3_keep_core [OF core])
         (use keep s3 False in \<open>auto simp: hd s3_count_Cons s3_holds_def\<close>)
    ultimately show ?thesis by simp
  qed
qed

lemma core_cong:
  "sub_tab db' = sub_tab db \<Longrightarrow> session_tab db' = session_tab db \<Longrightarrow>
   sass3_list db' = sass3_list db \<Longrightarrow> next_subject_ctr db' = next_subject_ctr db \<Longrightarrow>
   sdb_core E db' = sdb_core E db"
  by (simp add: sdb_core_def sub_rows_def ses_rows_def stop_ok_def)

lemma get_subject_cong: "sub_tab db' = sub_tab db \<Longrightarrow> get_subject i h db' = get_subject i h db"
  by (simp add: get_subject_def)

lemma expire_sass3_core:
  "expire_sass3 E db = Some db' \<Longrightarrow> env_ok E \<Longrightarrow> sdb_core E db \<Longrightarrow> room n db \<Longrightarrow>
   sdb_core E db' \<and> room n db'"
proof (induction E db rule: expire_sass3.induct)
  case (1 E db)
  show ?case
  proof (cases "sass3_list db")
    case Nil
    with 1 show ?thesis by (simp add: expire_sass3.simps)
  next
    case (Cons e rest)
    show ?thesis
    proof (cases "s3_expired (cur_mono db) e")
      case False
      with 1 Cons show ?thesis by (simp add: expire_sass3.simps)
    next
      case True
      let ?d1 = "db\<lparr>sass3_list := s3_tab_remove e rest\<rparr>"
      have g: "get_subject (s3_subject_id e) (s3_subj_hash e) ?d1 =
               get_subject (s3_subject_id e) (s3_subj_hash e) db"
        by (rule get_subject_cong) simp
      have rm: "room n ?d1" using 1(7) Cons by (simp add: room_def s3_tab_remove_def)
      note one = expire_one [OF 1(6) 1(5) 1(7) Cons]
      show ?thesis
      proof (cases "get_subject (s3_subject_id e) (s3_subj_hash e) db")
        case None
        then have e: "expire_sass3 E ?d1 = Some db'"
          using 1(4) Cons True g by (subst (asm) expire_sass3.simps) simp
        show ?thesis
          by (rule 1(1) [OF Cons True refl _ e 1(5)]) (use None g one rm in auto)
      next
        case (Some x)
        let ?d2 = "emit (OnSass3 e (sub_value x) [] (qf_unsubscribe E) False True)
          (upd_sub (sub_value x) (\<lambda>s. s\<lparr>refcnt := refcnt s - 1\<rparr>) ?d1)"
        from one Some have r: "refcnt x > 0"
          and c: "sdb_core E (upd_sub (sub_value x) (\<lambda>s. s\<lparr>refcnt := refcnt s - 1\<rparr>) ?d1)"
          by (auto simp: word_gt_0)
        from 1(4) Cons True g Some r have cb: "has_cb E" and e: "expire_sass3 E ?d2 = Some db'"
          by (subst (asm) expire_sass3.simps, simp split: if_splits)+
        have "sdb_core E ?d2" using same_books_core [OF same_books_emit(1) c] .
        moreover have "room n ?d2" using rm by (simp add: room_def emit_def upd_sub_def)
        ultimately show ?thesis
          using 1(2) [OF Cons True refl _ r cb e 1(5)] Some g by simp
      qed
    qed
  qed
qed

lemma expire_sass3_inv:
  assumes e: "expire_sass3 E db = Some db'" and env: "env_ok E" and inv: "sdb_inv E n b db"
  shows "sdb_inv E n b db'"
proof (cases b)
  case True
  then have "sass3_list db = []" using inv by (simp add: sdb_inv_def)
  then have "db' = db" using e by (simp add: expire_sass3.simps)
  with inv show ?thesis by simp
next
  case False
  with expire_sass3_core [OF e env, of n] inv show ?thesis by (simp add: sdb_inv_def)
qed

section \<open>Timer\<close>

lemma send_host_query_inv:
  assumes "send_host_query E i db = Some db'" and "env_ok E" and "sdb_inv E n b db"
  shows "sdb_inv E n b db'"
proof -
  from assms(1) obtain host where h: "nth_opt (host_tab db) i = Some host"
    by (auto simp: send_host_query_def split: bind_splits)
  show ?thesis
  proof (cases "hst_query_mono host + 30 > cur_mono db")
    case True
    with assms h show ?thesis by (simp add: send_host_query_def)
  next
    case late: False
    show ?thesis
    proof (cases "hst_ref_mono host + 120 < cur_mono db")
      case True
      with late assms(1) h have "unsub_host E i db = Some db'" by (simp add: send_host_query_def)
      then show ?thesis using assms(2,3) by (rule unsub_host_inv)
    next
      case False
      with late assms(1) h obtain f x where "db' = upd_host i f (emit x db)"
        by (auto simp: send_host_query_def)
      then have "same_books db db'" using same_books_trans [OF same_books_emit(1) same_books_host(1)] by simp
      then show ?thesis using assms(3) by (rule same_books_inv)
    qed
  qed
qed

lemma send_session_query_books: "send_session_query E i s db = Some db' \<Longrightarrow> same_books db db'"
proof -
  assume "send_session_query E i s db = Some db'"
  then consider "db' = db" | f where "db' = upd_host i f db"
    | "db' = upd_session (ses_value s) (\<lambda>s. s\<lparr>ses_state := RV_SESSION_SELF\<rparr>) db"
    | x where "db' = upd_session (ses_value s) (\<lambda>s. s\<lparr>ses_query_mono := cur_mono db\<rparr>) (emit x db)"
    by (auto simp: send_session_query_def split: bind_splits if_splits)
  then show ?thesis
  proof cases
    case 3
    then show ?thesis using same_books_state by simp
  next
    case 4
    have "same_books (emit x db) db'" unfolding 4 by (rule same_books_session) auto
    with same_books_emit(1) show ?thesis by (rule same_books_trans)
  qed auto
qed

lemma query_sessions_inv:
  "query_sessions E i t db = Some db' \<Longrightarrow> env_ok E \<Longrightarrow> sdb_inv E n b db \<Longrightarrow> sdb_inv E n b db'"
proof (induction E i t db rule: query_sessions.induct)
  case (2 E i ident h t db)
  show ?case
  proof (cases "get_session_by ident h db")
    case None
    with 2 show ?thesis by simp
  next
    case (Some s)
    show ?thesis
    proof (cases "ses_state s = RV_SESSION_QUERY")
      case False
      with 2 Some show ?thesis by simp
    next
      case True
      with 2(3) Some obtain d host where d: "send_session_query E i s db = Some d"
        and h: "nth_opt (host_tab d) i = Some host"
        and rest: "(if hst_state host = RV_HOST_QUERY then send_host_query E i d
                    else query_sessions E i t d) = Some db'"
        by (auto split: bind_splits)
      have inv: "sdb_inv E n b d" using same_books_inv [OF send_session_query_books [OF d] 2(5)] .
      show ?thesis
      proof (cases "hst_state host = RV_HOST_QUERY")
        case q: True
        with rest send_host_query_inv inv 2(4) show ?thesis by auto
      next
        case q: False
        with rest 2(1) [OF Some True d h q _ 2(4) inv] show ?thesis by simp
      qed
    qed
  qed
qed simp

lemma host_events_inv:
  assumes "host_events E i db = Some db'" and env: "env_ok E" and inv: "sdb_inv E n b db"
  shows "sdb_inv E n b db'"
proof -
  let ?d1 = "upd_host i (\<lambda>h. snd (check_query_needed (cur_mono db) h)) db"
  have inv1: "sdb_inv E n b ?d1" by (rule same_books_inv [OF same_books_host(1) inv])
  from assms(1) consider "db' = db" | d2 t where
      "d2 = ?d1 \<or> send_host_query E i ?d1 = Some d2"
      "db' = d2 \<or> query_sessions E i t d2 = Some db'"
    by (auto simp: host_events_def Let_def split: bind_splits if_splits)
  then show ?thesis
  proof cases
    case 2
    from 2(1) inv1 send_host_query_inv [OF _ env inv1] have "sdb_inv E n b d2" by blast
    with 2(2) query_sessions_inv [OF _ env] show ?thesis by blast
  qed (use inv in simp)
qed

lemma all_host_events_inv:
  "all_host_events E is db = Some db' \<Longrightarrow> env_ok E \<Longrightarrow> sdb_inv E n b db \<Longrightarrow> sdb_inv E n b db'"
  by (induction E "is" db rule: all_host_events.induct)
     (auto split: bind_splits intro: host_events_inv)

lemma soft_query_books: "soft_query k db = Some db' \<Longrightarrow> same_books db db'"
  by (induction k db rule: soft_query.induct)
     (auto split: bind_splits if_splits simp: upd_host_def intro: same_booksI)

lemma process_events_inv:
  assumes p: "process_events E mono_ns db = Some db'" and env: "env_ok E" and inv: "sdb_inv E n b db"
  shows "sdb_inv E n b db'"
proof -
  from p obtain d1 d2 d3 where e: "expire_sass3 E (db\<lparr>cur_mono := mono_secs mono_ns\<rparr>) = Some d1"
    and s: "soft_query (soft_host_query d1) d1 = Some d2"
    and h: "all_host_events E [0..<length (host_tab d2)] d2 = Some d3"
    and db': "db' = (if next_gc d3 < cur_mono d3 then gc (d3\<lparr>next_gc := cur_mono d3 + 131\<rparr>) else d3)"
    by (auto simp: process_events_def split: bind_splits)
  have "sdb_inv E n b (db\<lparr>cur_mono := mono_secs mono_ns\<rparr>)"
    by (rule same_books_inv [OF _ inv]) (simp add: same_booksI)
  from expire_sass3_inv [OF e env this] have "sdb_inv E n b d2"
    by (rule same_books_inv [OF soft_query_books [OF s]])
  from all_host_events_inv [OF h env this] have d3: "sdb_inv E n b d3" .
  then have "sdb_inv E n b (d3\<lparr>next_gc := cur_mono d3 + 131\<rparr>)"
    by (rule same_books_inv [rotated]) (simp add: same_booksI)
  with d3 gc_inv show ?thesis by (auto simp: db')
qed

section \<open>SASS3 messages\<close>

lemma s3_locate_Some: "s3_locate k xs = Some j \<Longrightarrow>
  j < length xs \<and> s3_in_tab (xs ! j) \<and> s3_key k = s3_key (xs ! j)"
  by (auto simp: s3_locate_def find_Some_iff s3_equals_key)

lemma s3_locate_None: "s3_locate k xs = None \<Longrightarrow> s3_key k \<notin> s3_key ` set (filter s3_in_tab xs)"
  by (auto simp: s3_locate_def find_None_iff s3_equals_key in_set_conv_nth image_iff)

lemma sass3_key_id [simp]:
  "s3_subject_id (sass3_key x u h a p now) = subject_id x" "s3_in_tab (sass3_key x u h a p now)"
  "s3_subj_hash (sass3_key x u h a p now) = sub_hash x"
  by (simp_all add: sass3_key_def)

lemma sass3_core:
  assumes core: "sdb_core E db" and x: "x \<in> set (sub_tab db)"
    and s: "sass3 E x u h a pid flags db = (j, db')"
  shows "sdb_core E db'"
proof -
  let ?k = "sass3_key x u h a pid (cur_mono db)" and ?xs = "sass3_list db"
  note s3 = sdb_core_D(3) [OF core]
  show ?thesis
  proof (cases "s3_locate ?k ?xs")
    case (Some i)
    note loc = s3_locate_Some [OF Some]
    let ?rest = "drop_nth i ?xs" and ?e = "?xs ! i"
    have id: "s3_subject_id ?e = subject_id x" using loc by (auto simp: s3_key_def)
    have perm: "mset (?e # ?rest) = mset ?xs" using loc mset_drop_nth by blast
    have ok: "s3_ok (sub_rows db) (?e # ?rest)" using s3_perm(1) [OF perm] s3 by blast
    have cnt: "s3_count ?xs i = s3_count (?e # ?rest) i" for i using s3_perm(2) [OF perm] by simp
    consider (snap) "flags = qf_snapshot E" | (unsub) "flags \<noteq> qf_snapshot E" "flags = qf_unsubscribe E"
      | (sub) "flags \<noteq> qf_snapshot E" "flags \<noteq> qf_unsubscribe E" by blast
    then show ?thesis
    proof cases
      case snap
      with s Some core show ?thesis by (simp add: sass3_def Let_def)
    next
      case unsub
      let ?e' = "?e\<lparr>s3_in_tab := False, s3_ref_mono := 0, s3_subject_id := 0\<rparr>"
      have "s3_ok (sub_rows db) (?e' # ?rest)" using ok by (auto simp: s3_ok_Cons)
      moreover have "of_nat (s3_count (?e' # ?rest) i) =
          (of_nat (s3_count ?xs i) :: 31 word) + single (subject_id x) (- 1) i" for i
        using loc by (auto simp: cnt s3_count_Cons s3_holds_def id)
      ultimately show ?thesis
        using s3_change_core [OF core x, of "?e' # ?rest" "- 1"] s Some unsub
        by (simp add: sass3_def Let_def)
    next
      case sub
      let ?e' = "?e\<lparr>s3_ref_mono := cur_mono db\<rparr>"
      have same: "map (\<lambda>e. (s3_in_tab e, s3_key e)) (?e' # ?rest) =
                  map (\<lambda>e. (s3_in_tab e, s3_key e)) (?e # ?rest)"
        by (simp add: s3_key_def)
      have perm': "mset (?rest @ [?e']) = mset (?e' # ?rest)" by simp
      have "sdb_core E (db\<lparr>sass3_list := ?rest @ [?e']\<rparr>)"
        by (rule s3_keep_core [OF core])
           (use ok in \<open>simp_all only: s3_perm [OF perm'] s3_same [OF same] cnt\<close>)
      then show ?thesis using s Some sub by (simp add: sass3_def Let_def)
    qed
  next
    case None
    note new = s3_locate_None [OF None]
    show ?thesis
    proof (cases "flags = qf_snapshot E \<or> flags = qf_unsubscribe E")
      case True
      let ?e = "?k\<lparr>s3_start_mono := 0, s3_ref_mono := 0, s3_subject_id := 0, s3_in_tab := False\<rparr>"
      have "sdb_core E (db\<lparr>sass3_list := ?e # ?xs\<rparr>)"
        by (rule s3_keep_core [OF core]) (use s3 in \<open>auto simp: s3_ok_Cons s3_count_Cons s3_holds_def\<close>)
      then show ?thesis using s None True by (simp add: sass3_def Let_def)
    next
      case False
      define e where "e = (if flags AND qf_resubscribe E \<noteq> 0 then ?k\<lparr>s3_start_mono := 0\<rparr> else ?k)"
      have e: "s3_in_tab e" "s3_key e = s3_key ?k" "s3_subject_id e = subject_id x" "s3_subj_hash e = sub_hash x"
        by (simp_all add: e_def s3_key_def)
      have perm: "mset (?xs @ [e]) = mset (e # ?xs)" by simp
      have "known (sub_rows db) (subject_id x) (sub_hash x)"
        using sub_row_in [OF x] by (auto simp: known_def)
      then have "s3_ok (sub_rows db) (?xs @ [e])"
        unfolding s3_perm(1) [OF perm] s3_ok_Cons using s3 e new by auto
      moreover have "of_nat (s3_count (?xs @ [e]) i) =
          (of_nat (s3_count ?xs i) :: 31 word) + single (subject_id x) 1 i" for i
        unfolding s3_perm(2) [OF perm] by (simp add: s3_count_Cons s3_holds_def e)
      ultimately show ?thesis
        using s3_change_core [OF core x, of "?xs @ [e]" 1] s None False
        by (simp add: sass3_def Let_def e_def)
    qed
  qed
qed

lemma sass3_room:
  assumes "sass3 E x u h a pid flags db = (j, db')" and "room (Suc n) db"
  shows "room n db'"
proof -
  have "length (sass3_list db') \<le> Suc (length (sass3_list db))"
    and "next_subject_ctr db' = next_subject_ctr db" "length (session_tab db') = length (session_tab db)"
    using assms(1)
    by (auto simp: sass3_def Let_def upd_sub_def drop_nth_def split: option.splits if_splits)
  with assms(2) show ?thesis by (simp add: room_def)
qed

lemma map_update_same: "f y = f (xs ! j) \<Longrightarrow> map f (xs[j := y]) = map f xs"
proof (rule nth_equalityI)
  fix i assume "f y = f (xs ! j)" and "i < length (map f (xs[j := y]))"
  then show "map f (xs[j := y]) ! i = map f xs ! i" by (cases "i = j") auto
qed simp

lemma sass3_subject_inv:
  assumes s: "sass3_subject E reply who flags fname db = Some db'" and env: "env_ok E"
    and inv: "sdb_inv E (Suc (Suc n)) False db"
  shows "sdb_inv E n False db'"
proof (cases "length fname > 1")
  case False
  with s inv show ?thesis by (auto simp: sass3_subject_def intro: sdb_inv_mono)
next
  case True
  obtain u h a pid where who: "who = (u, h, a, pid)" by (cases who)
  obtain x d1 where g: "get_subscription E (butlast fname) db = (x, d1)" by fastforce
  obtain j d2 where t: "sass3 E x u h a pid flags d1 = (j, d2)" by fastforce
  from get_subscription_inv [OF inv env g] have d1: "sdb_inv E (Suc n) False d1" "x \<in> set (sub_tab d1)"
    by auto
  then have core: "sdb_core E d2" and rm: "room n d2"
    using sass3_core [OF _ _ t] sass3_room [OF t] by (auto simp: sdb_inv_def)
  let ?e = "sass3_list d2 ! j"
  define e1 where "e1 = (if flags = qf_resubscribe E then ?e\<lparr>s3_start_mono := cur_mono d2\<rparr> else ?e)"
  have e1: "s3_in_tab e1 = s3_in_tab ?e" "s3_key e1 = s3_key ?e"
    by (simp_all add: e1_def s3_key_def)
  from s True who g t have "db' = d2 \<or>
      (\<exists>ev. db' = emit ev (d2\<lparr>sass3_list := (sass3_list d2)[j := e1]\<rparr>))"
    unfolding e1_def sass3_subject_def Let_def
    by (cases "flags = qf_resubscribe E"; cases "has_cb E"; cases "s3_start_mono ?e = 0") auto
  then show ?thesis
  proof (elim disjE exE)
    assume "db' = d2"
    with core rm show ?thesis by (simp add: sdb_inv_def)
  next
    fix ev assume db': "db' = emit ev (d2\<lparr>sass3_list := (sass3_list d2)[j := e1]\<rparr>)"
    have same: "map (\<lambda>e. (s3_in_tab e, s3_key e)) ((sass3_list d2)[j := e1]) =
                map (\<lambda>e. (s3_in_tab e, s3_key e)) (sass3_list d2)"
      by (rule map_update_same) (simp add: e1)
    have "sdb_core E (d2\<lparr>sass3_list := (sass3_list d2)[j := e1]\<rparr>)"
      by (rule s3_keep_core [OF core]) (use sdb_core_D(3) [OF core] in \<open>simp_all only: s3_same [OF same]\<close>)
    from same_books_core [OF same_books_emit(1) this] rm show ?thesis
      by (simp add: sdb_inv_def db' room_def emit_def)
  qed
qed

lemma sass3_subjects_inv:
  "sass3_subjects E reply who flags flds db = Some db' \<Longrightarrow> env_ok E \<Longrightarrow>
   sdb_inv E (2 * length flds + n) False db \<Longrightarrow> sdb_inv E n False db'"
proof (induction E reply who flags flds db rule: sass3_subjects.induct)
  case (2 E reply who flags fld flds db)
  from 2(2) obtain d where d: "sass3_subject E reply who flags (fst fld) db = Some d"
    and rest: "sass3_subjects E reply who flags flds d = Some db'" by (auto split: bind_splits)
  from sass3_subject_inv [OF d 2(3), of "2 * length flds + n"] 2(4)
  have "sdb_inv E (2 * length flds + n) False d" by simp
  with 2(1) [OF d rest 2(3)] show ?case by simp
qed simp

lemma free_temps_inv:
  assumes env: "env_ok E" and inv: "sdb_inv E n False db"
  shows "sdb_inv E n False (free_temps db)"
proof -
  let ?P = "\<lambda>e. s3_subject_id e = 0 \<and> s3_ref_mono e = 0"
  have core: "sdb_core E db" using inv by (simp add: sdb_inv_def)
  have "s3_ok (sub_rows db) (dropWhile ?P s3) \<and> s3_count (dropWhile ?P s3) i = s3_count s3 i"
    if "s3_ok (sub_rows db) s3" for s3 i
    using that
  proof (induction s3)
    case (Cons e s3)
    show ?case
    proof (cases "?P e")
      case True
      then have "\<not> s3_in_tab e" using Cons.prems no_zero_id [OF core env] by (auto simp: s3_ok_Cons)
      with True Cons show ?thesis by (auto simp: s3_ok_Cons s3_count_Cons s3_holds_def)
    qed (use Cons.prems in auto)
  qed simp
  then have "sdb_core E (free_temps db)"
    unfolding free_temps_def using sdb_core_D(3) [OF core] by (intro s3_keep_core [OF core]) auto
  moreover have "room n (free_temps db)"
    using inv length_dropWhile_le [of ?P "sass3_list db"]
    by (auto simp: sdb_inv_def room_def free_temps_def)
  ultimately show ?thesis by (simp add: sdb_inv_def)
qed

section \<open>Messages\<close>

lemma on_host_status_books: "on_host_status E h m db = Some db' \<Longrightarrow> same_books db db'"
proof -
  assume o: "on_host_status E h m db = Some db'"
  then obtain i d1 where hr: "host_ref E h (or_zero (find_u16 E m ''cid'')) True db = Some (i, d1)"
    by (auto simp: on_host_status_def Let_def split: bind_splits)
  have soft: "same_books d1 ((upd_host i f d1)\<lparr>soft_host_query := k\<rparr>)" for f k
    by (auto simp: upd_host_def intro: same_booksI)
  from o hr have "same_books d1 db'"
    by (auto simp: on_host_status_def Let_def split: bind_splits if_splits option.splits intro!: soft)
  with host_ref_books [OF hr] show ?thesis by (rule same_books_trans)
qed

lemma on_listen_inv:
  assumes o: "on_listen E st reply m db = Some db'" and env: "env_ok E"
    and inv: "sdb_inv E (Suc (Suc n)) b db"
  shows "sdb_inv E n b db'"
proof -
  let ?x = "or_empty (find_string E m ''id'')" and ?v = "or_empty (find_string E m ''sub'')"
  obtain s d1 where r: "session_ref E (session_cid (or_zero (find_u16 E m ''cid'')) ?x) ?x db = Some (s, d1)"
    using o by (auto simp: on_listen_def Let_def split: bind_splits)
  have d1: "sdb_inv E (Suc n) b d1" by (rule session_ref_inv [OF inv r])
  show ?thesis
  proof (cases "ses_state s = RV_SESSION_SELF")
    case True
    with o r d1 show ?thesis by (auto simp: on_listen_def Let_def intro: sdb_inv_mono)
  next
    case False
    have "\<exists>d2 ev. sdb_inv E n b d2 \<and> db' = emit_cb E ev d2"
    proof (cases st)
      case True
      with o r False obtain v a c d2 where "listen_ref E ?x ?v d1 = Some (v, a, c, d2)"
        and "db' = emit_cb E (OnListenStart ?x v reply True c (sub_refs v d2)) d2"
        by (auto simp: on_listen_def Let_def split: bind_splits)
      then show ?thesis using listen_ref_inv [OF d1 env] by blast
    next
      case st: False
      with o r False obtain p c d2 where "listen_stop E ?x ?v d1 = Some (p, c, d2)"
        and "db' = emit_cb E (OnListenStop ?x ?v p True c (sub_refs ?v d2)) d2"
        by (auto simp: on_listen_def Let_def split: bind_splits)
      then show ?thesis using listen_stop_inv [OF d1 env] by blast
    qed
    then show ?thesis by (auto intro: same_books_inv [OF same_books_emit(2)])
  qed
qed

lemma query_reply_books: "query_reply_host E raw db = Some db' \<Longrightarrow> same_books db db'"
  by (auto simp: query_reply_host_def split: bind_splits
        intro: same_books_trans [OF host_ref_books same_books_host(1)])

lemma snapshot_inv:
  assumes s: "snapshot E v raw nm db = Some (r, db')" and env: "env_ok E"
    and inv: "sdb_inv E (Suc n) b db"
  shows "sdb_inv E n b db'"
proof -
  obtain x d1 where g: "get_subscription E v db = (x, d1)" by fastforce
  have d1: "sdb_inv E n b d1" using get_subscription_inv [OF inv env g] by simp
  have "same_books d1 db'"
    using s g by (auto simp: snapshot_def query_reply_books split: bind_splits option.splits if_splits)
  then show ?thesis using d1 by (rule same_books_inv)
qed

lemma tic_inv:
  assumes s: "tic E v raw nm db = Some (r, db')" and env: "env_ok E"
    and inv: "sdb_inv E (Suc n) b db"
  shows "sdb_inv E n b db'"
proof -
  obtain x d1 where g: "get_subscription E v db = (x, d1)" by fastforce
  have d1: "sdb_inv E n b d1" using get_subscription_inv [OF inv env g] by simp
  have "same_books d1 db'"
    using s g by (auto simp: tic_def query_reply_books split: bind_splits option.splits)
  then show ?thesis using d1 by (rule same_books_inv)
qed

lemma on_snap_inv:
  assumes "on_snap E subject reply m db = Some db'" and "env_ok E" and "sdb_inv E (Suc n) b db"
  shows "sdb_inv E n b db'"
  using assms
  by (auto simp: on_snap_def Let_def split: if_splits bind_splits
        intro: sdb_inv_mono same_books_inv [OF same_books_emit(1)] snapshot_inv)

lemma on_tic_inv:
  assumes "on_tic E subject reply db = Some db'" and "env_ok E" and "sdb_inv E (Suc n) b db"
  shows "sdb_inv E n b db'"
  using assms
  by (auto simp: on_tic_def split: if_splits bind_splits
        intro: sdb_inv_mono same_books_inv [OF same_books_emit(1)] tic_inv)

text \<open>How many entries a message can create.\<close>

definition msg_cost :: "'f sdb_env \<Rightarrow> 'f md_msg option \<Rightarrow> nat" where
  "msg_cost E m = 2 + (case m of None \<Rightarrow> 0 | Some flds \<Rightarrow> length flds) +
     2 * (case Option.bind (find_field E m ''S'') (rd_msg E) of None \<Rightarrow> 0 | Some x \<Rightarrow> length x)"

lemma on_sass3_msg_inv:
  assumes o: "on_sass3_msg E reply m db = Some db'" and env: "env_ok E"
    and inv: "sdb_inv E (msg_cost E m + n) False db"
  shows "sdb_inv E n False db'"
proof -
  from o consider "db' = db" | who flags x where
      "Option.bind (find_field E m ''S'') (rd_msg E) = Some x"
      "sass3_subjects E reply who flags x db = Some db'"
    by (auto simp: on_sass3_msg_def Let_def split: if_splits option.splits)
  then show ?thesis
  proof cases
    case 1
    with inv show ?thesis by (auto intro: sdb_inv_mono)
  next
    case 2
    have "sdb_inv E (2 * length x + n) False db"
      by (rule sdb_inv_mono [OF inv]) (simp add: msg_cost_def 2(1))
    from sass3_subjects_inv [OF 2(2) env this] show ?thesis .
  qed
qed

lemma on_info_inv:
  assumes o: "on_info E match subject reply m db = Some db'" and env: "env_ok E"
    and inv: "sdb_inv E (msg_cost E m + n) b db" and b: "snd match = IS_SASS \<longrightarrow> \<not> b"
  shows "sdb_inv E n b db'"
proof -
  have inv2: "sdb_inv E (Suc (Suc n)) b db" and inv1: "sdb_inv E (Suc n) b db" and inv0: "sdb_inv E n b db"
    by (rule sdb_inv_mono [OF inv], simp add: msg_cost_def)+
  let ?h = "string_to_host_id (drop (length (fst match) - 1) subject)"
  note unf = on_info_def Let_def
  show ?thesis
  proof (cases "snd match")
    case IS_HOST_STATUS
    with o show ?thesis
      by (auto simp: unf split: bind_splits intro: same_books_inv [OF on_host_status_books inv0])
  next
    case IS_HOST_START
    with o show ?thesis
      by (auto simp: unf split: bind_splits intro: same_books_inv [OF host_start_books inv0])
  next
    case IS_HOST_STOP
    with o show ?thesis by (auto simp: unf split: bind_splits intro: host_stop_inv [OF _ env inv0])
  next
    case IS_UNREACHABLE
    with o show ?thesis
      by (auto simp: unf split: bind_splits intro: same_books_inv [OF query_rv7_books inv0])
  next
    case IS_SESSION_START
    with o show ?thesis by (auto simp: unf split: bind_splits intro: session_start_inv [OF inv1 env])
  next
    case IS_SESSION_STOP
    with o show ?thesis by (auto simp: unf split: bind_splits intro: session_stop_inv [OF inv0 env])
  next
    case IS_SASS
    with o obtain d where "on_sass3_msg E reply m db = Some d" and "db' = free_temps d"
      by (auto simp: unf)
    with IS_SASS b inv show ?thesis
      using free_temps_inv [OF env on_sass3_msg_inv [OF _ env]] by auto
  qed (use o on_listen_inv [OF _ env inv2] on_snap_inv [OF _ env inv1] on_tic_inv [OF _ env inv1]
       in \<open>simp_all add: unf\<close>)
qed

lemma ref_sessions_inv:
  "ref_sessions E cid flds db = Some db' \<Longrightarrow> sdb_inv E (length flds + n) b db \<Longrightarrow> sdb_inv E n b db'"
proof (induction E cid flds db rule: ref_sessions.induct)
  case (2 E cid fld flds db)
  show ?case
  proof (cases "fst fld = [] \<and> rd_string E (snd fld) \<noteq> None")
    case True
    then obtain x where x: "fst fld = []" "rd_string E (snd fld) = Some x" by auto
    with 2(4) obtain s d where d: "session_ref E cid x db = Some (s, d)"
      and rest: "ref_sessions E cid flds d = Some db'" by (auto split: bind_splits)
    have "sdb_inv E (length flds + n) b d" using session_ref_inv [OF _ d] 2(5) by simp
    with 2(2) [OF x d refl rest] show ?thesis by simp
  next
    case False
    have "sdb_inv E (length flds + n) b db" by (rule sdb_inv_mono [OF 2(5)]) simp
    with False 2(1,3,4) show ?thesis by (auto split: if_splits option.splits)
  qed
qed simp

lemma on_host_reply_inv:
  assumes o: "on_host_reply E i m db = Some db'" and env: "env_ok E"
    and inv: "sdb_inv E (length m + n) b db"
  shows "sdb_inv E n b db'"
proof (cases "i < length (host_tab db) \<and> hst_state (host_tab db ! i) = RV_HOST_QUERY")
  case False
  with o inv show ?thesis by (auto simp: on_host_reply_def intro: sdb_inv_mono)
next
  case True
  with o obtain d1 d2 d3 where m: "mark_sessions E i db = Some d1"
    and r: "ref_sessions E (hst_cid (host_tab db ! i)) m d1 = Some d2"
    and s: "stop_marked_sessions E i d2 = Some d3"
    and db': "db' = upd_host i (\<lambda>h. h\<lparr>hst_state := RV_HOST_STATUS\<rparr>) d3"
    by (auto simp: on_host_reply_def split: bind_splits)
  have "same_books db d1" using m mark_session_books by (auto simp: mark_sessions_def split: bind_splits)
  then have "sdb_inv E (length m + n) b d1" using inv by (rule same_books_inv)
  from ref_sessions_inv [OF r this] have "sdb_inv E n b d3"
    using stop_marked_loop_inv [OF s [unfolded stop_marked_sessions_def] env] by blast
  then show ?thesis unfolding db' by (rule same_books_inv [OF same_books_host(1)])
qed

lemma ref_subjects_inv:
  "ref_subjects E nm flds db = Some db' \<Longrightarrow> env_ok E \<Longrightarrow> sdb_inv E (length flds + n) b db \<Longrightarrow>
   sdb_inv E n b db'"
proof (induction E nm flds db rule: ref_subjects.induct)
  case (2 E nm fld flds db)
  have less: "sdb_inv E (length flds + n) b db" by (rule sdb_inv_mono [OF 2(7)]) simp
  show ?case
  proof (cases "fst fld = []")
    case False
    let ?d = "if nm_equals E (fst fld) ''user''
              then upd_session nm (\<lambda>s. s\<lparr>user_id := rd_string E (snd fld)\<rparr>) db else db"
    have "same_books db (upd_session nm (\<lambda>s. s\<lparr>user_id := rd_string E (snd fld)\<rparr>) db)"
      by (rule same_books_session) auto
    then have "sdb_inv E (length flds + n) b ?d"
      using less by (auto intro: same_books_inv)
    with 2(1) [OF False _ 2(6)] 2(5) False show ?thesis by simp
  next
    case True
    show ?thesis
    proof (cases "rd_string E (snd fld)")
      case None
      with 2(2) 2(5,6) True less show ?thesis by auto
    next
      case (Some sub)
      show ?thesis
      proof (cases "is_matched sub db")
        case False
        with 2(4) 2(5,6) True Some less show ?thesis by auto
      next
        case m: True
        with 2(5) True Some obtain v a c d where l: "listen_ref E nm sub db = Some (v, a, c, d)"
          and rest: "ref_subjects E nm flds
              (if a then emit_cb E (OnListenStart nm v [] False c (sub_refs v d)) d else d) = Some db'"
            (is "ref_subjects E nm flds ?d = _")
          by (auto split: bind_splits)
        have "sdb_inv E (length flds + n) b d" using listen_ref_inv [OF _ 2(6) l] 2(7) by simp
        then have "sdb_inv E (length flds + n) b ?d"
          by (auto intro: same_books_inv [OF same_books_emit(2)])
        with 2(3) True Some m l rest 2(6) show ?thesis by auto
      qed
    qed
  qed
qed simp

lemma on_session_reply_inv:
  assumes o: "on_session_reply E ident m db = Some db'" and env: "env_ok E"
    and inv: "sdb_inv E (length m + n) b db"
  shows "sdb_inv E n b db'"
proof -
  from o obtain r where r: "get_session_id ident db = Some r"
    by (auto simp: on_session_reply_def split: bind_splits)
  show ?thesis
  proof (cases "\<exists>s. r = Some s \<and> ses_state s = RV_SESSION_QUERY")
    case False
    with o r inv show ?thesis
      by (auto simp: on_session_reply_def split: option.splits intro: sdb_inv_mono)
  next
    case True
    then obtain s where s: "r = Some s" "ses_state s = RV_SESSION_QUERY" by blast
    let ?f = "\<lambda>s :: rv_session. s\<lparr>ses_state := (if has_daemon s then RV_SESSION_RV7 else RV_SESSION_RV5)\<rparr>"
    from o r s obtain d1 where
      d1: "ref_subjects E (ses_value s) m (mark_subscriptions E s db) = Some d1"
      and st: "stop_marked_subscriptions E (ses_value s) (upd_session (ses_value s) ?f d1) = Some db'"
      by (auto simp: on_session_reply_def split: bind_splits)
    have "sdb_inv E (length m + n) b (mark_subscriptions E s db)"
      unfolding mark_subscriptions_def by (rule same_books_inv [OF mark_sub_books inv])
    then have "sdb_inv E n b d1" using ref_subjects_inv [OF d1 env] by blast
    moreover have "same_books d1 (upd_session (ses_value s) ?f d1)"
      by (rule same_books_session) auto
    ultimately show ?thesis
      using stop_marked_sub_loop_inv [OF st [unfolded stop_marked_subscriptions_def]] same_books_inv by blast
  qed
qed

lemma on_inbox_inv:
  assumes o: "on_inbox E which m db = Some db'" and env: "env_ok E"
    and inv: "sdb_inv E (msg_cost E m + n) b db"
  shows "sdb_inv E n b db'"
proof -
  from o obtain flds where m: "m = Some flds" by (auto simp: on_inbox_def split: bind_splits)
  have "sdb_inv E (length flds + n) b db" by (rule sdb_inv_mono [OF inv]) (simp add: m msg_cost_def)
  with o m show ?thesis
    by (auto simp: on_inbox_def split: if_splits intro: on_host_reply_inv [OF _ env] on_session_reply_inv [OF _ env])
qed

lemma process_pub2_inv:
  assumes p: "process_pub2 E mono_ns pub db = Some (r, db')" and env: "env_ok E"
    and inv: "sdb_inv E (msg_cost E (pub_fields E pub) + n) b db"
    and b: "map_option snd (match_rv_info (pub_subject pub)) = Some IS_SASS \<longrightarrow> \<not> b"
  shows "sdb_inv E n b db'"
proof -
  let ?d = "db\<lparr>cur_mono := mono_secs mono_ns\<rparr>" and ?m = "pub_fields E pub"
  have d: "sdb_inv E (msg_cost E ?m + n) b ?d"
    by (rule same_books_inv [OF _ inv]) (simp add: same_booksI)
  then have less: "sdb_inv E n b ?d" "sdb_inv E n b db" using inv by (auto intro: sdb_inv_mono)
  show ?thesis
  proof (cases "match_rv_info (pub_subject pub)")
    case (Some sm)
    from p Some have "db' = ?d \<or> on_info E sm (pub_subject pub) (pub_reply pub) ?m ?d = Some db'"
      unfolding process_pub2_def Let_def by (auto split: if_splits)
    then show ?thesis using less on_info_inv [where match = sm, OF _ env d] b Some by auto
  next
    case None
    from p None have "db' = ?d \<or> db' = db \<or> (\<exists>which. on_inbox E which ?m ?d = Some db')"
      unfolding process_pub2_def Let_def by (auto split: if_splits)
    then show ?thesis using less on_inbox_inv [OF _ env d] by auto
  qed
qed

section \<open>Synchronisation\<close>

lemma sync_listen_inv:
  "sync_listen E nm flds db = Some db' \<Longrightarrow> env_ok E \<Longrightarrow> sdb_inv E (length flds + n) b db \<Longrightarrow>
   sdb_inv E n b db'"
proof (induction E nm flds db rule: sync_listen.induct)
  case (2 E nm fld flds db)
  show ?case
  proof (cases "rd_string E (snd fld)")
    case None
    have "sdb_inv E (length flds + n) b db" by (rule sdb_inv_mono [OF 2(5)]) simp
    with None 2(1) 2(3,4) show ?thesis by auto
  next
    case (Some sub)
    with 2(3) obtain v a c d where l: "listen_ref E nm sub db = Some (v, a, c, d)"
      and rest: "sync_listen E nm flds
          (if a then emit_cb E (OnListenStart nm v [] False c (sub_refs v d)) d else d) = Some db'"
        (is "sync_listen E nm flds ?d = _")
      by (auto split: bind_splits)
    have "sdb_inv E (length flds + n) b d" using listen_ref_inv [OF _ 2(4) l] 2(5) by simp
    then have "sdb_inv E (length flds + n) b ?d" by (auto intro: same_books_inv [OF same_books_emit(2)])
    with 2(2) Some l rest 2(4) show ?thesis by auto
  qed
qed simp

definition sub_len :: "'f sdb_env \<Rightarrow> 'f \<Rightarrow> ('f md_msg \<Rightarrow> nat) \<Rightarrow> nat" where
  "sub_len E f cost = (case rd_msg E f of None \<Rightarrow> 0 | Some m \<Rightarrow> cost m)"

definition sessions_cost :: "'f sdb_env \<Rightarrow> 'f md_msg \<Rightarrow> nat" where
  "sessions_cost E m = sum_list (map (\<lambda>fld. Suc (sub_len E (snd fld) length)) m)"

definition hosts_cost :: "'f sdb_env \<Rightarrow> 'f md_msg \<Rightarrow> nat" where
  "hosts_cost E m = sum_list (map (\<lambda>fld. sub_len E (snd fld) (sessions_cost E)) m)"

definition sync_cost :: "'f sdb_env \<Rightarrow> 'f md_msg \<Rightarrow> nat" where
  "sync_cost E m = sum_list (map (\<lambda>fld. sub_len E (snd fld) (hosts_cost E)) m)"

lemma update_sessions_inv:
  "update_sessions E cid flds db = Some db' \<Longrightarrow> env_ok E \<Longrightarrow>
   sdb_inv E (sessions_cost E flds + n) b db \<Longrightarrow> sdb_inv E n b db'"
proof (induction E cid flds db rule: update_sessions.induct)
  case (1 E cid db)
  then show ?case by (simp add: sessions_cost_def)
next
  case (2 E cid fld flds db)
  let ?nm = "butlast (fst fld)" and ?k = "sub_len E (snd fld) length" and ?c = "sessions_cost E flds + n"
  from 2(2) have ne: "fst fld \<noteq> []" by (auto split: if_splits)
  with 2(2) obtain s d1 d2 where r: "session_ref E cid ?nm db = Some (s, d1)"
    and d2: "(if ses_state s \<noteq> RV_SESSION_SELF \<and> rd_is_msg E (snd fld)
           then (case rd_msg E (snd fld) of None \<Rightarrow> Some d1 | Some subs \<Rightarrow> sync_listen E ?nm subs d1)
           else Some d1) = Some d2"
    and rest: "update_sessions E cid flds d2 = Some db'"
    by (auto split: bind_splits)
  have "sdb_inv E (Suc (?k + ?c)) b db" using 2(4) by (simp add: sessions_cost_def add.assoc)
  from session_ref_inv [OF this r] have d1: "sdb_inv E (?k + ?c) b d1" .
  have "sdb_inv E ?c b d2"
  proof (cases "d2 = d1")
    case True
    with d1 show ?thesis by (auto intro: sdb_inv_mono)
  next
    case False
    with d2 obtain subs where "rd_msg E (snd fld) = Some subs" and s: "sync_listen E ?nm subs d1 = Some d2"
      by (auto split: if_splits option.splits)
    with d1 have "sdb_inv E (length subs + ?c) b d1" by (simp add: sub_len_def)
    from sync_listen_inv [OF s 2(3) this] show ?thesis .
  qed
  with 2(1) [OF ne r refl d2 rest 2(3)] show ?case by simp
qed

lemma update_host_inv:
  "update_host E h cid flds db = Some db' \<Longrightarrow> env_ok E \<Longrightarrow>
   sdb_inv E (hosts_cost E flds + n) b db \<Longrightarrow> sdb_inv E n b db'"
proof (induction E h cid flds db rule: update_host.induct)
  case (1 E h cid db)
  then show ?case by (simp add: hosts_cost_def)
next
  case (2 E h cid fld flds db)
  let ?c = "hosts_cost E flds + n"
  have all: "sdb_inv E (sub_len E (snd fld) (sessions_cost E) + ?c) b db"
    using 2(8) by (simp add: hosts_cost_def add.assoc)
  then have less: "sdb_inv E ?c b db" by (rule sdb_inv_mono) simp
  show ?case
  proof (cases "\<not> nm_equals E (fst fld) ''id'' \<and> \<not> nm_equals E (fst fld) ''cid'' \<and>
                (nm_equals E (fst fld) ''sessions'' \<and> h \<noteq> 0) \<and> rd_msg E (snd fld) \<noteq> None")
    case False
    then show ?thesis
      using 2(1-3,5-7) less by (auto split: if_splits option.splits)
  next
    case True
    then obtain sess where c: "\<not> nm_equals E (fst fld) ''id''" "\<not> nm_equals E (fst fld) ''cid''"
      "nm_equals E (fst fld) ''sessions'' \<and> h \<noteq> 0" "rd_msg E (snd fld) = Some sess" by auto
    with 2(6) obtain i d1 d2 where r: "host_ref E h cid True db = Some (i, d1)"
      and u: "update_sessions E cid sess d1 = Some d2" and rest: "update_host E h cid flds d2 = Some db'"
      by (auto split: bind_splits)
    have "sdb_inv E (sessions_cost E sess + ?c) b d1"
      using same_books_inv [OF host_ref_books [OF r] all] c by (simp add: sub_len_def)
    from update_sessions_inv [OF u 2(7) this] have "sdb_inv E ?c b d2" .
    with 2(4) [OF c r refl u rest 2(7)] show ?thesis by simp
  qed
qed

lemma update_sync_inv:
  "update_sync E flds db = Some db' \<Longrightarrow> env_ok E \<Longrightarrow>
   sdb_inv E (sync_cost E flds + n) b db \<Longrightarrow> sdb_inv E n b db'"
proof (induction E flds db rule: update_sync.induct)
  case (1 E db)
  then show ?case by (simp add: sync_cost_def)
next
  case (2 E fld flds db)
  let ?c = "sync_cost E flds + n"
  have all: "sdb_inv E (sub_len E (snd fld) (hosts_cost E) + ?c) b db"
    using 2(5) by (simp add: sync_cost_def add.assoc)
  show ?case
  proof (cases "if nm_equals E (fst fld) ''host'' then rd_msg E (snd fld) else None")
    case None
    have "sdb_inv E ?c b db" by (rule sdb_inv_mono [OF all]) simp
    with None 2(1) 2(3,4) show ?thesis by simp
  next
    case (Some hf)
    with 2(3) obtain d where u: "update_host E 0 0 hf db = Some d" and rest: "update_sync E flds d = Some db'"
      by (auto split: bind_splits)
    have "sdb_inv E (hosts_cost E hf + ?c) b db"
      using all Some by (auto simp: sub_len_def split: if_splits)
    from update_host_inv [OF u 2(4) this] have "sdb_inv E ?c b d" .
    with 2(2) [OF Some u rest 2(4)] show ?thesis by simp
  qed
qed

section \<open>Reachable states\<close>

lemma start_inv:
  assumes s: "start_subscriptions E mono_ns all s2 s3 t db = Some db'" and env: "env_ok E"
    and inv: "sdb_inv E (Suc n) b db"
  shows "sdb_inv E n b db'"
proof (cases "is_subscribed db")
  case True
  with s inv show ?thesis by (auto simp: start_subscriptions_def intro: sdb_inv_mono)
next
  case False
  define d0 where "d0 = db\<lparr>host_ht := Some (\<lambda>_. None), sess_ht := Some (\<lambda>_. None), is_subscribed := True,
      is_all_subscribed := all, is_sass2 := s2, is_sass3 := s3, is_tic := t,
      cur_mono := mono_secs mono_ns, next_gc := mono_secs mono_ns + 131\<rparr>"
  have "same_books db d0" by (simp add: d0_def same_booksI)
  then have "same_books db (do_subscriptions True d0)" using do_subscriptions_books by (rule same_books_trans)
  then have d1: "sdb_inv E (Suc n) b (do_subscriptions True d0)" using inv by (rule same_books_inv)
  show ?thesis
  proof (cases s2)
    case True
    with s False obtain i d2 and host :: rv_host where
      r: "host_ref E (ntohl (cl_ipaddr E)) (cl_cid E) True (do_subscriptions True d0) = Some (i, d2)"
      and st: "session_start E (host_id host) (cl_cid E) (cl_session E) True (Some ''self'')
          (upd_host i (\<lambda>h. h\<lparr>hst_state := RV_HOST_QUERY\<rparr>) d2) = Some db'"
      by (auto simp: start_subscriptions_def Let_def d0_def split: bind_splits)
    have "sdb_inv E (Suc n) b (upd_host i (\<lambda>h. h\<lparr>hst_state := RV_HOST_QUERY\<rparr>) d2)"
      by (rule same_books_inv [OF same_books_trans [OF host_ref_books [OF r] same_books_host(1)] d1])
    from session_start_inv [OF this env st] show ?thesis .
  next
    case s2: False
    with s False have "db' = do_subscriptions True d0"
      by (auto simp: start_subscriptions_def Let_def d0_def)
    with d1 show ?thesis by (auto intro: sdb_inv_mono)
  qed
qed

lemma release_inv: "room n (release db) \<Longrightarrow> sdb_inv E n b (release db)"
  by (simp add: sdb_inv_def sdb_core_def books_ok_def subs_ok_def sess_ok_def s3_ok_def counts_ok_def
        stop_ok_def sub_rows_def ses_rows_def active_ok_def live_rows_def gc_reset_def release_def)

lemma new_inv: "room n (sdb_new t) \<Longrightarrow> sdb_inv E n b (sdb_new t)"
  by (simp add: sdb_inv_def sdb_core_def books_ok_def subs_ok_def sess_ok_def s3_ok_def counts_ok_def
        stop_ok_def sub_rows_def ses_rows_def active_ok_def live_rows_def gc_reset_def sdb_new_def)

text \<open>The calls that a program makes.\<close>

datatype 'f sdb_op =
  OpStart u64 bool bool bool bool | OpStop | OpWildcard "string option" | OpPub u64 rv_pub
| OpEvents u64 | OpSync "'f md_msg" | OpUnsubAll | OpRelease

definition sdb_exec :: "'f sdb_env \<Rightarrow> 'f sdb_op \<Rightarrow> sdb \<Rightarrow> sdb option" where
  "sdb_exec E op db =
     (case op of
        OpStart t all s2 s3 tc \<Rightarrow> start_subscriptions E t all s2 s3 tc db
      | OpStop \<Rightarrow> Some (stop_subscriptions db)
      | OpWildcard w \<Rightarrow> Some (add_wildcard w db)
      | OpPub t pub \<Rightarrow> map_option snd (process_pub2 E t pub db)
      | OpEvents t \<Rightarrow> process_events E t db
      | OpSync m \<Rightarrow> update_sync E m db
      | OpUnsubAll \<Rightarrow> unsub_all E db
      | OpRelease \<Rightarrow> Some (release db))"

definition op_cost :: "'f sdb_env \<Rightarrow> 'f sdb_op \<Rightarrow> nat" where
  "op_cost E op =
     (case op of
        OpStart t all s2 s3 tc \<Rightarrow> 1
      | OpPub t pub \<Rightarrow> msg_cost E (pub_fields E pub)
      | OpSync m \<Rightarrow> sync_cost E m
      | _ \<Rightarrow> 0)"

fun is_sass_op :: "'f sdb_op \<Rightarrow> bool" where
  "is_sass_op (OpPub t pub) = (map_option snd (match_rv_info (pub_subject pub)) = Some IS_SASS)"
| "is_sass_op op = False"

text \<open>
  The states after a sequence of calls that return; \<open>b\<close> says that none of them is a SASS3 message.
  Every call finds room for the entries it can create.
\<close>

inductive sdb_reach :: "'f sdb_env \<Rightarrow> bool \<Rightarrow> sdb \<Rightarrow> bool" for E b where
  reach_new: "sdb_reach E b (sdb_new t)"
| reach_step: "sdb_reach E b db \<Longrightarrow> room (op_cost E op) db \<Longrightarrow> (b \<longrightarrow> \<not> is_sass_op op) \<Longrightarrow>
    sdb_exec E op db = Some db' \<Longrightarrow> sdb_reach E b db'"

lemma exec_inv:
  assumes e: "sdb_exec E op db = Some db'" and env: "env_ok E" and inv: "sdb_inv E (op_cost E op) b db"
    and b: "b \<longrightarrow> \<not> is_sass_op op"
  shows "sdb_inv E 0 b db'"
proof (cases op)
  case OpStart
  with e inv show ?thesis using start_inv [OF _ env, where n = 0] by (auto simp: sdb_exec_def op_cost_def)
next
  case OpStop
  have "same_books db (db\<lparr>is_subscribed := False\<rparr>)" by (simp add: same_booksI)
  then have "same_books db (stop_subscriptions db)"
    using do_subscriptions_books same_books_trans by (auto simp: stop_subscriptions_def)
  with OpStop e inv show ?thesis by (auto simp: sdb_exec_def op_cost_def intro: same_books_inv)
next
  case (OpWildcard w)
  have "same_books db (add_wildcard w db)" by (simp add: add_wildcard_def Let_def same_booksI)
  with OpWildcard e inv show ?thesis by (auto simp: sdb_exec_def op_cost_def intro: same_books_inv)
next
  case (OpPub t pub)
  with e inv b show ?thesis
    using process_pub2_inv [OF _ env, of t pub db _ db' 0 b] by (auto simp: sdb_exec_def op_cost_def)
next
  case (OpEvents t)
  with e inv show ?thesis using process_events_inv [OF _ env] by (auto simp: sdb_exec_def op_cost_def)
next
  case (OpSync m)
  with e inv show ?thesis using update_sync_inv [OF _ env, where n = 0] by (auto simp: sdb_exec_def op_cost_def)
next
  case OpUnsubAll
  with e inv show ?thesis
    using unsub_all_from_inv [OF _ env] by (auto simp: sdb_exec_def op_cost_def unsub_all_def)
next
  case OpRelease
  with e release_inv [of 0 db] show ?thesis
    by (auto simp: sdb_exec_def room_def release_def)
qed

lemma sdb_reach_inv:
  assumes "sdb_reach E b db" and env: "env_ok E"
  shows "sdb_inv E 0 b db"
  using assms(1)
proof induction
  case (reach_new t)
  show ?case by (rule new_inv) (simp add: room_def sdb_new_def)
next
  case (reach_step db op db')
  then have "sdb_inv E (op_cost E op) b db" by (simp add: sdb_inv_def)
  from exec_inv [OF reach_step(4) env this reach_step(3)] show ?case .
qed

end
