(* ===== verification/Sub_Properties.thy ===== *)
theory Sub_Properties
  imports Sub_Reach
begin

text \<open>
  What the subscription database guarantees: the reference counts, the tables and the counter of
  active subscriptions in every reachable state, the calls that return and the ones that do not,
  the round trips of host ids and of a listen start and stop.
\<close>

section \<open>A concrete environment\<close>

text \<open>
  The witnesses use the fields of \<open>sync_val\<close> as messages, the length as checksum, the identity as
  hash of a counter and the order of insertion as the order of a table.
\<close>

definition sample_hex :: "u32 \<Rightarrow> char" where
  "sample_hex d = (''0123456789ABCDEF'' ! (unat d mod 16))"

definition sample_env :: "sync_val sdb_env" where
  "sample_env =
     \<lparr>kv_crc_c = (\<lambda>s c. c + of_nat (length s)), kv_hash_uint = (\<lambda>c. c), ht_order = (\<lambda>t. t),
      hexchar2 = sample_hex, uint32_to_string = (\<lambda>n. ''7''), string_to_uint64 = (\<lambda>s. 0),
      unpack = (\<lambda>e s. Some []), rd_find = (\<lambda>m nm. map_of m nm), nm_equals = (\<lambda>a c. a = c),
      rd_string = (\<lambda>f. case f of SyncString s \<Rightarrow> Some s | _ \<Rightarrow> None),
      rd_u32 = (\<lambda>f. case f of SyncUint n \<Rightarrow> Some n | _ \<Rightarrow> None),
      rd_u16 = (\<lambda>f. case f of SyncUint n \<Rightarrow> Some (ucast n) | _ \<Rightarrow> None),
      rd_msg = (\<lambda>f. case f of SyncMsg m \<Rightarrow> Some m | _ \<Rightarrow> None),
      rd_is_msg = (\<lambda>f. case f of SyncMsg m \<Rightarrow> True | _ \<Rightarrow> False),
      qf_unsubscribe = 1, qf_snapshot = 2, qf_resubscribe = 4, qf_refresh = 8,
      cl_ipaddr = 1, cl_cid = 0, cl_session = ''A'', cl_control = ''_INBOX.A.1'', has_cb = True\<rparr>"

lemma sample_env_ok: "env_ok sample_env"
  by (auto simp: env_ok_def sample_env_def inj_def)

lemma quiet_subscriptions:
  "\<not> is_sass2 db \<Longrightarrow> \<not> is_sass3 db \<Longrightarrow> \<not> is_tic db \<Longrightarrow> do_subscriptions b db = db"
proof -
  assume "\<not> is_sass2 db" "\<not> is_sass3 db" "\<not> is_tic db"
  then have "fold (do_subscription b) ms db = db" for ms
    by (induction ms) (simp_all add: do_subscription_def)
  then show ?thesis by (simp add: do_subscriptions_def)
qed

text \<open>A session of one host listens to the subject \<open>X\<close>.\<close>

definition sample_name :: string where "sample_name = ''00000001.A''"

definition sample_sync :: "(string \<times> sync_val) list" where
  "sample_sync =
     [(''host'', SyncMsg [(''id'', SyncUint 1), (''sessions'', SyncMsg
        [(sample_name @ ''0'', SyncMsg [([], SyncString ''X'')])])])]"

definition sample_start :: sdb where
  "sample_start = (sdb_new False)\<lparr>host_ht := Some (\<lambda>_. None), sess_ht := Some (\<lambda>_. None),
     is_subscribed := True, is_all_subscribed := True, next_gc := 131\<rparr>"

definition sample_host :: "(u32 \<times> u32) list \<Rightarrow> u32 \<Rightarrow> rv_host" where
  "sample_host t k = (host_start_entry 1 0 0 False True)\<lparr>hst_sess_ht := Some t, sub_count := k, sub_digest := 11 * k\<rparr>"

definition sample_ses :: "(u32 \<times> u32) list \<Rightarrow> rv_session" where
  "sample_ses t = (session_start_entry sample_name 10 1 0 1 0 False None)\<lparr>sub_ht := Some t\<rparr>"

definition sample_sub :: rv_subscription where
  "sample_sub = (sub_start ''X'' 1 1 0)\<lparr>refcnt := 1\<rparr>"

definition sample_db0 :: sdb where
  "sample_db0 = sample_start\<lparr>host_ht := Some [1 \<mapsto> 0], host_tab := [sample_host [] 0], first_free_host := 1,
     hosts := \<lparr>active = 1, removed = 0\<rparr>\<rparr>"

definition sample_db1 :: sdb where
  "sample_db1 = sample_db0\<lparr>sess_ht := Some [1 \<mapsto> 10], host_tab := [sample_host [(1, 10)] 0],
     session_tab := [sample_ses []], next_session_ctr := 1, sessions := \<lparr>active = 1, removed = 0\<rparr>\<rparr>"

definition sample_db2 :: sdb where
  "sample_db2 = sample_db1\<lparr>host_tab := [sample_host [(1, 10)] 1], session_tab := [sample_ses [(1, 1)]],
     sub_tab := [sample_sub], next_subject_ctr := 1, subscriptions := \<lparr>active = 1, removed = 0\<rparr>\<rparr>"

definition sample_db :: sdb where
  "sample_db = emit (OnListenStart sample_name ''X'' [] False False 1) sample_db2"

lemma sample_crc: "kv_crc_c sample_env s c = c + of_nat (length s)"
  by (simp add: sample_env_def)

lemmas sample_sel = sample_start_def sdb_new_def gc_reset_def sample_db0_def sample_db1_def sample_db2_def sample_db_def

lemma sample_start_exec:
  "sdb_exec sample_env (OpStart 0 True False False False) (sdb_new False) = Some sample_start"
  by (simp add: sdb_exec_def start_subscriptions_def sdb_new_def quiet_subscriptions
        sample_start_def Let_def mono_secs_def)

lemma sample_host_ref: "host_ref sample_env 1 0 True sample_start = Some (0, sample_db0)"
  by (simp add: host_ref_def host_lookup_def wait_free.simps slot_free_def sample_start_def sdb_new_def
        put_host_def hosts_active_inc_def set_host_ht_def hash_host_id_def gc_reset_def
        sample_db0_def sample_host_def host_start_entry_def)

lemma sample_host_id: "string_to_host_id sample_name = Some 1"
  by (simp add: string_to_host_id_def sample_name_def hexval_def numeral_eq_Suc Let_def)

lemma sample_session_ref:
  "session_ref sample_env 0 sample_name sample_db0 = Some (sample_ses [], sample_db1)"
proof -
  have "length sample_name = 10" and "scan_daemon sample_name = False" "session_cid 0 sample_name = 0"
    by (simp_all add: sample_name_def session_cid_def)
  then show ?thesis
    by (simp add: session_ref_def Let_def find_session_def session_ref_new_def sample_host_id sample_crc
        host_ref_def host_lookup_def sample_sel hash_host_id_def add_session_def put_session_def
        next_session_id_def host_add_session_def sample_host_def sample_ses_def session_start_entry_def
        host_start_entry_def ht_set_def upd_host_def nth_opt_def)
qed

lemma sample_listen:
  "listen_ref sample_env sample_name ''X'' sample_db1 = Some (''X'', True, False, sample_db2)"
proof -
  have n: "length sample_name = 10" "sample_name \<noteq> []" "last sample_name = CHR ''A''"
    "\<not> scan_daemon sample_name"
    by (simp_all add: sample_name_def)
  have w: "is_wild ''X'' = False"
    by (simp add: is_wild_def is_rv_wildcard_def wild_loop.simps is_gt_at_def is_star_at_def)
  show ?thesis
    by (simp add: listen_ref_def Let_def strip_nul_def touch_sub_def get_subscription_def find_sub_def
        sample_sel sample_crc sample_ses_def session_start_entry_def find_session_def n add_subject_def
        next_subject_id_def sample_env_def upd_sub_def upd_session_def sub_start_def sample_sub_def ht_set_def
        host_digest_def find_host_def host_lookup_def hash_host_id_def upd_host_def pair_hash_def
        sample_host_def host_start_entry_def sub_hash_count_def w)
qed

lemma sample_sync_exec: "sdb_exec sample_env (OpSync sample_sync) sample_start = Some sample_db"
proof -
  have env: "nm_equals sample_env = (\<lambda>a c. a = c)" "has_cb sample_env"
    "rd_msg sample_env = (\<lambda>f. case f of SyncMsg m \<Rightarrow> Some m | _ \<Rightarrow> None)"
    "rd_string sample_env = (\<lambda>f. case f of SyncString s \<Rightarrow> Some s | _ \<Rightarrow> None)"
    "rd_u32 sample_env = (\<lambda>f. case f of SyncUint n \<Rightarrow> Some n | _ \<Rightarrow> None)"
    "rd_is_msg sample_env = (\<lambda>f. case f of SyncMsg m \<Rightarrow> True | _ \<Rightarrow> False)"
    by (simp_all add: sample_env_def)
  have s: "ses_state (sample_ses []) \<noteq> RV_SESSION_SELF"
    by (simp add: sample_ses_def session_start_entry_def)
  have r: "sub_refs ''X'' sample_db2 = 1"
    by (simp add: sub_refs_def sample_db2_def sample_sub_def sub_start_def)
  show ?thesis
    by (simp add: sdb_exec_def sample_sync_def env sample_host_ref sample_session_ref sample_listen s r
        emit_cb_def sample_db_def)
qed

lemma sample_reach: "sdb_reach sample_env True sample_db"
proof -
  have "sdb_reach sample_env True sample_start"
    by (rule reach_step [OF reach_new, of _ "OpStart 0 True False False False", OF _ _ sample_start_exec])
       (simp_all add: room_def op_cost_def sdb_new_def)
  then show ?thesis
    by (rule reach_step [OF _ _ _ sample_sync_exec])
       (simp_all add: room_def op_cost_def sample_sel sync_cost_def sub_len_def hosts_cost_def
         sessions_cost_def sample_sync_def sample_env_def)
qed

lemma sample_tabs: "sub_tab sample_db = [sample_sub]" "session_tab sample_db = [sample_ses [(1, 1)]]"
  "sass3_list sample_db = []" "active (subscriptions sample_db) = 1"
  by (simp_all add: sample_db_def emit_def sample_db2_def sample_db1_def sample_db0_def sample_start_def
      sdb_new_def)

section \<open>Books\<close>

text \<open>
  C2: In every reachable state the reference count of a subscription is exactly the number of
  sessions whose table has the subject plus the number of SASS3 subscribers to it, and the table of
  every session refers only to subscriptions that exist.
\<close>

theorem sdb_refcounts_exact:
  assumes "env_ok E" and "sdb_reach E b db"
  shows "\<forall>x\<in>set (sub_tab db). unat (refcnt x) =
      length (filter (\<lambda>s. subject_id x \<in> keys (sub_ht s)) (session_tab db)) +
      length (filter (\<lambda>e. s3_in_tab e \<and> s3_subject_id e = subject_id x) (sass3_list db))"
proof
  fix x assume x: "x \<in> set (sub_tab db)"
  let ?n = "length (filter (\<lambda>s. subject_id x \<in> keys (sub_ht s)) (session_tab db)) +
      length (filter (\<lambda>e. s3_in_tab e \<and> s3_subject_id e = subject_id x) (sass3_list db))"
  have core: "sdb_core E db" and rm: "room 0 db"
    using sdb_reach_inv [OF assms(2,1)] by (auto simp: sdb_inv_def)
  have "ses_count (ses_rows db) i = length (filter (\<lambda>s. i \<in> keys (sub_ht s)) (session_tab db))" for i
    by (simp add: ses_count_def ses_rows_def filter_map comp_def)
  then have "refcnt x = of_nat ?n"
    using count_held [OF core x] by (simp add: s3_count_def s3_holds_def [abs_def])
  moreover have "?n < 2 ^ 31"
  proof -
    have "?n \<le> length (session_tab db) + length (sass3_list db)"
      by (intro add_mono length_filter_le)
    also have "\<dots> < 2 ^ 31" using rm by (simp add: room_def)
    finally show ?thesis .
  qed
  ultimately show "unat (refcnt x) = ?n" by (simp only: unat_of_nat) simp
qed

theorem sdb_refcounts_exact_witness:
  "unat (refcnt sample_sub) = 1 \<and> sample_sub \<in> set (sub_tab sample_db)"
proof -
  from sdb_refcounts_exact [OF sample_env_ok sample_reach]
  show ?thesis by (simp add: sample_tabs keys_def sample_ses_def sample_sub_def sub_start_def)
qed

text \<open>
  C9: In every reachable state each entry of a session's table resolves to a subscription with that
  id, hash and a positive count: the garbage collection never frees a subscription that a session
  still holds.
\<close>

theorem sdb_tables_resolve:
  assumes "env_ok E" and "sdb_reach E b db" and "s \<in> set (session_tab db)"
    and "sub_ht s = Some t" and "(i, h) \<in> set t"
  shows "\<exists>x. get_subject i h db = Some x \<and> subject_id x = i \<and> sub_hash x = h \<and> refcnt x \<noteq> 0 \<and>
    h = kv_crc_c E (sub_value x) 0"
proof -
  have core: "sdb_core E db" and rm: "room 0 db"
    using sdb_reach_inv [OF assms(2,1)] by (auto simp: sdb_inv_def)
  have "known (sub_rows db) i h"
    using ht_ok_session [OF core assms(3)] assms(4,5) by (auto simp: ht_ok_def)
  then obtain x where x: "get_subject i h db = Some x" using get_subject_known by blast
  note in_tab = get_subject_in [OF x]
  have "i \<in> keys (sub_ht s)" using assms(4,5) by (force simp: keys_def)
  then have "refcnt x \<noteq> 0" using held_counted [OF core rm assms(3) _ sub_row_in] in_tab by blast
  moreover have "sub_hash x = kv_crc_c E (sub_value x) 0"
    using sdb_core_D(1) [OF core] sub_row_in [of x db] in_tab unfolding subs_ok_def by fastforce
  ultimately show ?thesis using x in_tab by blast
qed

theorem sdb_tables_resolve_witness:
  "\<exists>x. get_subject 1 1 sample_db = Some x \<and> subject_id x = 1 \<and> refcnt x \<noteq> 0"
  using sdb_tables_resolve [OF sample_env_ok sample_reach, of "sample_ses [(1, 1)]" "[(1, 1)]" 1 1]
  by (auto simp: sample_tabs sample_ses_def)

text \<open>
  C22: As long as no SASS3 message was processed, the counter of active subscriptions is in every
  reachable state the number of subscriptions that have a reference.
\<close>

theorem sdb_active_exact:
  assumes "env_ok E" and "sdb_reach E True db"
  shows "active (subscriptions db) = of_nat (length (filter (\<lambda>x. refcnt x \<noteq> 0) (sub_tab db)))"
  using sdb_reach_inv [OF assms(2,1)]
  by (simp add: sdb_inv_def active_ok_def live_rows_def sub_rows_def filter_map comp_def)

theorem sdb_active_exact_witness:
  "active (subscriptions sample_db) = 1 \<and> length (filter (\<lambda>x. refcnt x \<noteq> 0) (sub_tab sample_db)) = 1"
  using sdb_active_exact [OF sample_env_ok sample_reach] by (simp add: sample_tabs sample_sub_def sub_start_def)

section \<open>Calls that do not return\<close>

lemma wait_free_None: "\<not> slot_free db \<Longrightarrow> wait_free db = None"
proof (rule ccontr)
  assume nf: "\<not> slot_free db" and "wait_free db \<noteq> None"
  then obtain y where "wait_free db = Some y" by blast
  then have "slot_free db"
    by (rule wait_free.raw_induct [rotated]) (auto split: if_splits)
  with nf show False by simp
qed

text \<open>
  C38: A host that starts gets a new slot of the table but the free index stays behind it. The next
  message of a host that is not known yet then waits for ever for a free slot.
\<close>

theorem host_ref_hangs:
  assumes "first_free_host db = length (host_tab db)"
    and "host_lookup E h1 c1 db = Some None" and "host_start E h1 c1 db = Some db'"
    and "host_lookup E h2 c2 db' = Some None"
  shows "host_ref E h2 c2 b db' = None"
proof -
  have "first_free_host db' = length (host_tab db)"
    and "host_tab db' = host_tab db @ [host_start_entry h1 c1 (cur_mono db) True False]"
    using assms by (auto simp: host_start_def Let_def put_host_def set_host_ht_def)
  then have "\<not> slot_free db'" by (simp add: slot_free_def host_start_entry_def)
  then show ?thesis using assms(4) by (simp add: host_ref_def wait_free_None)
qed

theorem host_ref_hangs_witness:
  "\<exists>db'. host_start sample_env 5 0 sample_db = Some db' \<and> host_ref sample_env 6 0 True db' = None"
proof -
  have l: "host_lookup sample_env 5 0 sample_db = Some None" "first_free_host sample_db = 1"
    "length (host_tab sample_db) = 1" "host_ht sample_db = Some [1 \<mapsto> 0]"
    by (simp_all add: host_lookup_def hash_host_id_def sample_sel emit_def)
  then obtain db' where s: "host_start sample_env 5 0 sample_db = Some db'"
    and "host_ht db' = Some [1 \<mapsto> 0, 5 \<mapsto> 1]"
    by (auto simp: host_start_def Let_def put_host_def set_host_ht_def hash_host_id_def)
  then have "host_lookup sample_env 6 0 db' = Some None"
    by (simp add: host_lookup_def hash_host_id_def)
  with host_ref_hangs [OF _ l(1) s] l s show ?thesis by auto
qed






lemma find_session_upd:
  assumes "\<And>s. ses_hash (f s) = ses_hash s" and "\<And>s. ses_value (f s) = ses_value s"
  shows "find_session h nm (upd_session nm f d) = map_option f (find_session h nm d)"
proof -
  have "find (\<lambda>s. ses_hash s = h \<and> ses_value s = nm) (map (\<lambda>s. if ses_value s = nm then f s else s) xs) =
        map_option f (find (\<lambda>s. ses_hash s = h \<and> ses_value s = nm) xs)" for xs
    using assms by (induction xs) auto
  then show ?thesis by (simp add: find_session_def upd_session_def)
qed

text \<open>
  C40: A snapshot request that names a stopped session puts it back into the query state without a
  table. The next listen of that session then uses the null pointer.
\<close>

theorem revived_session_crashes:
  assumes "stop_ok db" and "find_session (kv_crc_c E nm 0) nm db = Some s"
    and "ses_state s = RV_SESSION_STOP" and "find_sub (kv_crc_c E v 0) v db = Some x"
    and "refcnt x \<noteq> 0" and "\<not> ref7cnt x"
  shows "\<exists>db1 s1 db2. snapshot E v raw nm db = Some (Some nm, db1) \<and>
    session_ref E cid nm db1 = Some (s1, db2) \<and> ses_state s1 = RV_SESSION_QUERY \<and>
    sub_ht s1 = None \<and> (\<forall>w. listen_ref E nm w db2 = None)"
proof -
  have s: "s \<in> set (session_tab db)" "ses_value s = nm" using find_session_in [OF assms(2)] by auto
  have none: "sub_ht s = None"
    using assms(1,3) s by (simp add: stop_ok_def)
  let ?d1 = "upd_session nm set_query db"
  let ?s = "(set_query s)\<lparr>ses_ref_mono := cur_mono ?d1\<rparr>"
  let ?d2 = "upd_session nm (\<lambda>s. s\<lparr>ses_ref_mono := cur_mono ?d1\<rparr>) ?d1"
  have snap: "snapshot E v raw nm db = Some (Some nm, ?d1)"
    using assms s by (simp add: snapshot_def get_subscription_def get_session_def)
  have f1: "find_session (kv_crc_c E nm 0) nm ?d1 = Some (set_query s)"
    using find_session_upd [of set_query] assms(2) by (simp add: set_query_def)
  have q: "ses_state (set_query s) = RV_SESSION_QUERY" "sub_ht (set_query s) = None"
    using assms(3) none by (simp_all add: set_query_def)
  then have ref: "session_ref E cid nm ?d1 = Some (?s, ?d2)"
    by (simp add: session_ref_def Let_def f1)
  have f2: "find_session (kv_crc_c E nm 0) nm ?d2 = Some ?s"
    using find_session_upd [of "\<lambda>s. s\<lparr>ses_ref_mono := cur_mono ?d1\<rparr>"] f1 by simp
  have "listen_ref E nm w ?d2 = None" for w
  proof -
    obtain y d where t: "touch_sub E (strip_nul w) ?d2 = (y, d)" by fastforce
    have "session_tab d = session_tab ?d2"
      using t by (auto simp: touch_sub_def get_subscription_def next_subject_id_def Let_def upd_sub_def
          split: option.splits)
    then have "find_session (kv_crc_c E nm 0) nm d = Some ?s" using f2 by (simp add: find_session_def)
    then show ?thesis using t q by (simp add: listen_ref_def Let_def add_subject_def)
  qed
  then show ?thesis using snap ref q by auto
qed

theorem revived_session_crashes_witness:
  "\<exists>db db1 s1 db2. snapshot sample_env ''X'' [] ''00000001.BB'' db = Some (Some ''00000001.BB'', db1) \<and>
    session_ref sample_env 0 ''00000001.BB'' db1 = Some (s1, db2) \<and>
    listen_ref sample_env ''00000001.BB'' ''X'' db2 = None"
proof -
  define s where "s = session_stop_entry 0 (session_start_entry ''00000001.BB'' 11 1 0 2 0 True None)"
  let ?db = "sample_db\<lparr>session_tab := [s]\<rparr>"
  have s: "ses_hash s = 11" "ses_value s = ''00000001.BB''" "ses_state s = RV_SESSION_STOP" "sub_ht s = None"
    by (simp_all add: s_def session_stop_entry_def session_start_entry_def)
  have "stop_ok ?db" using s by (simp add: stop_ok_def)
  moreover have "find_session (kv_crc_c sample_env ''00000001.BB'' 0) ''00000001.BB'' ?db = Some s"
    using s by (simp add: find_session_def sample_crc)
  moreover have "find_sub (kv_crc_c sample_env ''X'' 0) ''X'' ?db = Some sample_sub"
    by (simp add: find_sub_def sample_tabs sample_crc sample_sub_def sub_start_def)
  moreover have "refcnt sample_sub \<noteq> 0" "\<not> ref7cnt sample_sub"
    by (simp_all add: sample_sub_def sub_start_def)
  ultimately show ?thesis using revived_session_crashes s(3) by blast
qed

section \<open>Round trips\<close>

lemma hex_chars_Cons:
  "hex_chars hc (Suc n) v = hc (drop_bit (n * 4) v AND 15) # hex_chars hc n v"
proof (induction n arbitrary: v)
  case (Suc n)
  have "hex_chars hc (Suc (Suc n)) v = hex_chars hc (Suc n) (drop_bit 4 v) @ [hc (v AND 15)]" by simp
  also have "\<dots> = hc (drop_bit (n * 4) (drop_bit 4 v) AND 15) # hex_chars hc (Suc n) v"
    by (subst Suc.IH) simp
  finally show ?case by (simp add: add.commute)
qed simp

lemma and_15: "(v :: u32) AND 15 = take_bit 4 v"
  by (simp add: take_bit_eq_mask mask_numeral)

lemma nibble_join:
  "push_bit (n * 4) ((drop_bit (n * 4) v :: u32) AND 15) OR take_bit (n * 4) v = take_bit (Suc n * 4) v"
  unfolding and_15 by (rule bit_word_eqI) (auto simp: bit_simps)

lemma hex_id_chars:
  assumes hc: "\<And>d. d < 16 \<Longrightarrow> hexval (hc d) = d"
  shows "hex_id n (hex_chars hc n v @ cs) a = a OR take_bit (n * 4) v"
proof (induction n arbitrary: a)
  case (Suc n)
  have "(drop_bit (n * 4) v AND 15) < 16"
    by (rule order.strict_trans1 [of _ 15]) (simp_all add: word_and_le1)
  then have "hexval (hc (drop_bit (n * 4) v AND 15)) = drop_bit (n * 4) v AND 15" by (rule hc)
  then have "hex_id (Suc n) (hex_chars hc (Suc n) v @ cs) a =
      a OR push_bit (n * 4) (drop_bit (n * 4) v AND 15) OR take_bit (n * 4) v"
    unfolding hex_chars_Cons by (simp only: append_Cons hex_id.simps list.sel Suc.IH or.assoc)
  then show ?case by (simp only: or.assoc nibble_join)
qed simp

lemma length_hex_chars [simp]: "length (hex_chars hc n v) = n"
  by (induction n arbitrary: v) auto

lemma hex_chars_nth_back: "drop n (hex_chars hc n v @ cs) = cs" "(hex_chars hc n v @ cs) ! (n + k) = cs ! k"
  by (simp_all add: nth_append)

text \<open>
  A session name starts with the host id and, for a daemon that has one, its id. Both are read
  back from the name: the host id by \<open>string_to_host_id\<close>, the id of the daemon by \<open>session_ref\<close>. The
  digits of the library need only be hexadecimal digits. A name that has no daemon id must not look
  like one.
\<close>

lemma host_id_round_trip:
  assumes "\<forall>d<16. hexval (hc d) = d" and "cid \<noteq> 0 \<or> nm = [] \<or> hd nm \<noteq> CHR ''U''"
  shows "string_to_host_id (host_id_to_string hc h cid @ dot # nm) = Some h \<and>
    session_cid 0 (host_id_to_string hc h cid @ dot # nm) = cid"
proof -
  let ?x = "host_id_to_string hc h cid @ dot # nm"
  have hx: "hex_id n (hex_chars hc n v @ cs) 0 = take_bit (n * 4) v" for n v cs
    using hex_id_chars [of hc n v cs 0] assms(1) by simp
  obtain r where x: "?x = hex_chars hc 8 h @ dot # r"
    and r: "r = (if cid = 0 then nm else CHR ''U'' # hex_chars hc 4 (ucast cid) @ dot # nm)"
    by (auto simp: host_id_to_string_def)
  have h: "hex_id 8 ?x 0 = h" unfolding x hx by (simp add: take_bit_word_eq_self)
  have nth: "?x ! (8 + k) = (dot # r) ! k" for k unfolding x by (rule hex_chars_nth_back)
  have "session_cid 0 ?x = cid"
  proof (cases "cid = 0")
    case True
    then have "\<not> (length ?x > 14 \<and> ?x ! 9 = CHR ''U'')"
      using nth [of 1] assms(2) r x by (cases nm) auto
    then show ?thesis using True unfolding session_cid_def by auto
  next
    case False
    have "?x ! 8 = dot" "?x ! 9 = CHR ''U''" "?x ! 14 = dot" "length ?x > 14"
      using nth [of 0] nth [of 1] nth [of 6] r False x
        hex_chars_nth_back(2) [of hc 4 "ucast cid" "dot # nm" 0] by simp_all
    moreover have "drop 10 ?x = hex_chars hc 4 (ucast cid) @ dot # nm"
      unfolding x r using False by simp
    moreover have "(ucast (take_bit 16 (ucast cid :: u32)) :: u16) = cid"
      by (rule bit_word_eqI) (auto simp: bit_simps)
    ultimately show ?thesis unfolding session_cid_def using hx [of 4] by simp
  qed
  then show ?thesis using h x by (simp add: string_to_host_id_def)
qed

definition sample_hexchar :: "u32 \<Rightarrow> char" where
  "sample_hexchar d = (''0123456789ABCDEF'' ! unat d)"

lemma sample_hexchar_ok: "\<forall>d<16. hexval (sample_hexchar d) = d"
proof -
  have "\<forall>n\<in>set [0..<16]. hexval (''0123456789ABCDEF'' ! n) = of_nat n" by code_simp
  then have "hexval (''0123456789ABCDEF'' ! n) = of_nat n" if "n < 16" for n using that by simp
  from this [of "unat d" for d :: u32] show ?thesis
    by (auto simp: sample_hexchar_def word_less_nat_alt)
qed

lemma host_id_round_trip_example:
  "string_to_host_id (host_id_to_string sample_hexchar 0xC0A80001 0x1F @ dot # ''DAEMON'') = Some 0xC0A80001 \<and>
   session_cid 0 (host_id_to_string sample_hexchar 0xC0A80001 0x1F @ dot # ''DAEMON'') = 0x1F"
  using host_id_round_trip [OF sample_hexchar_ok, of "0x1F" "''DAEMON''" "0xC0A80001"] by simp

lemma same_back_take:
  "n < length sub \<Longrightarrow> n < length pat \<Longrightarrow>
    same_back sub pat n \<longleftrightarrow> take (Suc n) sub = take (Suc n) pat"
proof (induction n)
  case 0 then show ?case by (cases sub; cases pat) auto
next
  case (Suc n)
  then show ?case by (auto simp: take_Suc_conv_app_nth [of "Suc n"])
qed

definition info_match :: "string \<Rightarrow> string \<Rightarrow> bool" where
  "info_match pat sub \<longleftrightarrow> length sub > length pat \<and> take (length pat - 1) sub = butlast pat"

lemma info_match_same_back:
  "2 \<le> length pat \<Longrightarrow>
    (length sub > length pat \<and> same_back sub pat (length pat - 2)) = info_match pat sub"
proof -
  assume "2 \<le> length pat"
  then have "Suc (length pat - 2) = length pat - 1" "length pat - 2 < length pat" by auto
  then show ?thesis
    using same_back_take [of "length pat - 2" sub pat] by (auto simp: info_match_def butlast_conv_take)
qed

lemma match_info_in_first:
  assumes "\<forall>m\<in>set ms. 2 \<le> length (fst m)"
    and "\<And>m m'. m \<in> set ms \<Longrightarrow> m' \<in> set ms \<Longrightarrow> info_match (fst m) sub \<Longrightarrow>
      info_match (fst m') sub \<Longrightarrow> m = m'"
  shows "match_info_in ms sub = Some m \<longleftrightarrow> m \<in> set ms \<and> info_match (fst m) sub"
  using assms
proof (induction ms)
  case (Cons a ms)
  have "match_info_in (a # ms) sub = (if info_match (fst a) sub then Some a else match_info_in ms sub)"
    using info_match_same_back [of "fst a" sub] Cons.prems(1) by simp
  moreover have "match_info_in ms sub = Some m \<longleftrightarrow> m \<in> set ms \<and> info_match (fst m) sub"
    using Cons.prems by (intro Cons.IH) auto
  ultimately show ?case using Cons.prems(2) [of a m] by auto
qed simp

lemma info_match_clash:
  assumes "info_match p sub" "info_match q sub" "length p \<le> length q"
  shows "take (length p - 1) q = butlast p"
proof -
  have "take (length p - 1) (butlast q) = take (length p - 1) sub"
    using assms unfolding info_match_def by (metis diff_le_mono min.absorb1 take_take)
  then show ?thesis
    using assms by (cases "p = []") (auto simp: info_match_def butlast_conv_take min.absorb1)
qed

lemma rv_info_distinct:
  "\<forall>m\<in>set rv_info_sub. \<forall>m'\<in>set rv_info_sub. length (fst m) \<le> length (fst m') \<longrightarrow>
    take (length (fst m) - 1) (fst m') = butlast (fst m) \<longrightarrow> m = m'"
  by code_simp

lemma match_rv_info_iff:
  "match_rv_info sub = Some (pat, k) \<longleftrightarrow> (pat, k) \<in> set rv_info_sub \<and> info_match pat sub"
proof -
  have "m = m'" if "m \<in> set rv_info_sub" "m' \<in> set rv_info_sub" "info_match (fst m) sub" "info_match (fst m') sub"
    for m m'
    using rv_info_distinct [rule_format, OF that(1,2)] rv_info_distinct [rule_format, OF that(2,1)]
      info_match_clash [OF that(3,4)] info_match_clash [OF that(4,3)] by fastforce
  moreover have "\<forall>m\<in>set rv_info_sub. 2 \<le> length (fst m)" by (simp add: rv_info_sub_def)
  ultimately show ?thesis
    using match_info_in_first [of rv_info_sub sub "(pat, k)"] unfolding match_rv_info_def by auto
qed

text \<open>
  The dispatch of advisory messages is by prefix: a subject is of kind \<open>k\<close> exactly when it is
  longer than the pattern of \<open>k\<close> and starts with it up to the final wildcard. No subject has two kinds,
  so the order of the table does not matter.
\<close>

lemma match_rv_info_by_prefix:
  "match_rv_info sub = Some (pat, k) \<longleftrightarrow>
     (pat, k) \<in> set rv_info_sub \<and> length sub > length pat \<and> take (length pat - 1) sub = butlast pat"
  unfolding match_rv_info_iff info_match_def by blast

end
