(* ===== verification/Svc_Monitor.thy ===== *)
theory Svc_Monitor
  imports Svc_Properties Sub_Properties
begin

unbundle bit_operations_syntax

text \<open>
  The daemon and the subscription monitor together: the advisory subjects that \<open>RvFwdAdv::fwd\<close> of
  \<open>src/rv_host.cpp\<close> publishes are read by \<open>match_rv_info\<close> and \<open>string_to_host_id\<close> of
  \<open>src/submgr.cpp\<close>.
\<close>

section \<open>Addresses as host ids\<close>

lemma and_mask: "(q :: u32) AND 15 = take_bit 4 q" "(q :: u32) AND 255 = take_bit 8 q"
  by (simp_all add: take_bit_eq_mask mask_eq_exp_minus_1)

text \<open>The address of a host is in network order; its last byte needs no mask.\<close>

lemma top_byte: "drop_bit 24 (x :: u32) AND 255 = drop_bit 24 x"
  by (rule bit_word_eqI) (auto simp: bit_simps and_mask dest: bit_imp_le_length)

lemma hex_pair: "push_bit (n + 4) (drop_bit 4 q AND 15) OR push_bit n (q AND 15) = push_bit n (q AND 255 :: u32)"
  unfolding and_mask by (rule bit_word_eqI) (auto simp: bit_simps)

lemma hex_id_pair:
  assumes "\<forall>d<16. hexval (hc d) = d"
  shows "hex_id (Suc (Suc j)) (hc (drop_bit 4 q AND 15) # hc (q AND 15) # cs) h = hex_id j cs (h OR push_bit (j * 4) (q AND 255))"
proof -
  have "hexval (hc (x AND 15)) = x AND 15" for x
    using assms le_less_trans [OF word_and_le1 [of x 15], of 16] by simp
  then show ?thesis using hex_pair [of "j * 4" q] by (simp add: or.assoc add.commute)
qed

lemma hex_id_bytes:
  assumes "\<forall>d<16. hexval (hc d) = d"
  shows "hex_id 8 (concat (map (\<lambda>q. [hc (drop_bit 4 q AND 15), hc (q AND 15)]) [a, b, c, d]) @ rest) 0 =
    push_bit 24 (a AND 255) OR push_bit 16 (b AND 255) OR push_bit 8 (c AND 255) OR (d AND 255)"
proof -
  note p = hex_id_pair [of hc, OF assms]
  have s: "Suc (Suc 6) = 8" "Suc (Suc 4) = 6" "Suc (Suc 2) = 4" "Suc (Suc 0) = 2"
    "(6 * 4 :: nat) = 24" "(4 * 4 :: nat) = 16" "(2 * 4 :: nat) = 8" "(0 * 4 :: nat) = 0" by simp_all
  show ?thesis
    by (simp only: list.map concat.simps append.simps append_Nil2 p [of 6, unfolded s] p [of 4, unfolded s]
        p [of 2, unfolded s] p [of 0, unfolded s] hex_id.simps or.left_neutral or.assoc push_bit_0_id id_apply)
qed

lemma ip4_hex_host_id:
  assumes "\<forall>d<16. hexval (se_hexchar E d) = d"
  shows "string_to_host_id (ip4_hex_string E ip @ rest) = Some (ntohl ip)"
proof -
  have b: "ip_bytes ip = [ip AND 255, drop_bit 8 ip AND 255, drop_bit 16 ip AND 255, drop_bit 24 ip AND 255]"
    by (simp add: ip_bytes_def upt_conv_Cons)
  have "(q AND 255) AND 255 = q AND 255" for q :: u32 by (simp add: and.assoc)
  then have "hex_id 8 (ip4_hex_string E ip @ rest) 0 = ntohl ip"
    unfolding ip4_hex_string_def b hex_id_bytes [of "se_hexchar E", OF assms] ntohl_def
      by (simp add: top_byte)
  moreover have "length (ip4_hex_string E ip) = 8" by (simp add: ip4_hex_string_def b)
  ultimately show ?thesis by (simp add: string_to_host_id_def)
qed

section \<open>What the monitor makes of an event\<close>

text \<open>The kind of an advisory and the host in its subject; the first \<open>n\<close> characters are the prefix of the service.\<close>

definition adv_kind :: "nat \<Rightarrow> dm_event \<Rightarrow> sub_kind option" where
  "adv_kind n e = (case e of Forward sub rep fs \<Rightarrow> map_option snd (match_rv_info (drop n sub)) | _ \<Rightarrow> None)"

definition adv_host :: "nat \<Rightarrow> dm_event \<Rightarrow> u32 option" where
  "adv_host n e =
     (case e of
        Forward sub rep fs \<Rightarrow>
          Option.bind (match_rv_info (drop n sub)) (\<lambda>(pat, k). string_to_host_id (drop (length pat - 1) (drop n sub)))
      | _ \<Rightarrow> None)"

definition monitored :: "(string \<times> sub_kind) list" where
  "monitored = [(HOST_STATUS_PRE, IS_HOST_STATUS), (HOST_START_PRE, IS_HOST_START), (HOST_STOP_PRE, IS_HOST_STOP),
     (UNREACHABLE_PRE, IS_UNREACHABLE), (SESSION_START_PRE, IS_SESSION_START), (SESSION_STOP_PRE, IS_SESSION_STOP),
     (LISTEN_START_PRE, IS_LISTEN_START), (LISTEN_STOP_PRE, IS_LISTEN_STOP)]"

lemma monitored_table: "\<forall>(pre, k)\<in>set monitored. (pre @ ''>'', k) \<in> set rv_info_sub"
  by code_simp

lemma monitored_prefix:
  "\<forall>(pre, k)\<in>set monitored. \<forall>(pat, k')\<in>set rv_info_sub. take (length pat - 1) pre = butlast pat \<longrightarrow> pat = pre @ ''>''"
  by code_simp

lemma match_monitored:
  assumes "(pre, k) \<in> set monitored" "2 \<le> length tail"
  shows "match_rv_info (pre @ tail) = Some (pre @ ''>'', k)"
  using monitored_table assms by (auto simp: match_rv_info_iff info_match_def butlast_append)

text \<open>A tail of one character is too short.\<close>

lemma match_one_char:
  assumes "(pre, k) \<in> set monitored"
  shows "match_rv_info (pre @ [c]) = None"
proof (rule ccontr)
  assume "match_rv_info (pre @ [c]) \<noteq> None"
  then obtain pat k' where m: "(pat, k') \<in> set rv_info_sub" "length pat < length pre + 1"
      "take (length pat - 1) (pre @ [c]) = butlast pat"
    by (auto simp: match_rv_info_iff info_match_def)
  then have "take (length pat - 1) pre = butlast pat" by simp
  then have "pat = pre @ ''>''" using monitored_prefix assms m(1) by fastforce
  then show False using m(2) by simp
qed

lemma last_fwd:
  "\<exists>rep fs. last (dm_out (fwd E hi flags a dm)) = Forward (fwd_subject (dm_hosts dm ! hi) flags a) rep fs"
proof -
  have "fwd_subject (fwd_stats flags now h) flags a = fwd_subject h flags a" for now h
    by (simp add: fwd_subject_def fwd_tail_def svc_prefix_def fwd_stats_def Let_def)
  then show ?thesis
    by (cases "hi < length (dm_hosts dm)") (auto simp: fwd_def Let_def dm_emit_def upd_hst_def list_update_beyond)
qed

lemma fwd_seen:
  assumes "(av_prefix a, k) \<in> set monitored" "2 \<le> length (fwd_tail (dm_hosts dm ! hi) flags a)"
  shows "adv_kind (length (svc_prefix (dm_hosts dm ! hi))) (last (dm_out (fwd E hi flags a dm))) = Some k"
    "adv_host (length (svc_prefix (dm_hosts dm ! hi))) (last (dm_out (fwd E hi flags a dm))) =
      string_to_host_id (fwd_tail (dm_hosts dm ! hi) flags a)"
proof -
  obtain rep fs where l: "last (dm_out (fwd E hi flags a dm)) = Forward (fwd_subject (dm_hosts dm ! hi) flags a) rep fs"
    using last_fwd by blast
  note m = match_monitored [OF assms]
  show "adv_kind (length (svc_prefix (dm_hosts dm ! hi))) (last (dm_out (fwd E hi flags a dm))) = Some k"
    "adv_host (length (svc_prefix (dm_hosts dm ! hi))) (last (dm_out (fwd E hi flags a dm))) =
      string_to_host_id (fwd_tail (dm_hosts dm ! hi) flags a)"
    by (simp_all add: l adv_kind_def adv_host_def fwd_subject_def m)
qed

text \<open>The events of the operations, with the host that they come from.\<close>

lemma last_out_upd: "dm_out (upd_hst hi f dm) = dm_out dm" "dm_out (upd_svc k g dm) = dm_out dm"
  by (simp_all add: upd_hst_def upd_svc_def)

lemma host_tail:
  assumes "\<forall>d<16. hexval (se_hexchar E d) = d" "rh_session_ip h = ip4_hex_string E (rh_host_ip h)"
  shows "av_suffix a = [] \<Longrightarrow> flags AND ADV_SESS_SUF = 0 \<Longrightarrow>
      2 \<le> length (fwd_tail h flags a) \<and> string_to_host_id (fwd_tail h flags a) = Some (ntohl (rh_host_ip h))"
    "flags AND ADV_SESS_SUF \<noteq> 0 \<Longrightarrow>
      2 \<le> length (fwd_tail h flags a) \<and> string_to_host_id (fwd_tail h flags a) = Some (ntohl (rh_host_ip h))"
proof -
  have l: "length (ip4_hex_string E ip) = 8" for ip by (simp add: ip4_hex_string_def ip_bytes_def upt_conv_Cons)
  show "av_suffix a = [] \<Longrightarrow> flags AND ADV_SESS_SUF = 0 \<Longrightarrow>
      2 \<le> length (fwd_tail h flags a) \<and> string_to_host_id (fwd_tail h flags a) = Some (ntohl (rh_host_ip h))"
    using ip4_hex_host_id [OF assms(1), of "rh_host_ip h" "[]"] l by (simp add: fwd_tail_def assms(2))
  show "flags AND ADV_SESS_SUF \<noteq> 0 \<Longrightarrow>
      2 \<le> length (fwd_tail h flags a) \<and> string_to_host_id (fwd_tail h flags a) = Some (ntohl (rh_host_ip h))"
    using ip4_hex_host_id [OF assms(1), of "rh_host_ip h"] l by (simp add: fwd_tail_def assms(2))
qed

lemma adv_flags:
  "ADV_HOST_START AND ADV_SESS_SUF = 0" "ADV_HOST_STOP AND ADV_SESS_SUF = 0" "ADV_HOST_STATUS AND ADV_SESS_SUF = 0"
  "ADV_SESSION AND ADV_SESS_SUF = 0" "ADV_LISTEN AND ADV_SESS_SUF = 0" "ADV_UNREACHABLE AND ADV_SESS_SUF \<noteq> 0"
  by code_simp+

lemma adv_svc_sel [simp]:
  "av_prefix (adv_svc pre so) = pre" "av_suffix (adv_svc pre so) = []" "av_prefix (adv_plain pre) = pre" "av_suffix (adv_plain pre) = []"
  by (simp_all add: adv_svc_def adv_plain_def split: option.splits)

definition seen :: "'r daemon \<Rightarrow> rvd_host \<Rightarrow> sub_kind option \<times> u32 option" where
  "seen dm h = (adv_kind (length (svc_prefix h)) (last (dm_out dm)), adv_host (length (svc_prefix h)) (last (dm_out dm)))"

lemma seen_upd: "seen (upd_hst hi f dm) h = seen dm h" "seen (upd_svc k g dm) h = seen dm h"
  by (simp_all add: seen_def last_out_upd)

lemma seen_fwd:
  assumes "\<forall>d<16. hexval (se_hexchar E d) = d" "rh_session_ip (dm_hosts dm ! hi) = ip4_hex_string E (rh_host_ip (dm_hosts dm ! hi))"
    and "(av_prefix a, k) \<in> set monitored" "flags AND ADV_SESS_SUF \<noteq> 0 \<or> av_suffix a = []"
  shows "seen (fwd E hi flags a dm) (dm_hosts dm ! hi) = (Some k, Some (ntohl (rh_host_ip (dm_hosts dm ! hi))))"
proof -
  have t: "2 \<le> length (fwd_tail (dm_hosts dm ! hi) flags a) \<and>
      string_to_host_id (fwd_tail (dm_hosts dm ! hi) flags a) = Some (ntohl (rh_host_ip (dm_hosts dm ! hi)))"
    using host_tail(1) [OF assms(1,2), of a flags] host_tail(2) [OF assms(1,2), of flags a] assms(4) by blast
  show ?thesis using fwd_seen [OF assms(3) t [THEN conjunct1], of E] t by (simp add: seen_def)
qed

text \<open>
  C10: The monitor understands the daemon. For a host whose session names carry its address, the advisories for its
  start, stop and status, for sessions and for unreachable clients are recognised with the right kind and the right host
  id, with or without the prefix of a service.
\<close>

theorem advisories_understood:
  assumes "\<forall>d<16. hexval (se_hexchar E d) = d"
    and "rh_session_ip (dm_hosts dm ! hi) = ip4_hex_string E (rh_host_ip (dm_hosts dm ! hi))"
  shows "let h = dm_hosts dm ! hi; ip = Some (ntohl (rh_host_ip h)) in
    (\<not> rh_host_started h \<longrightarrow> seen (send_host_start E hi so dm) h = (Some IS_HOST_START, ip)) \<and>
    (rh_host_started h \<longrightarrow> seen (send_host_stop E hi so dm) h = (Some IS_HOST_STOP, ip)) \<and>
    seen (fwd E hi ADV_HOST_STATUS (adv_plain HOST_STATUS_PRE) dm) h = (Some IS_HOST_STATUS, ip) \<and>
    seen (send_session_start E hi k dm) h = (Some IS_SESSION_START, ip) \<and>
    seen (send_session_stop E hi k dm) h = (Some IS_SESSION_STOP, ip) \<and>
    seen (send_unreachable_tport E hi k dm) h = (Some IS_UNREACHABLE, ip)"
proof -
  have m: "(HOST_STATUS_PRE, IS_HOST_STATUS) \<in> set monitored" "(HOST_START_PRE, IS_HOST_START) \<in> set monitored" "(HOST_STOP_PRE, IS_HOST_STOP) \<in> set monitored"
    "(SESSION_START_PRE, IS_SESSION_START) \<in> set monitored" "(SESSION_STOP_PRE, IS_SESSION_STOP) \<in> set monitored"
    "(UNREACHABLE_PRE, IS_UNREACHABLE) \<in> set monitored" by (simp_all add: monitored_def)
  note s = seen_fwd [OF assms]
  show ?thesis
    by (simp add: Let_def send_host_start_def send_host_stop_def send_session_start_def send_session_stop_def
        send_unreachable_tport_def seen_upd s m adv_flags)
qed

lemma sample_mon_hex: "\<forall>d<16. hexval (se_hexchar (sample_svc\<lparr>se_hexchar := sample_hexchar\<rparr>) d) = d"
  using sample_hexchar_ok by simp

theorem advisories_understood_witness:
  "let E = sample_svc\<lparr>se_hexchar := sample_hexchar\<rparr>;
       h = (host_new E \<lparr>hn_service = ''7500'', hn_network = [], hn_ipport = 0, hn_prefix = True\<rparr>)
             \<lparr>rh_session_ip := ip4_hex_string E 0x0100A8C0, rh_host_ip := 0x0100A8C0\<rparr>;
       dm = (dm_init 7500 True False 0)\<lparr>dm_hosts := [h]\<rparr>
   in seen (send_host_start E 0 None dm) h = (Some IS_HOST_START, Some 0xC0A80001)"
proof -
  let ?E = "sample_svc\<lparr>se_hexchar := sample_hexchar\<rparr>"
  let ?h = "(host_new ?E \<lparr>hn_service = ''7500'', hn_network = [], hn_ipport = 0, hn_prefix = True\<rparr>)
      \<lparr>rh_session_ip := ip4_hex_string ?E 0x0100A8C0, rh_host_ip := 0x0100A8C0\<rparr>"
  let ?dm = "(dm_init 7500 True False 0)\<lparr>dm_hosts := [?h]\<rparr>"
  have "ntohl 0x0100A8C0 = 0xC0A80001" by code_simp
  then show ?thesis
    using advisories_understood [OF sample_mon_hex, of ?dm 0 None 0] by (simp add: Let_def host_new_def)
qed

lemma listen_kind:
  assumes "(av_prefix a, k) \<in> set monitored" "av_suffix a \<noteq> []"
  shows "fst (seen (fwd E hi ADV_LISTEN a dm) (dm_hosts dm ! hi)) = (if length (av_suffix a) = 1 then None else Some k)"
proof -
  have t: "fwd_tail (dm_hosts dm ! hi) ADV_LISTEN a = av_suffix a" using assms(2) by (simp add: fwd_tail_def adv_flags)
  show ?thesis
  proof (cases "length (av_suffix a) = 1")
    case True
    then obtain c where c: "av_suffix a = [c]" by (auto simp: length_Suc_conv)
    obtain rep fs where l: "last (dm_out (fwd E hi ADV_LISTEN a dm)) = Forward (fwd_subject (dm_hosts dm ! hi) ADV_LISTEN a) rep fs"
      using last_fwd by blast
    show ?thesis using match_one_char [OF assms(1), of c] by (simp add: seen_def l adv_kind_def fwd_subject_def t c)
  next
    case False
    then have "2 \<le> length (fwd_tail (dm_hosts dm ! hi) ADV_LISTEN a)" using assms(2) t by (cases "av_suffix a") (auto simp: Suc_le_eq)
    then show ?thesis using fwd_seen(1) [OF assms(1)] False by (simp add: seen_def)
  qed
qed

text \<open>
  C28: The start and stop of a subscription to an unrestricted subject is published and recognised by the monitor,
  unless the subject has a single character: the pattern of the monitor wants two.
\<close>

theorem listens_understood:
  assumes "\<not> is_restricted_subject sub" "sub \<noteq> []"
  shows "fst (seen (send_listen_start E hi session sub rep n dm) (dm_hosts dm ! hi)) =
      (if length sub = 1 then None else Some IS_LISTEN_START) \<and>
    fst (seen (send_listen_stop E hi session sub n dm) (dm_hosts dm ! hi)) =
      (if length sub = 1 then None else Some IS_LISTEN_STOP)"
proof -
  have m: "(LISTEN_START_PRE, IS_LISTEN_START) \<in> set monitored" "(LISTEN_STOP_PRE, IS_LISTEN_STOP) \<in> set monitored"
    by (simp_all add: monitored_def)
  let ?a = "(adv_plain LISTEN_START_PRE)\<lparr>av_session := session, av_suffix := sub, av_reply := rep, av_refcnt := n\<rparr>"
  let ?b = "(adv_plain LISTEN_STOP_PRE)\<lparr>av_session := session, av_suffix := sub, av_refcnt := n\<rparr>"
  show ?thesis using assms listen_kind [of ?a IS_LISTEN_START E hi dm] listen_kind [of ?b IS_LISTEN_STOP E hi dm] m
    by (simp add: send_listen_start_def send_listen_stop_def)
qed

theorem listens_understood_witness:
  "let h = host_new sample_svc \<lparr>hn_service = ''7500'', hn_network = [], hn_ipport = 0, hn_prefix = True\<rparr>;
       dm = (dm_init 7500 True False 0)\<lparr>dm_hosts := [h]\<rparr>
   in fst (seen (send_listen_start sample_svc 0 [] ''A'' [] 1 dm) h) = None \<and>
      fst (seen (send_listen_start sample_svc 0 [] ''A.B'' [] 1 dm) h) = Some IS_LISTEN_START"
proof -
  let ?h = "host_new sample_svc \<lparr>hn_service = ''7500'', hn_network = [], hn_ipport = 0, hn_prefix = True\<rparr>"
  let ?dm = "(dm_init 7500 True False 0)\<lparr>dm_hosts := [?h]\<rparr>"
  have r: "\<not> is_restricted_subject ''A''" "\<not> is_restricted_subject ''A.B''"
    by (simp_all add: is_restricted_subject_def is_inbox_subject_def)
  show ?thesis
    using listens_understood [OF r(1), of sample_svc 0 "[]" "[]" 1 ?dm] listens_understood [OF r(2), of sample_svc 0 "[]" "[]" 1 ?dm]
    by (simp add: Let_def)
qed

end
