(* ===== verification/Cli_Client.thy ===== *)
theory Cli_Client
  imports Svc_Service Sub_Message
begin

text \<open>
  The client side of a connection to a daemon, \<open>EvRvClient\<close> (\<open>include/sassrv/ev_rv_client.h\<close>,
  \<open>src/ev_rv_client.cpp\<close>): connecting, the handshake, the messages in both directions, and the
  subscription database that a client may hold.

  A message that the client writes is the list of fields that it hands to the writer of the library
  raimd, a name without its final zero byte. The write buffer, the routes and timers at the library
  raikv and the calls of the owner are events in the order of the code. The database calls back its
  client; as the client's part of such a call does not change the database, the calls are played
  when the operation of the database is over.

  \<open>None\<close> is a read of memory that the code did not write, a null pointer, or a loop that does not end.
\<close>

unbundle bit_operations_syntax

section \<open>State\<close>

datatype rv_state =
  C_ERR_CLOSE | C_VERS_RECV | C_INFO_RECV | C_INIT_RECV | C_CONN_RECV | C_DATA_RECV

fun rv_state_code :: "rv_state \<Rightarrow> nat" where
  "rv_state_code C_ERR_CLOSE = 0"
| "rv_state_code C_VERS_RECV = 1"
| "rv_state_code C_INFO_RECV = 2"
| "rv_state_code C_INIT_RECV = 3"
| "rv_state_code C_CONN_RECV = 4"
| "rv_state_code C_DATA_RECV = 5"

datatype cl_val = CStr string | CSubj string | CInt u32 | CData msg_layout "u8 list"

datatype cl_msg = CRaw "u8 list" | CRec "(string \<times> cl_val) list"

datatype cl_event =
  Sent cl_msg
| AddRouteNotify
| RemoveRouteNotify
| AddPatternRoute u32
| DelPatternRoute u32
| ClAddSub string string u32 bool
| ClNotifySub string string u32 bool "31 word"
| ClDelSub string u32 bool
| ClAddPat string string u32 bool
| ClNotifyPat string string u32 bool "31 word"
| ClDelPat string u32 bool
| CbMsg string string u32 md_type "u8 list"
| ForwardMsg string string u32 md_type "u8 list"
| ClOnConnect
| ClOnShutdown
| ClAddTimer u64
| ClRemoveTimer u64
| TcpConnect "string option" int
| TcpConnectAi
| NullSock
| TrdpCreate string "string option"
| PushClose

text \<open>
  What the client takes from the libraries: those of the daemon and of the database; the fields of a
  message (name, type, bytes); the bytes of a query and of a message that wraps other data (a string
  or not); the number of a message type; and the copy of a string that may be a null pointer.
\<close>

type_synonym cl_field = "string \<times> md_type \<times> u8 list"

record ('r, 'f) cl_env =
  ce_svc :: "'r svc_env"
  ce_sdb :: "'f sdb_env"
  ce_unpack :: "u8 list \<Rightarrow> cl_field list option"
  ce_query :: "string \<Rightarrow> string option \<Rightarrow> u8 list"
  ce_wrap :: "bool \<Rightarrow> u8 list \<Rightarrow> u8 list"
  ce_type_id :: "md_type \<Rightarrow> u32"
  ce_cstr :: "string option \<Rightarrow> string option"

text \<open>
  \<open>rc_save\<close> are the messages in \<open>save_buf\<close>. \<open>rc_cb\<close> and \<open>rc_notify\<close> say whether the client has a
  callback and an owner, \<open>rc_len\<close> is the length of the receive buffer, \<open>rc_mono\<close> the clock of the
  event loop and \<open>rc_push\<close> the next answer of \<open>idle_push_write\<close>.
\<close>

record client =
  rc_fd :: "nat option"
  rc_state :: rv_state
  rc_no_write :: bool
  rc_session :: string
  rc_control :: string
  rc_userid :: string
  rc_gob :: "u8 list"
  rc_gob_len :: u16
  rc_start_stamp :: u64
  rc_fwd_all_msgs :: bool
  rc_fwd_all_subs :: bool
  rc_vers :: "u16 \<times> u16 \<times> u16"
  rc_cid :: u16
  rc_ipport :: u16
  rc_ipaddr :: u32
  rc_daemon :: "string option"
  rc_network :: "string option"
  rc_service :: "string option"
  rc_save :: "cl_msg list"
  rc_inter :: "string list"
  rc_bcast :: "string list"
  rc_listen :: "string list"
  rc_db :: sdb
  rc_timer_id :: u64
  rc_msg_in :: msg_in
  rc_cb :: bool
  rc_notify :: bool
  rc_len :: nat
  rc_mono :: u64
  rc_push :: bool
  rc_out :: "cl_event list"

text \<open>The constructor; members that it leaves unset are arguments: \<open>is_tic\<close> of the database, the version.\<close>

definition client_new :: "bool \<Rightarrow> u16 \<times> u16 \<times> u16 \<Rightarrow> u64 \<Rightarrow> bool \<Rightarrow> client" where
  "client_new tic0 vers0 now notify =
     \<lparr>rc_fd = None, rc_state = C_VERS_RECV, rc_no_write = False, rc_session = [], rc_control = [],
      rc_userid = [], rc_gob = [], rc_gob_len = 0, rc_start_stamp = now, rc_fwd_all_msgs = False,
      rc_fwd_all_subs = True, rc_vers = vers0, rc_cid = 0, rc_ipport = 0, rc_ipaddr = 0,
      rc_daemon = None, rc_network = None, rc_service = None, rc_save = [], rc_inter = [],
      rc_bcast = [], rc_listen = [], rc_db = sdb_new tic0, rc_timer_id = 0, rc_msg_in = msg_in_init,
      rc_cb = False, rc_notify = notify, rc_len = 0, rc_mono = 0, rc_push = True, rc_out = []\<rparr>"

definition rc_emit :: "cl_event \<Rightarrow> client \<Rightarrow> client" where
  "rc_emit e c = c\<lparr>rc_out := rc_out c @ [e]\<rparr>"

definition rc_emit_if :: "bool \<Rightarrow> cl_event \<Rightarrow> client \<Rightarrow> client" where
  "rc_emit_if b e c = (if b then rc_emit e c else c)"

abbreviation cl_inbox :: "('r, 'f) cl_env \<Rightarrow> string \<Rightarrow> u32 \<Rightarrow> string" where
  "cl_inbox E \<equiv> make_inbox (se_dec (ce_svc E))"

text \<open>\<open>initialize_state\<close> assigns the major version twice and leaves the minor one as it is.\<close>

definition initialize_state :: "('r, 'f) cl_env \<Rightarrow> bool \<Rightarrow> client \<Rightarrow> client" where
  "initialize_state E is_null c =
     (let c1 = c\<lparr>rc_cb := False, rc_state := C_VERS_RECV, rc_no_write := False, rc_session := [],
                 rc_control := [], rc_userid := [], rc_gob := [], rc_gob_len := 0,
                 rc_vers := (4, fst (snd (rc_vers c)), 2), rc_cid := 0, rc_ipport := 0, rc_ipaddr := 0,
                 rc_daemon := None, rc_network := None, rc_service := None, rc_notify := False,
                 rc_save := [], rc_inter := [], rc_bcast := [], rc_listen := []\<rparr>
      in if is_null
         then c1\<lparr>rc_ipaddr := 0x7f000001, rc_ipport := 0x1234, rc_gob := replicate 15 1, rc_gob_len := 15,
                 rc_control := cl_inbox E [] 1, rc_state := C_DATA_RECV, rc_no_write := True\<rparr>
         else c1)"

section \<open>Sending\<close>

text \<open>Before the handshake is over messages are saved; the result is whether more can be written.\<close>

definition queue_send :: "cl_msg \<Rightarrow> client \<Rightarrow> bool \<times> client" where
  "queue_send m c =
     (if rv_state_code (rc_state c) \<ge> rv_state_code C_DATA_RECV then (rc_push c, rc_emit (Sent m) c)
      else if rc_state c = C_ERR_CLOSE then (False, c)
      else (False, c\<lparr>rc_save := rc_save c @ [m]\<rparr>))"

definition flush_pending_send :: "client \<Rightarrow> client" where
  "flush_pending_send c = (fold (\<lambda>m. rc_emit (Sent m)) (rc_save c) c)\<lparr>rc_save := []\<rparr>"

definition listen_rec :: "string \<Rightarrow> string \<Rightarrow> (string \<times> cl_val) list" where
  "listen_rec mtype sub = [(''mtype'', CStr (zstr mtype)), (''sub'', CSubj sub)]"

definition cl_subscribe :: "string \<Rightarrow> string \<Rightarrow> client \<Rightarrow> client" where
  "cl_subscribe sub rep c =
     (if rc_no_write c then c
      else snd (queue_send (CRec (listen_rec ''L'' (strip_nul_end sub) @
             (if rep \<noteq> [] then [(''return'', CStr (strip_nul_end rep))] else []))) c))"

definition cl_unsubscribe :: "string \<Rightarrow> client \<Rightarrow> client" where
  "cl_unsubscribe sub c =
     (if rc_no_write c then c else snd (queue_send (CRec (listen_rec ''C'' (strip_nul_end sub))) c))"

text \<open>
  \<open>publish2\<close>: the layout of the data is the one of the daemon without a suffix. A subject or data
  that cannot be encoded is dropped, and the answer is that more can be written.
\<close>

definition publish2 ::
  "('r, 'f) cl_env \<Rightarrow> ev_pub \<Rightarrow> string \<Rightarrow> string \<Rightarrow> client \<Rightarrow> bool \<times> client" where
  "publish2 E pub sub reply c =
     (if \<not> se_subject_ok (ce_svc E) sub then (True, c)
      else case fwd_layout (ce_svc E) (pub\<lparr>pb_suf_len := 0\<rparr>) of
             None \<Rightarrow> (True, c)
           | Some (lay, body) \<Rightarrow>
               (case se_encode (ce_svc E) ''D'' sub reply lay (length body) of
                  None \<Rightarrow> (True, c)
                | Some off \<Rightarrow>
                    queue_send (CRec ([(''sub'', CSubj sub), (''mtype'', CStr (zstr ''D''))] @
                      (if reply \<noteq> [] then [(''return'', CStr reply)] else []) @
                      (if lay = NoData then [] else [(''data'', CData lay body)]))) c))"

definition publish :: "('r, 'f) cl_env \<Rightarrow> ev_pub \<Rightarrow> client \<Rightarrow> bool \<times> client" where
  "publish E pub c =
     (let prelen = length (mi_prefix (rc_msg_in c))
      in if rc_no_write c then (True, c)
         else if length (pb_subject pub) < prelen then (True, c)
         else publish2 E pub (drop prelen (pb_subject pub))
                (if length (pb_reply pub) > prelen then drop prelen (pb_reply pub) else pb_reply pub) c)"

text \<open>A message of the router; the client's own are not sent back.\<close>

definition cl_on_msg :: "('r, 'f) cl_env \<Rightarrow> bool \<Rightarrow> ev_pub \<Rightarrow> client \<Rightarrow> bool \<times> client" where
  "cl_on_msg E own pub c = (if own then (True, c) else publish E pub c)"

section \<open>The client's database\<close>

definition pre_sub :: "client \<Rightarrow> string \<Rightarrow> string" where
  "pre_sub c s = mi_prefix (rc_msg_in c) @ s"

definition pre_reply :: "client \<Rightarrow> string \<Rightarrow> string" where
  "pre_reply c s = (if s = [] then [] else pre_sub c s)"

text \<open>
  The wildcard of a subject that the database reports. The code converts as many characters as the
  receive buffer is long, not as many as the subject has. \<open>None\<close> is a read behind the subject.
\<close>

definition listen_pattern :: "('r, 'f) cl_env \<Rightarrow> client \<Rightarrow> string \<Rightarrow> (string \<times> u32) option option" where
  "listen_pattern E c sub =
     (if length sub < rc_len c then None
      else let pat = take (rc_len c) sub
           in Some (map_option (\<lambda>n. (pat, pat_hash (ce_svc E) sub n)) (se_convert_rv (ce_svc E) pat)))"

definition on_listen_start ::
  "('r, 'f) cl_env \<Rightarrow> string \<Rightarrow> string \<Rightarrow> bool \<Rightarrow> 31 word \<Rightarrow> client \<Rightarrow> client option" where
  "on_listen_start E value reply coll cnt c =
     (let sub = pre_sub c value; rep = pre_reply c reply
      in if is_rv_wildcard sub = None then
           (let h = se_crc (ce_svc E) sub 0
            in Some (rc_emit (if cnt = 1 then ClAddSub sub rep h coll else ClNotifySub sub rep h coll cnt) c))
         else map_option (\<lambda>p. case p of
                None \<Rightarrow> c
              | Some (pat, h) \<Rightarrow>
                  rc_emit (if cnt = 1 then ClAddPat pat rep h coll else ClNotifyPat pat rep h coll cnt) c)
                (listen_pattern E c sub))"

definition on_listen_stop ::
  "('r, 'f) cl_env \<Rightarrow> string \<Rightarrow> bool \<Rightarrow> bool \<Rightarrow> 31 word \<Rightarrow> client \<Rightarrow> client option" where
  "on_listen_stop E value is_orphan coll cnt c =
     (let sub = pre_sub c value
      in if is_orphan then Some c
         else if is_rv_wildcard sub = None then
           Some (if cnt = 0 then rc_emit (ClDelSub sub (se_crc (ce_svc E) sub 0) coll) c else c)
         else map_option (\<lambda>p. case p of
                None \<Rightarrow> c
              | Some (pat, h) \<Rightarrow> if cnt = 0 then rc_emit (ClDelPat pat h coll) c else c)
                (listen_pattern E c sub))"

text \<open>The calls of the database; the other ones of the listener print or do nothing.\<close>

definition query_pub :: "('r, 'f) cl_env \<Rightarrow> string \<Rightarrow> string \<Rightarrow> string \<Rightarrow> string option \<Rightarrow> ev_pub" where
  "query_pub E dest inbox what session =
     \<lparr>pb_subject = dest, pb_hash = 0, pb_reply = inbox, pb_routes = [], pb_status = 0, pb_host = 0,
      pb_msg = ce_query E what session, pb_enc = RVMSG_TYPE_ID, pb_suf_len = 0\<rparr>"

fun db_event :: "('r, 'f) cl_env \<Rightarrow> sdb_out \<Rightarrow> client \<Rightarrow> client option" where
  "db_event E (Subscribe sub) c = Some (cl_subscribe sub [] c)"
| "db_event E (Unsubscribe sub) c = Some (cl_unsubscribe sub c)"
| "db_event E (Publish dest inbox what session) c =
     Some (snd (publish2 E (query_pub E dest inbox what session) dest inbox c))"
| "db_event E (OnListenStart nm sub reply is_listen coll cnt) c = on_listen_start E sub reply coll cnt c"
| "db_event E (OnListenStop nm sub is_orphan is_listen coll cnt) c = on_listen_stop E sub is_orphan coll cnt c"
| "db_event E (OnSnapshot sub session reply flags) c = Some c"
| "db_event E (OnSass3 s sub reply flags is_orphan is_asserted) c = Some c"
| "db_event E (OnTicReply sub session reply) c = Some c"

fun db_events :: "('r, 'f) cl_env \<Rightarrow> sdb_out list \<Rightarrow> client \<Rightarrow> client option" where
  "db_events E [] c = Some c"
| "db_events E (e # es) c = do { c1 \<leftarrow> db_event E e c; db_events E es c1 }"

text \<open>What the database reads of its client: the listener is the client itself.\<close>

definition db_env :: "('r, 'f) cl_env \<Rightarrow> client \<Rightarrow> 'f sdb_env" where
  "db_env E c =
     (ce_sdb E)\<lparr>cl_ipaddr := rc_ipaddr c, cl_cid := rc_cid c, cl_session := rc_session c,
                cl_control := rc_control c, has_cb := True\<rparr>"

definition run_db :: "('r, 'f) cl_env \<Rightarrow> (sdb \<Rightarrow> ('a \<times> sdb) option) \<Rightarrow> client \<Rightarrow> ('a \<times> client) option" where
  "run_db E f c = do {
     (r, db) \<leftarrow> f ((rc_db c)\<lparr>out := []\<rparr>);
     c1 \<leftarrow> db_events E (out db) (c\<lparr>rc_db := db\<lparr>out := []\<rparr>\<rparr>);
     Some (r, c1)
   }"

text \<open>The start of the listeners, at the end of the handshake and for the null connection.\<close>

definition start_feeds :: "('r, 'f) cl_env \<Rightarrow> client \<Rightarrow> client option" where
  "start_feeds E c0 = do {
     let c = fold (\<lambda>s. cl_subscribe s []) (rc_bcast c0) c0;
     c1 \<leftarrow> (if rc_listen c \<noteq> []
           then map_option (\<lambda>(u, c'). rc_emit (ClAddTimer (rc_mono c')) (c'\<lparr>rc_timer_id := rc_mono c'\<rparr>))
                  (run_db E (\<lambda>db. map_option (Pair ())
                     (start_subscriptions (db_env E c) (rc_mono c) False True False False db)) c)
           else Some c);
     Some (if rc_notify c1 then rc_emit ClOnConnect c1 else c1)
   }"

definition cl_timer_expire :: "('r, 'f) cl_env \<Rightarrow> u64 \<Rightarrow> client \<Rightarrow> (bool \<times> client) option" where
  "cl_timer_expire E timer_id c =
     (if rc_timer_id c = timer_id
      then map_option (\<lambda>(u, c1). (True, c1))
             (run_db E (\<lambda>db. map_option (Pair ()) (process_events (db_env E c) (rc_mono c) db)) c)
      else Some (False, c))"

definition cl_set_prefix :: "string \<Rightarrow> client \<Rightarrow> client option" where
  "cl_set_prefix pref c =
     map_option (\<lambda>p. c\<lparr>rc_msg_in := (rc_msg_in c)\<lparr>mi_prefix := p\<rparr>\<rparr>) (set_prefix pref)"

section \<open>The handshake\<close>

definition send_vers :: "client \<Rightarrow> client" where
  "send_vers c = rc_emit (Sent (CRaw (be_bytes 0 @ be_bytes 4 @ be_bytes 0))) c"

definition cl_send_info :: "client \<Rightarrow> client" where
  "cl_send_info c =
     rc_emit (Sent (CRaw (concat (map be_bytes [3, 2, 0, 1, 0, push_bit 24 4, push_bit 24 4]) @
                          replicate 36 0))) c"

definition init_rec :: "client \<Rightarrow> (string \<times> cl_val) list" where
  "init_rec c =
     [(''mtype'', CStr (zstr ''I'')),
      (''userid'', CStr (if rc_userid c = [] then zstr ''nobody'' else rc_userid c))] @
     (if rc_session c \<noteq> [] then [(''session'', CStr (zstr (rc_session c)))] else []) @
     [(''service'', CStr (zstr (case rc_service c of None \<Rightarrow> [] | Some s \<Rightarrow> s))),
      (''network'', CStr (zstr (case rc_network c of None \<Rightarrow> [] | Some s \<Rightarrow> s)))] @
     (if rc_control c \<noteq> [] then [(''control'', CStr (zstr (rc_control c)))] else []) @
     [(''vmaj'', CInt 5), (''vmin'', CInt 4), (''vupd'', CInt 2)]"

definition send_init_rec :: "client \<Rightarrow> client" where
  "send_init_rec c = rc_emit (Sent (CRec (init_rec c))) c"

text \<open>A field of the given type that fits in \<open>n\<close> bytes.\<close>

definition cl_match_field :: "cl_field list \<Rightarrow> string \<Rightarrow> nat \<Rightarrow> md_type \<Rightarrow> u8 list option" where
  "cl_match_field fs nm n t =
     (case map_of fs (zstr nm) of
        Some (t', b) \<Rightarrow> if t' = t \<and> length b \<le> n then Some b else None
      | None \<Rightarrow> None)"

text \<open>An integer whose first bytes in memory are overwritten, and one that is stored with the high byte first.\<close>

definition le_num :: "u8 list \<Rightarrow> u32" where
  "le_num bs = foldr (\<lambda>b n. ucast b OR push_bit 8 n) bs 0"

definition le_list :: "nat \<Rightarrow> u32 \<Rightarrow> u8 list" where
  "le_list k n = map (\<lambda>i. ucast (drop_bit (8 * i) n)) [0..<k]"

definition over_bytes :: "nat \<Rightarrow> u8 list \<Rightarrow> u32 \<Rightarrow> u32" where
  "over_bytes k bs n = le_num (bs @ drop (length bs) (le_list k n))"

definition be_num :: "u8 list \<Rightarrow> u32" where
  "be_num bs = foldl (\<lambda>n b. push_bit 8 n OR ucast b) 0 bs"

text \<open>The name of the session: the address, the client id if there is one, and the time of the start.\<close>

definition cid_part :: "('r, 'f) cl_env \<Rightarrow> u16 \<Rightarrow> string" where
  "cid_part E cid =
     (if cid = 0 then []
      else CHR ''U'' # map (\<lambda>i. se_hexchar (ce_svc E) (ucast (drop_bit (16 - i) cid AND 15))) [4, 8, 12, 16] @ [dot])"

definition session_name :: "('r, 'f) cl_env \<Rightarrow> u32 \<Rightarrow> u16 \<Rightarrow> u64 \<Rightarrow> string" where
  "session_name E ip cid stamp =
     ip4_hex_string (ce_svc E) ip @ dot # cid_part E cid @ time_to_str (ce_svc E) stamp"

definition host_failed :: int where
  "host_failed = int (unat (host_errno ERR_START_HOST_FAILED))"

definition recv_session :: "('r, 'f) cl_env \<Rightarrow> cl_field list \<Rightarrow> u8 list \<Rightarrow> client \<Rightarrow> client" where
  "recv_session E fs gob c0 =
     (let cid = (case cl_match_field fs ''cid'' 2 MD_IPDATA of
                   Some b \<Rightarrow> ucast (be_num (take 2 (b @ [0, 0]))) | None \<Rightarrow> 0);
          sess = session_name E (rc_ipaddr c0) cid (rc_start_stamp c0);
          c = c0\<lparr>rc_gob := gob, rc_gob_len := of_nat (length gob) - 1, rc_cid := cid,
                 rc_session := sess, rc_control := cl_inbox E sess 1\<rparr>
      in (send_init_rec c)\<lparr>rc_state := C_CONN_RECV\<rparr>)"

text \<open>The status is zero when the daemon accepts.\<close>

definition recv_refused :: "cl_field list option \<Rightarrow> int" where
  "recv_refused fs =
     (case Option.bind fs (\<lambda>l. cl_match_field l ''error'' 4 MD_INT) of
        Some b \<Rightarrow> if length b = 4 then sint (be_num b) else host_failed
      | None \<Rightarrow> host_failed)"

definition recv_info :: "('r, 'f) cl_env \<Rightarrow> client \<Rightarrow> int \<times> client" where
  "recv_info E c =
     (let m = rc_msg_in c; fs = ce_unpack E (data_bytes m)
      in if mi_sub m \<noteq> ''RVD.INITRESP''
         then (if mi_sub m = ''RVD.INITREFUSED'' then recv_refused fs else host_failed, c)
         else case fs of
                None \<Rightarrow> (host_failed, c)
              | Some l \<Rightarrow>
                  (case cl_match_field l ''ipaddr'' 4 MD_IPDATA of
                     None \<Rightarrow> (host_failed, c)
                   | Some a \<Rightarrow>
                       let c1 = c\<lparr>rc_ipaddr := over_bytes 4 a (rc_ipaddr c)\<rparr>
                       in (case cl_match_field l ''ipport'' 2 MD_IPDATA of
                             None \<Rightarrow> (host_failed, c1)
                           | Some p \<Rightarrow>
                               let c2 = c1\<lparr>rc_ipport := ucast (over_bytes 2 p (ucast (rc_ipport c1)))\<rparr>
                               in (case cl_match_field l ''gob'' 16 MD_STRING of
                                     None \<Rightarrow> (host_failed, c2)
                                   | Some g \<Rightarrow> (0, recv_session E l g c2)))))"

text \<open>The name of the control inbox with its last character replaced covers all inboxes of the client.\<close>

definition inbox_wild :: "client \<Rightarrow> string" where
  "inbox_wild c = butlast (rc_control c) @ ''>''"

definition recv_conn :: "('r, 'f) cl_env \<Rightarrow> client \<Rightarrow> (int \<times> client) option" where
  "recv_conn E c =
     (if mi_sub (rc_msg_in c) \<noteq> ''_RV.INFO.SYSTEM.RVD.CONNECTED'' then Some (host_failed, c)
      else if rc_control c = [] then None
      else do {
        let c1 = (rc_emit (Sent (CRec (listen_rec ''L'' (inbox_wild c)))) c)\<lparr>rc_state := C_DATA_RECV\<rparr>;
        c4 \<leftarrow> start_feeds E
               (rc_emit_if (rc_fwd_all_msgs c) (AddPatternRoute (se_prefix_seed (ce_svc E) 0))
                 (rc_emit_if (rc_fwd_all_subs c \<and> \<not> rc_cb c) AddRouteNotify c1));
        Some (0, flush_pending_send c4)
      })"

section \<open>Messages from the daemon\<close>

text \<open>
  A publication of the daemon goes to the database first; what it does not take goes to the callback,
  or to the router.
\<close>

definition db_pub :: "('r, 'f) cl_env \<Rightarrow> md_type \<Rightarrow> u8 list \<Rightarrow> msg_in \<Rightarrow> rv_pub" where
  "db_pub E t msg m =
     \<lparr>pub_subject = mi_sub m, pub_reply = mi_reply m, pub_msg = map byte_char msg, pub_enc = ce_type_id E t\<rparr>"

definition cl_fwd_pub :: "('r, 'f) cl_env \<Rightarrow> client \<Rightarrow> client option" where
  "cl_fwd_pub E c = do {
     let m = rc_msg_in c;
     let (t, p, n) = pub_data (ce_svc E) m;
     let msg = take n (drop p (mi_buf m));
     let sub = pre_sub c (mi_sub m);
     let rep = pre_reply c (mi_reply m);
     let h = se_crc (ce_svc E) sub 0;
     (taken, c1) \<leftarrow>
       (if rc_listen c \<noteq> []
        then run_db E (process_pub2 (db_env E c) (rc_mono c) (db_pub E t msg m)) c
        else Some (False, c));
     Some (if taken then c1
           else rc_emit ((if rc_cb c1 then CbMsg else ForwardMsg) sub rep h t msg) c1)
   }"

fun rv_status_code :: "rv_status \<Rightarrow> int" where
  "rv_status_code RV_OK = 0"
| "rv_status_code ERR_RV_MSG = 1"
| "rv_status_code ERR_RV_REF = 2"
| "rv_status_code ERR_RV_MTYPE = 3"
| "rv_status_code ERR_RV_SUB = 4"
| "rv_status_code ERR_RV_FAULT = 5"

definition cl_dispatch_msg :: "('r, 'f) cl_env \<Rightarrow> u8 list \<Rightarrow> client \<Rightarrow> (int \<times> client) option" where
  "cl_dispatch_msg E msg c0 =
     (let (st, m) = msg_unpack (se_unpack_rv (ce_svc E)) msg (rc_msg_in c0); c = c0\<lparr>rc_msg_in := m\<rparr>
      in if st = ERR_RV_FAULT then None
         else if st \<noteq> RV_OK then Some (if length msg = 8 then 0 else rv_status_code st, c)
         else if rv_state_code (rc_state c) < rv_state_code C_DATA_RECV
         then (if rc_state c = C_INIT_RECV then Some (recv_info E c) else recv_conn E c)
         else if mi_mtype m = 68 \<or> mi_mtype m = 65 then map_option (Pair 0) (cl_fwd_pub E c)
         else Some (- 1, c))"

text \<open>The loops of \<open>process\<close>: the status, the bytes that are left, and the client.\<close>

partial_function (option) data_recv_loop ::
  "('r, 'f) cl_env \<Rightarrow> u8 list \<Rightarrow> client \<Rightarrow> (int \<times> u8 list \<times> client) option" where
  "data_recv_loop E buf c =
     (if length buf < 8 then Some (0, buf, c)
      else let msglen = unat (se_be32 (ce_svc E) buf)
           in if length buf < msglen then Some (0, buf, c)
              else do {
                (st, c1) \<leftarrow> cl_dispatch_msg E (take msglen buf) c;
                if st = 0 then data_recv_loop E (drop msglen buf) c1
                else Some (st, drop msglen buf, c1)
              })"

function init_recv_loop ::
  "('r, 'f) cl_env \<Rightarrow> u8 list \<Rightarrow> client \<Rightarrow> (int \<times> u8 list \<times> client) option" where
  "init_recv_loop E buf c =
     (if length buf < 8 then Some (0, buf, c)
      else if rc_state c = C_VERS_RECV then
        (if length buf < 12 then Some (0, buf, c)
         else init_recv_loop E (drop 12 buf) ((send_vers c)\<lparr>rc_state := C_INFO_RECV\<rparr>))
      else if rc_state c = C_INFO_RECV then
        (if length buf < 64 then Some (0, buf, c)
         else init_recv_loop E (drop 64 buf)
                (if se_be32 (ce_svc E) buf \<noteq> 1 then cl_send_info c
                 else (send_init_rec c)\<lparr>rc_state := C_INIT_RECV\<rparr>))
      else data_recv_loop E buf c)"
  by pat_completeness auto
termination by (relation "measure (\<lambda>(E, buf, c). length buf)") auto

declare init_recv_loop.simps [simp del]

definition cl_process :: "('r, 'f) cl_env \<Rightarrow> u8 list \<Rightarrow> client \<Rightarrow> (u8 list \<times> client) option" where
  "cl_process E buf c = do {
     (st, rest, c1) \<leftarrow>
       (if rv_state_code (rc_state c) \<ge> rv_state_code C_INIT_RECV then data_recv_loop E buf c
        else init_recv_loop E buf c);
     Some (rest, if st \<noteq> 0 then rc_emit PushClose (c1\<lparr>rc_state := C_ERR_CLOSE\<rparr>) else c1)
   }"

text \<open>The message that an application reads: data of another format is wrapped in the field \<open>_data_\<close>.\<close>

definition rv_bytes :: "('r, 'f) cl_env \<Rightarrow> md_type \<Rightarrow> u8 list \<Rightarrow> u8 list" where
  "rv_bytes E enc msg =
     (let svc = ce_svc E;
          json = (case se_json svc msg of Some b \<Rightarrow> b | None \<Rightarrow> ce_wrap E (enc = MD_STRING) msg)
      in if enc = RVMSG_TYPE_ID then msg
         else if enc \<in> {MD_OPAQUE, MD_STRING, MD_MESSAGE} \<and> se_is_rvmsg svc msg then msg
         else if enc = MD_STRING \<and> se_is_tib svc msg then ce_wrap E False msg
         else if enc = MD_STRING \<and> se_msg_type svc msg = Some JSON_TYPE_ID then json
         else if enc = JSON_TYPE_ID then json
         else ce_wrap E (enc = MD_STRING) msg)"

definition make_rv_msg :: "('r, 'f) cl_env \<Rightarrow> md_type \<Rightarrow> u8 list \<Rightarrow> cl_field list option" where
  "make_rv_msg E enc msg = ce_unpack E (rv_bytes E enc msg)"

section \<open>Connecting\<close>

record cl_param =
  cp_daemon :: "string option"
  cp_network :: "string option"
  cp_service :: "string option"
  cp_userid :: "string option"
  cp_port :: int
  cp_ai :: bool

definition cl_param_new :: cl_param where
  "cl_param_new = \<lparr>cp_daemon = None, cp_network = None, cp_service = Some ''7500'', cp_userid = None,
     cp_port = 7500, cp_ai = False\<rparr>"

text \<open>The host and the port of a daemon parameter: \<open>host:port\<close>, \<open>port\<close>, with or without \<open>tcp:\<close>.\<close>

definition conn_port :: "string \<Rightarrow> int \<Rightarrow> string option \<times> int" where
  "conn_port conn port =
     (if CHR '':'' \<in> set conn
      then (Some (rev (tl (dropWhile (\<lambda>c. c \<noteq> CHR '':'') (rev conn)))),
            c_atoi (rev (takeWhile (\<lambda>c. c \<noteq> CHR '':'') (rev conn))))
      else if list_all is_digit conn then (None, c_atoi conn) else (Some conn, port))"

definition strip_tcp :: "string \<Rightarrow> string option" where
  "strip_tcp conn =
     (let c1 = (if starts ''tcp:'' conn then drop 4 conn else conn);
          c2 = (if c1 = ''tcp'' then [] else c1)
      in if c2 = [] then None else Some c2)"

definition parse_daemon :: "cl_param \<Rightarrow> string option \<times> int" where
  "parse_daemon p =
     (case (if cp_ai p then None else cp_daemon p) of
        None \<Rightarrow> (None, cp_port p)
      | Some d \<Rightarrow> (let (conn, port) = conn_port (take 255 d) (cp_port p) in (Option.bind conn strip_tcp, port)))"

definition cut_service :: "string \<Rightarrow> string" where
  "cut_service s =
     (let t = takeWhile (\<lambda>c. c \<noteq> CHR '':'') s in if t \<noteq> s \<and> length t + 1 < 16 then t else s)"

text \<open>The copies of the parameters.\<close>

definition set_params :: "('r, 'f) cl_env \<Rightarrow> cl_param \<Rightarrow> bool \<Rightarrow> bool \<Rightarrow> client \<Rightarrow> client" where
  "set_params E p notify cb c =
     (let dlen = (if cp_ai p then 0 else case cp_daemon p of None \<Rightarrow> 0 | Some d \<Rightarrow> length d);
          svc = map_option cut_service (cp_service p);
          c1 = (if dlen > 0 \<or> cp_network p \<noteq> None \<or> svc \<noteq> None
                then c\<lparr>rc_daemon := ce_cstr E (map_option (take dlen) (cp_daemon p)),
                       rc_network := ce_cstr E (cp_network p), rc_service := ce_cstr E svc\<rparr>
                else c);
          c2 = (case cp_userid p of None \<Rightarrow> c1 | Some u \<Rightarrow> c1\<lparr>rc_userid := zstr (take 63 u)\<rparr>);
          c3 = (if notify then c2\<lparr>rc_notify := True\<rparr> else c2)
      in if cb then c3\<lparr>rc_cb := True\<rparr> else c3)"

text \<open>
  \<open>rv_connect\<close>, with the descriptor of the new socket, \<open>None\<close> when it cannot be connected. The null
  connection starts its feeds at once; \<open>initialize_state\<close> has just released them.
\<close>

definition rv_connect ::
  "('r, 'f) cl_env \<Rightarrow> cl_param \<Rightarrow> bool \<Rightarrow> bool \<Rightarrow> nat option \<Rightarrow> client \<Rightarrow> (bool \<times> client) option" where
  "rv_connect E p notify cb sock c =
     (if rc_fd c \<noteq> None then Some (False, c)
      else let (conn, port) = parse_daemon p; is_null = (conn = Some ''null'');
               c1 = initialize_state E is_null c
           in if is_null then do {
                let c2 = set_params E p notify cb (rc_emit NullSock (c1\<lparr>rc_fd := sock\<rparr>));
                let c3 = (case rc_network c2 of
                            None \<Rightarrow> c2 | Some net \<Rightarrow> rc_emit (TrdpCreate net (rc_service c2)) c2);
                c4 \<leftarrow> start_feeds E c3;
                Some (True, c4)
              }
              else let c2 = rc_emit (if cp_ai p then TcpConnectAi else TcpConnect conn (if port = 0 then 7500 else port)) c1
                   in Some (if sock = None then (False, c2\<lparr>rc_state := C_ERR_CLOSE\<rparr>)
                            else (True, set_params E p notify cb (c2\<lparr>rc_fd := sock\<rparr>))))"

fun conn_args :: "(string \<times> string) list \<Rightarrow> cl_param \<Rightarrow> cl_param" where
  "conn_args [] p = p"
| "conn_args ((k, v) # as) p =
     conn_args as
       (if k \<in> {''daemon'', ''connect'', ''host''} then p\<lparr>cp_daemon := Some v\<rparr>
        else if k = ''network'' then p\<lparr>cp_network := Some v\<rparr>
        else if k = ''service'' then p\<lparr>cp_service := Some v\<rparr>
        else if k = ''user'' then p\<lparr>cp_userid := Some v\<rparr> else p)"

fun feed_args :: "(string \<times> string) list \<Rightarrow> client \<Rightarrow> client" where
  "feed_args [] c = c"
| "feed_args ((k, v) # as) c =
     feed_args as
       (if k = ''broadcast_feed'' then c\<lparr>rc_bcast := rc_bcast c @ [v]\<rparr>
        else if k = ''interactive_feed'' then c\<lparr>rc_inter := rc_inter c @ [v]\<rparr>
        else if k = ''subscriber_listen''
        then c\<lparr>rc_listen := rc_listen c @ [v], rc_db := add_wildcard (Some v) (rc_db c)\<rparr>
        else c)"

text \<open>\<open>connect\<close>, with the pairs of arguments.\<close>

definition cl_connect ::
  "('r, 'f) cl_env \<Rightarrow> bool \<Rightarrow> (string \<times> string) list \<Rightarrow> bool \<Rightarrow> nat option \<Rightarrow> client \<Rightarrow> (int \<times> client) option" where
  "cl_connect E ai args notify sock c = do {
     (ok, c1) \<leftarrow> rv_connect E (conn_args args (cl_param_new\<lparr>cp_ai := ai\<rparr>)) notify False sock c;
     Some (if ok then (0, feed_args args c1) else (- 1, c1))
   }"

text \<open>\<open>release\<close>, and the descriptor that the event loop takes back.\<close>

definition cl_release :: "('r, 'f) cl_env \<Rightarrow> client \<Rightarrow> client option" where
  "cl_release E c0 = do {
     c \<leftarrow> (if rc_listen c0 \<noteq> []
          then map_option snd (run_db E (\<lambda>db. map_option (Pair ()) (unsub_all (db_env E c0) db)) c0)
          else Some c0);
     let c1 = rc_emit_if (rc_notify c) ClOnShutdown
                (rc_emit_if (rc_fwd_all_subs c \<and> \<not> rc_cb c) RemoveRouteNotify
                  (rc_emit_if (rc_fwd_all_msgs c) (DelPatternRoute (se_prefix_seed (ce_svc E) 0)) c));
     Some ((rc_emit_if (rc_timer_id c \<noteq> 0) (ClRemoveTimer (rc_timer_id c)) c1)
             \<lparr>rc_save := [], rc_inter := [], rc_bcast := [], rc_listen := [],
              rc_db := (if rc_listen c \<noteq> [] then release (rc_db c) else rc_db c),
              rc_state := C_ERR_CLOSE, rc_timer_id := 0, rc_fd := None\<rparr>)
   }"

section \<open>Subscriptions of other clients\<close>

text \<open>What the router says of a subscription and of a pattern; \<open>np_rv\<close> is the format of the protocol.\<close>

record notify_sub =
  ns_subject :: string
  ns_reply :: string
  ns_count :: u32

record notify_pat =
  np_pattern :: string
  np_prefixlen :: nat
  np_rv :: bool
  np_count :: u32

text \<open>The subject less the prefix. The length of the reply is passed by value and stays zero at the caller.\<close>

definition get_nsub :: "client \<Rightarrow> notify_sub \<Rightarrow> string option" where
  "get_nsub c n =
     (let pre = mi_prefix (rc_msg_in c)
      in if pre = [] \<or> length (ns_subject n) > length pre \<and> starts pre (ns_subject n)
         then Some (drop (length pre) (ns_subject n)) else None)"

definition match_filter :: "client \<Rightarrow> string \<Rightarrow> bool" where
  "match_filter c sub \<longleftrightarrow> \<not> is_inbox_subject sub \<and>
     (rc_inter c = [] \<and> rc_bcast c = [] \<and> rc_listen c = [] \<or>
      (\<exists>w\<in>set (rc_inter c). match_rv_wildcard w sub))"

definition on_sub :: "notify_sub \<Rightarrow> client \<Rightarrow> client" where
  "on_sub n c =
     (if rc_no_write c then c
      else case get_nsub c n of
             Some sub \<Rightarrow> if match_filter c sub then cl_subscribe sub [] c else c
           | None \<Rightarrow> c)"

definition on_unsub :: "notify_sub \<Rightarrow> client \<Rightarrow> client" where
  "on_unsub n c =
     (if rc_no_write c \<or> ns_count n \<noteq> 0 then c
      else case get_nsub c n of
             Some sub \<Rightarrow> if match_filter c sub then cl_unsubscribe sub c else c
           | None \<Rightarrow> c)"

text \<open>A pattern of another format is forwarded as its prefix with all that follows.\<close>

definition prefix_wild :: "string \<Rightarrow> string" where
  "prefix_wild pre = (if pre \<noteq> [] then pre @ ''.>'' else ''>'')"

definition fwd_subject_of :: "notify_pat \<Rightarrow> string" where
  "fwd_subject_of p =
     (if np_rv p then np_pattern p else prefix_wild (take (min (np_prefixlen p) 1021) (np_pattern p)))"

definition fwd_pat :: "notify_pat \<Rightarrow> bool \<Rightarrow> client \<Rightarrow> client" where
  "fwd_pat p start c =
     (let pre = mi_prefix (rc_msg_in c); s = fwd_subject_of p; sub = drop (length pre) s
      in if (pre = [] \<or> length s > length pre \<and> starts pre s) \<and> match_filter c sub
         then snd (queue_send (CRec (listen_rec (if start then ''L'' else ''C'') sub)) c) else c)"

definition on_psub :: "notify_pat \<Rightarrow> client \<Rightarrow> client" where
  "on_psub p c = (if rc_no_write c then c else fwd_pat p True c)"

definition punsub_fwd :: "client \<Rightarrow> notify_pat \<Rightarrow> bool" where
  "punsub_fwd c p =
     (if np_count p = 0 then np_prefixlen p > 0 \<and> np_pattern p ! (np_prefixlen p - 1) = dot
      else np_count p = 1 \<and> rc_fwd_all_msgs c \<and> np_prefixlen p = 0)"

definition on_punsub :: "notify_pat \<Rightarrow> client \<Rightarrow> client" where
  "on_punsub p c = (if rc_no_write c \<or> \<not> punsub_fwd c p then c else fwd_pat p False c)"

text \<open>The length of a prefix is a byte.\<close>

definition do_psub :: "string \<Rightarrow> client \<Rightarrow> client" where
  "do_psub pre c =
     (if rc_no_write c then c
      else snd (queue_send (CRec (listen_rec ''L'' (prefix_wild (take (length pre mod 256) pre)))) c))"

definition on_reassert :: "string list \<Rightarrow> string list \<Rightarrow> client \<Rightarrow> client" where
  "on_reassert subs pats c =
     (if rc_no_write c then c
      else fold do_psub pats (fold (\<lambda>s. cl_subscribe s []) subs c))"

end
