(* ===== verification/Cli_Flow.thy ===== *)
theory Cli_Flow
  imports Cli_Client Svc_Frame "HOL-Library.Sublist"
begin

text \<open>
  What the operations of a client keep: most of them only add to the events and to the saved messages
  (\<open>adds\<close>), and all but a new connection and the release keep every message that was handed to the
  connection, in its place (\<open>in_order\<close>). Both relations are interpretations of \<open>frame_rel\<close>. The steps
  of a client and its invariant follow.
\<close>

section \<open>Messages\<close>

fun sent_of :: "cl_event \<Rightarrow> cl_msg list" where
  "sent_of (Sent m) = [m]"
| "sent_of e = []"

definition sents :: "client \<Rightarrow> cl_msg list" where
  "sents c = concat (map sent_of (rc_out c))"

text \<open>The messages handed to the connection: sent, then saved.\<close>

definition handed :: "client \<Rightarrow> cl_msg list" where
  "handed c = sents c @ rc_save c"

definition in_order :: "client \<Rightarrow> client \<Rightarrow> bool" where
  "in_order c c' \<longleftrightarrow> subseq (handed c) (handed c')"

interpretation io: frame_rel in_order
  by unfold_locales (auto simp: in_order_def intro: subseq_order.order_trans)

section \<open>Operations that only add\<close>

text \<open>The part of the state that decides on the connection.\<close>

definition conn_view :: "client \<Rightarrow> rv_state \<times> bool \<times> string \<times> string" where
  "conn_view c = (rc_state c, rc_no_write c, rc_session c, rc_control c)"

definition adds :: "client \<Rightarrow> client \<Rightarrow> bool" where
  "adds c c' \<longleftrightarrow> conn_view c' = conn_view c \<and> (\<exists>es. rc_out c' = rc_out c @ es) \<and>
     (\<exists>ms. rc_save c' = rc_save c @ ms \<and> (rc_state c = C_DATA_RECV \<longrightarrow> ms = []))"

lemma adds_trans: "adds a b \<Longrightarrow> adds b c \<Longrightarrow> adds a c"
  unfolding adds_def conn_view_def by fastforce

interpretation ad: frame_rel adds
  by unfold_locales (simp add: adds_def, rule adds_trans)

lemma adds_in_order: "adds c c' \<Longrightarrow> in_order c c'"
proof -
  assume "adds c c'"
  then obtain es ms where "rc_out c' = rc_out c @ es" "rc_save c' = rc_save c @ ms"
    by (auto simp: adds_def)
  then have h: "handed c' = sents c @ concat (map sent_of es) @ rc_save c @ ms"
    by (simp add: handed_def sents_def)
  have "subseq (rc_save c) (concat (map sent_of es) @ rc_save c @ ms)"
    by (rule subseq_drop_many, rule subseq_rev_drop_many) simp
  then show ?thesis unfolding in_order_def h handed_def [of c] by (simp only: subseq_append')
qed

named_theorems adds_rules

lemmas [adds_rules] = ad.frefl

lemma adds_emit [adds_rules]: "adds c d \<Longrightarrow> adds c (rc_emit e d)"
  by (rule adds_trans) (auto simp: adds_def rc_emit_def conn_view_def)

lemma adds_emit_if [adds_rules]: "adds c d \<Longrightarrow> adds c (rc_emit_if b e d)"
  by (simp add: rc_emit_if_def adds_emit)

text \<open>A change of the fields that no rule of the connection reads.\<close>

lemma adds_same:
  "conn_view d' = conn_view d \<Longrightarrow> rc_out d' = rc_out d \<Longrightarrow> rc_save d' = rc_save d \<Longrightarrow> adds c d \<Longrightarrow> adds c d'"
  by (erule adds_trans) (simp add: adds_def)

lemma adds_upd [adds_rules]:
  "adds c d \<Longrightarrow> adds c (d\<lparr>rc_db := db\<rparr>)" "adds c d \<Longrightarrow> adds c (d\<lparr>rc_timer_id := t\<rparr>)"
  "adds c d \<Longrightarrow> adds c (d\<lparr>rc_msg_in := m\<rparr>)" "adds c d \<Longrightarrow> adds c (d\<lparr>rc_ipaddr := a\<rparr>)"
  "adds c d \<Longrightarrow> adds c (d\<lparr>rc_ipport := p\<rparr>)"
  by (auto intro: adds_same [rotated 3] simp: conn_view_def)

lemma adds_queue [adds_rules]: "adds c d \<Longrightarrow> adds c (snd (queue_send m d))"
  by (rule adds_trans) (auto simp: queue_send_def adds_def rc_emit_def conn_view_def)

lemma adds_subscribe [adds_rules]:
  "adds c d \<Longrightarrow> adds c (cl_subscribe sub rep d)" "adds c d \<Longrightarrow> adds c (cl_unsubscribe sub d)"
  by (auto simp: cl_subscribe_def cl_unsubscribe_def intro: adds_rules)

lemma adds_publish2 [adds_rules]: "adds c d \<Longrightarrow> adds c (snd (publish2 E pub sub rep d))"
  by (auto simp: publish2_def split: option.split prod.split intro: adds_rules)

lemma adds_on_msg [adds_rules]: "adds c d \<Longrightarrow> adds c (snd (cl_on_msg E own pub d))"
  by (auto simp: cl_on_msg_def publish_def Let_def intro: adds_rules)

lemma adds_fold [adds_rules]:
  assumes "adds c d" "\<And>x d. adds d (f x d)"
  shows "adds c (fold f xs d)"
  using assms(1) by (rule adds_trans) (simp add: ad.ffold assms)

lemma adds_notified [adds_rules]:
  "adds c d \<Longrightarrow> adds c (on_sub n d)" "adds c d \<Longrightarrow> adds c (on_unsub n d)"
  "adds c d \<Longrightarrow> adds c (fwd_pat p b d)" "adds c d \<Longrightarrow> adds c (do_psub s d)"
  by (auto simp: on_sub_def on_unsub_def fwd_pat_def do_psub_def Let_def split: option.split intro: adds_rules)

lemma adds_patterns [adds_rules]:
  "adds c d \<Longrightarrow> adds c (on_psub p d)" "adds c d \<Longrightarrow> adds c (on_punsub p d)"
  "adds c d \<Longrightarrow> adds c (on_reassert subs pats d)"
  by (auto simp: on_psub_def on_punsub_def on_reassert_def intro!: adds_rules)

section \<open>Calls of the database\<close>

lemma adds_listen:
  "on_listen_start E v rep coll cnt c = Some c' \<Longrightarrow> adds c c'"
  "on_listen_stop E v orphan coll cnt c = Some c' \<Longrightarrow> adds c c'"
  by (auto simp: on_listen_start_def on_listen_stop_def Let_def split: if_splits option.splits intro!: adds_rules)

lemma adds_db_event: "db_event E e c = Some c' \<Longrightarrow> adds c c'"
  by (cases e) (auto intro: adds_rules adds_listen)

lemma adds_db_events: "db_events E es c = Some c' \<Longrightarrow> adds c c'"
proof (induction es arbitrary: c)
  case (Cons e es)
  then show ?case by (auto simp: bind_eq_Some_conv intro: adds_trans adds_db_event)
qed (simp add: ad.frefl)

lemma adds_run_db: "run_db E f c = Some (r, c') \<Longrightarrow> adds c c'"
  by (auto simp: run_db_def bind_eq_Some_conv intro: adds_trans [OF adds_upd(1) [OF ad.frefl] adds_db_events])

lemma adds_start_feeds: "start_feeds E c = Some c' \<Longrightarrow> adds c c'"
proof -
  assume run: "start_feeds E c = Some c'"
  let ?c = "fold (\<lambda>s. cl_subscribe s []) (rc_bcast c) c"
  have f: "adds c ?c" by (auto intro!: adds_rules)
  have "adds ?c c'"
    using run by (auto simp: start_feeds_def Let_def bind_eq_Some_conv split: if_splits
        dest!: adds_run_db intro: adds_rules)
  with f show ?thesis by (rule adds_trans)
qed

lemma adds_timer: "cl_timer_expire E t c = Some (b, c') \<Longrightarrow> adds c c'"
  by (auto simp: cl_timer_expire_def split: if_splits intro: adds_rules adds_run_db)

lemma adds_fwd_pub: "cl_fwd_pub E c = Some c' \<Longrightarrow> adds c c'"
  by (auto simp: cl_fwd_pub_def Let_def bind_eq_Some_conv split: if_splits prod.splits
      dest!: adds_run_db intro: adds_rules)

section \<open>The invariant\<close>

text \<open>
  Once data flows nothing is saved; the control inbox belongs to the session; and a client that writes
  has asked for its inboxes.
\<close>

definition cl_ok :: "('r, 'f) cl_env \<Rightarrow> client \<Rightarrow> bool" where
  "cl_ok E c \<longleftrightarrow>
     (rc_state c = C_DATA_RECV \<longrightarrow> rc_save c = []) \<and>
     (rc_control c = [] \<or> rc_control c = cl_inbox E (rc_session c) 1) \<and>
     (rc_state c = C_DATA_RECV \<and> \<not> rc_no_write c \<longrightarrow>
        rc_control c \<noteq> [] \<and> Sent (CRec (listen_rec ''L'' (inbox_wild c))) \<in> set (rc_out c))"

definition good :: "('r, 'f) cl_env \<Rightarrow> client \<Rightarrow> client \<Rightarrow> bool" where
  "good E c c' \<longleftrightarrow> in_order c c' \<and> (cl_ok E c \<longrightarrow> cl_ok E c')"

interpretation gd: frame_rel "good E" for E :: "('r, 'f) cl_env"
  by unfold_locales (auto simp: good_def intro: io.frefl io.ftrans)

lemma adds_good: "adds c c' \<Longrightarrow> good E c c'"
  by (auto simp: good_def adds_in_order) (auto simp: adds_def cl_ok_def conn_view_def inbox_wild_def)

lemma handed_emit: "handed (rc_emit e c) = sents c @ sent_of e @ rc_save c" "sents (rc_emit e c) = sents c @ sent_of e"
  by (simp_all add: handed_def sents_def rc_emit_def)

lemma in_order_emit: "in_order c ((rc_emit e c)\<lparr>rc_state := s\<rparr>)"
  using handed_emit [of e c] by (simp add: in_order_def handed_def sents_def subseq_append' subseq_drop_many)

lemma in_order_fields:
  "in_order c d \<Longrightarrow> rc_out d' = rc_out d \<Longrightarrow> rc_save d' = rc_save d \<Longrightarrow> in_order c d'"
  by (simp add: in_order_def handed_def sents_def)

lemma flush_facts:
  "conn_view (flush_pending_send c) = conn_view c" "rc_save (flush_pending_send c) = []"
  "rc_out (flush_pending_send c) = rc_out c @ map Sent (rc_save c)"
proof -
  have "fold (\<lambda>m. rc_emit (Sent m)) ms c = c\<lparr>rc_out := rc_out c @ map Sent ms\<rparr>" for ms
    by (induction ms arbitrary: c) (simp_all add: rc_emit_def)
  then show "conn_view (flush_pending_send c) = conn_view c" "rc_save (flush_pending_send c) = []"
    "rc_out (flush_pending_send c) = rc_out c @ map Sent (rc_save c)"
    by (simp_all add: flush_pending_send_def conn_view_def)
qed

lemma handed_flush: "handed (flush_pending_send c) = handed c"
proof -
  have "concat (map sent_of (map Sent ms)) = ms" for ms by (induction ms) simp_all
  then show ?thesis by (simp add: handed_def sents_def flush_facts)
qed

lemma recv_session_good: "good E c (recv_session E fs gob c)"
proof -
  have "in_order c (recv_session E fs gob c)"
    by (auto simp: recv_session_def Let_def send_init_rec_def in_order_def handed_def sents_def rc_emit_def
        subseq_append' subseq_drop_many)
  then show ?thesis
    by (simp add: good_def) (simp add: recv_session_def Let_def send_init_rec_def rc_emit_def cl_ok_def)
qed

lemma recv_info_good: "recv_info E c = (st, c') \<Longrightarrow> good E c c'"
  by (auto simp: recv_info_def Let_def split: if_splits option.splits
      intro: gd.frefl gd.ftrans [OF adds_good recv_session_good] adds_good adds_rules)

lemma recv_conn_good: "recv_conn E c = Some (st, c') \<Longrightarrow> good E c c'"
proof -
  assume run: "recv_conn E c = Some (st, c')"
  define c1 where "c1 = (rc_emit (Sent (CRec (listen_rec ''L'' (inbox_wild c)))) c)\<lparr>rc_state := C_DATA_RECV\<rparr>"
  define c3 where "c3 = rc_emit_if (rc_fwd_all_msgs c) (AddPatternRoute (se_prefix_seed (ce_svc E) 0))
    (rc_emit_if (rc_fwd_all_subs c \<and> \<not> rc_cb c) AddRouteNotify c1)"
  have c3: "adds c1 c3" by (auto simp: c3_def intro: adds_rules)
  show ?thesis
  proof (cases "c' = c")
    case True
    then show ?thesis by (simp add: gd.frefl)
  next
    case False
    then obtain c4 where f: "start_feeds E c3 = Some c4" and c': "c' = flush_pending_send c4" "rc_control c \<noteq> []"
      using run unfolding recv_conn_def Let_def c1_def [symmetric] c3_def [symmetric]
      by (auto simp: bind_eq_Some_conv split: if_splits)
    note c4 = adds_trans [OF c3 adds_start_feeds [OF f]] c'
    have c1: "in_order c c1" unfolding c1_def by (rule in_order_emit)
    have "in_order c c'"
      using io.ftrans [OF c1 adds_in_order [OF c4(1)]] by (simp add: in_order_def c4 handed_flush)
    moreover have "cl_ok E c'" if "cl_ok E c"
      using that c4(1,3) flush_facts [of c4]
      by (auto simp: c4(2) cl_ok_def adds_def conn_view_def inbox_wild_def c1_def rc_emit_def)
    ultimately show ?thesis by (simp add: good_def)
  qed
qed

lemma dispatch_good: "cl_dispatch_msg E msg c = Some (st, c') \<Longrightarrow> good E c c'"
proof -
  assume run: "cl_dispatch_msg E msg c = Some (st, c')"
  obtain st0 m where "msg_unpack (se_unpack_rv (ce_svc E)) msg (rc_msg_in c) = (st0, m)" by fastforce
  with run have "good E (c\<lparr>rc_msg_in := m\<rparr>) c'"
    by (auto simp: cl_dispatch_msg_def Let_def simp del: rv_state_code.simps split: if_splits
        intro: recv_info_good recv_conn_good gd.frefl adds_good [OF adds_fwd_pub])
  then show ?thesis by (rule gd.ftrans [OF adds_good [OF adds_upd(3) [OF ad.frefl]]])
qed

section \<open>The loops\<close>

lemma data_loop_good: "data_recv_loop E buf c = Some y \<Longrightarrow> good E c (snd (snd y))"
proof (induction E buf c y rule: data_recv_loop.raw_induct [rotated, consumes 1])
  case (1 loop E buf c y)
  let ?n = "unat (se_be32 (ce_svc E) buf)"
  show ?case
  proof (cases "length buf < 8 \<or> length buf < ?n")
    case True
    then show ?thesis using 1(2) by (auto simp: Let_def gd.frefl split: if_splits)
  next
    case False
    then obtain st d where d: "cl_dispatch_msg E (take ?n buf) c = Some (st, d)"
      using 1(2) by (auto simp: Let_def bind_eq_Some_conv)
    have "good E d (snd (snd y))"
      using 1(2) False d 1(1) by (cases "st = 0") (auto simp: Let_def gd.frefl)
    then show ?thesis by (rule gd.ftrans [OF dispatch_good [OF d]])
  qed
qed

text \<open>A record of the handshake and the next state.\<close>

lemma hello_good: "s \<noteq> C_DATA_RECV \<Longrightarrow> good E c ((rc_emit e c)\<lparr>rc_state := s\<rparr>)"
  by (auto simp: good_def in_order_emit) (auto simp: cl_ok_def rc_emit_def)

lemma init_loop_good: "init_recv_loop E buf c = Some y \<Longrightarrow> good E c (snd (snd y))"
proof (induction E buf c rule: init_recv_loop.induct)
  case (1 E buf c)
  note u = 1(3) [unfolded init_recv_loop.simps [of E buf c]]
  let ?v = "(send_vers c)\<lparr>rc_state := C_INFO_RECV\<rparr>"
  let ?i = "if se_be32 (ce_svc E) buf \<noteq> 1 then cl_send_info c else (send_init_rec c)\<lparr>rc_state := C_INIT_RECV\<rparr>"
  have v: "good E c ?v" by (auto simp: send_vers_def intro: hello_good)
  have i: "good E c ?i"
    by (auto simp: cl_send_info_def send_init_rec_def intro: hello_good adds_good adds_rules)
  show ?case
  proof (cases "length buf < 8 \<or> rc_state c = C_VERS_RECV \<and> length buf < 12 \<or> rc_state c = C_INFO_RECV \<and> length buf < 64")
    case True
    then show ?thesis using u by (auto simp: gd.frefl split: if_splits)
  next
    case False
    then show ?thesis
      using u 1(1,2) gd.ftrans [OF v, of "snd (snd y)"] gd.ftrans [OF i, of "snd (snd y)"]
      by (simp split: if_splits add: data_loop_good)
  qed
qed

lemma process_good: "cl_process E buf c = Some (rest, c') \<Longrightarrow> good E c c'"
proof -
  assume "cl_process E buf c = Some (rest, c')"
  then obtain st d where
    r: "(if rv_state_code (rc_state c) \<ge> rv_state_code C_INIT_RECV then data_recv_loop E buf c
         else init_recv_loop E buf c) = Some (st, rest, d)"
    and c': "c' = (if st \<noteq> 0 then rc_emit PushClose (d\<lparr>rc_state := C_ERR_CLOSE\<rparr>) else d)"
    unfolding cl_process_def by (auto simp: bind_eq_Some_conv simp del: rv_state_code.simps)
  have d: "good E c d" using data_loop_good [of E buf c] init_loop_good [of E buf c] r by (auto split: if_splits)
  have "good E d (rc_emit PushClose (d\<lparr>rc_state := C_ERR_CLOSE\<rparr>))"
    by (auto simp: good_def in_order_def handed_def sents_def rc_emit_def cl_ok_def)
  then show ?thesis using d by (auto simp: c' intro: gd.ftrans)
qed

section \<open>Connecting\<close>

lemma adds_set_params [adds_rules]: "adds c d \<Longrightarrow> adds c (set_params E p n cb d)"
  by (rule adds_same) (auto simp: set_params_def Let_def conn_view_def split: option.split)

lemma adds_fd [adds_rules]: "adds c d \<Longrightarrow> adds c (d\<lparr>rc_fd := f\<rparr>)"
  by (rule adds_same) (auto simp: conn_view_def)

lemma adds_feeds: "adds c (c\<lparr>rc_bcast := a\<rparr>)" "adds c (c\<lparr>rc_inter := a\<rparr>)" "adds c (c\<lparr>rc_listen := a, rc_db := db\<rparr>)"
  by (simp_all add: adds_def conn_view_def)

lemma adds_feed_args: "adds c (feed_args as c)"
proof (induction as c rule: feed_args.induct)
  case (2 k v as c)
  show ?case unfolding feed_args.simps by (rule adds_trans [OF _ 2]) (simp add: adds_feeds ad.frefl)
qed (simp add: ad.frefl)

lemma adds_ok: "adds c d \<Longrightarrow> cl_ok E c \<Longrightarrow> cl_ok E d"
  using adds_good [of c d E] by (simp add: good_def)

lemma initialize_ok: "cl_ok E (initialize_state E is_null c)"
  by (simp add: initialize_state_def Let_def cl_ok_def)

lemma rv_connect_ok:
  assumes "rv_connect E p n cb sock c = Some (b, c')" "cl_ok E c"
  shows "cl_ok E c'"
proof (cases "rc_fd c = None")
  case False
  then show ?thesis using assms by (simp add: rv_connect_def)
next
  case True
  obtain conn port where pd: "parse_daemon p = (conn, port)" by fastforce
  let ?c1 = "initialize_state E (conn = Some ''null'') c"
  show ?thesis
  proof (cases "conn = Some ''null''")
    case null: True
    then have "adds ?c1 c'"
      using assms(1) True unfolding rv_connect_def pd Let_def
      by (auto simp: bind_eq_Some_conv split: option.splits
          dest!: adds_start_feeds elim!: adds_trans [rotated] intro!: adds_rules)
    then show ?thesis by (rule adds_ok) (rule initialize_ok)
  next
    case False
    have ok: "adds ?c1 d \<Longrightarrow> cl_ok E d" "adds ?c1 d \<Longrightarrow> cl_ok E (d\<lparr>rc_state := C_ERR_CLOSE\<rparr>)" for d
      using adds_ok [OF _ initialize_ok, of E "conn = Some ''null''" c d] by (auto simp: cl_ok_def)
    let ?c2 = "rc_emit (if cp_ai p then TcpConnectAi else TcpConnect conn (if port = 0 then 7500 else port)) ?c1"
    have c': "(b, c') = (if sock = None then (False, ?c2\<lparr>rc_state := C_ERR_CLOSE\<rparr>)
        else (True, set_params E p n cb (?c2\<lparr>rc_fd := sock\<rparr>)))"
      using assms(1) True False unfolding rv_connect_def pd Let_def prod.case by simp
    have "adds ?c1 ?c2" "adds ?c1 (set_params E p n cb (?c2\<lparr>rc_fd := sock\<rparr>))" by (intro adds_rules)+
    then show ?thesis using c' ok by (cases "sock = None") simp_all
  qed
qed

lemma release_ok:
  assumes "cl_release E c = Some c'" "cl_ok E c"
  shows "cl_ok E c'"
proof -
  obtain c1 where c1: "(if rc_listen c \<noteq> []
      then map_option snd (run_db E (\<lambda>db. map_option (Pair ()) (unsub_all (db_env E c) db)) c) else Some c) = Some c1"
    using assms(1) unfolding cl_release_def by (auto simp only: bind_eq_Some_conv)
  then have "adds c c1" by (auto split: if_splits intro: ad.frefl dest!: adds_run_db)
  moreover have "rc_control c' = rc_control c1" "rc_session c' = rc_session c1" "rc_state c' = C_ERR_CLOSE"
    using assms(1) unfolding cl_release_def c1 Let_def by (auto simp: rc_emit_if_def rc_emit_def)
  ultimately show ?thesis using assms(2) by (auto simp: cl_ok_def adds_def conn_view_def)
qed

section \<open>Steps\<close>

text \<open>
  What happens to a connected client: bytes arrive, a timer expires, the router and the owner call,
  and the event loop moves its clock and its buffers (\<open>tick\<close>).
\<close>

inductive live_step :: "('r, 'f) cl_env \<Rightarrow> client \<Rightarrow> client \<Rightarrow> bool" for E where
  ls_process: "cl_process E buf c = Some (rest, c') \<Longrightarrow> live_step E c c'"
| ls_timer: "cl_timer_expire E t c = Some (b, c') \<Longrightarrow> live_step E c c'"
| ls_on_msg: "live_step E c (snd (cl_on_msg E own pub c))"
| ls_subscribe: "live_step E c (cl_subscribe sub rep c)"
| ls_unsubscribe: "live_step E c (cl_unsubscribe sub c)"
| ls_on_sub: "live_step E c (on_sub n c)"
| ls_on_unsub: "live_step E c (on_unsub n c)"
| ls_on_psub: "live_step E c (on_psub p c)"
| ls_on_punsub: "live_step E c (on_punsub p c)"
| ls_reassert: "live_step E c (on_reassert subs pats c)"
| ls_prefix: "cl_set_prefix pref c = Some c' \<Longrightarrow> live_step E c c'"
| ls_tick: "live_step E c (c\<lparr>rc_len := len, rc_mono := t, rc_push := b\<rparr>)"
| ls_forward: "live_step E c (c\<lparr>rc_fwd_all_msgs := m, rc_fwd_all_subs := s\<rparr>)"

inductive cl_reach :: "('r, 'f) cl_env \<Rightarrow> client \<Rightarrow> bool" for E where
  cr_new: "cl_reach E (client_new tic0 vers0 now notify)"
| cr_rv_connect: "cl_reach E c \<Longrightarrow> rv_connect E p n cb sock c = Some (b, c') \<Longrightarrow> cl_reach E c'"
| cr_connect: "cl_reach E c \<Longrightarrow> cl_connect E ai args n sock c = Some (st, c') \<Longrightarrow> cl_reach E c'"
| cr_live: "cl_reach E c \<Longrightarrow> live_step E c c' \<Longrightarrow> cl_reach E c'"
| cr_release: "cl_reach E c \<Longrightarrow> cl_release E c = Some c' \<Longrightarrow> cl_reach E c'"

lemma adds_ticks:
  "adds c (c\<lparr>rc_len := len, rc_mono := t, rc_push := b\<rparr>)" "adds c (c\<lparr>rc_fwd_all_msgs := m, rc_fwd_all_subs := s\<rparr>)"
  "cl_set_prefix pref c = Some c' \<Longrightarrow> adds c c'"
  by (auto simp: adds_def conn_view_def cl_set_prefix_def)

lemma live_step_good: "live_step E c c' \<Longrightarrow> good E c c'"
  by (induction rule: live_step.induct)
    (auto intro: process_good adds_good adds_timer adds_ticks adds_rules)

lemma live_steps_good: "(live_step E)\<^sup>*\<^sup>* c c' \<Longrightarrow> good E c c'"
  by (induction rule: rtranclp_induct) (auto intro: gd.frefl gd.ftrans live_step_good)

lemma reach_ok: "cl_reach E c \<Longrightarrow> cl_ok E c"
proof (induction rule: cl_reach.induct)
  case (cr_new tic0 vers0 now notify)
  show ?case by (simp add: client_new_def cl_ok_def)
next
  case (cr_connect c ai args n sock st c')
  then show ?case
    by (auto simp: cl_connect_def bind_eq_Some_conv split: if_splits
        intro: rv_connect_ok adds_ok [OF adds_feed_args rv_connect_ok])
next
  case (cr_live c c')
  then show ?case using live_step_good by (auto simp: good_def)
qed (auto intro: rv_connect_ok release_ok)

lemma live_steps_reach: "cl_reach E c \<Longrightarrow> (live_step E)\<^sup>*\<^sup>* c c' \<Longrightarrow> cl_reach E c'"
  by (rotate_tac) (induction rule: rtranclp_induct, auto intro: cr_live)

end
