(* ===== verification/Cli_Handshake.thy ===== *)
theory Cli_Handshake
  imports Cli_Flow Svc_Names
begin

text \<open>
  A client and the daemon together: what \<open>EvRvClient\<close> sends in the handshake is what \<open>EvRvService\<close>
  reads, and the other way round. The relation \<open>names\<close> says that an operation of the daemon leaves
  the names of the connections alone and answers no client.
\<close>

section \<open>What is on the wire\<close>

text \<open>The fields of a client's record as the daemon reads them, and of a reply as the client does.\<close>

definition as_info :: "(string \<times> cl_val) list \<Rightarrow> info_field list" where
  "as_info fs = map (\<lambda>(nm, v). Some (zstr nm,
     case v of CStr s \<Rightarrow> IVStr s | CInt n \<Rightarrow> IVInt (ucast n) | _ \<Rightarrow> IVOther)) fs"

definition char_byte :: "char \<Rightarrow> u8" where
  "char_byte c = of_nat (of_char c)"

fun as_field :: "adv_val \<Rightarrow> md_type \<times> u8 list" where
  "as_field (AStr s) = (MD_STRING, map char_byte (zstr s))"
| "as_field (ANum n) = (MD_INT, be_bytes (ucast n))"
| "as_field (AIp ip) = (MD_IPDATA, le_list 4 ip)"
| "as_field (APort p) = (MD_IPDATA, le_list 2 (ucast p))"
| "as_field _ = (MD_OTHER 0, [])"

definition as_fields :: "(string \<times> adv_val) list \<Rightarrow> cl_field list" where
  "as_fields fs = map (\<lambda>(nm, v). (zstr nm, as_field v)) fs"

lemma as_fields_simps [simp]:
  "as_fields [] = []" "as_fields ((nm, v) # fs) = (zstr nm, as_field v) # as_fields fs"
  by (simp_all add: as_fields_def)

lemma as_info_simps [simp]:
  "as_info [] = []"
  "as_info ((nm, v) # fs) = Some (zstr nm, case v of CStr s \<Rightarrow> IVStr s | CInt n \<Rightarrow> IVInt (ucast n) | _ \<Rightarrow> IVOther) # as_info fs"
  "as_info (fs @ gs) = as_info fs @ as_info gs"
  by (simp_all add: as_info_def)

lemma zstr_eq [simp]: "zstr s = zstr t \<longleftrightarrow> s = t" "zstr s \<noteq> []" "butlast (zstr s) = s" "length (zstr s) = Suc (length s)"
  by (simp_all add: zstr_def)

section \<open>The numbers\<close>

lemma le_num_snoc: "le_num (b # bs) = ucast b OR push_bit 8 (le_num bs)"
  by (simp add: le_num_def)

lemma le_num_list: "le_num (le_list 4 ip) = ip"
proof -
  have "le_list 4 ip = [ucast ip, ucast (drop_bit 8 ip), ucast (drop_bit 16 ip), ucast (drop_bit 24 ip)]"
    by (simp add: le_list_def upt_conv_Cons)
  then have "le_num (le_list 4 ip) = ucast (ucast ip :: u8) OR push_bit 8 (ucast (ucast (drop_bit 8 ip) :: u8) OR
      push_bit 8 (ucast (ucast (drop_bit 16 ip) :: u8) OR push_bit 8 (ucast (ucast (drop_bit 24 ip) :: u8))))"
    by (simp add: le_num_def)
  also have "\<dots> = ip" (is "?r = _")
  proof (rule bit_word_eqI)
    fix n assume n: "n < LENGTH(32)"
    consider "n < 8" | "8 \<le> n" "n < 16" | "16 \<le> n" "n < 24" | "24 \<le> n" by linarith
    then show "bit ?r n = bit ip n"
      by cases (use n in \<open>auto simp: bit_simps\<close>)
  qed
  finally show ?thesis .
qed

lemma over_bytes_all: "over_bytes 4 (le_list 4 ip) old = ip"
proof -
  have "length (le_list 4 x) = 4" for x by (simp add: le_list_def)
  then show ?thesis by (simp add: over_bytes_def le_num_list)
qed

lemma hex_width_le: "unat us < 2 ^ (4 * n) \<Longrightarrow> hex_width us (4 * k) \<le> 4 * max k n"
proof (induction "16 - k" arbitrary: k)
  case 0
  then show ?case by (subst hex_width.simps) auto
next
  case (Suc m)
  show ?case
  proof (cases "drop_bit (4 * k) us = 0 \<or> 4 * k \<ge> 64")
    case True
    then show ?thesis by (subst hex_width.simps) auto
  next
    case False
    have "k < n"
    proof (rule ccontr)
      assume "\<not> k < n"
      then have "(2 :: nat) ^ (4 * n) \<le> 2 ^ (4 * k)" by (intro power_increasing) auto
      with Suc.prems have "unat us div 2 ^ (4 * k) = 0" by (intro div_less) (rule order.strict_trans2)
      then have "unat (drop_bit (4 * k) us) = 0" unfolding unat_drop_bit_eq by (simp only: drop_bit_eq_div)
      then show False using False by (simp add: unat_eq_zero)
    qed
    moreover have "hex_width us (4 * k) = hex_width us (4 * Suc k)"
      using False by (subst hex_width.simps) (simp add: add.commute)
    moreover have "m = 16 - Suc k" using Suc.hyps(2) by simp
    ultimately show ?thesis using Suc.hyps(1) [of "Suc k"] Suc.prems by simp
  qed
qed

text \<open>A time in nanoseconds needs at most 14 digits.\<close>

lemma length_time: "length (time_to_str E ns) \<le> 14"
proof -
  have "unat ns < 2 ^ 64" using unsigned_less [of ns, where ?'a = nat] by simp
  then have "unat (ns div 1000) < 2 ^ (4 * 14)" by (simp add: unat_div div_less_iff_less_mult)
  from hex_width_le [OF this, of 0] have "hex_width (ns div 1000) 0 \<le> 56" by simp
  moreover have "length (hex_print E us j) \<le> (j + 3) div 4" for us j
  proof (induction E us j rule: hex_print.induct)
    case (1 E us j)
    then have "length (hex_print E us (j - 4)) \<le> (j - 4 + 3) div 4" if "0 < j" using that by simp
    moreover have "Suc ((j - 4 + 3) div 4) \<le> (j + 3) div 4" if "0 < j" using that by presburger
    ultimately show ?case by (subst hex_print.simps) force
  qed
  from this [of "ns div 1000" "hex_width (ns div 1000) 0"] calculation show ?thesis
    unfolding time_to_str_def utime_to_str_def by linarith
qed

section \<open>The names of the connections\<close>

definition svc_id :: "'r svc \<Rightarrow> nat \<times> string \<times> string \<times> bool \<times> bool \<times> u64" where
  "svc_id s = (sv_fd s, sv_session s, sv_gob s, sv_sent_initresp s, sv_sent_rvdconn s, sv_active_ns s)"

fun to_client :: "dm_event \<Rightarrow> bool" where
  "to_client (ToClient fd sub fs) \<longleftrightarrow> True"
| "to_client e \<longleftrightarrow> False"

definition names :: "'r daemon \<Rightarrow> 'r daemon \<Rightarrow> bool" where
  "names dm dm' \<longleftrightarrow> map svc_id (dm_svcs dm') = map svc_id (dm_svcs dm) \<and>
     (\<exists>es. dm_out dm' = dm_out dm @ es \<and> (\<forall>e\<in>set es. \<not> to_client e))"

lemma names_trans: "names a b \<Longrightarrow> names b c \<Longrightarrow> names a c"
  unfolding names_def by fastforce

interpretation nm: frame_rel names
  by unfold_locales (simp add: names_def, rule names_trans)

named_theorems names_rules

lemmas [names_rules] = nm.frefl

lemma names_emit [names_rules]: "names dm d \<Longrightarrow> \<not> to_client e \<Longrightarrow> names dm (dm_emit e d)"
  by (erule names_trans) (simp add: names_def dm_emit_def)

lemma names_upd [names_rules]:
  "names dm d \<Longrightarrow> names dm (upd_hst hi f d)" "names dm d \<Longrightarrow> names dm (upd_rpc ri g d)"
  by (auto elim!: names_trans simp: names_def upd_hst_def upd_rpc_def)

lemma names_upd_svc [names_rules]:
  "names dm d \<Longrightarrow> svc_id (f (dm_svcs d ! k)) = svc_id (dm_svcs d ! k) \<Longrightarrow> names dm (upd_svc k f d)"
  by (erule names_trans) (simp add: names_def upd_svc_def map_upd_same)

lemma names_fold [names_rules]:
  assumes "names dm d" "\<And>x d. names d (f x d)"
  shows "names dm (fold f xs d)"
  using assms(1) by (rule names_trans) (simp add: nm.ffold assms)

lemma names_fwd [names_rules]: "names dm d \<Longrightarrow> names dm (fwd E hi flags a d)"
  by (auto simp: fwd_def Let_def intro!: names_rules)

lemma names_host_start [names_rules]: "names dm d \<Longrightarrow> names dm (send_host_start E hi so d)"
  by (auto simp: send_host_start_def intro!: names_rules)

lemma names_session_start [names_rules]: "names dm d \<Longrightarrow> names dm (send_session_start E hi k d)"
  by (auto simp: send_session_start_def svc_id_def intro!: names_rules)

lemma names_send_start [names_rules]: "names dm d \<Longrightarrow> names dm (send_start E hi k d)"
  by (auto simp: send_start_def Let_def svc_id_def intro!: names_rules)

lemma names_start_client [names_rules]: "names dm d \<Longrightarrow> names dm (start_client E hi k d)"
  by (auto simp: start_client_def Let_def svc_id_def intro!: names_rules)

lemma names_inbox [names_rules]: "names dm d \<Longrightarrow> names dm (start_inbox hi d)"
  by (auto simp: start_inbox_def subscribe_daemon_inbox_def Let_def split: option.splits intro!: names_rules)

lemma names_timers [names_rules]:
  "names dm d \<Longrightarrow> names dm (start_status_timer hi d)" "names dm d \<Longrightarrow> names dm (start_delayed hi n d)"
  by (auto simp: start_status_timer_def start_delayed_def Let_def intro!: names_rules)

lemma names_start_host [names_rules]: "names dm d \<Longrightarrow> names dm (start_host E hi d)"
  by (auto simp: start_host_def start_host2_def reassert_subs_def Let_def intro!: names_rules)

lemma names_count [names_rules]: "names dm d \<Longrightarrow> names dm (count_client k hi d)"
  by (auto simp: count_client_def svc_id_def intro!: names_rules)

lemma names_lists [names_rules]:
  "names dm d \<Longrightarrow> names dm (d\<lparr>dm_rpcs := rs\<rparr>)" "names dm d \<Longrightarrow> names dm (d\<lparr>dm_hosts := hs\<rparr>)"
  by (auto elim!: names_trans simp: names_def)

lemma names_listen_host: "listen_start_host E hi hn dm = (e, dm') \<Longrightarrow> names dm dm'"
  by (auto simp: listen_start_host_def Let_def split: if_splits prod.splits host_error.splits intro!: names_rules)

lemma names_listen_network:
  assumes "listen_start_network E k hn dm = (e, hi, dm')"
  shows "names dm dm'"
proof -
  obtain e0 hi0 hs where s: "start_service E hn (dm_hosts dm) = (e0, hi0, hs)" by (metis prod_cases3)
  let ?d = "upd_svc k (\<lambda>s. s\<lparr>sv_host := Some hi0\<rparr>) (dm\<lparr>dm_hosts := hs\<rparr>)"
  have d: "names dm ?d" by (intro names_rules) (simp add: svc_id_def)
  show ?thesis
  proof (cases "e0 = HOST_OK")
    case True
    obtain e1 d1 where l: "listen_start_host E hi0 hn ?d = (e1, d1)" by fastforce
    then have "dm' = d1" using assms True s by (simp add: listen_start_network_def Let_def)
    then show ?thesis using names_trans [OF d names_listen_host [OF l]] by simp
  next
    case False
    then show ?thesis using assms s d by (auto simp: listen_start_network_def Let_def)
  qed
qed

lemma names_svc: "names dm dm' \<Longrightarrow> k < length (dm_svcs dm) \<Longrightarrow> svc_id (dm_svcs dm' ! k) = svc_id (dm_svcs dm ! k)"
  unfolding names_def by (metis length_map nth_map)

lemma names_length: "names dm dm' \<Longrightarrow> length (dm_svcs dm') = length (dm_svcs dm)"
  unfolding names_def by (metis length_map)

section \<open>One answer of the daemon\<close>

text \<open>The only reply of the daemon between two states.\<close>

definition answers :: "'r daemon \<Rightarrow> 'r daemon \<Rightarrow> nat \<Rightarrow> string \<Rightarrow> (string \<times> adv_val) list \<Rightarrow> bool" where
  "answers dm dm' fd sub fs \<longleftrightarrow>
     filter to_client (dm_out dm') = filter to_client (dm_out dm) @ [ToClient fd sub fs]"

lemma names_clients: "names dm dm' \<Longrightarrow> filter to_client (dm_out dm') = filter to_client (dm_out dm)"
  by (auto simp: names_def filter_empty_conv)

definition init_resp :: "rvd_host \<Rightarrow> string \<Rightarrow> (string \<times> adv_val) list" where
  "init_resp h gob =
     [(''mtype'', AStr ''R''),
      (''ipaddr'', AIp (if mc_fake_ip (rh_mcast h) = 0 then mc_host_ip (rh_mcast h) else mc_fake_ip (rh_mcast h))),
      (''ipport'', APort (rh_service_num h)), (''vmaj'', ANum 5), (''vmin'', ANum 4), (''vupd'', ANum 2),
      (''gob'', AStr gob)]"

definition info_done :: "nat \<Rightarrow> nat \<Rightarrow> host_error \<Rightarrow> 'r daemon \<Rightarrow> 'r daemon" where
  "info_done k hi e d =
     (let d3 = info_reply k hi e d in if e = HOST_OK then upd_svc k (choose_session (dm_hosts d3 ! hi)) d3 else d3)"

lemma respond_info_parts:
  assumes "respond_info E k fs dm = (True, dm')"
  obtains i e hi d where "info_fields E fs (info_of (dm_svcs dm ! k)) = (True, i)"
    "names (upd_svc k (info_put E i) dm) d" "names (info_done k hi e d) dm'"
proof -
  obtain ok i where i: "info_fields E fs (info_of (dm_svcs dm ! k)) = (ok, i)" by fastforce
  let ?hn = "\<lparr>hn_service = if in_service i = [] then ''7500'' else in_service i, hn_network = in_network i,
    hn_ipport = dm_ipport (upd_svc k (info_put E i) dm), hn_prefix = dm_prefix (upd_svc k (info_put E i) dm)\<rparr>"
  obtain e hi d2 where l: "listen_start_network E k ?hn (upd_svc k (info_put E i) dm) = (e, hi, d2)"
    by (metis prod_cases3)
  have same: "dm_ipport (upd_svc k (info_put E i) dm) = dm_ipport dm" "dm_prefix (upd_svc k (info_put E i) dm) = dm_prefix dm"
    by (simp_all add: upd_svc_def)
  have n: "names (upd_svc k (info_put E i) dm) (count_client k hi d2)"
    by (intro names_rules names_listen_network [OF l])
  have ok: "ok" using assms i by (auto simp: respond_info_def Let_def split: if_splits prod.splits)
  have "names (info_done k hi e (count_client k hi d2)) dm'"
    using assms i ok l unfolding respond_info_def info_done_def Let_def same
    by (auto intro!: names_rules)
  with i ok n show thesis by (intro that) simp_all
qed

lemma upd_svc_nth [simp]: "k < length (dm_svcs dm) \<Longrightarrow> dm_svcs (upd_svc k f dm) ! k = f (dm_svcs dm ! k)"
  "length (dm_svcs (upd_svc k f dm)) = length (dm_svcs dm)" "dm_out (upd_svc k f dm) = dm_out dm"
  "dm_hosts (upd_svc k f dm) = dm_hosts dm"
  by (simp_all add: upd_svc_def)

lemma dm_emit_sel [simp]: "dm_svcs (dm_emit e dm) = dm_svcs dm" "dm_out (dm_emit e dm) = dm_out dm @ [e]"
  "dm_hosts (dm_emit e dm) = dm_hosts dm"
  by (simp_all add: dm_emit_def)

text \<open>The first answer gives an address and a name for the connection.\<close>

lemma info_done_first:
  assumes "answers d (info_done k hi e d) fd ''RVD.INITRESP'' fs" "k < length (dm_svcs d)"
    and "svc_id (dm_svcs d ! k) = (fd0, ss, gob, False, False, t)"
  shows "\<exists>h. fs = init_resp h gob" "svc_id (dm_svcs (info_done k hi e d) ! k) = (fd0, ss, gob, True, False, t)"
  using assms by (auto simp: answers_def info_done_def info_reply_def choose_session_def init_resp_def svc_id_def
      Let_def split: if_splits)

text \<open>The second one says which session the daemon takes the client for.\<close>

lemma info_done_second:
  assumes "answers d (info_done k hi e d) fd (INFO_SYSTEM @ ''RVD.CONNECTED'') fs" "k < length (dm_svcs d)"
    and "svc_id (dm_svcs d ! k) = (fd0, ss, gob, True, False, t)"
  shows "sv_session (dm_svcs (info_done k hi e d) ! k) =
    (if length ss > 9 \<and> drop 9 ss = gob then rh_daemon_id (dm_hosts d ! hi) else ss)"
  using assms by (auto simp: answers_def info_done_def info_reply_def choose_session_def svc_id_def INFO_SYSTEM_def
      Let_def split: if_splits)

text \<open>The first answer to a connection that has no session yet.\<close>

lemma respond_first:
  assumes "k < length (dm_svcs dm)" "svc_id (dm_svcs dm ! k) = (fd, [], [], False, False, t)"
    and "info_fields E fs (info_of (dm_svcs dm ! k)) = (True, i)" "in_session i = []"
    and "respond_info E k fs dm = (True, dm1)" "answers dm dm1 fd ''RVD.INITRESP'' r"
  shows "\<exists>h. r = init_resp h (time_to_str E t)" "svc_id (dm_svcs dm1 ! k) = (fd, [], time_to_str E t, True, False, t)"
proof -
  obtain i' e hi d where i': "info_fields E fs (info_of (dm_svcs dm ! k)) = (True, i')"
    and d: "names (upd_svc k (info_put E i') dm) d" and dm1: "names (info_done k hi e d) dm1"
    by (rule respond_info_parts [OF assms(5)])
  have id: "svc_id (dm_svcs d ! k) = (fd, [], time_to_str E t, False, False, t)" and kd: "k < length (dm_svcs d)"
    using names_svc [OF d] names_length [OF d] i' assms(1-4) by (auto simp: svc_id_def info_put_def)
  have "answers d (info_done k hi e d) fd ''RVD.INITRESP'' r"
    using assms(6) names_clients [OF d] names_clients [OF dm1] by (simp add: answers_def)
  note first = info_done_first [OF this kd id]
  have "k < length (dm_svcs (info_done k hi e d))" using kd by (simp add: info_done_def info_reply_def Let_def)
  then show "\<exists>h. r = init_resp h (time_to_str E t)" "svc_id (dm_svcs dm1 ! k) = (fd, [], time_to_str E t, True, False, t)"
    using names_svc [OF dm1] first by simp_all
qed

section \<open>The records of the client\<close>

text \<open>The texts that a client sends fit the buffers of the daemon.\<close>

definition fits :: "'r svc_env \<Rightarrow> client \<Rightarrow> bool" where
  "fits D c \<longleftrightarrow>
     length (rc_userid c) < se_max_userid D \<and> 7 < se_max_userid D \<and> length (rc_session c) + 1 < se_max_session D \<and>
     length (rc_control c) + 1 < 64 \<and>
     (case rc_service c of None \<Rightarrow> True | Some s \<Rightarrow> length s + 1 < MAX_RV_SERVICE_LEN) \<and>
     (case rc_network c of None \<Rightarrow> True | Some s \<Rightarrow> length s + 1 < MAX_RV_NETWORK_LEN)"

lemma match_str_zstr [simp]: "match_str n (IVStr (zstr s)) = (if length s + 1 < n then Some s else None)"
  by (simp add: match_str_def)

definition or_none :: "string option \<Rightarrow> string" where
  "or_none v = (case v of None \<Rightarrow> [] | Some s \<Rightarrow> s)"

text \<open>The daemon reads back the session, the service and the network that a client names.\<close>

lemma init_rec_session:
  assumes "fits D c"
  shows "\<exists>i. info_fields D (as_info (init_rec c)) i0 = (True, i) \<and>
    in_session i = (if rc_session c \<noteq> [] then rc_session c else in_session i0) \<and>
    in_service i = or_none (rc_service c) \<and> in_network i = or_none (rc_network c)"
proof -
  have keep: "nm \<noteq> zstr ''session'' \<Longrightarrow> in_session (info_field_set D nm v i) = in_session i"
    "nm \<noteq> zstr ''service'' \<Longrightarrow> in_service (info_field_set D nm v i) = in_service i"
    "nm \<noteq> zstr ''network'' \<Longrightarrow> in_network (info_field_set D nm v i) = in_network i" for nm v i
    by (auto simp: info_field_set_def split: option.split info_val.split prod.split)
  have set: "in_session (info_field_set D (zstr ''session'') (IVStr (zstr (rc_session c))) i) = rc_session c"
    "in_service (info_field_set D (zstr ''service'') (IVStr (zstr (or_none (rc_service c)))) i) = or_none (rc_service c)"
    "in_network (info_field_set D (zstr ''network'') (IVStr (zstr (or_none (rc_network c)))) i) = or_none (rc_network c)" for i
    using assms by (auto simp: info_field_set_def fits_def or_none_def MAX_RV_SERVICE_LEN_def MAX_RV_NETWORK_LEN_def split: option.splits)
  show ?thesis unfolding init_rec_def or_none_def [symmetric] by (auto simp: keep set)
qed

text \<open>What the client makes of the first answer.\<close>

lemma recv_info_accepts:
  assumes "mi_sub (rc_msg_in c) = ''RVD.INITRESP''"
    and "ce_unpack E (data_bytes (rc_msg_in c)) = Some (as_fields (init_resp h gob))"
    and "length gob \<le> 14"
  shows "\<exists>c1. recv_info E c = (0, c1) \<and> rc_state c1 = C_CONN_RECV \<and>
    rc_session c1 = session_name E (if mc_fake_ip (rh_mcast h) = 0 then mc_host_ip (rh_mcast h) else mc_fake_ip (rh_mcast h))
      0 (rc_start_stamp c) \<and>
    rc_control c1 = cl_inbox E (rc_session c1) 1 \<and> rc_listen c1 = rc_listen c \<and>
    rc_userid c1 = rc_userid c \<and> rc_service c1 = rc_service c \<and> rc_network c1 = rc_network c"
proof -
  let ?ip = "if mc_fake_ip (rh_mcast h) = 0 then mc_host_ip (rh_mcast h) else mc_fake_ip (rh_mcast h)"
  let ?fs = "as_fields (init_resp h gob)"
  have ls: "length (le_list n x) = n" for n x by (simp add: le_list_def)
  have f: "cl_match_field ?fs ''ipaddr'' 4 MD_IPDATA = Some (le_list 4 ?ip)"
    "cl_match_field ?fs ''ipport'' 2 MD_IPDATA = Some (le_list 2 (ucast (rh_service_num h)))"
    "cl_match_field ?fs ''gob'' 16 MD_STRING = Some (map char_byte (zstr gob))"
    "cl_match_field ?fs ''cid'' 2 MD_IPDATA = None"
    using assms(3) by (simp_all add: cl_match_field_def init_resp_def ls)
  show ?thesis
    unfolding recv_info_def Let_def assms(1,2) by (simp add: f over_bytes_all recv_session_def Let_def send_init_rec_def rc_emit_def)
qed

lemma session_tail: "drop 9 (session_name E ip 0 t) = time_to_str (ce_svc E) t"
  "length (session_name E ip 0 t) = 9 + length (time_to_str (ce_svc E) t)"
proof -
  have "length (ip_bytes ip) = 4" by (simp add: ip_bytes_def)
  then have "length (ip4_hex_string (ce_svc E) ip) = 8"
    unfolding ip4_hex_string_def length_concat map_map comp_def by (simp add: sum_list_triv)
  then show "drop 9 (session_name E ip 0 t) = time_to_str (ce_svc E) t"
    "length (session_name E ip 0 t) = 9 + length (time_to_str (ce_svc E) t)"
    by (simp_all add: session_name_def cid_part_def)
qed

text \<open>Without a database of its own the client accepts the second answer.\<close>

lemma recv_conn_plain:
  assumes "mi_sub (rc_msg_in c) = ''_RV.INFO.SYSTEM.RVD.CONNECTED''" "rc_control c \<noteq> []" "rc_listen c = []"
  shows "\<exists>c2. recv_conn E c = Some (0, c2) \<and> rc_state c2 = C_DATA_RECV"
proof -
  let ?c1 = "(rc_emit (Sent (CRec (listen_rec ''L'' (inbox_wild c)))) c)\<lparr>rc_state := C_DATA_RECV\<rparr>"
  let ?c3 = "rc_emit_if (rc_fwd_all_msgs c) (AddPatternRoute (se_prefix_seed (ce_svc E) 0))
    (rc_emit_if (rc_fwd_all_subs c \<and> \<not> rc_cb c) AddRouteNotify ?c1)"
  have l: "rc_listen (fold (\<lambda>s. cl_subscribe s []) ss d) = rc_listen d" for ss d
    by (induction ss arbitrary: d) (simp_all add: cl_subscribe_def queue_send_def rc_emit_def)
  obtain c4 where f: "start_feeds E ?c3 = Some c4"
    using assms(3) by (simp add: start_feeds_def Let_def l rc_emit_if_def rc_emit_def)
  have "rc_state (flush_pending_send c4) = C_DATA_RECV"
    using adds_start_feeds [OF f] flush_facts(1) [of c4]
    by (simp add: adds_def conn_view_def rc_emit_if_def rc_emit_def)
  then show ?thesis using assms(1,2) f unfolding recv_conn_def Let_def by simp
qed

lemma recv_conn_no_write:
  assumes "recv_conn E c = Some (st, c')"
  shows "rc_no_write c' = rc_no_write c"
proof (cases "c' = c")
  case False
  then obtain d where f: "start_feeds E (rc_emit_if (rc_fwd_all_msgs c) (AddPatternRoute (se_prefix_seed (ce_svc E) 0))
      (rc_emit_if (rc_fwd_all_subs c \<and> \<not> rc_cb c) AddRouteNotify
        ((rc_emit (Sent (CRec (listen_rec ''L'' (inbox_wild c)))) c)\<lparr>rc_state := C_DATA_RECV\<rparr>))) = Some d"
    and c': "c' = flush_pending_send d"
    using assms by (auto simp: recv_conn_def Let_def bind_eq_Some_conv split: if_splits)
  show ?thesis using adds_start_feeds [OF f] flush_facts(1) [of d]
    by (simp add: c' adds_def conn_view_def rc_emit_if_def rc_emit_def)
qed simp

end
