(* ===== verification/Cli_Run.thy ===== *)
theory Cli_Run
  imports Cli_Handshake Sub_Properties
begin

text \<open>
  A run of a client from its start to the data state, with a concrete library: a message is eight
  bytes of header, its encoded subject, and its type with a zero byte. The examples of the properties
  use it.
\<close>

section \<open>One message\<close>

lemma process_one:
  assumes "8 \<le> length buf" "unat (se_be32 (ce_svc E) buf) = length buf" "rc_state c \<in> {C_INIT_RECV, C_CONN_RECV, C_DATA_RECV}"
    and "cl_dispatch_msg E buf c = Some (0, c')"
  shows "cl_process E buf c = Some ([], c')"
proof -
  have "data_recv_loop E [] c' = Some (0, [], c')" by (subst data_recv_loop.simps) simp
  then have "data_recv_loop E buf c = Some (0, [], c')"
    using assms(1,2,4) by (subst data_recv_loop.simps) (simp add: Let_def)
  then show ?thesis using assms(3) by (auto simp: cl_process_def)
qed

definition sample_unpack :: "u8 list \<Rightarrow> wire_field option list option" where
  "sample_unpack b =
     Some [Some \<lparr>wf_name = zstr ''sub'', wf_start = 8, wf_end = length b - 2, wf_type = MD_OTHER 0, wf_ptr = 8,
                 wf_size = length b - 10\<rparr>,
           Some \<lparr>wf_name = zstr ''mtype'', wf_start = length b - 2, wf_end = length b, wf_type = MD_STRING,
                 wf_ptr = length b - 2, wf_size = 2\<rparr>]"

definition sample_msg :: "string list \<Rightarrow> u8 \<Rightarrow> u8 list" where
  "sample_msg ss t = (let s = enc_subject (map (map char_byte) ss)
     in [0, 0, 0, of_nat (length s + 10), 0, 0, 0, 0] @ s @ [t, 0])"

lemma byte_char_byte [simp]: "byte_char (char_byte c) = c"
proof -
  have "(of_char c :: nat) < 256" by simp
  then have "unat (of_nat (of_char c) :: u8) = of_char c" by (simp add: unat_of_nat)
  then show ?thesis by (simp add: byte_char_def char_byte_def)
qed

lemma sample_unpack_msg:
  assumes "segs_ok (map (map char_byte) ss)" "join_segs (map (map char_byte) ss) = v" "length v < 64" "valid_mtype t"
  shows "\<exists>m'. msg_unpack sample_unpack (sample_msg ss t) m = (RV_OK, m') \<and> mi_sub m' = v \<and> mi_mtype m' = t \<and> mi_data m' = None"
proof -
  let ?ss = "map (map char_byte) ss" and ?b = "sample_msg ss t"
  have ne: "?ss \<noteq> []" "enc_subject ?ss \<noteq> []" using assms(1) by (auto simp: segs_ok_def enc_subject_def)
  have s: "subject_to_string (enc_subject ?ss) = Subject (v, wild_segs ?ss)"
    using enc_subject_read [OF assms(1)] length_join_segs [OF ne(1)] ne(2) assms(2,3)
    by (simp add: subject_to_string_def Let_def)
  let ?n = "length (enc_subject ?ss)"
  have d: "drop 8 ?b = enc_subject ?ss @ [t, 0]" by (simp add: sample_msg_def Let_def)
  have d2: "drop (8 + ?n) ?b = drop ?n (drop 8 ?b)" by (simp add: add.commute)
  have b: "take ?n (drop 8 ?b) = enc_subject ?ss" "take 2 (drop (8 + ?n) ?b) = [t, 0]" "length ?b = ?n + 10"
    unfolding d2 d by (simp_all add: sample_msg_def Let_def)
  have n: "?n + 10 - 2 = 8 + ?n" "?n + 10 - 10 = ?n" by simp_all
  show ?thesis
    unfolding sample_unpack_def b(3) n
    by (simp add: msg_unpack_def match_field_def field_bytes_def unpack_end_def unpack_init_def assms(4) s b zstr_def)
qed

section \<open>The library of the example\<close>

definition sample_fs :: "(string \<times> adv_val) list" where
  "sample_fs = [(''mtype'', AStr ''R''), (''ipaddr'', AIp 1), (''ipport'', APort 7500), (''vmaj'', ANum 5),
     (''vmin'', ANum 4), (''vupd'', ANum 2), (''gob'', AStr ''1388'')]"

definition sample_cli :: "(unit, sync_val) cl_env" where
  "sample_cli = \<lparr>ce_svc = sample_svc\<lparr>se_hostname := Some ''h'', se_lookup_ip4_mask := (\<lambda>s. (1, 255)),
       se_unpack_rv := sample_unpack\<rparr>,
     ce_sdb = sample_env, ce_unpack = (\<lambda>b. Some (as_fields sample_fs)), ce_query = (\<lambda>w s. []),
     ce_wrap = (\<lambda>b m. m), ce_type_id = (\<lambda>t. 0), ce_cstr = (\<lambda>s. s)\<rparr>"

lemma sample_cli_sel:
  "se_unpack_rv (ce_svc sample_cli) = sample_unpack" "ce_unpack sample_cli b = Some (as_fields sample_fs)"
  "se_be32 (ce_svc sample_cli) b = of_nat (unat (b ! 3))" "se_dec (ce_svc sample_cli) d = [char_of (48 + unat d mod 10)]"
  by (simp_all add: sample_cli_def sample_svc_def)

lemma sample_be32:
  "length (sample_msg ss t) < 256 \<Longrightarrow> unat (se_be32 (ce_svc sample_cli) (sample_msg ss t)) = length (sample_msg ss t)"
proof -
  assume l: "length (sample_msg ss t) < 256"
  have "unat (of_nat k :: u8) = k" "unat (of_nat k :: u32) = k" if "k < 256" for k
    using that by (simp_all add: unat_of_nat)
  moreover have "sample_msg ss t ! 3 = of_nat (length (sample_msg ss t))" by (simp add: sample_msg_def Let_def)
  ultimately show ?thesis using l by (simp only: sample_cli_sel)
qed

section \<open>The run\<close>

text \<open>After the connection and the first two records a subscription is saved.\<close>

definition sample_c0 :: client where
  "sample_c0 = client_new False (0, 0, 0) 9000000 False"

definition sample_c1 :: client where
  "sample_c1 = set_params sample_cli cl_param_new False False
     ((rc_emit (TcpConnect None 7500) (initialize_state sample_cli False sample_c0))\<lparr>rc_fd := Some 3\<rparr>)"

definition sample_c2 :: client where
  "sample_c2 = (send_init_rec ((send_vers sample_c1)\<lparr>rc_state := C_INFO_RECV\<rparr>))\<lparr>rc_state := C_INIT_RECV\<rparr>"

definition sample_c3 :: client where
  "sample_c3 = cl_subscribe ''A'' [] sample_c2"

lemma sample_states:
  "rc_state sample_c1 = C_VERS_RECV" "rc_state sample_c2 = C_INIT_RECV" "rc_state sample_c3 = C_INIT_RECV"
  "rc_no_write sample_c2 = False" "rc_listen sample_c3 = []" "rc_save sample_c3 = [CRec (listen_rec ''L'' ''A'')]"
  "rc_no_write sample_c3 = False"
  by (simp_all add: sample_c1_def sample_c2_def sample_c3_def sample_c0_def set_params_def Let_def cl_param_new_def
      initialize_state_def client_new_def rc_emit_def send_vers_def send_init_rec_def cl_subscribe_def queue_send_def
      strip_nul_end_def NUL_def)

lemma sample_connect: "rv_connect sample_cli cl_param_new False False (Some 3) sample_c0 = Some (True, sample_c1)"
  by (simp add: rv_connect_def parse_daemon_def cl_param_new_def sample_c1_def sample_c0_def client_new_def)

lemma sample_hello: "cl_process sample_cli (replicate 12 0 @ [0, 0, 0, 1] @ replicate 60 0) sample_c1 = Some ([], sample_c2)"
proof -
  let ?v = "(send_vers sample_c1)\<lparr>rc_state := C_INFO_RECV\<rparr>"
  have "init_recv_loop sample_cli [] sample_c2 = Some (0, [], sample_c2)" by (subst init_recv_loop.simps) simp
  then have "init_recv_loop sample_cli ([0, 0, 0, 1] @ replicate 60 0) ?v = Some (0, [], sample_c2)"
    by (subst init_recv_loop.simps) (simp add: sample_c2_def sample_cli_sel)
  then have "init_recv_loop sample_cli (replicate 12 0 @ [0, 0, 0, 1] @ replicate 60 0) sample_c1 = Some (0, [], sample_c2)"
    by (subst init_recv_loop.simps) (simp add: sample_states)
  then show ?thesis by (simp add: cl_process_def sample_states)
qed

lemma sample_reach3: "cl_reach sample_cli sample_c2" "cl_reach sample_cli sample_c3"
proof -
  have "cl_reach sample_cli sample_c0" unfolding sample_c0_def by (rule cr_new)
  from cr_rv_connect [OF this sample_connect] have "cl_reach sample_cli sample_c1" .
  from cr_live [OF this ls_process [OF sample_hello]] show 2: "cl_reach sample_cli sample_c2" .
  show "cl_reach sample_cli sample_c3" unfolding sample_c3_def by (rule cr_live [OF 2 ls_subscribe])
qed

text \<open>The two answers of a daemon.\<close>

lemma sample_steps:
  "\<exists>c. (live_step sample_cli)\<^sup>*\<^sup>* sample_c3 c \<and> rc_state c = C_DATA_RECV \<and> \<not> rc_no_write c"
proof -
  let ?m1 = "sample_msg [''RVD'', ''INITRESP''] 82" and ?m2 = "sample_msg [''_RV'', ''INFO'', ''SYSTEM'', ''RVD'', ''CONNECTED''] 68"
  have l: "length ?m1 < 256" "8 \<le> length ?m1" "length ?m2 < 256" "8 \<le> length ?m2"
    by (simp_all add: sample_msg_def Let_def enc_subject_def enc_seg_def)
  obtain m1 where m1: "msg_unpack sample_unpack ?m1 (rc_msg_in sample_c3) = (RV_OK, m1)" "mi_sub m1 = ''RVD.INITRESP''" "mi_data m1 = None"
    using sample_unpack_msg [of "[''RVD'', ''INITRESP'']" "''RVD.INITRESP''" 82] by (auto simp: segs_ok_def valid_mtype_def)
  let ?h = "(host_new (ce_svc sample_cli) \<lparr>hn_service = ''7500'', hn_network = [], hn_ipport = 0, hn_prefix = False\<rparr>)
    \<lparr>rh_mcast := mcast_zero\<lparr>mc_host_ip := 1\<rparr>, rh_service_num := 7500\<rparr>"
  have fs: "sample_fs = init_resp ?h ''1388''" by (simp add: sample_fs_def init_resp_def mcast_zero_def)
  obtain c4 where c4: "recv_info sample_cli (sample_c3\<lparr>rc_msg_in := m1\<rparr>) = (0, c4)" "rc_state c4 = C_CONN_RECV"
      "rc_control c4 = cl_inbox sample_cli (rc_session c4) 1" "rc_listen c4 = []"
    using recv_info_accepts [of "sample_c3\<lparr>rc_msg_in := m1\<rparr>" sample_cli ?h "''1388''"] m1
    by (auto simp: sample_cli_sel fs sample_states)
  have "cl_dispatch_msg sample_cli ?m1 sample_c3 = Some (0, c4)"
    using c4(1) m1(1) by (simp add: cl_dispatch_msg_def sample_cli_sel sample_states)
  from process_one [OF l(2) sample_be32 [OF l(1)] _ this] have p1: "cl_process sample_cli ?m1 sample_c3 = Some ([], c4)"
    by (simp add: sample_states)
  obtain m2 where m2: "msg_unpack sample_unpack ?m2 (rc_msg_in c4) = (RV_OK, m2)" "mi_sub m2 = ''_RV.INFO.SYSTEM.RVD.CONNECTED''"
    using sample_unpack_msg [of "[''_RV'', ''INFO'', ''SYSTEM'', ''RVD'', ''CONNECTED'']" "''_RV.INFO.SYSTEM.RVD.CONNECTED''" 68]
    by (auto simp: segs_ok_def valid_mtype_def)
  obtain c5 where c5: "recv_conn sample_cli (c4\<lparr>rc_msg_in := m2\<rparr>) = Some (0, c5)" "rc_state c5 = C_DATA_RECV"
    using recv_conn_plain [of "c4\<lparr>rc_msg_in := m2\<rparr>" sample_cli] m2 c4 by (auto simp: make_inbox_def)
  have "cl_dispatch_msg sample_cli ?m2 c4 = Some (0, c5)"
    using c5(1) m2(1) c4(2) by (simp add: cl_dispatch_msg_def sample_cli_sel)
  from process_one [OF l(4) sample_be32 [OF l(3)] _ this] have p2: "cl_process sample_cli ?m2 c4 = Some ([], c5)"
    by (simp add: c4)
  have "rc_no_write c4 = rc_no_write sample_c3"
    using arg_cong [OF c4(1), of "\<lambda>x. rc_no_write (snd x)"]
    by (simp add: recv_info_def Let_def m1 sample_cli_sel recv_session_def send_init_rec_def rc_emit_def split: option.splits)
  moreover have "rc_no_write c5 = rc_no_write c4" using recv_conn_no_write [OF c5(1)] by simp
  ultimately show ?thesis
    using c5(2) sample_states(7) ls_process [OF p1] ls_process [OF p2]
    by (intro exI [of _ c5]) (auto intro: rtranclp.rtrancl_into_rtrancl)
qed

section \<open>The daemon of the example\<close>

text \<open>What the daemon answers when the network of the service runs.\<close>

lemma respond_answers:
  assumes k: "k < length (dm_svcs dm)" and i: "info_fields E fs (info_of (dm_svcs dm ! k)) = (True, i)"
    and l: "listen_start_network E k \<lparr>hn_service = if in_service i = [] then ''7500'' else in_service i,
        hn_network = in_network i, hn_ipport = dm_ipport dm, hn_prefix = dm_prefix dm\<rparr>
        (upd_svc k (info_put E i) dm) = (HOST_OK, hi, d)"
  shows "\<exists>dm' h vs. respond_info E k fs dm = (True, dm') \<and>
    (if sv_sent_initresp (dm_svcs dm ! k) then answers dm dm' (sv_fd (dm_svcs dm ! k)) (INFO_SYSTEM @ ''RVD.CONNECTED'') vs
     else answers dm dm' (sv_fd (dm_svcs dm ! k)) ''RVD.INITRESP''
       (init_resp (dm_hosts (count_client k hi d) ! hi) (sv_gob (info_put E i (dm_svcs dm ! k)))))"
proof -
  let ?c = "count_client k hi d"
  have n: "names (upd_svc k (info_put E i) dm) ?c" by (intro names_rules names_listen_network [OF l])
  have id: "svc_id (dm_svcs ?c ! k) = svc_id (info_put E i (dm_svcs dm ! k))" and kc: "k < length (dm_svcs ?c)"
    using names_svc [OF n] names_length [OF n] k by simp_all
  have p: "dm_ipport (upd_svc k (info_put E i) dm) = dm_ipport dm" "dm_prefix (upd_svc k (info_put E i) dm) = dm_prefix dm"
    by (simp_all add: upd_svc_def)
  have "\<exists>dm'. respond_info E k fs dm = (True, dm') \<and> names (info_done k hi HOST_OK ?c) dm'"
    unfolding respond_info_def i prod.case Let_def p l info_done_def by (auto intro: names_rules)
  then obtain dm' where r: "respond_info E k fs dm = (True, dm')" and dm': "names (info_done k hi HOST_OK ?c) dm'" by blast
  have "filter to_client (dm_out dm') = filter to_client (dm_out (info_done k hi HOST_OK ?c))"
    "filter to_client (dm_out ?c) = filter to_client (dm_out dm)"
    using names_clients [OF dm'] names_clients [OF n] by simp_all
  then show ?thesis using r id kc
    by (auto simp: answers_def info_done_def info_reply_def Let_def init_resp_def svc_id_def info_put_def)
qed

definition sample_hn :: host_net where
  "sample_hn = \<lparr>hn_service = ''7500'', hn_network = [], hn_ipport = 0, hn_prefix = False\<rparr>"

definition sample_host_run :: rvd_host where
  "sample_host_run = (host_new (ce_svc sample_cli) sample_hn)\<lparr>rh_mcast := mcast_zero\<lparr>mc_host_ip := 1\<rparr>,
     rh_service_num := 7500, rh_network_started := True\<rparr>"

text \<open>A daemon with a running host and one connection.\<close>

definition sample_dm :: "unit svc \<Rightarrow> unit daemon" where
  "sample_dm s = \<lparr>dm_hosts = [sample_host_run], dm_rpcs = [], dm_svcs = [s], dm_others = (\<lambda>_. []), dm_now = 5000000,
     dm_quit = False, dm_ipport = 0, dm_prefix = False, dm_notify = False, dm_flow = RV_FLOW_GOOD, dm_out = []\<rparr>"

lemma sample_network:
  "listen_start_network (ce_svc sample_cli) 0 sample_hn (upd_svc 0 f (sample_dm s)) =
     (HOST_OK, 0, upd_svc 0 (\<lambda>s. s\<lparr>sv_host := Some 0\<rparr>) (upd_svc 0 f (sample_dm s)))"
  by (simp add: listen_start_network_def start_service_def get_service_def upd_svc_def sample_dm_def sample_hn_def
      sample_host_run_def host_new_def listen_start_host_def is_same_network_def mcast_zero_def)

lemma sample_gob: "time_to_str (ce_svc sample_cli) 5000000 = ''1388''" "time_to_str (ce_svc sample_cli) 9000000 = ''2328''"
  by code_simp+

end
