(* ===== verification/Cli_Mirror.thy ===== *)
theory Cli_Mirror
  imports Cli_Flow
begin

text \<open>
  A connected client mirrors the subscriptions of the router at the daemon: of the subjects that the
  router has, those that pass the client's prefix and filter are listened to. The router is the
  specification: it counts the subscriptions of each subject and notifies the client.
\<close>

section \<open>The router\<close>




section \<open>The daemon's view\<close>









section \<open>One notification\<close>






section \<open>All notifications\<close>





end
