(* ===== verification/Cli_Properties.thy ===== *)
theory Cli_Properties
  imports Cli_Run Cli_Mirror
begin

text \<open>
  What a client connection guarantees: it hears the replies to its inboxes, it loses no message while
  it connects, it agrees with the daemon on its session; and the cases in which its forwarding of
  subscriptions goes wrong.
\<close>

section \<open>Inboxes\<close>

lemma match_rest:
  assumes "d \<noteq> []"
  shows "(if p = [] then st else last p = dot) \<Longrightarrow> match_suffix st (p @ [gtc]) (p @ d)"
proof (induction p arbitrary: st)
  case Nil
  then show ?case using assms by (cases d) simp_all
next
  case (Cons x p)
  have IH: "match_suffix (x = dot) (p @ [gtc]) (p @ d)" using Cons.IH [of "x = dot"] Cons.prems by (cases "p = []") simp_all
  show ?case
  proof (cases "x = star \<and> st \<and> (p @ [gtc] = [] \<or> hd (p @ [gtc]) = dot)")
    case True
    then obtain q where q: "p = dot # q" using Cons.prems by (cases p) auto
    then have "match_suffix False (p @ [gtc]) (p @ d)" using IH True by simp
    then show ?thesis using True q by simp
  next
    case False
    then show ?thesis using IH by auto
  qed
qed

lemma match_inbox:
  assumes "length (dec 1) = 1" "dec n \<noteq> []"
  shows "match_rv_wildcard (butlast (make_inbox dec session 1) @ ''>'') (make_inbox dec session n)"
proof -
  let ?p = "''_INBOX.'' @ session @ (if length session > 0 then [dot] else [])"
  obtain a where "dec 1 = [a]" using assms(1) by (cases "dec 1") auto
  then have b: "butlast (make_inbox dec session 1) = ?p" by (simp add: make_inbox_def butlast_append)
  have m: "make_inbox dec session n = ?p @ dec n" by (simp add: make_inbox_def)
  have "match_suffix True (?p @ [gtc]) (?p @ dec n)" using assms(2) by (intro match_rest) auto
  then show ?thesis
    unfolding match_rv_wildcard_def b m using match_loop_suffix [of 0 "?p @ [gtc]" 0 "?p @ dec n"]
    by (simp add: at_start_def)
qed

text \<open>
  C14: Once data flows, a client that writes has subscribed to a wildcard that matches every inbox that
  it makes, and it reads the number of the inbox back from a reply.
\<close>

theorem client_hears_replies:
  assumes "cl_reach E c" "rc_state c = C_DATA_RECV" "\<not> rc_no_write c"
    and "length (se_dec (ce_svc E) 1) = 1" "se_dec (ce_svc E) n \<noteq> []" "is_digit (hd (se_dec (ce_svc E) n))"
    and "of_string (se_dec (ce_svc E) n) = ucast n"
  shows "\<exists>w. Sent (CRec (listen_rec ''L'' w)) \<in> set (rc_out c) \<and>
    match_rv_wildcard w (cl_inbox E (rc_session c) n) \<and>
    is_inbox of_string (rc_control c) (cl_inbox E (rc_session c) n) = ucast n"
proof -
  have ok: "rc_control c = cl_inbox E (rc_session c) 1"
    "Sent (CRec (listen_rec ''L'' (inbox_wild c))) \<in> set (rc_out c)"
    using reach_ok [OF assms(1)] assms(2,3) by (auto simp: cl_ok_def)
  then show ?thesis
    using match_inbox [OF assms(4,5), of "rc_session c"] inbox_round_trip [where to_string = "se_dec (ce_svc E)" and of_string = of_string and num = n, OF assms(4-7)]
    by (auto simp: inbox_wild_def intro!: exI [of _ "inbox_wild c"])
qed

theorem client_hears_replies_witness:
  "\<exists>(c :: client) w. rc_state c = C_DATA_RECV \<and> Sent (CRec (listen_rec ''L'' w)) \<in> set (rc_out c) \<and>
     match_rv_wildcard w (cl_inbox sample_cli (rc_session c) 7) \<and>
     is_inbox (\<lambda>s. 7) (rc_control c) (cl_inbox sample_cli (rc_session c) 7) = 7"
proof -
  obtain c where c: "(live_step sample_cli)\<^sup>*\<^sup>* sample_c3 c" "rc_state c = C_DATA_RECV" "\<not> rc_no_write c"
    using sample_steps by blast
  have r: "cl_reach sample_cli c" by (rule live_steps_reach [OF sample_reach3(2) c(1)])
  have d: "is_digit (hd (se_dec (ce_svc sample_cli) 7))" "length (se_dec (ce_svc sample_cli) 1) = 1"
    "se_dec (ce_svc sample_cli) 7 \<noteq> []" by code_simp+
  show ?thesis using client_hears_replies [OF r c(2,3) d(2,3,1), of "\<lambda>s. 7"] c(2) by auto
qed

text \<open>
  C12: Messages that are handed to a client while it connects are not lost: when data flows, all of them
  have been sent, in the order in which they were handed over, along with those sent before.
\<close>

theorem saved_messages_sent:
  assumes "cl_reach E c" "(live_step E)\<^sup>*\<^sup>* c c'" "rc_state c' = C_DATA_RECV"
  shows "subseq (sents c @ rc_save c) (sents c')"
proof -
  have g: "good E c c'" by (rule live_steps_good [OF assms(2)])
  then have "rc_save c' = []" using reach_ok [OF assms(1)] assms(3) by (auto simp: good_def cl_ok_def)
  then show ?thesis using g by (simp add: good_def in_order_def handed_def)
qed

theorem saved_messages_sent_witness:
  "\<exists>c' :: client. rc_state c' = C_DATA_RECV \<and> CRec (listen_rec ''L'' ''A'') \<in> set (sents c')"
proof -
  obtain c where c: "(live_step sample_cli)\<^sup>*\<^sup>* sample_c3 c" "rc_state c = C_DATA_RECV"
    using sample_steps by blast
  from saved_messages_sent [OF sample_reach3(2) c] have "set (rc_save sample_c3) \<subseteq> set (sents c)"
    by (auto elim: list_emb_set)
  then show ?thesis using c(2) by (auto simp: sample_states)
qed

text \<open>
  C11: A client and a daemon that answers both of its information messages agree: the client accepts the
  address, ends in the data state, and the daemon knows it by the name that it made for itself, unless
  the two started in the same microsecond.
\<close>

theorem handshake_agrees:
  assumes fresh: "k < length (dm_svcs dm)" "dm_svcs dm ! k = svc_init fd now"
    and init: "rc_session c = []" "rc_listen c = []" "fits (ce_svc E) c"
    and one: "respond_info (ce_svc E) k (as_info (init_rec c)) dm = (True, dm1)"
      "answers dm dm1 fd ''RVD.INITRESP'' fs"
    and got: "mi_sub m1 = ''RVD.INITRESP''" "ce_unpack E (data_bytes m1) = Some (as_fields fs)"
      "recv_info E (c\<lparr>rc_msg_in := m1\<rparr>) = (st, c1)" "fits (ce_svc E) c1"
    and other: "k < length (dm_svcs dm2)" "dm_svcs dm2 ! k = dm_svcs dm1 ! k"
    and two: "respond_info (ce_svc E) k (as_info (init_rec c1)) dm2 = (True, dm3)"
      "answers dm2 dm3 fd (INFO_SYSTEM @ ''RVD.CONNECTED'') fs2"
    and conn: "mi_sub m2 = ''_RV.INFO.SYSTEM.RVD.CONNECTED''"
  shows "st = 0 \<and> rc_state c1 = C_CONN_RECV \<and>
    (\<exists>c2. recv_conn E (c1\<lparr>rc_msg_in := m2\<rparr>) = Some (0, c2) \<and> rc_state c2 = C_DATA_RECV) \<and>
    (time_to_str (ce_svc E) (rc_start_stamp c) \<noteq> time_to_str (ce_svc E) now \<longrightarrow>
       sv_session (dm_svcs dm3 ! k) = rc_session c1)"
proof -
  let ?D = "ce_svc E"
  have svc: "svc_id (dm_svcs dm ! k) = (fd, [], [], False, False, now)"
    by (simp add: fresh(2) svc_id_def svc_init_def)
  obtain i where i: "info_fields ?D (as_info (init_rec c)) (info_of (dm_svcs dm ! k)) = (True, i)" "in_session i = []"
    using init_rec_session [OF init(3), of "info_of (dm_svcs dm ! k)"] init(1) fresh(2)
    by (auto simp: info_of_def svc_init_def)
  note first = respond_first [OF fresh(1) svc i one]
  then obtain h where h: "fs = init_resp h (time_to_str ?D now)" by blast
  have "mi_sub (rc_msg_in (c\<lparr>rc_msg_in := m1\<rparr>)) = ''RVD.INITRESP''"
    "ce_unpack E (data_bytes (rc_msg_in (c\<lparr>rc_msg_in := m1\<rparr>))) = Some (as_fields (init_resp h (time_to_str ?D now)))"
    using got(1,2) h by simp_all
  note acc = recv_info_accepts [OF this length_time]
  define ip where "ip = (if mc_fake_ip (rh_mcast h) = 0 then mc_host_ip (rh_mcast h) else mc_fake_ip (rh_mcast h))"
  have c1: "st = 0" "rc_state c1 = C_CONN_RECV" "rc_session c1 = session_name E ip 0 (rc_start_stamp c)"
    "rc_control c1 = cl_inbox E (rc_session c1) 1" "rc_listen c1 = []"
    using acc got(3) init(2) by (auto simp: ip_def)
  have s1: "svc_id (dm_svcs dm2 ! k) = (fd, [], time_to_str ?D now, True, False, now)"
    using first(2) other(2) by simp
  obtain i2 e2 hi2 d2 where i2: "info_fields ?D (as_info (init_rec c1)) (info_of (dm_svcs dm2 ! k)) = (True, i2)"
    and d2: "names (upd_svc k (info_put ?D i2) dm2) d2" and dm3: "names (info_done k hi2 e2 d2) dm3"
    by (rule respond_info_parts [OF two(1)])
  have ss: "rc_session c1 \<noteq> []" using session_tail(2) [of E ip "rc_start_stamp c"] by (auto simp: c1(3))
  have "in_session i2 = rc_session c1"
    using init_rec_session [OF got(4), of "info_of (dm_svcs dm2 ! k)"] i2 ss by simp
  then have id2: "svc_id (dm_svcs d2 ! k) = (fd, rc_session c1, time_to_str ?D now, True, False, now)"
    and kd2: "k < length (dm_svcs d2)"
    using names_svc [OF d2] names_length [OF d2] other(1) s1 by (auto simp: svc_id_def info_put_def)
  have kd3: "k < length (dm_svcs (info_done k hi2 e2 d2))"
    using kd2 by (simp add: info_done_def info_reply_def Let_def)
  have "answers d2 (info_done k hi2 e2 d2) fd (INFO_SYSTEM @ ''RVD.CONNECTED'') fs2"
    using two(2) names_clients [OF d2] names_clients [OF dm3] by (simp add: answers_def)
  note second = info_done_second [OF this kd2 id2]
  have "sv_session (dm_svcs dm3 ! k) = sv_session (dm_svcs (info_done k hi2 e2 d2) ! k)"
    using names_svc [OF dm3 kd3] by (simp add: svc_id_def)
  then have agree: "time_to_str ?D (rc_start_stamp c) \<noteq> time_to_str ?D now \<longrightarrow> sv_session (dm_svcs dm3 ! k) = rc_session c1"
    using second session_tail [of E ip "rc_start_stamp c"] by (simp add: c1(3))
  show ?thesis using c1(1,2) agree recv_conn_plain [of "c1\<lparr>rc_msg_in := m2\<rparr>" E] conn c1(4,5)
    by (simp add: make_inbox_def)
qed

theorem handshake_agrees_witness:
  "\<exists>dm1 c1 dm3. answers (sample_dm (svc_init 5 5000000)) dm1 5 ''RVD.INITRESP'' sample_fs \<and>
     recv_info sample_cli (sample_c2\<lparr>rc_msg_in := msg_in_init\<lparr>mi_sub := ''RVD.INITRESP''\<rparr>\<rparr>) = (0, c1) \<and>
     respond_info (ce_svc sample_cli) 0 (as_info (init_rec c1)) (sample_dm (dm_svcs dm1 ! 0)) = (True, dm3) \<and>
     sv_session (dm_svcs dm3 ! 0) = rc_session c1"
proof -
  let ?D = "ce_svc sample_cli" and ?m1 = "msg_in_init\<lparr>mi_sub := ''RVD.INITRESP''\<rparr>"
  have f2: "fits ?D sample_c2" and sv: "rc_service sample_c2 = Some ''7500''" "rc_network sample_c2 = None" "rc_session sample_c2 = []"
    "rc_listen sample_c2 = []" "rc_userid sample_c2 = []" "rc_start_stamp sample_c2 = 9000000"
    by (simp_all add: fits_def sample_c2_def sample_c1_def sample_c0_def set_params_def Let_def cl_param_new_def
        initialize_state_def client_new_def rc_emit_def send_vers_def send_init_rec_def sample_cli_def sample_svc_def
        cut_service_def MAX_RV_SERVICE_LEN_def)
  have hn: "\<lparr>hn_service = if in_service i = [] then ''7500'' else in_service i, hn_network = in_network i,
      hn_ipport = dm_ipport (sample_dm s), hn_prefix = dm_prefix (sample_dm s)\<rparr> = sample_hn"
    if "in_service i = ''7500''" "in_network i = []" for i s using that by (simp add: sample_hn_def sample_dm_def)
  obtain i where i: "info_fields ?D (as_info (init_rec sample_c2)) (info_of (dm_svcs (sample_dm (svc_init 5 5000000)) ! 0)) = (True, i)"
    "in_service i = ''7500''" "in_network i = []" "in_session i = []"
    using init_rec_session [OF f2, of "info_of (dm_svcs (sample_dm (svc_init 5 5000000)) ! 0)"] sv
    by (auto simp: or_none_def info_of_def sample_dm_def svc_init_def)
  have fs: "init_resp (dm_hosts (count_client 0 0 (upd_svc 0 g (upd_svc 0 f (sample_dm s)))) ! 0) ''1388'' = sample_fs" for f g s
    by (simp add: init_resp_def sample_fs_def count_client_def upd_svc_def upd_hst_def sample_dm_def sample_host_run_def mcast_zero_def)
  have s0: "0 < length (dm_svcs (sample_dm s))" "dm_svcs (sample_dm s) ! 0 = s" for s by (simp_all add: sample_dm_def)
  obtain dm1 where one: "respond_info ?D 0 (as_info (init_rec sample_c2)) (sample_dm (svc_init 5 5000000)) = (True, dm1)"
    "answers (sample_dm (svc_init 5 5000000)) dm1 5 ''RVD.INITRESP'' sample_fs"
    using respond_answers [OF s0(1) i(1)] hn [OF i(2,3)] sample_network [of "info_put ?D i" "svc_init 5 5000000"]
    by (auto simp: s0 svc_init_def info_put_def sample_gob fs)
  obtain c1 where c1: "recv_info sample_cli (sample_c2\<lparr>rc_msg_in := ?m1\<rparr>) = (0, c1)"
    "rc_session c1 = session_name sample_cli 1 0 9000000" "rc_control c1 = cl_inbox sample_cli (rc_session c1) 1"
    "rc_userid c1 = []" "rc_service c1 = Some ''7500''" "rc_network c1 = None"
    using recv_info_accepts [of "sample_c2\<lparr>rc_msg_in := ?m1\<rparr>" sample_cli sample_host_run "''1388''"]
    by (auto simp: sample_cli_sel sv init_resp_def sample_fs_def sample_host_run_def mcast_zero_def)
  have l1: "length (rc_session c1) = 13" using session_tail(2) [of sample_cli 1 9000000] by (simp add: c1(2) sample_gob)
  have f1: "fits ?D c1"
    using f2 l1 by (simp add: fits_def c1(3-6) sv sample_cli_sel make_inbox_def) (simp add: sample_cli_def sample_svc_def)
  let ?dm2 = "sample_dm (dm_svcs dm1 ! 0)"
  obtain i2 where i2: "info_fields ?D (as_info (init_rec c1)) (info_of (dm_svcs ?dm2 ! 0)) = (True, i2)"
    "in_service i2 = ''7500''" "in_network i2 = []"
    using init_rec_session [OF f1, of "info_of (dm_svcs (sample_dm (dm_svcs dm1 ! 0)) ! 0)"] c1(5,6)
    by (auto simp: or_none_def)
  have sent: "sv_sent_initresp (dm_svcs dm1 ! 0)" "sv_fd (dm_svcs dm1 ! 0) = 5"
    using respond_first(2) [OF s0(1) _ i(1,4) one] by (auto simp: s0 svc_init_def svc_id_def)
  obtain dm3 fs2 where two: "respond_info ?D 0 (as_info (init_rec c1)) ?dm2 = (True, dm3)"
    "answers ?dm2 dm3 5 (INFO_SYSTEM @ ''RVD.CONNECTED'') fs2"
    using respond_answers [OF s0(1) i2(1)] hn [OF i2(2,3)] sample_network [of "info_put ?D i2" "dm_svcs dm1 ! 0"] sent
    by (auto simp: s0)
  have "sv_session (dm_svcs dm3 ! 0) = rc_session c1"
    using handshake_agrees [OF s0 sv(3,4) f2 one _ _ c1(1) f1 s0 two,
        of "msg_in_init\<lparr>mi_sub := ''_RV.INFO.SYSTEM.RVD.CONNECTED''\<rparr>"]
    by (simp add: sample_cli_sel sv sample_gob)
  then show ?thesis using one(2) c1(1) two(1) by blast
qed

end
