(* ===== verification/Api_Transport.thy ===== *)
theory Api_Transport
  imports Cli_Client
begin

text \<open>
  The transports of the second programming interface, \<open>Tibrv_API\<close> and \<open>api_Transport\<close>
  (\<open>include/sassrv/rv7cpp.h\<close>, \<open>src/rv7_api.cpp\<close>): the table of listeners, the delivery of messages to
  their queues, requests, inboxes, batches of messages to send, and the reconnection to the daemon.

  The registry of objects, the queues, the timers and the thread that runs the event loop belong to the
  library raikv. The registry is a map from ids to objects, and the id of a new object is an argument. A
  message that a queue gets is an event. Every operation runs under the mutex of its transport, so it
  is one step here; an operation that waits is cut where it waits. \<open>None\<close> is a fault: a null pointer, memory
  that has been freed, or a read outside of a string.
\<close>

unbundle bit_operations_syntax

section \<open>Listeners\<close>

record listener =
  ls_id :: u32
  ls_subject :: string
  ls_len :: u16
  ls_wild :: u16
  ls_hash :: u32
  ls_queue :: u32
  ls_tport :: u32
  ls_is_state :: bool

definition ls_text :: "listener \<Rightarrow> string" where
  "ls_text l = take (unat (ls_len l)) (ls_subject l)"

text \<open>
  \<open>api_Listener_ht\<close>: the buckets, none while \<open>ht\<close> is a null pointer, and the count. The mask is one
  less than the number of buckets.
\<close>

record listener_ht =
  lh_buckets :: "listener list list"
  lh_count :: nat

definition lh_mask :: "listener_ht \<Rightarrow> nat" where
  "lh_mask t = length (lh_buckets t) - 1"

definition lh_index :: "u32 \<Rightarrow> listener_ht \<Rightarrow> nat" where
  "lh_index h t = unat h AND lh_mask t"

definition lh_bucket :: "u32 \<Rightarrow> listener_ht \<Rightarrow> listener list" where
  "lh_bucket h t = lh_buckets t ! lh_index h t"

definition lh_init :: "nat \<Rightarrow> listener_ht" where
  "lh_init sz = \<lparr>lh_buckets = replicate sz [], lh_count = 0\<rparr>"

definition lh_put :: "listener \<Rightarrow> listener_ht \<Rightarrow> listener_ht" where
  "lh_put l t =
     (let i = lh_index (ls_hash l) t
      in t\<lparr>lh_buckets := (lh_buckets t)[i := lh_buckets t ! i @ [l]], lh_count := lh_count t + 1\<rparr>)"

text \<open>
  \<open>push\<close> of several listeners in turn. A full table is first replaced by one of twice the size, into
  which \<open>resize\<close> pushes the old listeners, bucket after bucket.
\<close>

partial_function (option) lh_push_all :: "listener list \<Rightarrow> listener_ht \<Rightarrow> listener_ht option" where
  "lh_push_all ls t =
     (case ls of
        [] \<Rightarrow> Some t
      | l # ls' \<Rightarrow> do {
          t1 \<leftarrow> (if lh_count t \<ge> lh_mask t
                then lh_push_all (concat (lh_buckets t))
                       (lh_init (if lh_buckets t = [] then 16 else 2 * length (lh_buckets t)))
                else Some t);
          lh_push_all ls' (lh_put l t1)
        })"

declare lh_push_all.simps [code]

definition lh_push :: "listener \<Rightarrow> listener_ht \<Rightarrow> listener_ht option" where
  "lh_push l t = lh_push_all [l] t"

text \<open>The bucket must hold the listener that is unlinked.\<close>

definition lh_remove :: "listener \<Rightarrow> listener_ht \<Rightarrow> listener_ht option" where
  "lh_remove l t =
     (let i = lh_index (ls_hash l) t
      in if i < length (lh_buckets t) \<and> ls_id l \<in> ls_id ` set (lh_buckets t ! i)
         then Some (t\<lparr>lh_buckets := (lh_buckets t)[i := filter (\<lambda>x. ls_id x \<noteq> ls_id l) (lh_buckets t ! i)],
                      lh_count := lh_count t - 1\<rparr>)
         else None)"

text \<open>The lengths of the prefixes of the wildcards, each with the number of its listeners.\<close>

definition tp_add_wildcard :: "u16 \<Rightarrow> (u32 \<times> u32) list \<Rightarrow> (u32 \<times> u32) list" where
  "tp_add_wildcard pref w =
     (if map_of w (ucast pref) \<noteq> None
      then map (\<lambda>(p, n). (p, if p = ucast pref then n + 1 else n)) w
      else w @ [(ucast pref, 1)])"

definition tp_remove_wildcard :: "u16 \<Rightarrow> (u32 \<times> u32) list \<Rightarrow> (u32 \<times> u32) list" where
  "tp_remove_wildcard pref w =
     (case map_of w (ucast pref) of
        None \<Rightarrow> w
      | Some n \<Rightarrow> if n = 1 then filter (\<lambda>(p, n). p \<noteq> ucast pref) w
                  else map (\<lambda>(p, n). (p, if p = ucast pref then n - 1 else n)) w)"

section \<open>State\<close>

text \<open>A message of the interface: its subject, its reply and its bytes (\<open>get_as_bytes\<close>).\<close>

record api_msg =
  am_subject :: string
  am_reply :: string
  am_data :: "u8 list"

text \<open>A pending request, known by its place on the stack of the thread that waits.\<close>

record api_rpc =
  rq_key :: nat
  rq_subject :: string
  rq_hash :: u32
  rq_reply :: "api_msg option"

text \<open>An accumulator of messages to send, known by its address.\<close>

record send_ctx =
  sc_tport :: u32
  sc_pubs :: "ev_pub list"
  sc_cap :: u32
  sc_bytes :: u32

datatype batch_mode = DEFAULT_BATCH | TIMER_BATCH | SINGLE_BATCH

record tport =
  tp_client :: client
  tp_ht :: listener_ht
  tp_rpcs :: "api_rpc list"
  tp_wild :: "(u32 \<times> u32) list"
  tp_inbox_count :: u32
  tp_wait_limit :: u32
  tp_batch_size :: u32
  tp_batch_mode :: batch_mode
  tp_descr :: "string option"
  tp_writers :: "nat list"
  tp_sb_fill :: "nat option"
  tp_sb_spare :: "nat option"
  tp_batch_ival :: int
  tp_state_listener :: "listener option"
  tp_connect_ticks :: u32
  tp_sb_pending :: bool
  tp_sb_timer_active :: bool
  tp_dispatch_flush :: bool
  tp_timer_armed :: bool
  tp_is_destroyed :: bool
  tp_session :: string
  tp_args :: "string option \<times> string option \<times> string option"

text \<open>The properties of a queue that the interface reads and writes.\<close>

record api_queue =
  aq_done :: bool
  aq_priority :: u32
  aq_policy :: nat
  aq_max_ev :: u32
  aq_discard :: u32
  aq_name :: "string option"
  aq_hook :: "nat option"
  aq_group :: "u32 option"

datatype api_obj =
  OQueue api_queue
| OListener listener
| OTimer u32
| OTransport tport
| OGroup
| ODispatcher

datatype api_event =
  Delivered u32 u32 api_msg
| Forwarded u32 ev_pub
| TpAddSub u32 string u32
| TpDelSub u32 string u32
| TpAddPat u32 string u32
| TpDelPat u32 string u32
| AddReconnectTimer u32
| RemoveReconnectTimer u32
| AddBatchTimer u32 int
| RemoveBatchTimer u32
| TpPushClose u32
| GroupUpdate u32
| OnComplete u32

record api =
  ap_objs :: "u32 \<Rightarrow> api_obj option"
  ap_ctx :: "nat \<Rightarrow> send_ctx option"
  ap_next :: nat
  ap_tls :: "nat \<Rightarrow> nat list"
  ap_dirty :: "nat \<Rightarrow> u32 list"
  ap_out :: "api_event list"

text \<open>
  What the interface takes from the libraries, with those of the client: the reading of a decimal number and the bytes
  of a message of text fields.
\<close>

record ('r, 'f) api_env =
  ae_cl :: "('r, 'f) cl_env"
  ae_string_u64 :: "string \<Rightarrow> u64"
  ae_text_msg :: "(string \<times> string) list \<Rightarrow> u8 list"

datatype tibrv_status =
  TIBRV_OK | TIBRV_INVALID_QUEUE | TIBRV_INVALID_TRANSPORT | TIBRV_INVALID_SUBJECT | TIBRV_INVALID_EVENT
| TIBRV_NOT_FOUND | TIBRV_DAEMON_NOT_CONNECTED

definition TIBRV_PROCESS_TRANSPORT :: u32 where
  "TIBRV_PROCESS_TRANSPORT = 10"

abbreviation ae_crc :: "('r, 'f) api_env \<Rightarrow> string \<Rightarrow> u32 \<Rightarrow> u32" where
  "ae_crc E \<equiv> se_crc (ce_svc (ae_cl E))"

definition get_queue :: "u32 \<Rightarrow> api \<Rightarrow> api_queue option" where
  "get_queue q s = (case ap_objs s q of Some (OQueue x) \<Rightarrow> Some x | _ \<Rightarrow> None)"

definition get_tport :: "u32 \<Rightarrow> api \<Rightarrow> tport option" where
  "get_tport k s = (case ap_objs s k of Some (OTransport t) \<Rightarrow> Some t | _ \<Rightarrow> None)"

definition get_listener :: "u32 \<Rightarrow> api \<Rightarrow> listener option" where
  "get_listener i s = (case ap_objs s i of Some (OListener l) \<Rightarrow> Some l | _ \<Rightarrow> None)"

definition put_obj :: "u32 \<Rightarrow> api_obj option \<Rightarrow> api \<Rightarrow> api" where
  "put_obj i x s = s\<lparr>ap_objs := (ap_objs s)(i := x)\<rparr>"

definition put_tport :: "u32 \<Rightarrow> tport \<Rightarrow> api \<Rightarrow> api" where
  "put_tport k t s = put_obj k (Some (OTransport t)) s"

definition ap_emit :: "api_event \<Rightarrow> api \<Rightarrow> api" where
  "ap_emit e s = s\<lparr>ap_out := ap_out s @ [e]\<rparr>"

text \<open>An operation on a transport that the registry knows; the others answer with an error.\<close>

definition on_tport :: "u32 \<Rightarrow> (tport \<Rightarrow> tport) \<Rightarrow> api \<Rightarrow> tibrv_status \<times> api" where
  "on_tport k f s =
     (case get_tport k s of None \<Rightarrow> (TIBRV_INVALID_TRANSPORT, s) | Some t \<Rightarrow> (TIBRV_OK, put_tport k (f t) s))"

definition on_queue :: "u32 \<Rightarrow> (api_queue \<Rightarrow> api_queue) \<Rightarrow> api \<Rightarrow> tibrv_status \<times> api" where
  "on_queue q f s =
     (case get_queue q s of
        None \<Rightarrow> (TIBRV_INVALID_QUEUE, s)
      | Some x \<Rightarrow> if aq_done x then (TIBRV_INVALID_QUEUE, s) else (TIBRV_OK, put_obj q (Some (OQueue (f x))) s))"

definition tport_new :: "client \<Rightarrow> tport" where
  "tport_new c =
     \<lparr>tp_client = c, tp_ht = \<lparr>lh_buckets = [], lh_count = 0\<rparr>, tp_rpcs = [], tp_wild = [], tp_inbox_count = 1,
      tp_wait_limit = 0, tp_batch_size = 0, tp_batch_mode = DEFAULT_BATCH, tp_descr = None, tp_writers = [],
      tp_sb_fill = None, tp_sb_spare = None, tp_batch_ival = 0, tp_state_listener = None, tp_connect_ticks = 0,
      tp_sb_pending = False, tp_sb_timer_active = False, tp_dispatch_flush = False, tp_timer_armed = False,
      tp_is_destroyed = False, tp_session = [], tp_args = (None, None, None)\<rparr>"

section \<open>Messages from the daemon\<close>

definition msg_of_pub :: "('r, 'f) api_env \<Rightarrow> ev_pub \<Rightarrow> api_msg" where
  "msg_of_pub E pub =
     \<lparr>am_subject = pb_subject pub, am_reply = pb_reply pub, am_data = rv_bytes (ae_cl E) (pb_enc pub) (pb_msg pub)\<rparr>"

definition deliver_msg :: "('r, 'f) api_env \<Rightarrow> ev_pub \<Rightarrow> listener \<Rightarrow> api \<Rightarrow> api" where
  "deliver_msg E pub l s =
     (if get_queue (ls_queue l) s \<noteq> None then ap_emit (Delivered (ls_queue l) (ls_id l) (msg_of_pub E pub)) s else s)"

text \<open>The request that waits for a message, and the listeners that get it, in the order of the code.\<close>

definition rpc_waits :: "ev_pub \<Rightarrow> api_rpc \<Rightarrow> bool" where
  "rpc_waits pub r \<longleftrightarrow> rq_hash r = pb_hash pub \<and> rq_subject r = pb_subject pub"

fun rpc_answer :: "ev_pub \<Rightarrow> api_msg \<Rightarrow> api_rpc list \<Rightarrow> api_rpc list option" where
  "rpc_answer pub m [] = None"
| "rpc_answer pub m (r # rs) =
     (if rpc_waits pub r then Some ((if rq_reply r = None then r\<lparr>rq_reply := Some m\<rparr> else r) # rs)
      else map_option (Cons r) (rpc_answer pub m rs))"

definition plain_hits :: "ev_pub \<Rightarrow> tport \<Rightarrow> listener list" where
  "plain_hits pub t =
     (if lh_buckets (tp_ht t) = [] then []
      else filter (\<lambda>l. ls_hash l = pb_hash pub \<and> ls_wild l = 0 \<and> ls_text l = pb_subject pub)
             (lh_bucket (pb_hash pub) (tp_ht t)))"

definition wild_hits :: "('r, 'f) api_env \<Rightarrow> ev_pub \<Rightarrow> tport \<Rightarrow> u32 \<Rightarrow> listener list option" where
  "wild_hits E pub t pref =
     (if unat (pref - 1) \<ge> length (pb_subject pub) then Some []
      else if lh_buckets (tp_ht t) = [] then None
      else let h = ae_crc E (take (unat (pref - 1)) (pb_subject pub)) pref
           in Some (filter (\<lambda>l. ls_hash l = h \<and> ucast (ls_wild l) = pref \<and> match_rv_wildcard (ls_text l) (pb_subject pub))
                      (lh_bucket h (tp_ht t))))"

definition all_hits :: "('r, 'f) api_env \<Rightarrow> ev_pub \<Rightarrow> tport \<Rightarrow> listener list option" where
  "all_hits E pub t =
     map_option (\<lambda>hs. plain_hits pub t @ concat hs) (those (map (\<lambda>(p, n). wild_hits E pub t p) (tp_wild t)))"

definition on_rv_msg :: "('r, 'f) api_env \<Rightarrow> u32 \<Rightarrow> ev_pub \<Rightarrow> api \<Rightarrow> api option" where
  "on_rv_msg E k pub s = do {
     t \<leftarrow> get_tport k s;
     if make_rv_msg (ae_cl E) (pb_enc pub) (pb_msg pub) = None then Some s
     else case rpc_answer pub (msg_of_pub E pub) (tp_rpcs t) of
            Some rs \<Rightarrow> Some (put_tport k (t\<lparr>tp_rpcs := rs\<rparr>) s)
          | None \<Rightarrow> map_option (\<lambda>ls. fold (deliver_msg E pub) ls s) (all_hits E pub t)
   }"

section \<open>Creating and destroying listeners\<close>

fun has_empty_seg :: "string \<Rightarrow> bool" where
  "has_empty_seg (a # b # cs) = (a = dot \<and> b = dot \<or> has_empty_seg (b # cs))"
| "has_empty_seg cs = False"

definition valid_subject :: "string \<Rightarrow> bool" where
  "valid_subject subj \<longleftrightarrow> subj \<noteq> [] \<and> \<not> has_empty_seg subj \<and> hd subj \<noteq> dot \<and> last subj \<noteq> dot"

text \<open>
  The length and the position of the first wildcard are kept in 16 bits; \<open>None\<close> is a wildcard at a position
  that makes the latter zero, where the prefix to hash has the length \<open>- 1\<close>.
\<close>

definition listener_new :: "('r, 'f) api_env \<Rightarrow> u32 \<Rightarrow> u32 \<Rightarrow> u32 \<Rightarrow> string \<Rightarrow> listener option" where
  "listener_new E i queue tport subj =
     (let w = (case is_rv_wildcard subj of None \<Rightarrow> 0 | Some p \<Rightarrow> of_nat (p + 1));
          l = \<lparr>ls_id = i, ls_subject = subj, ls_len = of_nat (length subj), ls_wild = w, ls_hash = ae_crc E subj 0,
               ls_queue = queue, ls_tport = tport, ls_is_state = False\<rparr>
      in if is_rv_wildcard subj = None then Some l
         else if w = 0 then None
         else Some (l\<lparr>ls_hash := ae_crc E (take (unat w - 1) subj) (ucast w)\<rparr>))"

definition tp_is_inbox :: "('r, 'f) api_env \<Rightarrow> listener \<Rightarrow> tport \<Rightarrow> bool" where
  "tp_is_inbox E l t \<longleftrightarrow> is_inbox (ae_string_u64 E) (rc_control (tp_client t)) (ls_text l) \<noteq> 0"

text \<open>The subscription of a listener: at the daemon, or at the router for the transport of the process.\<close>

definition pipe_subscribe :: "('r, 'f) api_env \<Rightarrow> u32 \<Rightarrow> listener \<Rightarrow> tport \<Rightarrow> api \<Rightarrow> api" where
  "pipe_subscribe E k l t s =
     (let sub = ls_text l
      in if k \<noteq> TIBRV_PROCESS_TRANSPORT then put_tport k (t\<lparr>tp_client := cl_subscribe sub [] (tp_client t)\<rparr>) s
         else if is_rv_wildcard sub = None then ap_emit (TpAddSub k sub (ae_crc E sub 0)) s
         else case se_convert_rv (ce_svc (ae_cl E)) sub of
                None \<Rightarrow> s
              | Some n \<Rightarrow> ap_emit (TpAddPat k sub (pat_hash (ce_svc (ae_cl E)) sub n)) s)"

definition pipe_unsubscribe :: "('r, 'f) api_env \<Rightarrow> u32 \<Rightarrow> listener \<Rightarrow> tport \<Rightarrow> api \<Rightarrow> api" where
  "pipe_unsubscribe E k l t s =
     (let sub = ls_text l
      in if k \<noteq> TIBRV_PROCESS_TRANSPORT then put_tport k (t\<lparr>tp_client := cl_unsubscribe sub (tp_client t)\<rparr>) s
         else if is_rv_wildcard sub = None then ap_emit (TpDelSub k sub (ae_crc E sub 0)) s
         else case se_convert_rv (ce_svc (ae_cl E)) sub of
                None \<Rightarrow> s
              | Some n \<Rightarrow> ap_emit (TpDelPat k sub (pat_hash (ce_svc (ae_cl E)) sub n)) s)"

definition create_listener ::
  "('r, 'f) api_env \<Rightarrow> u32 \<Rightarrow> u32 \<Rightarrow> u32 \<Rightarrow> string \<Rightarrow> api \<Rightarrow> (tibrv_status \<times> u32 \<times> api) option" where
  "create_listener E i queue k subj s =
     (if \<not> valid_subject subj then Some (TIBRV_INVALID_SUBJECT, 0, s)
      else if get_queue queue s = None then Some (TIBRV_INVALID_QUEUE, 0, s)
      else case get_tport k s of
             None \<Rightarrow> Some (TIBRV_INVALID_TRANSPORT, 0, s)
           | Some t \<Rightarrow> do {
               l \<leftarrow> listener_new E i queue k subj;
               ht \<leftarrow> lh_push l (tp_ht t);
               let t1 = t\<lparr>tp_wild := (if is_rv_wildcard subj \<noteq> None then tp_add_wildcard (ls_wild l) (tp_wild t)
                                     else tp_wild t), tp_ht := ht\<rparr>;
               let s1 = put_tport k t1 (put_obj i (Some (OListener l)) s);
               Some (TIBRV_OK, i, if tp_is_inbox E l t1 then s1 else pipe_subscribe E k l t1 s1)
             })"

definition destroy_listener :: "('r, 'f) api_env \<Rightarrow> listener \<Rightarrow> api \<Rightarrow> api option" where
  "destroy_listener E l s0 =
     (let s = put_obj (ls_id l) None s0; k = ls_tport l
      in case get_tport k s of
           None \<Rightarrow> Some s
         | Some t \<Rightarrow>
             if ls_is_state l
             then Some (if map_option ls_id (tp_state_listener t) = Some (ls_id l)
                        then put_tport k (t\<lparr>tp_state_listener := None\<rparr>) s else s)
             else do {
               let s1 = (if tp_is_inbox E l t then s else pipe_unsubscribe E k l t s);
               t1 \<leftarrow> get_tport k s1;
               ht \<leftarrow> lh_remove l (tp_ht t1);
               Some (put_tport k (t1\<lparr>tp_wild := (if ls_wild l \<noteq> 0 then tp_remove_wildcard (ls_wild l) (tp_wild t1)
                                                 else tp_wild t1), tp_ht := ht\<rparr>) s1)
             })"

text \<open>\<open>DestroyEvent\<close>: a queue is left alone with success, other objects are refused.\<close>

definition destroy_event :: "('r, 'f) api_env \<Rightarrow> u32 \<Rightarrow> bool \<Rightarrow> api \<Rightarrow> (tibrv_status \<times> api) option" where
  "destroy_event E i cb s =
     (let done = (\<lambda>st s1. Some (st, if cb then ap_emit (OnComplete i) s1 else s1))
      in case ap_objs s i of
           None \<Rightarrow> Some (TIBRV_INVALID_EVENT, s)
         | Some (OListener l) \<Rightarrow> Option.bind (destroy_listener E l s) (done TIBRV_OK)
         | Some (OTimer q) \<Rightarrow> done TIBRV_OK (put_obj i None s)
         | Some (OQueue q) \<Rightarrow> done TIBRV_OK s
         | Some _ \<Rightarrow> done TIBRV_INVALID_EVENT s)"

definition state_listener_new :: "('r, 'f) api_env \<Rightarrow> u32 \<Rightarrow> u32 \<Rightarrow> u32 \<Rightarrow> listener" where
  "state_listener_new E i queue k =
     (let subj = ''_RV.*.SYSTEM.RVD.>''
      in \<lparr>ls_id = i, ls_subject = subj, ls_len = of_nat (length subj), ls_wild = 0, ls_hash = ae_crc E subj 0,
          ls_queue = queue, ls_tport = k, ls_is_state = True\<rparr>)"

definition set_state_listener :: "('r, 'f) api_env \<Rightarrow> u32 \<Rightarrow> u32 \<Rightarrow> u32 \<Rightarrow> api \<Rightarrow> tibrv_status \<times> u32 \<times> api" where
  "set_state_listener E i k queue s =
     (if get_queue queue s = None then (TIBRV_INVALID_QUEUE, 0, s)
      else case get_tport k s of
             None \<Rightarrow> (TIBRV_INVALID_TRANSPORT, 0, s)
           | Some t \<Rightarrow>
               let l = state_listener_new E i queue k;
                   s1 = put_tport k (t\<lparr>tp_state_listener := Some l\<rparr>) (put_obj i (Some (OListener l)) s)
               in (TIBRV_OK, i, case tp_state_listener t of None \<Rightarrow> s1 | Some old \<Rightarrow> put_obj (ls_id old) None s1))"

section \<open>Losing and finding the daemon\<close>

definition push_state :: "('r, 'f) api_env \<Rightarrow> u32 \<Rightarrow> string \<Rightarrow> string \<Rightarrow> string \<Rightarrow> api \<Rightarrow> api option" where
  "push_state E k cl nm de s = do {
     t \<leftarrow> get_tport k s;
     let subject = ''_RV.'' @ cl @ ''.SYSTEM.'' @ nm;
     let pub = \<lparr>pb_subject = subject, pb_hash = ae_crc E subject 0, pb_reply = [], pb_routes = [], pb_status = 0,
                pb_host = 0, pb_msg = ae_text_msg E [(''ADV_CLASS'', cl), (''ADV_SOURCE'', ''SYSTEM''),
                                       (''ADV_NAME'', nm), (''ADV_DESC'', de)],
                pb_enc = RVMSG_TYPE_ID, pb_suf_len = 0\<rparr>;
     let s1 = (case tp_state_listener t of
                 Some l \<Rightarrow> if make_rv_msg (ae_cl E) (pb_enc pub) (pb_msg pub) \<noteq> None then deliver_msg E pub l s else s
               | None \<Rightarrow> s);
     on_rv_msg E k pub s1
   }"

definition arm_reconnect :: "u32 \<Rightarrow> api \<Rightarrow> api option" where
  "arm_reconnect k s = do {
     t \<leftarrow> get_tport k s;
     Some (if tp_is_destroyed t \<or> tp_timer_armed t \<or> tp_session t = [] \<or> k = TIBRV_PROCESS_TRANSPORT then s
           else ap_emit (AddReconnectTimer k) (put_tport k (t\<lparr>tp_timer_armed := True, tp_connect_ticks := 0\<rparr>) s))
   }"

text \<open>The listeners of a transport are subscribed again, bucket after bucket, but for its inboxes.\<close>

definition resubscribe :: "('r, 'f) api_env \<Rightarrow> tport \<Rightarrow> tport" where
  "resubscribe E t =
     t\<lparr>tp_client := fold (\<lambda>l. cl_subscribe (ls_text l) [])
         (filter (\<lambda>l. \<not> tp_is_inbox E l t) (concat (lh_buckets (tp_ht t)))) (tp_client t)\<rparr>"

definition tp_on_connect :: "('r, 'f) api_env \<Rightarrow> u32 \<Rightarrow> api \<Rightarrow> api option" where
  "tp_on_connect E k s = do {
     t \<leftarrow> get_tport k s;
     if \<not> tp_timer_armed t then Some s
     else push_state E k ''INFO'' ''RVD.CONNECTED'' ''daemon reconnected''
            (ap_emit (RemoveReconnectTimer k)
              (put_tport k (resubscribe E (t\<lparr>tp_timer_armed := False, tp_session := rc_session (tp_client t)\<rparr>)) s))
   }"

definition tp_on_shutdown :: "('r, 'f) api_env \<Rightarrow> u32 \<Rightarrow> string \<Rightarrow> api \<Rightarrow> api option" where
  "tp_on_shutdown E k err s = do {
     t \<leftarrow> get_tport k s;
     s1 \<leftarrow> (if rc_state (tp_client t) = C_DATA_RECV
           then push_state E k ''ERROR'' ''RVD.DISCONNECTED''
                  (take 255 (''daemon disconnected'' @ (if err \<noteq> [] then '': '' else []) @ err)) s
           else Some s);
     arm_reconnect k s1
   }"

text \<open>The timer of the reconnection; the socket is the result of a connect.\<close>

definition reconnect_timer :: "('r, 'f) api_env \<Rightarrow> u32 \<Rightarrow> nat option \<Rightarrow> api \<Rightarrow> (bool \<times> api) option" where
  "reconnect_timer E k sock s = do {
     t \<leftarrow> get_tport k s;
     if tp_is_destroyed t \<or> rc_state (tp_client t) = C_DATA_RECV
     then Some (False, put_tport k (t\<lparr>tp_timer_armed := False\<rparr>) s)
     else if rc_fd (tp_client t) = None then do {
       let (svc, net, dm) = tp_args t;
       (ok, c) \<leftarrow> rv_connect (ae_cl E) (cl_param_new\<lparr>cp_daemon := dm, cp_network := net, cp_service := svc\<rparr>)
                   True True sock (tp_client t);
       Some (True, put_tport k (t\<lparr>tp_connect_ticks := 0, tp_client := c\<rparr>) s)
     }
     else let n = tp_connect_ticks t + 1
          in Some (True, if n \<ge> 10 then ap_emit (TpPushClose k) (put_tport k (t\<lparr>tp_connect_ticks := 0\<rparr>) s)
                         else put_tport k (t\<lparr>tp_connect_ticks := n\<rparr>) s)
   }"

section \<open>Creating and destroying transports\<close>

text \<open>
  \<open>CreateTransport\<close> up to the wait for the handshake, the end of the wait, and the request to close that
  both the time limit and \<open>DestroyTransport\<close> make. A client is in the active list of the event loop
  when it has a descriptor.
\<close>

definition create_transport ::
  "('r, 'f) api_env \<Rightarrow> u32 \<Rightarrow> client \<Rightarrow> string option \<Rightarrow> string option \<Rightarrow> string option \<Rightarrow> nat option \<Rightarrow> api \<Rightarrow> api option" where
  "create_transport E k c0 service network daemon sock s = do {
     (ok, c) \<leftarrow> rv_connect (ae_cl E) (cl_param_new\<lparr>cp_daemon := daemon, cp_network := network, cp_service := service\<rparr>)
                 True True sock c0;
     Some (put_tport k ((tport_new c)\<lparr>tp_args := (service, network, daemon)\<rparr>) s)
   }"

definition create_transport_end :: "u32 \<Rightarrow> api \<Rightarrow> (tibrv_status \<times> u32 \<times> api) option" where
  "create_transport_end k s = do {
     t \<leftarrow> get_tport k s;
     let s1 = put_tport k (t\<lparr>tp_session := rc_session (tp_client t)\<rparr>) s;
     Some (if rc_state (tp_client t) = C_DATA_RECV then (TIBRV_OK, k, s1) else (TIBRV_DAEMON_NOT_CONNECTED, 0, s1))
   }"

definition close_tport :: "u32 \<Rightarrow> api \<Rightarrow> api option" where
  "close_tport k s = do {
     t \<leftarrow> get_tport k s;
     let s1 = (if tp_timer_armed t then ap_emit (RemoveReconnectTimer k) (put_tport k (t\<lparr>tp_timer_armed := False\<rparr>) s)
               else s);
     Some (if rc_fd (tp_client t) \<noteq> None then ap_emit (TpPushClose k) s1 else s1)
   }"

section \<open>Sending\<close>

definition pub_of_msg :: "api_msg \<Rightarrow> ev_pub" where
  "pub_of_msg m =
     \<lparr>pb_subject = am_subject m, pb_hash = 0, pb_reply = am_reply m, pb_routes = [], pb_status = 0, pb_host = 0,
      pb_msg = am_data m, pb_enc = RVMSG_TYPE_ID, pb_suf_len = 0\<rparr>"

text \<open>A message goes to the daemon, or to the router for the transport of the process.\<close>

definition tport_send :: "('r, 'f) api_env \<Rightarrow> u32 \<Rightarrow> ev_pub \<Rightarrow> api \<Rightarrow> api option" where
  "tport_send E k pub s = do {
     t \<leftarrow> get_tport k s;
     Some (if k \<noteq> TIBRV_PROCESS_TRANSPORT
           then put_tport k (t\<lparr>tp_client := snd (publish (ae_cl E) pub (tp_client t))\<rparr>) s
           else ap_emit (Forwarded k (pub\<lparr>pb_hash := ae_crc E (pb_subject pub) 0\<rparr>)) s)
   }"

fun tport_sendv :: "('r, 'f) api_env \<Rightarrow> u32 \<Rightarrow> ev_pub list \<Rightarrow> api \<Rightarrow> api option" where
  "tport_sendv E k [] s = Some s"
| "tport_sendv E k (p # ps) s = do { s1 \<leftarrow> tport_send E k p s; tport_sendv E k ps s1 }"

definition ctx_add :: "api_msg \<Rightarrow> send_ctx \<Rightarrow> send_ctx" where
  "ctx_add m c =
     c\<lparr>sc_cap := (if of_nat (length (sc_pubs c)) = sc_cap c
                  then if sc_cap c \<noteq> 0 then sc_cap c * 2 else 64 else sc_cap c),
       sc_pubs := sc_pubs c @ [pub_of_msg m], sc_bytes := sc_bytes c + of_nat (length (am_data m))\<rparr>"

text \<open>\<open>send_ctx_append\<close>: whether the accumulator is full afterwards.\<close>

definition send_ctx_append :: "nat option \<Rightarrow> tport \<Rightarrow> api_msg list \<Rightarrow> api \<Rightarrow> (bool \<times> api) option" where
  "send_ctx_append a t ms s =
     (case a of
        None \<Rightarrow> Some (False, s)
      | Some p \<Rightarrow> do {
          c0 \<leftarrow> ap_ctx s p;
          let c = fold ctx_add ms c0;
          Some (tp_batch_size t \<noteq> 0 \<and> sc_bytes c \<ge> tp_batch_size t, s\<lparr>ap_ctx := (ap_ctx s)(p := Some c)\<rparr>)
        })"

text \<open>The accumulator of a thread for a transport, found in the chain of the thread.\<close>

fun find_ctx :: "u32 \<Rightarrow> nat list \<Rightarrow> api \<Rightarrow> nat option option" where
  "find_ctx k [] s = Some None"
| "find_ctx k (a # as) s =
     (case ap_ctx s a of None \<Rightarrow> None | Some c \<Rightarrow> if sc_tport c = k then Some (Some a) else find_ctx k as s)"

definition ctx_new :: "u32 \<Rightarrow> send_ctx" where
  "ctx_new k = \<lparr>sc_tport = k, sc_pubs = [], sc_cap = 0, sc_bytes = 0\<rparr>"

definition alloc_ctx :: "u32 \<Rightarrow> api \<Rightarrow> nat \<times> api" where
  "alloc_ctx k s =
     (ap_next s, s\<lparr>ap_ctx := (ap_ctx s)(ap_next s := Some (ctx_new k)), ap_next := Suc (ap_next s)\<rparr>)"

definition get_send_ctx :: "nat \<Rightarrow> u32 \<Rightarrow> api \<Rightarrow> (nat \<times> api) option" where
  "get_send_ctx th k s = do {
     f \<leftarrow> find_ctx k (ap_tls s th) s;
     case f of
       Some a \<Rightarrow> Some (a, s)
     | None \<Rightarrow> do {
         let (a, s1) = alloc_ctx k s;
         t \<leftarrow> get_tport k s1;
         Some (a, (put_tport k (t\<lparr>tp_writers := tp_writers t @ [a]\<rparr>) s1)\<lparr>ap_tls := (ap_tls s1)(th := a # ap_tls s1 th)\<rparr>)
       }
   }"

text \<open>Everything that is in the accumulator is sent, and it is empty.\<close>

definition drain_ctx :: "('r, 'f) api_env \<Rightarrow> u32 \<Rightarrow> nat \<Rightarrow> api \<Rightarrow> api option" where
  "drain_ctx E k a s = do {
     c \<leftarrow> ap_ctx s a;
     s1 \<leftarrow> tport_sendv E k (sc_pubs c) s;
     Some (s1\<lparr>ap_ctx := (ap_ctx s1)(a := Some (c\<lparr>sc_pubs := [], sc_bytes := 0\<rparr>))\<rparr>)
   }"

fun drain_all :: "('r, 'f) api_env \<Rightarrow> u32 \<Rightarrow> nat list \<Rightarrow> api \<Rightarrow> api option" where
  "drain_all E k [] s = Some s"
| "drain_all E k (a # as) s = do { s1 \<leftarrow> drain_ctx E k a s; drain_all E k as s1 }"

text \<open>\<open>drain_transport\<close>: the accumulators of the threads, then the shared one, which changes places with its spare.\<close>

definition drain_transport :: "('r, 'f) api_env \<Rightarrow> u32 \<Rightarrow> api \<Rightarrow> api option" where
  "drain_transport E k s = do {
     t0 \<leftarrow> get_tport k s;
     s1 \<leftarrow> drain_all E k (tp_writers t0) s;
     t \<leftarrow> get_tport k s1;
     let t1 = t\<lparr>tp_sb_pending := False\<rparr>;
     case tp_sb_fill t of
       None \<Rightarrow> Some (put_tport k t1 s1)
     | Some full \<Rightarrow> do {
         c \<leftarrow> ap_ctx s1 full;
         if sc_pubs c = [] then Some (put_tport k t1 s1)
         else drain_ctx E k full (put_tport k (t1\<lparr>tp_sb_fill := tp_sb_spare t, tp_sb_spare := Some full\<rparr>) s1)
       }
   }"

definition api_flush :: "('r, 'f) api_env \<Rightarrow> u32 \<Rightarrow> api \<Rightarrow> (tibrv_status \<times> api) option" where
  "api_flush E k s =
     (if get_tport k s = None then Some (TIBRV_INVALID_TRANSPORT, s)
      else map_option (Pair TIBRV_OK) (drain_transport E k s))"

text \<open>A send in a callback is noted, to be flushed when the dispatch is over.\<close>

definition note_dispatch_send :: "('r, 'f) api_env \<Rightarrow> nat \<Rightarrow> bool \<Rightarrow> u32 \<Rightarrow> api \<Rightarrow> api option" where
  "note_dispatch_send E th dispatching k s =
     (if \<not> dispatching \<or> k \<in> set (ap_dirty s th) then Some s
      else if length (ap_dirty s th) = 16 then drain_transport E k s
      else Some (s\<lparr>ap_dirty := (ap_dirty s)(th := ap_dirty s th @ [k])\<rparr>))"

fun flush_ids :: "('r, 'f) api_env \<Rightarrow> u32 list \<Rightarrow> api \<Rightarrow> api option" where
  "flush_ids E [] s = Some s"
| "flush_ids E (k # ks) s =
     (case get_tport k s of
        Some t \<Rightarrow> if tp_is_destroyed t then flush_ids E ks s
                  else do { s1 \<leftarrow> drain_transport E k s; flush_ids E ks s1 }
      | None \<Rightarrow> flush_ids E ks s)"

definition flush_dispatch_sends :: "('r, 'f) api_env \<Rightarrow> nat \<Rightarrow> api \<Rightarrow> api option" where
  "flush_dispatch_sends E th s = flush_ids E (ap_dirty s th) (s\<lparr>ap_dirty := (ap_dirty s)(th := [])\<rparr>)"

text \<open>\<open>Sendv\<close>, and \<open>Send\<close> as the case of one message, by a thread that is in a dispatch or not.\<close>

definition api_sendv ::
  "('r, 'f) api_env \<Rightarrow> nat \<Rightarrow> bool \<Rightarrow> u32 \<Rightarrow> api_msg list \<Rightarrow> api \<Rightarrow> (tibrv_status \<times> api) option" where
  "api_sendv E th dispatching k ms s =
     (if ms = [] then Some (TIBRV_OK, s)
      else case get_tport k s of
        None \<Rightarrow> Some (TIBRV_INVALID_TRANSPORT, s)
      | Some t \<Rightarrow>
          let note = (\<lambda>s2. if tp_dispatch_flush t then note_dispatch_send E th dispatching k s2 else Some s2)
          in map_option (Pair TIBRV_OK)
              (case tp_batch_mode t of
                 TIMER_BATCH \<Rightarrow> do {
                   (a, s1) \<leftarrow> get_send_ctx th k s;
                   (full, s2) \<leftarrow> send_ctx_append (Some a) t ms s1;
                   if full then drain_transport E k s2 else note s2
                 }
               | SINGLE_BATCH \<Rightarrow> do {
                   (full, s2) \<leftarrow> send_ctx_append (tp_sb_fill t) t ms s;
                   if full \<and> \<not> tp_sb_pending t
                   then drain_transport E k (put_tport k (t\<lparr>tp_sb_pending := True\<rparr>) s2)
                   else note s2
                 }
               | DEFAULT_BATCH \<Rightarrow> tport_sendv E k (map pub_of_msg ms) s))"

definition api_send ::
  "('r, 'f) api_env \<Rightarrow> nat \<Rightarrow> bool \<Rightarrow> u32 \<Rightarrow> api_msg \<Rightarrow> api \<Rightarrow> (tibrv_status \<times> api) option" where
  "api_send E th dispatching k m s = api_sendv E th dispatching k [m] s"

definition flush_unless_default :: "('r, 'f) api_env \<Rightarrow> u32 \<Rightarrow> tport \<Rightarrow> api \<Rightarrow> api option" where
  "flush_unless_default E k t s = (if tp_batch_mode t \<noteq> DEFAULT_BATCH then drain_transport E k s else Some s)"

text \<open>
  \<open>SendRequest\<close> up to its wait, with the address of the request and the message, which gets a reply if it has
  none, and from the end of the wait.
\<close>

definition send_request ::
  "('r, 'f) api_env \<Rightarrow> u32 \<Rightarrow> nat \<Rightarrow> api_msg \<Rightarrow> api \<Rightarrow> (tibrv_status \<times> api_msg \<times> api) option" where
  "send_request E k key m0 s =
     (case get_tport k s of
        None \<Rightarrow> Some (TIBRV_INVALID_TRANSPORT, m0, s)
      | Some t0 \<Rightarrow> do {
          s1 \<leftarrow> flush_unless_default E k t0 s;
          t \<leftarrow> get_tport k s1;
          let (m, t1) = (if am_reply m0 = []
                         then (m0\<lparr>am_reply := cl_inbox (ae_cl E) (rc_session (tp_client t)) (tp_inbox_count t)\<rparr>,
                               t\<lparr>tp_inbox_count := tp_inbox_count t + 1\<rparr>)
                         else (m0, t));
          let r = \<lparr>rq_key = key, rq_subject = am_reply m, rq_hash = ae_crc E (am_reply m) 0, rq_reply = None\<rparr>;
          s2 \<leftarrow> tport_send E k (pub_of_msg m) (put_tport k (t1\<lparr>tp_rpcs := r # tp_rpcs t1\<rparr>) s1);
          Some (TIBRV_OK, m, s2)
        })"

definition end_request :: "u32 \<Rightarrow> nat \<Rightarrow> api \<Rightarrow> (tibrv_status \<times> api_msg option \<times> api) option" where
  "end_request k key s = do {
     t \<leftarrow> get_tport k s;
     r \<leftarrow> find (\<lambda>r. rq_key r = key) (tp_rpcs t);
     Some (if rq_reply r = None then TIBRV_NOT_FOUND else TIBRV_OK, rq_reply r,
           put_tport k (t\<lparr>tp_rpcs := filter (\<lambda>r. rq_key r \<noteq> key) (tp_rpcs t)\<rparr>) s)
   }"

definition send_reply :: "('r, 'f) api_env \<Rightarrow> u32 \<Rightarrow> api_msg \<Rightarrow> api_msg \<Rightarrow> api \<Rightarrow> (tibrv_status \<times> api) option" where
  "send_reply E k m r s =
     (case get_tport k s of
        None \<Rightarrow> Some (TIBRV_INVALID_TRANSPORT, s)
      | Some t \<Rightarrow> do {
          s1 \<leftarrow> flush_unless_default E k t s;
          s2 \<leftarrow> tport_send E k ((pub_of_msg m)\<lparr>pb_subject := am_reply r\<rparr>) s1;
          Some (TIBRV_OK, s2)
        })"

definition batch_timer :: "('r, 'f) api_env \<Rightarrow> u32 \<Rightarrow> api \<Rightarrow> (bool \<times> api) option" where
  "batch_timer E k s = do {
     s1 \<leftarrow> drain_transport E k s;
     t \<leftarrow> get_tport k s1;
     Some (tp_sb_timer_active t, s1)
   }"

section \<open>Properties of a transport\<close>

definition start_batch_timer :: "u32 \<Rightarrow> tport \<Rightarrow> api \<Rightarrow> api" where
  "start_batch_timer k t s =
     ap_emit (AddBatchTimer k (tp_batch_ival t))
       (put_tport k (t\<lparr>tp_sb_timer_active := True\<rparr>)
         (if tp_sb_timer_active t then ap_emit (RemoveBatchTimer k) s else s))"

definition stop_batch_timer :: "u32 \<Rightarrow> tport \<Rightarrow> api \<Rightarrow> api" where
  "stop_batch_timer k t s = put_tport k (t\<lparr>tp_sb_timer_active := False\<rparr>) (ap_emit (RemoveBatchTimer k) s)"

definition set_batch_mode :: "u32 \<Rightarrow> batch_mode \<Rightarrow> api \<Rightarrow> tibrv_status \<times> api" where
  "set_batch_mode k mode s =
     (case get_tport k s of
        None \<Rightarrow> (TIBRV_INVALID_TRANSPORT, s)
      | Some t0 \<Rightarrow>
          let t = t0\<lparr>tp_batch_mode := mode\<rparr>
          in if mode = SINGLE_BATCH \<and> tp_sb_fill t = None
             then let (a, s1) = alloc_ctx k s; (b, s2) = alloc_ctx k s1
                  in (TIBRV_OK, put_tport k (t\<lparr>tp_sb_fill := Some a, tp_sb_spare := Some b\<rparr>) s2)
             else (TIBRV_OK, put_tport k t s))"

text \<open>The interval is a number of the unit that the caller uses; only its sign matters here.\<close>

definition set_batch_interval :: "u32 \<Rightarrow> int \<Rightarrow> api \<Rightarrow> tibrv_status \<times> api" where
  "set_batch_interval k secs s =
     (case get_tport k s of
        None \<Rightarrow> (TIBRV_INVALID_TRANSPORT, s)
      | Some t0 \<Rightarrow>
          let t = t0\<lparr>tp_batch_ival := secs\<rparr>; s1 = put_tport k t s
          in (TIBRV_OK, if secs > 0 then start_batch_timer k t s1
                        else if tp_sb_timer_active t then stop_batch_timer k t s1 else s1))"

definition set_batch_size :: "u32 \<Rightarrow> u32 \<Rightarrow> api \<Rightarrow> tibrv_status \<times> api" where
  "set_batch_size k n = on_tport k (\<lambda>t. t\<lparr>tp_batch_size := n\<rparr>)"

definition set_batch_dispatch_flush :: "u32 \<Rightarrow> bool \<Rightarrow> api \<Rightarrow> tibrv_status \<times> api" where
  "set_batch_dispatch_flush k b = on_tport k (\<lambda>t. t\<lparr>tp_dispatch_flush := b\<rparr>)"

definition set_wait_limit :: "u32 \<Rightarrow> u32 \<Rightarrow> api \<Rightarrow> tibrv_status \<times> api" where
  "set_wait_limit k n = on_tport k (\<lambda>t. t\<lparr>tp_wait_limit := n\<rparr>)"

definition set_description :: "u32 \<Rightarrow> string option \<Rightarrow> api \<Rightarrow> tibrv_status \<times> api" where
  "set_description k d = on_tport k (\<lambda>t. t\<lparr>tp_descr := d\<rparr>)"

text \<open>The name of a new inbox, cut to the size of the caller's buffer with its final zero byte.\<close>

definition create_inbox :: "('r, 'f) api_env \<Rightarrow> u32 \<Rightarrow> nat \<Rightarrow> api \<Rightarrow> tibrv_status \<times> string \<times> api" where
  "create_inbox E k n s =
     (case get_tport k s of
        None \<Rightarrow> (TIBRV_INVALID_TRANSPORT, take n [CHR 0x00], s)
      | Some t \<Rightarrow>
          (TIBRV_OK, take n (zstr (cl_inbox (ae_cl E) (tp_session t) (tp_inbox_count t))),
           put_tport k (t\<lparr>tp_inbox_count := tp_inbox_count t + 1\<rparr>) s))"

text \<open>The accumulators are sent and freed; the chains of the threads still name them.\<close>

definition free_ctxs :: "nat list \<Rightarrow> api \<Rightarrow> api" where
  "free_ctxs as s = s\<lparr>ap_ctx := (\<lambda>a. if a \<in> set as then None else ap_ctx s a)\<rparr>"

definition free_transport_writers :: "('r, 'f) api_env \<Rightarrow> u32 \<Rightarrow> api \<Rightarrow> api option" where
  "free_transport_writers E k s = do {
     s1 \<leftarrow> drain_transport E k s;
     t \<leftarrow> get_tport k s1;
     Some (free_ctxs (tp_writers t) (put_tport k (t\<lparr>tp_writers := []\<rparr>) s1))
   }"

definition free_send_buf :: "('r, 'f) api_env \<Rightarrow> u32 \<Rightarrow> api \<Rightarrow> api option" where
  "free_send_buf E k s = do {
     t0 \<leftarrow> get_tport k s;
     s1 \<leftarrow> drain_transport E k (if tp_sb_timer_active t0 then stop_batch_timer k t0 s else s);
     t \<leftarrow> get_tport k s1;
     Some (free_ctxs (map the (filter (\<lambda>x. x \<noteq> None) [tp_sb_fill t, tp_sb_spare t]))
             (put_tport k (t\<lparr>tp_sb_fill := None, tp_sb_spare := None\<rparr>) s1))
   }"

definition destroy_transport :: "('r, 'f) api_env \<Rightarrow> u32 \<Rightarrow> api \<Rightarrow> (tibrv_status \<times> api) option" where
  "destroy_transport E k s =
     (if get_tport k s = None then Some (TIBRV_INVALID_TRANSPORT, s)
      else do {
        s1 \<leftarrow> free_transport_writers E k s;
        s2 \<leftarrow> free_send_buf E k s1;
        t \<leftarrow> get_tport k s2;
        s3 \<leftarrow> close_tport k (put_tport k (t\<lparr>tp_is_destroyed := True\<rparr>) s2);
        Some (TIBRV_OK, s3)
      })"

section \<open>Properties of events and queues\<close>

definition obj_type :: "api_obj \<Rightarrow> nat" where
  "obj_type x = (case x of OTimer q \<Rightarrow> 1 | OListener l \<Rightarrow> 3 | OQueue q \<Rightarrow> 4 | OGroup \<Rightarrow> 5 | OTransport t \<Rightarrow> 6 | ODispatcher \<Rightarrow> 7)"

definition get_event_type :: "u32 \<Rightarrow> api \<Rightarrow> tibrv_status \<times> nat" where
  "get_event_type i s =
     (case ap_objs s i of None \<Rightarrow> (TIBRV_INVALID_EVENT, 0) | Some x \<Rightarrow> (TIBRV_OK, obj_type x))"

definition get_event_queue :: "u32 \<Rightarrow> api \<Rightarrow> tibrv_status \<times> u32" where
  "get_event_queue i s =
     (let q = (case ap_objs s i of
                 Some (OTimer q) \<Rightarrow> q | Some (OListener l) \<Rightarrow> ls_queue l | Some (OQueue x) \<Rightarrow> i | _ \<Rightarrow> 0)
      in (if q \<noteq> 0 then TIBRV_OK else TIBRV_INVALID_EVENT, q))"

definition get_listener_subject :: "u32 \<Rightarrow> api \<Rightarrow> tibrv_status \<times> string" where
  "get_listener_subject i s =
     (case get_listener i s of Some l \<Rightarrow> (TIBRV_OK, ls_subject l) | None \<Rightarrow> (TIBRV_INVALID_EVENT, []))"

definition get_listener_transport :: "u32 \<Rightarrow> api \<Rightarrow> tibrv_status \<times> u32" where
  "get_listener_transport i s =
     (case get_listener i s of Some l \<Rightarrow> (TIBRV_OK, ls_tport l) | None \<Rightarrow> (TIBRV_INVALID_EVENT, 0))"

definition queue_new :: api_queue where
  "queue_new = \<lparr>aq_done = False, aq_priority = 1, aq_policy = 0, aq_max_ev = 0, aq_discard = 0, aq_name = None,
     aq_hook = None, aq_group = None\<rparr>"

definition create_queue :: "u32 \<Rightarrow> api \<Rightarrow> tibrv_status \<times> u32 \<times> api" where
  "create_queue i s = (TIBRV_OK, i, put_obj i (Some (OQueue queue_new)) s)"

definition set_queue_priority :: "u32 \<Rightarrow> u32 \<Rightarrow> api \<Rightarrow> tibrv_status \<times> api" where
  "set_queue_priority q prio s =
     (let (st, s1) = on_queue q (\<lambda>x. x\<lparr>aq_priority := prio\<rparr>) s
      in (st, case Option.bind (get_queue q s) aq_group of
                Some g \<Rightarrow> if st = TIBRV_OK then ap_emit (GroupUpdate g) s1 else s1 | None \<Rightarrow> s1))"

definition set_queue_limit_policy :: "u32 \<Rightarrow> nat \<Rightarrow> u32 \<Rightarrow> u32 \<Rightarrow> api \<Rightarrow> tibrv_status \<times> api" where
  "set_queue_limit_policy q policy max_ev discard =
     on_queue q (\<lambda>x. x\<lparr>aq_policy := policy, aq_max_ev := max_ev, aq_discard := discard\<rparr>)"

definition set_queue_name :: "u32 \<Rightarrow> string option \<Rightarrow> api \<Rightarrow> tibrv_status \<times> api" where
  "set_queue_name q nm = on_queue q (\<lambda>x. x\<lparr>aq_name := nm\<rparr>)"

definition set_queue_hook :: "u32 \<Rightarrow> nat option \<Rightarrow> api \<Rightarrow> tibrv_status \<times> api" where
  "set_queue_hook q h = on_queue q (\<lambda>x. x\<lparr>aq_hook := h\<rparr>)"

text \<open>What is read back: \<open>None\<close> is the error for an unknown queue or transport.\<close>

definition ask_queue :: "u32 \<Rightarrow> (api_queue \<Rightarrow> 'a) \<Rightarrow> api \<Rightarrow> 'a option" where
  "ask_queue q f s = (case get_queue q s of None \<Rightarrow> None | Some x \<Rightarrow> if aq_done x then None else Some (f x))"

definition get_queue_priority :: "u32 \<Rightarrow> api \<Rightarrow> u32 option" where
  "get_queue_priority q = ask_queue q aq_priority"

definition get_queue_limit_policy :: "u32 \<Rightarrow> api \<Rightarrow> (nat \<times> u32 \<times> u32) option" where
  "get_queue_limit_policy q = ask_queue q (\<lambda>x. (aq_policy x, aq_max_ev x, aq_discard x))"

definition get_queue_name :: "u32 \<Rightarrow> api \<Rightarrow> string option option" where
  "get_queue_name q = ask_queue q aq_name"

definition get_queue_hook :: "u32 \<Rightarrow> api \<Rightarrow> nat option option" where
  "get_queue_hook q = ask_queue q aq_hook"

definition ask_tport :: "u32 \<Rightarrow> (tport \<Rightarrow> 'a) \<Rightarrow> api \<Rightarrow> 'a option" where
  "ask_tport k f s = map_option f (get_tport k s)"

definition get_service :: "u32 \<Rightarrow> api \<Rightarrow> string option option" where
  "get_service k = ask_tport k (\<lambda>t. rc_service (tp_client t))"

definition get_network :: "u32 \<Rightarrow> api \<Rightarrow> string option option" where
  "get_network k = ask_tport k (\<lambda>t. rc_network (tp_client t))"

definition get_daemon :: "u32 \<Rightarrow> api \<Rightarrow> string option option" where
  "get_daemon k = ask_tport k (\<lambda>t. rc_daemon (tp_client t))"

definition get_description :: "u32 \<Rightarrow> api \<Rightarrow> string option option" where
  "get_description k = ask_tport k tp_descr"

definition get_wait_limit :: "u32 \<Rightarrow> api \<Rightarrow> u32 option" where
  "get_wait_limit k = ask_tport k tp_wait_limit"

section \<open>Opening the interface\<close>

text \<open>
  \<open>Open\<close>: the default queue, and the transport of the process, which has a connection to nothing and gets
  all inboxes from the router.
\<close>

definition api_open :: "('r, 'f) api_env \<Rightarrow> client \<Rightarrow> nat option \<Rightarrow> api option" where
  "api_open E c0 sock = do {
     (ok, c) \<leftarrow> rv_connect (ae_cl E) (cl_param_new\<lparr>cp_daemon := Some ''null'', cp_service := None, cp_port := 0\<rparr>)
                 True True sock c0;
     let k = TIBRV_PROCESS_TRANSPORT;
     let ibx = ''_INBOX.>'';
     Some (ap_emit (TpAddPat k ibx (case se_convert_rv (ce_svc (ae_cl E)) ibx of
                                      None \<Rightarrow> 0 | Some n \<Rightarrow> pat_hash (ce_svc (ae_cl E)) ibx n))
       \<lparr>ap_objs = [1 \<mapsto> OQueue queue_new, k \<mapsto> OTransport ((tport_new c)\<lparr>tp_session := rc_session c\<rparr>)],
        ap_ctx = (\<lambda>a. None), ap_next = 0, ap_tls = (\<lambda>t. []), ap_dirty = (\<lambda>t. []), ap_out = []\<rparr>)
   }"

end
