(* ===== verification/Api_Tables.thy ===== *)
theory Api_Tables
  imports Api_Transport
begin

text \<open>
  The tables of a transport: the hash table of its listeners holds what was pushed and not removed, in the
  bucket in which it is looked for, and the counts of the wildcards are those of the listeners. From this
  follows which listeners a message finds.
\<close>

section \<open>Tables of chains\<close>

text \<open>
  What the transport needs of a hash table: every element is in the chain of its hash, and push and remove
  succeed.
\<close>

locale chain_table =
  fixes ok :: "'t \<Rightarrow> bool" and content :: "'t \<Rightarrow> 'e multiset" and push :: "'e \<Rightarrow> 't \<Rightarrow> 't option"
    and remove :: "'e \<Rightarrow> 't \<Rightarrow> 't option" and chain :: "u32 \<Rightarrow> 't \<Rightarrow> 'e list" and hash :: "'e \<Rightarrow> u32" and name :: "'e \<Rightarrow> u32"
  assumes push_law: "ok t \<Longrightarrow> \<exists>t'. push x t = Some t' \<and> ok t' \<and> content t' = add_mset x (content t)"
    and remove_law: "ok t \<Longrightarrow> x \<in># content t \<Longrightarrow> inj_on name (set_mset (content t)) \<Longrightarrow> (\<forall>y. count (content t) y \<le> 1) \<Longrightarrow>
      \<exists>t'. remove x t = Some t' \<and> ok t' \<and> content t' = content t - {#x#}"
    and chain_law: "ok t \<Longrightarrow> filter (\<lambda>x. hash x = h) (chain h t) = xs \<Longrightarrow> mset xs = filter_mset (\<lambda>x. hash x = h) (content t)"
begin

lemma chain_filter:
  assumes "ok t"
  shows "mset (filter (\<lambda>x. hash x = h \<and> P x) (chain h t)) = filter_mset (\<lambda>x. hash x = h \<and> P x) (content t)"
proof -
  have "mset (filter (\<lambda>x. hash x = h \<and> P x) (chain h t)) = filter_mset P (mset (filter (\<lambda>x. hash x = h) (chain h t)))"
    by (simp add: filter_filter_mset conj_commute)
  also have "\<dots> = filter_mset P (filter_mset (\<lambda>x. hash x = h) (content t))"
    using chain_law [OF assms refl] by simp
  finally show ?thesis by (simp add: filter_filter_mset conj_commute)
qed

lemma push_remove:
  assumes "ok t" "x \<notin># content t" "inj_on name (insert x (set_mset (content t)))" "\<forall>y. count (content t) y \<le> 1"
  shows "\<exists>t1 t2. push x t = Some t1 \<and> remove x t1 = Some t2 \<and> content t2 = content t"
proof -
  obtain t1 where t1: "push x t = Some t1" "ok t1" "content t1 = add_mset x (content t)"
    using push_law [OF assms(1)] by blast
  from remove_law [OF t1(2), of x] show ?thesis using t1 assms by (force simp: not_in_iff)
qed

end

section \<open>The hash table of the listeners\<close>

definition lh_all :: "listener_ht \<Rightarrow> listener list" where
  "lh_all t = concat (lh_buckets t)"

definition lh_chain :: "u32 \<Rightarrow> listener_ht \<Rightarrow> listener list" where
  "lh_chain h t = (if lh_buckets t = [] then [] else lh_bucket h t)"

definition lh_placed :: "listener_ht \<Rightarrow> bool" where
  "lh_placed t \<longleftrightarrow> lh_count t = length (lh_all t) \<and>
     (\<forall>i < length (lh_buckets t). \<forall>l\<in>set (lh_buckets t ! i). lh_index (ls_hash l) t = i)"

definition lh_ok :: "listener_ht \<Rightarrow> bool" where
  "lh_ok t \<longleftrightarrow> lh_placed t \<and> lh_count t \<le> lh_mask t"

lemma lh_index_less: "lh_buckets t \<noteq> [] \<Longrightarrow> lh_index h t < length (lh_buckets t)"
proof -
  assume "lh_buckets t \<noteq> []"
  moreover have "lh_index h t \<le> lh_mask t"
  proof -
    have "int (lh_index h t) \<le> int (lh_mask t)"
      unfolding lh_index_def of_nat_and_eq by (simp add: AND_upper2)
    then show ?thesis by simp
  qed
  ultimately show ?thesis by (simp add: lh_mask_def le_eq_less_or_eq) (metis Suc_pred length_greater_0_conv less_Suc_eq)
qed

lemma mset_concat_update:
  "i < length bs \<Longrightarrow> mset (concat (bs[i := ys])) + mset (bs ! i) = mset (concat bs) + mset ys"
  by (induction bs arbitrary: i) (auto simp: nth_Cons ac_simps split: nat.split)

lemma lh_put_placed:
  assumes "lh_placed t" "lh_buckets t \<noteq> []"
  shows "lh_placed (lh_put l t)" "mset (lh_all (lh_put l t)) = add_mset l (mset (lh_all t))"
    "lh_count (lh_put l t) = lh_count t + 1" "lh_mask (lh_put l t) = lh_mask t" "lh_buckets (lh_put l t) \<noteq> []"
proof -
  let ?i = "lh_index (ls_hash l) t"
  have i: "?i < length (lh_buckets t)" by (rule lh_index_less [OF assms(2)])
  have idx: "lh_index h (lh_put l t) = lh_index h t" for h by (simp add: lh_index_def lh_mask_def lh_put_def Let_def)
  show m: "mset (lh_all (lh_put l t)) = add_mset l (mset (lh_all t))"
    using mset_concat_update [OF i, of "lh_buckets t ! ?i @ [l]"] by (simp add: lh_all_def lh_put_def Let_def)
  then have "length (lh_all (lh_put l t)) = length (lh_all t) + 1" by (metis size_add_mset size_mset Suc_eq_plus1)
  then show "lh_placed (lh_put l t)"
    using assms i unfolding lh_placed_def idx by (auto simp: lh_put_def Let_def nth_list_update)
  show "lh_count (lh_put l t) = lh_count t + 1" "lh_mask (lh_put l t) = lh_mask t" "lh_buckets (lh_put l t) \<noteq> []"
    using assms(2) by (simp_all add: lh_put_def Let_def lh_mask_def)
qed

text \<open>While there is room a push does not resize.\<close>

lemma lh_push_room:
  assumes "lh_placed t" "lh_buckets t \<noteq> []" "lh_count t + length ls \<le> lh_mask t"
  shows "\<exists>t'. lh_push_all ls t = Some t' \<and> lh_placed t' \<and> lh_count t' = lh_count t + length ls \<and> lh_mask t' = lh_mask t \<and>
    lh_buckets t' \<noteq> [] \<and> mset (lh_all t') = mset ls + mset (lh_all t)"
  using assms
proof (induction ls arbitrary: t)
  case Nil
  then show ?case by (subst lh_push_all.simps) simp
next
  case (Cons l ls)
  note put = lh_put_placed [OF Cons.prems(1,2), of l]
  have "lh_push_all (l # ls) t = lh_push_all ls (lh_put l t)"
    using Cons.prems(3) by (subst lh_push_all.simps) simp
  then show ?case using Cons.IH [OF put(1,5)] Cons.prems(3) put by (simp add: put)
qed

lemma lh_init_placed: "0 < n \<Longrightarrow> lh_placed (lh_init n) \<and> lh_buckets (lh_init n) \<noteq> [] \<and> lh_all (lh_init n) = [] \<and>
  lh_count (lh_init n) = 0 \<and> lh_mask (lh_init n) = n - 1"
  by (auto simp: lh_init_def lh_placed_def lh_all_def lh_mask_def)

lemma lh_push_ok:
  assumes "lh_ok t"
  shows "\<exists>t'. lh_push l t = Some t' \<and> lh_ok t' \<and> mset (lh_all t') = add_mset l (mset (lh_all t))"
proof -
  let ?n = "if lh_buckets t = [] then 16 else 2 * length (lh_buckets t)"
  have cnt: "lh_count t = length (lh_all t)" "lh_count t \<le> lh_mask t" using assms by (simp_all add: lh_ok_def lh_placed_def)
  have n: "0 < ?n" "length (lh_all t) < ?n - 1"
    using cnt by (cases "lh_buckets t = []", auto simp: lh_mask_def lh_all_def) (cases "lh_buckets t"; simp)
  have "\<exists>t1. (if lh_count t \<ge> lh_mask t then lh_push_all (concat (lh_buckets t)) (lh_init ?n) else Some t) = Some t1 \<and>
      lh_placed t1 \<and> lh_buckets t1 \<noteq> [] \<and> lh_count t1 < lh_mask t1 \<and> mset (lh_all t1) = mset (lh_all t)"
  proof (cases "lh_count t \<ge> lh_mask t")
    case True
    have "\<exists>t1. lh_push_all (lh_all t) (lh_init ?n) = Some t1 \<and> lh_placed t1 \<and> lh_count t1 = length (lh_all t) \<and>
        lh_mask t1 = ?n - 1 \<and> lh_buckets t1 \<noteq> [] \<and> mset (lh_all t1) = mset (lh_all t)"
      using lh_push_room [of "lh_init ?n" "lh_all t"] lh_init_placed [OF n(1)] n(2) by auto
    then show ?thesis using True n(2) by (auto simp: lh_all_def)
  next
    case False
    then show ?thesis using assms by (auto simp: lh_ok_def lh_mask_def)
  qed
  then obtain t1 where t1: "(if lh_count t \<ge> lh_mask t then lh_push_all (concat (lh_buckets t)) (lh_init ?n) else Some t) = Some t1"
    "lh_placed t1" "lh_buckets t1 \<noteq> []" "lh_count t1 < lh_mask t1" "mset (lh_all t1) = mset (lh_all t)" by blast
  have "lh_push l t = lh_push_all [] (lh_put l t1)"
    unfolding lh_push_def using t1(1) by (subst lh_push_all.simps) simp
  also have "\<dots> = Some (lh_put l t1)" by (subst lh_push_all.simps) simp
  finally show ?thesis using lh_put_placed [OF t1(2,3), of l] t1(4,5) by (auto simp: lh_ok_def)
qed

lemma lh_bucket_of:
  assumes "lh_ok t" "l \<in> set (lh_all t)"
  shows "lh_index (ls_hash l) t < length (lh_buckets t)" "l \<in> set (lh_buckets t ! lh_index (ls_hash l) t)"
proof -
  obtain b where "b \<in> set (lh_buckets t)" "l \<in> set b" using assms(2) by (auto simp: lh_all_def)
  then obtain i where "i < length (lh_buckets t)" "l \<in> set (lh_buckets t ! i)" by (metis in_set_conv_nth)
  then show "lh_index (ls_hash l) t < length (lh_buckets t)" "l \<in> set (lh_buckets t ! lh_index (ls_hash l) t)"
    using assms(1) by (auto simp: lh_ok_def lh_placed_def)
qed

lemma filter_name:
  assumes "x \<in> set xs" "distinct xs" "inj_on f (set xs)"
  shows "mset (filter (\<lambda>y. f y \<noteq> f x) xs) = mset xs - {#x#}"
proof -
  have "filter (\<lambda>y. f y \<noteq> f x) xs = filter (\<lambda>y. y \<noteq> x) xs"
    using assms(1,3) by (intro filter_cong refl) (auto dest: inj_onD)
  also have "\<dots> = remove1 x xs" using assms(2) by (simp add: distinct_remove1_removeAll removeAll_filter_not_eq neq_commute)
  finally show ?thesis by simp
qed

lemma lh_remove_ok:
  assumes "lh_ok t" "l \<in> set (lh_all t)" "inj_on ls_id (set (lh_all t))" "distinct (lh_all t)"
  shows "\<exists>t'. lh_remove l t = Some t' \<and> lh_ok t' \<and> mset (lh_all t') = mset (lh_all t) - {#l#}"
proof -
  let ?i = "lh_index (ls_hash l) t" and ?bs = "lh_buckets t"
  let ?b = "filter (\<lambda>x. ls_id x \<noteq> ls_id l) (?bs ! ?i)"
  let ?t = "t\<lparr>lh_buckets := ?bs[?i := ?b], lh_count := lh_count t - 1\<rparr>"
  note i = lh_bucket_of [OF assms(1,2)]
  have sub: "set (?bs ! ?i) \<subseteq> set (lh_all t)" using nth_mem [OF i(1)] by (auto simp: lh_all_def)
  have "distinct (?bs ! ?i)" using assms(4) i(1) by (auto simp: lh_all_def distinct_concat_iff removeAll_filter_not_eq)
  then have b: "mset ?b = mset (?bs ! ?i) - {#l#}"
    using filter_name [OF i(2)] inj_on_subset [OF assms(3) sub] by blast
  have "mset (concat (?bs[?i := ?b])) + mset (?bs ! ?i) = mset (concat ?bs) + mset ?b"
    by (rule mset_concat_update [OF i(1)])
  moreover obtain B where "mset (?bs ! ?i) = add_mset l B" using i(2) by (metis insert_DiffM set_mset_mset)
  ultimately have "add_mset l (mset (lh_all ?t)) = mset (lh_all t)" using b by (simp add: lh_all_def)
  then have m: "mset (lh_all ?t) = mset (lh_all t) - {#l#}" by (metis add_mset_remove_trivial)
  then have "length (lh_all ?t) = length (lh_all t) - 1" using assms(2) by (metis size_Diff_singleton size_mset set_mset_mset)
  then have "lh_ok ?t"
    using assms(1) i(1) by (auto simp: lh_ok_def lh_placed_def lh_mask_def lh_index_def nth_list_update)
  then show ?thesis using i m by (auto simp: lh_remove_def Let_def)
qed

lemma concat_only:
  assumes "i < length bs" "\<And>j. j < length bs \<Longrightarrow> j \<noteq> i \<Longrightarrow> bs ! j = []"
  shows "concat bs = bs ! i"
  using assms
proof (induction bs arbitrary: i)
  case (Cons b bs)
  show ?case
  proof (cases i)
    case 0
    have "concat bs = []" using Cons.prems(2) [of "Suc _"] 0 by (auto simp: in_set_conv_nth)
    then show ?thesis using 0 by simp
  next
    case (Suc k)
    then have "b = []" using Cons.prems(2) [of 0] by simp
    moreover have "concat bs = bs ! k" using Cons.prems(1) Cons.prems(2) [of "Suc _"] Suc by (intro Cons.IH) auto
    ultimately show ?thesis using Suc by simp
  qed
qed simp

lemma lh_chain_all:
  assumes "lh_ok t"
  shows "filter (\<lambda>l. ls_hash l = h) (lh_chain h t) = filter (\<lambda>l. ls_hash l = h) (lh_all t)"
proof (cases "lh_buckets t = []")
  case False
  let ?f = "filter (\<lambda>l. ls_hash l = h)"
  have i: "lh_index h t < length (map ?f (lh_buckets t))" using lh_index_less [OF False] by simp
  have "concat (map ?f (lh_buckets t)) = map ?f (lh_buckets t) ! lh_index h t"
    using assms by (intro concat_only [OF i]) (auto simp: lh_ok_def lh_placed_def filter_empty_conv)
  then show ?thesis using i False by (simp add: lh_chain_def lh_bucket_def lh_all_def filter_concat)
qed (simp add: lh_chain_def lh_all_def)

interpretation lt: chain_table lh_ok "\<lambda>t. mset (lh_all t)" lh_push lh_remove lh_chain ls_hash ls_id
proof unfold_locales
  fix t l
  assume "lh_ok t" "l \<in># mset (lh_all t)" "inj_on ls_id (set_mset (mset (lh_all t)))" "\<forall>y. count (mset (lh_all t)) y \<le> 1"
  then show "\<exists>t'. lh_remove l t = Some t' \<and> lh_ok t' \<and> mset (lh_all t') = mset (lh_all t) - {#l#}"
    using lh_remove_ok [of t l] by (auto simp: distinct_count_atmost_1 count_mset_gt_0 le_Suc_eq count_eq_zero_iff)
qed (auto simp: lh_push_ok lh_chain_all simp flip: mset_filter)

section \<open>The counts of the wildcards\<close>

definition at_wild :: "u32 \<Rightarrow> listener \<Rightarrow> bool" where
  "at_wild p l \<longleftrightarrow> ls_wild l \<noteq> 0 \<and> ucast (ls_wild l) = p"

definition wild_ok :: "(u32 \<times> u32) list \<Rightarrow> listener list \<Rightarrow> bool" where
  "wild_ok w ls \<longleftrightarrow> distinct (map fst w) \<and> 0 \<notin> snd ` set w \<and>
     (\<forall>p. length (filter (at_wild p) ls) = (case map_of w p of None \<Rightarrow> 0 | Some n \<Rightarrow> unat n))"

lemma wild_entry: "wild_ok w ls \<Longrightarrow> (p, n) \<in> set w \<Longrightarrow> unat n = length (filter (at_wild p) ls) \<and> n \<noteq> 0"
  by (force simp: wild_ok_def)

lemma ucast_zero: "ucast (x :: u16) = (0 :: u32) \<Longrightarrow> x = 0"
  by (auto simp: bit_eq_iff bit_simps dest: bit_imp_le_length)

lemma unat_ucast16: "unat (ucast (x :: u16) :: u32) = unat x"
  by (simp add: unsigned_ucast_eq take_bit_nat_eq_self order.strict_trans [OF unsigned_less])

lemma wild_length: "wild_ok w ls \<Longrightarrow> length (filter (at_wild p) ls) = (case map_of w p of None \<Rightarrow> 0 | Some n \<Rightarrow> unat n)"
  by (simp add: wild_ok_def)

lemma wild_okI:
  assumes "distinct (map fst w)" "0 \<notin> snd ` set w"
    and "\<And>p. length (filter (at_wild p) ls) = (case map_of w p of None \<Rightarrow> 0 | Some n \<Rightarrow> unat n)"
  shows "wild_ok w ls"
  using assms by (simp add: wild_ok_def)

lemma filter_length_mset: "length (filter P xs) = size (filter_mset P (mset xs))"
  by (metis mset_filter size_mset)

lemma wild_values: "distinct (map fst w) \<Longrightarrow> 0 \<notin> snd ` set w \<Longrightarrow> (p, m) \<in> set w \<Longrightarrow> map_of w p = Some n \<Longrightarrow> m = n \<and> n \<noteq> 0"
  by force

lemma map_of_map_if:
  "map_of (map (\<lambda>(p, n). (p, if p = k then f n else n)) w) p = (if p = k then map_option f (map_of w p) else map_of w p)"
  by (induction w) auto

lemma map_of_filter_other: "map_of (filter (\<lambda>(p, n). p \<noteq> k) w) p = (if p = k then None else map_of w p)"
  by (induction w) auto

lemma wild_ok_add:
  assumes "wild_ok w ls" "mset ls' = add_mset l (mset ls)" "ls_wild l \<noteq> 0" "length ls < 2 ^ 32 - 1"
  shows "wild_ok (tp_add_wildcard (ls_wild l) w) ls'"
proof -
  let ?p = "ucast (ls_wild l) :: u32"
  have cnt: "length (filter (at_wild p) ls') = length (filter (at_wild p) ls) + (if p = ?p then 1 else 0)" for p
    using assms(2,3) by (auto simp: filter_length_mset at_wild_def)
  have small: "length (filter (at_wild p) ls) < 2 ^ 32 - 1" for p using assms(4) length_filter_le [of "at_wild p" ls] by linarith
  have d: "distinct (map fst w)" "0 \<notin> snd ` set w" using assms(1) by (simp_all add: wild_ok_def)
  show ?thesis
  proof (cases "map_of w ?p")
    case None
    have m: "map_of (w @ [(?p, 1)]) p = (if p = ?p then Some 1 else map_of w p)" for p
      using None by (simp add: map_add_def split: option.split)
    have "wild_ok (w @ [(?p, 1)]) ls'"
    proof (rule wild_okI)
      show "distinct (map fst (w @ [(?p, 1)]))" using d None by (simp add: map_of_eq_None_iff)
      show "0 \<notin> snd ` set (w @ [(?p, 1)])" using d by auto
    qed (unfold m cnt wild_length [OF assms(1)], simp add: None)
    then show ?thesis using None by (simp add: tp_add_wildcard_def)
  next
    case (Some n)
    then have "unat n < 2 ^ 32 - 1" using wild_length [OF assms(1), of ?p] small [of ?p] by simp
    then have n1: "unat (n + 1) = unat n + 1" by (simp add: unat_word_ariths(1))
    then have n2: "n + 1 \<noteq> 0" by (metis add_is_0 one_neq_zero unat_0)
    let ?w = "map (\<lambda>(p, n). (p, if p = ?p then n + 1 else n)) w"
    have "wild_ok ?w ls'"
    proof (rule wild_okI)
      show "distinct (map fst ?w)" using d by (simp add: comp_def case_prod_unfold)
      show "0 \<notin> snd ` set ?w" using wild_values [OF d _ Some] n2 d(2) by (force split: if_splits)
    qed (unfold map_of_map_if cnt wild_length [OF assms(1)], simp add: Some n1)
    then show ?thesis using Some by (simp add: tp_add_wildcard_def)
  qed
qed

lemma wild_ok_remove:
  assumes "wild_ok w ls" "mset ls = add_mset l (mset ls')" "ls_wild l \<noteq> 0"
  shows "wild_ok (tp_remove_wildcard (ls_wild l) w) ls'"
proof -
  let ?p = "ucast (ls_wild l) :: u32"
  have cnt: "length (filter (at_wild p) ls) = length (filter (at_wild p) ls') + (if p = ?p then 1 else 0)" for p
    using assms(2,3) by (auto simp: filter_length_mset at_wild_def)
  obtain n where n: "map_of w ?p = Some n" "unat n = length (filter (at_wild ?p) ls') + 1"
    using assms(1) cnt [of ?p] by (auto simp: wild_ok_def split: option.splits)
  have d: "distinct (map fst w)" "0 \<notin> snd ` set w" using assms(1) by (simp_all add: wild_ok_def)
  have len: "length (filter (at_wild p) ls') = (case map_of w p of None \<Rightarrow> 0 | Some n \<Rightarrow> unat n) - (if p = ?p then 1 else 0)" for p
    using cnt [of p] wild_length [OF assms(1), of p] by simp
  show ?thesis
  proof (cases "n = 1")
    case True
    have "wild_ok (filter (\<lambda>(p, n). p \<noteq> ?p) w) ls'"
      by (rule wild_okI) (use d in \<open>auto simp: distinct_map_filter map_of_filter_other len n True\<close>)
    then show ?thesis using n True by (simp add: tp_remove_wildcard_def)
  next
    case False
    have "n \<noteq> 0" using n(2) by auto
    then have n1: "unat (n - 1) = unat n - 1" "n - 1 \<noteq> 0" using False by (auto simp: unat_minus_one)
    let ?w = "map (\<lambda>(p, n). (p, if p = ?p then n - 1 else n)) w"
    have "wild_ok ?w ls'"
    proof (rule wild_okI)
      show "distinct (map fst ?w)" using d by (simp add: comp_def case_prod_unfold)
      show "0 \<notin> snd ` set ?w" using wild_values [OF d _ n(1)] n1(2) d(2) by (force split: if_splits)
    qed (unfold map_of_map_if len, simp add: n(1) n1)
    then show ?thesis using n False by (simp add: tp_remove_wildcard_def)
  qed
qed

section \<open>Listeners and the messages they match\<close>

lemma wild_prefix:
  "wild_loop w k = Some p \<Longrightarrow> match_loop w s k k \<Longrightarrow>
   k \<le> p \<and> p < length s \<and> p < length w \<and> (\<forall>j. k \<le> j \<and> j < p \<longrightarrow> s ! j = w ! j)"
proof (induction w k rule: wild_loop.induct)
  case (1 w k)
  have k: "k < length w" using 1(2) by (subst (asm) wild_loop.simps) (auto split: if_splits)
  have ks: "k < length s" using 1(3) k by (subst (asm) match_loop.simps) (auto split: if_splits)
  show ?case
  proof (cases "is_gt_at w k \<or> is_star_at w k")
    case True
    then have "p = k" using 1(2) k by (subst (asm) wild_loop.simps) (auto split: if_splits)
    then show ?thesis using k ks by auto
  next
    case False
    have "wild_loop w (Suc k) = Some p" using 1(2) k False by (subst (asm) wild_loop.simps) simp
    moreover have "s ! k = w ! k" "match_loop w s (Suc k) (Suc k)"
      using 1(3) k ks False by (subst (asm) match_loop.simps, auto split: if_splits)+
    ultimately have "Suc k \<le> p \<and> p < length s \<and> p < length w \<and> (\<forall>j. Suc k \<le> j \<and> j < p \<longrightarrow> s ! j = w ! j)"
      using 1(1) k False by simp
    then show ?thesis using \<open>s ! k = w ! k\<close> by (metis Suc_leD Suc_leI le_neq_implies_less)
  qed
qed

lemma match_prefix:
  assumes "is_rv_wildcard w = Some p" "match_rv_wildcard w s"
  shows "p < length s" "p < length w" "take p s = take p w"
  using wild_prefix [of w 0 p s] assms
  by (auto simp: is_rv_wildcard_def match_rv_wildcard_def intro!: nth_equalityI)

lemma wild_pos: "is_rv_wildcard w = Some p \<Longrightarrow> p < length w"
proof -
  have "wild_loop w k = Some p \<Longrightarrow> p < length w" for k
    by (induction w k rule: wild_loop.induct) (subst (asm) (2) wild_loop.simps, auto split: if_splits)
  then show "is_rv_wildcard w = Some p \<Longrightarrow> p < length w" by (simp add: is_rv_wildcard_def)
qed

lemma listener_new_facts:
  assumes "listener_new E i q k subj = Some l"
  shows "ls_id l = i" "ls_subject l = subj" "ls_queue l = q" "ls_tport l = k" "\<not> ls_is_state l"
    "(ls_wild l \<noteq> 0) = (is_rv_wildcard subj \<noteq> None)"
  using assms by (auto simp: listener_new_def Let_def split: if_splits option.splits)

lemma listener_new_fits:
  assumes "listener_new E i q k subj = Some l" "length subj < 2 ^ 16"
  shows "ls_text l = subj"
    "is_rv_wildcard subj = None \<Longrightarrow> ls_hash l = ae_crc E subj 0"
    "is_rv_wildcard subj = Some p \<Longrightarrow> unat (ls_wild l) = p + 1 \<and> ls_hash l = ae_crc E (take p subj) (ucast (ls_wild l))"
proof -
  have "unat (of_nat (length subj) :: u16) = length subj" using assms(2) by (simp add: unat_of_nat)
  then show "ls_text l = subj"
    using assms(1) by (auto simp: ls_text_def listener_new_def Let_def split: if_splits option.splits)
  show "is_rv_wildcard subj = None \<Longrightarrow> ls_hash l = ae_crc E subj 0"
    using assms(1) by (auto simp: listener_new_def Let_def)
  assume p: "is_rv_wildcard subj = Some p"
  then have "unat (of_nat (p + 1) :: u16) = p + 1" using wild_pos [OF p] assms(2) by (subst unat_of_nat) simp
  then show "unat (ls_wild l) = p + 1 \<and> ls_hash l = ae_crc E (take p subj) (ucast (ls_wild l))"
    using assms(1) p by (auto simp: listener_new_def Let_def split: if_splits)
qed

text \<open>The tables of a transport.\<close>

definition tabs_ok :: "('r, 'f) api_env \<Rightarrow> listener_ht \<Rightarrow> (u32 \<times> u32) list \<Rightarrow> bool" where
  "tabs_ok E ht w \<longleftrightarrow> lh_ok ht \<and> distinct (map ls_id (lh_all ht)) \<and> wild_ok w (lh_all ht) \<and>
     (\<forall>l\<in>set (lh_all ht). listener_new E (ls_id l) (ls_queue l) (ls_tport l) (ls_subject l) = Some l)"

lemma count_filter_distinct: "distinct xs \<Longrightarrow> count_list (filter P xs) x = (if x \<in> set xs \<and> P x then 1 else 0)"
  by (induction xs) (auto simp: count_list_0_iff)

lemma count_list_mset: "count_list xs x = count (mset xs) x"
  by (induction xs) auto

lemma count_concat: "count_list (concat xss) x = sum_list (map (\<lambda>xs. count_list xs x) xss)"
  by (induction xss) auto

text \<open>The listeners with a given hash that are found in its chain.\<close>

lemma chain_count:
  assumes "tabs_ok E ht w" "l \<in> set (lh_all ht)"
  shows "count_list (filter (\<lambda>x. ls_hash x = h \<and> P x) (lh_chain h ht)) l = (if ls_hash l = h \<and> P l then 1 else 0)"
proof -
  have "distinct (lh_all ht)" "lh_ok ht" using assms(1) by (auto simp: tabs_ok_def distinct_map)
  then show ?thesis
    using assms(2) lt.chain_filter [of ht h P] count_filter_distinct [of "lh_all ht" "\<lambda>x. ls_hash x = h \<and> P x" l]
    by (simp add: count_list_mset)
qed

definition wild_found :: "('r, 'f) api_env \<Rightarrow> ev_pub \<Rightarrow> listener_ht \<Rightarrow> u32 \<Rightarrow> listener list" where
  "wild_found E pub ht pref =
     (if unat (pref - 1) \<ge> length (pb_subject pub) then []
      else let h = ae_crc E (take (unat (pref - 1)) (pb_subject pub)) pref
           in filter (\<lambda>l. ls_hash l = h \<and> ucast (ls_wild l) = pref \<and> match_rv_wildcard (ls_text l) (pb_subject pub))
                (lh_chain h ht))"

lemma all_hits_found:
  assumes "tabs_ok E (tp_ht t) (tp_wild t)"
  shows "all_hits E pub t = Some (plain_hits pub t @ concat (map (\<lambda>(p, n). wild_found E pub (tp_ht t) p) (tp_wild t)))"
proof -
  have nb: "lh_buckets (tp_ht t) \<noteq> []" if "(p, n) \<in> set (tp_wild t)" for p n
  proof
    assume "lh_buckets (tp_ht t) = []"
    then have "lh_all (tp_ht t) = []" by (simp add: lh_all_def)
    moreover have "unat n = length (filter (at_wild p) (lh_all (tp_ht t)))" "n \<noteq> 0"
      using wild_entry assms that by (auto simp: tabs_ok_def)
    ultimately show False by (simp add: unat_eq_zero)
  qed
  have "those (map (\<lambda>(p, n). wild_hits E pub t p) w) = Some (map (\<lambda>(p, n). wild_found E pub (tp_ht t) p) w)"
    if "set w \<subseteq> set (tp_wild t)" for w
    using that by (induction w) (auto simp: wild_hits_def wild_found_def Let_def lh_chain_def dest: nb)
  then show ?thesis by (simp add: all_hits_def)
qed

lemma sum_one: "distinct ps \<Longrightarrow> sum_list (map (\<lambda>q. if q = p \<and> m then 1 else 0 :: nat) ps) = (if p \<in> set ps \<and> m then 1 else 0)"
  by (induction ps) auto

text \<open>A message finds a listener once when its subject matches, and not otherwise.\<close>

lemma hits_once:
  assumes ok: "tabs_ok E (tp_ht t) (tp_wild t)" and l: "l \<in> set (lh_all (tp_ht t))" "length (ls_subject l) < 2 ^ 16"
    and h: "pb_hash pub = ae_crc E (pb_subject pub) 0"
  shows "\<exists>hs. all_hits E pub t = Some hs \<and>
    count_list hs l = (if match_rv_wildcard (ls_subject l) (pb_subject pub) then 1 else 0)"
proof -
  let ?m = "match_rv_wildcard (ls_subject l) (pb_subject pub)" and ?w = "tp_wild t" and ?f = "wild_found E pub (tp_ht t)"
  have new: "listener_new E (ls_id l) (ls_queue l) (ls_tport l) (ls_subject l) = Some l" using ok l by (simp add: tabs_ok_def)
  note same = listener_new_fits(1) [OF new l(2)]
  have plain: "count_list (plain_hits pub t) l = (if ls_wild l = 0 \<and> ls_hash l = pb_hash pub \<and> ls_subject l = pb_subject pub then 1 else 0)"
  proof -
    have "plain_hits pub t = filter (\<lambda>x. ls_hash x = pb_hash pub \<and> ls_wild x = 0 \<and> ls_text x = pb_subject pub) (lh_chain (pb_hash pub) (tp_ht t))"
      by (simp add: plain_hits_def lh_chain_def)
    then show ?thesis using chain_count [OF ok l(1), of "pb_hash pub" "\<lambda>x. ls_wild x = 0 \<and> ls_text x = pb_subject pub"] same by auto
  qed
  have one: "count_list (?f p) l = (if unat (p - 1) < length (pb_subject pub) \<and>
      ls_hash l = ae_crc E (take (unat (p - 1)) (pb_subject pub)) p \<and> ucast (ls_wild l) = p \<and> ?m then 1 else 0)" for p
    using chain_count [OF ok l(1)] same by (simp add: wild_found_def Let_def)
  show ?thesis
  proof (cases "is_rv_wildcard (ls_subject l)")
    case None
    then have w0: "ls_wild l = 0" using listener_new_facts(6) [OF new] by simp
    have "count_list (?f p) l = 0" if "(p, n) \<in> set ?w" for p n
    proof -
      have "p \<noteq> 0"
      proof
        assume "p = 0"
        moreover have "wild_ok ?w (lh_all (tp_ht t))" using ok by (simp add: tabs_ok_def)
        ultimately have "length (filter (at_wild 0) (lh_all (tp_ht t))) \<noteq> 0" using wild_entry [OF _ that] by (metis unat_eq_zero)
        then show False by (auto simp: at_wild_def filter_empty_conv dest: ucast_zero)
      qed
      then show ?thesis using one [of p] w0 by auto
    qed
    then have "sum_list (map (\<lambda>xs. count_list xs l) (map (\<lambda>(p, n). ?f p) ?w)) = 0"
      by (force simp: sum_list_eq_0_iff)
    then show ?thesis
      using plain w0 None listener_new_fits(2) [OF new l(2) None] h all_hits_found [OF ok, of pub]
      by (auto simp: count_concat no_wildcard_matches_itself)
  next
    case (Some p)
    note wp = listener_new_fits(3) [OF new l(2) Some]
    let ?p = "ucast (ls_wild l) :: u32"
    have "?p \<noteq> 0" using wp ucast_zero [of "ls_wild l"] by auto
    then have up: "unat (?p - 1) = p" using wp by (simp add: unat_minus_one unat_ucast16)
    have w0: "ls_wild l \<noteq> 0" using wp by auto
    have cnt: "count_list (?f q) l = (if q = ?p \<and> ?m then 1 else 0)" for q
      using one [of q] up wp match_prefix [OF Some] by (cases "q = ?p") auto
    have "l \<in> set (filter (at_wild ?p) (lh_all (tp_ht t)))" using l(1) w0 by (simp add: at_wild_def)
    then have "length (filter (at_wild ?p) (lh_all (tp_ht t))) \<noteq> 0" by (metis length_0_conv list.set_cases neq_Nil_conv empty_iff list.set(1))
    moreover have "wild_ok ?w (lh_all (tp_ht t))" using ok by (simp add: tabs_ok_def)
    ultimately have "map_of ?w ?p \<noteq> None" using wild_length [of ?w "lh_all (tp_ht t)" ?p] by (metis option.simps(4))
    then have "?p \<in> set (map fst ?w)" by (simp add: map_of_eq_None_iff)
    moreover have "distinct (map fst ?w)" using ok by (simp add: tabs_ok_def wild_ok_def)
    ultimately have "sum_list (map (\<lambda>q. count_list (?f q) l) (map fst ?w)) = (if ?m then 1 else 0)"
      using sum_one [of "map fst ?w" ?p ?m] by (simp add: cnt)
    then show ?thesis
      using plain w0 all_hits_found [OF ok, of pub] by (auto simp: count_concat comp_def case_prod_unfold)
  qed
qed

end
