(* ===== verification/Api_Steps.thy ===== *)
theory Api_Steps
  imports Api_Tables Svc_Frame
begin

text \<open>
  The steps of the interface and the invariant of its tables: the registry and the tables of the transports
  name the same listeners. Most operations leave the tables as they are; the relation \<open>same_tabs\<close> says so
  and is carried through them by the rules of \<open>frame_rel\<close>.
\<close>

section \<open>Tables and registry\<close>

datatype tab_view = VOther | VListener listener | VTport listener_ht "(u32 \<times> u32) list" "listener option"

definition obj_view :: "api_obj option \<Rightarrow> tab_view" where
  "obj_view x = (case x of Some (OListener l) \<Rightarrow> VListener l
     | Some (OTransport t) \<Rightarrow> VTport (tp_ht t) (tp_wild t) (tp_state_listener t) | _ \<Rightarrow> VOther)"

definition tabs :: "api \<Rightarrow> u32 \<Rightarrow> tab_view" where
  "tabs s i = obj_view (ap_objs s i)"

lemma obj_view_simps [simp]:
  "obj_view None = VOther" "obj_view (Some (OListener l)) = VListener l" "obj_view (Some (OQueue q)) = VOther"
  "obj_view (Some (OTimer i)) = VOther" "obj_view (Some OGroup) = VOther" "obj_view (Some ODispatcher) = VOther"
  "obj_view (Some (OTransport t)) = VTport (tp_ht t) (tp_wild t) (tp_state_listener t)"
  by (simp_all add: obj_view_def)

lemma tabs_upd [simp]:
  "tabs (put_obj i x s) = (tabs s)(i := obj_view x)"
  "tabs (put_tport k t s) = (tabs s)(k := VTport (tp_ht t) (tp_wild t) (tp_state_listener t))"
  "tabs (ap_emit e s) = tabs s" "tabs (s\<lparr>ap_ctx := c\<rparr>) = tabs s" "tabs (s\<lparr>ap_next := n\<rparr>) = tabs s"
  "tabs (s\<lparr>ap_tls := tls\<rparr>) = tabs s" "tabs (s\<lparr>ap_dirty := d\<rparr>) = tabs s"
  by (auto simp: tabs_def put_obj_def put_tport_def ap_emit_def fun_eq_iff)

lemma get_tabs:
  "get_tport k s = Some t \<Longrightarrow> tabs s k = VTport (tp_ht t) (tp_wild t) (tp_state_listener t)"
  "get_listener i s = Some l \<Longrightarrow> tabs s i = VListener l"
  "get_queue i s = Some q \<Longrightarrow> tabs s i = VOther"
  by (auto simp: get_tport_def get_listener_def get_queue_def tabs_def split: option.splits api_obj.splits)

lemma tabs_get:
  "tabs s i = VListener l \<Longrightarrow> get_listener i s = Some l"
  "tabs s k = VTport ht w st \<Longrightarrow> \<exists>t. get_tport k s = Some t \<and> tp_ht t = ht \<and> tp_wild t = w \<and> tp_state_listener t = st"
  by (auto simp: get_tport_def get_listener_def tabs_def obj_view_def split: option.splits api_obj.splits)

lemma get_tport_upd [simp]:
  "get_tport k (put_tport k t s) = Some t" "get_tport k (ap_emit e s) = get_tport k s"
  "get_tport k (s\<lparr>ap_ctx := c\<rparr>) = get_tport k s" "get_tport k (s\<lparr>ap_tls := tls\<rparr>) = get_tport k s"
  "get_tport k (s\<lparr>ap_next := n\<rparr>) = get_tport k s" "get_tport k (s\<lparr>ap_dirty := d\<rparr>) = get_tport k s"
  by (simp_all add: get_tport_def put_tport_def put_obj_def ap_emit_def)

definition reg_ok :: "('r, 'f) api_env \<Rightarrow> (u32 \<Rightarrow> tab_view) \<Rightarrow> bool" where
  "reg_ok E v \<longleftrightarrow>
     (\<forall>i l. v i = VListener l \<longrightarrow> ls_id l = i \<and> i \<noteq> 0 \<and>
        (\<exists>ht w st. v (ls_tport l) = VTport ht w st \<and> (\<not> ls_is_state l \<longrightarrow> l \<in> set (lh_all ht)))) \<and>
     (\<forall>k ht w st. v k = VTport ht w st \<longrightarrow> tabs_ok E ht w \<and>
        (\<forall>l\<in>set (lh_all ht). v (ls_id l) = VListener l \<and> ls_tport l = k) \<and>
        (\<forall>l. st = Some l \<longrightarrow> v (ls_id l) = VListener l \<and> ls_is_state l \<and> ls_tport l = k))"

section \<open>Operations that leave the tables alone\<close>

definition same_tabs :: "api \<Rightarrow> api \<Rightarrow> bool" where
  "same_tabs s s' \<longleftrightarrow> tabs s' = tabs s"

interpretation tb: frame_rel same_tabs
  by unfold_locales (simp_all add: same_tabs_def)

named_theorems tab_rules

lemma same_put:
  assumes "get_tport k s = Some t" "tp_ht t' = tp_ht t" "tp_wild t' = tp_wild t" "tp_state_listener t' = tp_state_listener t"
  shows "same_tabs s (put_tport k t' s)"
  using get_tabs(1) [OF assms(1)] assms by (simp add: same_tabs_def fun_upd_idem)

lemma same_emit: "same_tabs s (ap_emit e s)" "same_tabs s (s\<lparr>ap_ctx := c\<rparr>)" "same_tabs s (s\<lparr>ap_tls := tls\<rparr>)"
  "same_tabs s (s\<lparr>ap_next := n\<rparr>)" "same_tabs s (s\<lparr>ap_dirty := d\<rparr>)"
  by (simp_all add: same_tabs_def)

lemma same_trans: "same_tabs a b \<Longrightarrow> same_tabs b c \<Longrightarrow> same_tabs a c"
  by (rule tb.ftrans)

lemmas [tab_rules] = tb.frefl same_emit

text \<open>The same after other operations.\<close>

lemma same_after:
  "same_tabs s a \<Longrightarrow> get_tport k a = Some t \<Longrightarrow> tp_ht t' = tp_ht t \<Longrightarrow> tp_wild t' = tp_wild t \<Longrightarrow>
    tp_state_listener t' = tp_state_listener t \<Longrightarrow> same_tabs s (put_tport k t' a)"
  "same_tabs s a \<Longrightarrow> same_tabs s (ap_emit e a)" "same_tabs s a \<Longrightarrow> same_tabs s (a\<lparr>ap_ctx := c\<rparr>)"
  by (auto elim: same_trans intro: same_put same_emit)

lemma same_deliver: "same_tabs s (deliver_msg E pub l s)"
  by (simp add: deliver_msg_def same_tabs_def)

lemma same_on_rv_msg: "on_rv_msg E k pub s = Some s' \<Longrightarrow> same_tabs s s'"
  by (auto simp: on_rv_msg_def bind_eq_Some_conv split: if_splits option.splits
      intro!: same_put tb.ffold same_deliver tab_rules)

lemma same_push_state: "push_state E k cl nm de s = Some s' \<Longrightarrow> same_tabs s s'"
  by (auto simp: push_state_def bind_eq_Some_conv Let_def split: if_splits option.splits
      intro: same_on_rv_msg same_trans [OF same_deliver same_on_rv_msg])

lemma same_arm: "arm_reconnect k s = Some s' \<Longrightarrow> same_tabs s s'"
  by (auto simp: arm_reconnect_def bind_eq_Some_conv split: if_splits
      intro!: tab_rules same_trans [OF same_put same_emit(1)])

lemma same_on_connect: "tp_on_connect E k s = Some s' \<Longrightarrow> same_tabs s s'"
  by (auto simp: tp_on_connect_def bind_eq_Some_conv resubscribe_def split: if_splits
      intro!: tab_rules elim!: same_trans [OF _ same_push_state, rotated] intro!: same_after(1,2))

lemma same_on_shutdown: "tp_on_shutdown E k err s = Some s' \<Longrightarrow> same_tabs s s'"
  by (auto simp: tp_on_shutdown_def bind_eq_Some_conv split: if_splits
      intro: same_arm same_trans [OF same_push_state same_arm])

lemma same_reconnect: "reconnect_timer E k sock s = Some (b, s') \<Longrightarrow> same_tabs s s'"
  by (auto simp: reconnect_timer_def bind_eq_Some_conv Let_def split: if_splits prod.splits
      intro!: same_put same_trans [OF same_put same_emit(1)])

lemma same_create_end: "create_transport_end k s = Some (st, j, s') \<Longrightarrow> same_tabs s s'"
  by (auto simp: create_transport_end_def bind_eq_Some_conv Let_def split: if_splits intro!: same_put)

lemma same_close: "close_tport k s = Some s' \<Longrightarrow> same_tabs s s'"
  by (auto simp: close_tport_def bind_eq_Some_conv Let_def split: if_splits
      intro!: tab_rules same_put same_trans [OF same_put same_emit(1)] same_trans [OF same_trans [OF same_put same_emit(1)] same_emit(1)])

lemma same_send: "tport_send E k pub s = Some s' \<Longrightarrow> same_tabs s s'"
  by (auto simp: tport_send_def bind_eq_Some_conv split: if_splits intro!: same_put tab_rules)

lemma same_sendv: "tport_sendv E k ps s = Some s' \<Longrightarrow> same_tabs s s'"
  by (induction E k ps s rule: tport_sendv.induct)
    (auto simp: bind_eq_Some_conv intro: tab_rules same_trans [OF same_send])

lemma same_append: "send_ctx_append a t ms s = Some (b, s') \<Longrightarrow> same_tabs s s'"
  by (auto simp: send_ctx_append_def bind_eq_Some_conv Let_def split: option.splits intro!: tab_rules)

lemma same_alloc: "alloc_ctx k s = (a, s') \<Longrightarrow> same_tabs s s' \<and> get_tport j s' = get_tport j s"
  by (auto simp: alloc_ctx_def same_tabs_def)

lemma same_get_ctx: "get_send_ctx th k s = Some (a, s') \<Longrightarrow> same_tabs s s'"
  by (auto simp: get_send_ctx_def bind_eq_Some_conv Let_def alloc_ctx_def same_tabs_def fun_upd_idem get_tabs split: option.splits)

lemma same_drain_ctx: "drain_ctx E k a s = Some s' \<Longrightarrow> same_tabs s s'"
  by (auto simp: drain_ctx_def bind_eq_Some_conv dest!: same_sendv intro: same_trans [OF _ same_emit(2)])

lemma same_drain_all: "drain_all E k as s = Some s' \<Longrightarrow> same_tabs s s'"
  by (induction E k as s rule: drain_all.induct)
    (auto simp: bind_eq_Some_conv intro: tab_rules same_trans [OF same_drain_ctx])

text \<open>The parts of a drain.\<close>

definition drain_rest :: "('r, 'f) api_env \<Rightarrow> u32 \<Rightarrow> tport \<Rightarrow> api \<Rightarrow> api \<Rightarrow> bool" where
  "drain_rest E k t s1 s' \<longleftrightarrow>
     (case tp_sb_fill t of
        None \<Rightarrow> s' = put_tport k (t\<lparr>tp_sb_pending := False\<rparr>) s1
      | Some full \<Rightarrow>
          (\<exists>c. ap_ctx s1 full = Some c \<and>
             (if sc_pubs c = [] then s' = put_tport k (t\<lparr>tp_sb_pending := False\<rparr>) s1
              else drain_ctx E k full (put_tport k (t\<lparr>tp_sb_pending := False, tp_sb_fill := tp_sb_spare t,
                     tp_sb_spare := Some full\<rparr>) s1) = Some s')))"

lemma drain_parts:
  assumes "drain_transport E k s = Some s'"
  shows "\<exists>t0 s1 t. get_tport k s = Some t0 \<and> drain_all E k (tp_writers t0) s = Some s1 \<and> get_tport k s1 = Some t \<and>
    drain_rest E k t s1 s'"
proof -
  obtain t0 s1 t where p: "get_tport k s = Some t0" "drain_all E k (tp_writers t0) s = Some s1" "get_tport k s1 = Some t"
    using assms by (auto simp: drain_transport_def bind_eq_Some_conv)
  then have "drain_rest E k t s1 s'"
    using assms unfolding drain_transport_def drain_rest_def
    by (cases "tp_sb_fill t") (auto simp: bind_eq_Some_conv Let_def split: if_splits)
  then show ?thesis using p by blast
qed

lemma same_drain:
  assumes "drain_transport E k s = Some s'"
  shows "same_tabs s s'"
proof -
  obtain t0 s1 t where "get_tport k s = Some t0" and
    s1: "drain_all E k (tp_writers t0) s = Some s1" "get_tport k s1 = Some t" "drain_rest E k t s1 s'"
    using drain_parts [OF assms] by blast
  have put: "same_tabs s (put_tport k t' s1)"
    if "tp_ht t' = tp_ht t" "tp_wild t' = tp_wild t" "tp_state_listener t' = tp_state_listener t" for t'
    by (rule same_after(1) [OF same_drain_all [OF s1(1)] s1(2) that])
  show ?thesis using s1(3) unfolding drain_rest_def
    by (auto split: option.splits if_splits intro: put elim!: same_trans [OF _ same_drain_ctx, rotated])
qed

lemma same_note: "note_dispatch_send E th d k s = Some s' \<Longrightarrow> same_tabs s s'"
  by (auto simp: note_dispatch_send_def split: if_splits intro: tab_rules same_drain)

lemma same_flush_ids: "flush_ids E ks s = Some s' \<Longrightarrow> same_tabs s s'"
  by (induction E ks s rule: flush_ids.induct)
    (auto simp: bind_eq_Some_conv split: option.splits if_splits intro: tab_rules same_trans [OF same_drain])

lemma same_flush_dispatch: "flush_dispatch_sends E th s = Some s' \<Longrightarrow> same_tabs s s'"
  unfolding flush_dispatch_sends_def by (rule same_trans [OF same_emit(5) same_flush_ids])

lemma same_sendv_api:
  assumes "api_sendv E th d k ms s = Some (st, s')"
  shows "same_tabs s s'"
proof (cases "ms = [] \<or> get_tport k s = None")
  case True
  then show ?thesis using assms by (auto simp: api_sendv_def split: if_splits intro: tab_rules)
next
  case False
  then obtain t where t: "get_tport k s = Some t" "ms \<noteq> []" by auto
  have noted: "same_tabs s s2" if "(if tp_dispatch_flush t then note_dispatch_send E th d k s1 else Some s1) = Some s2" "same_tabs s s1" for s1 s2
    using that by (auto split: if_splits intro: same_trans [OF _ same_note])
  show ?thesis
  proof (cases "tp_batch_mode t")
    case DEFAULT_BATCH
    then show ?thesis using assms t by (auto simp: api_sendv_def intro: same_sendv)
  next
    case TIMER_BATCH
    then obtain a s1 full s2 where p: "get_send_ctx th k s = Some (a, s1)" "send_ctx_append (Some a) t ms s1 = Some (full, s2)"
      "(if full then drain_transport E k s2
        else if tp_dispatch_flush t then note_dispatch_send E th d k s2 else Some s2) = Some s'"
      using assms t by (auto simp: api_sendv_def bind_eq_Some_conv Let_def)
    have s2: "same_tabs s s2" by (rule same_trans [OF same_get_ctx [OF p(1)] same_append [OF p(2)]])
    show ?thesis using p(3) by (cases full) (auto intro: same_trans [OF s2 same_drain] noted [OF _ s2])
  next
    case SINGLE_BATCH
    then obtain full s2 where p: "send_ctx_append (tp_sb_fill t) t ms s = Some (full, s2)"
      "(if full \<and> \<not> tp_sb_pending t then drain_transport E k (put_tport k (t\<lparr>tp_sb_pending := True\<rparr>) s2)
        else if tp_dispatch_flush t then note_dispatch_send E th d k s2 else Some s2) = Some s'"
      using assms t by (auto simp: api_sendv_def bind_eq_Some_conv Let_def)
    have s2: "same_tabs s s2" by (rule same_append [OF p(1)])
    have t2: "get_tport k s2 = Some t" using p(1) t(1) by (auto simp: send_ctx_append_def bind_eq_Some_conv Let_def split: option.splits)
    have "same_tabs s (put_tport k (t\<lparr>tp_sb_pending := True\<rparr>) s2)" by (rule same_after(1) [OF s2 t2]) simp_all
    then show ?thesis using p(2)
      by (cases "full \<and> \<not> tp_sb_pending t") (auto intro: same_trans [OF _ same_drain] noted [OF _ s2])
  qed
qed

lemma same_flush_unless: "flush_unless_default E k t s = Some s' \<Longrightarrow> same_tabs s s'"
  by (auto simp: flush_unless_default_def split: if_splits intro: same_drain tab_rules)

lemma same_request: "send_request E k key m s = Some (st, m', s') \<Longrightarrow> same_tabs s s'"
  by (auto simp: send_request_def bind_eq_Some_conv Let_def split: option.splits if_splits
      intro!: tab_rules elim!: same_trans [OF _ same_send, rotated] intro!: same_after(1) [OF same_flush_unless])

lemma same_end_request: "end_request k key s = Some (st, r, s') \<Longrightarrow> same_tabs s s'"
  by (auto simp: end_request_def bind_eq_Some_conv intro!: same_put)

lemma same_reply: "send_reply E k m r s = Some (st, s') \<Longrightarrow> same_tabs s s'"
  by (auto simp: send_reply_def bind_eq_Some_conv split: option.splits
      intro: tab_rules same_trans [OF same_flush_unless same_send])

lemma same_batch_timer: "batch_timer E k s = Some (b, s') \<Longrightarrow> same_tabs s s'"
  by (auto simp: batch_timer_def bind_eq_Some_conv intro: same_drain)

lemma same_on_tport:
  assumes "\<And>t. tp_ht (f t) = tp_ht t \<and> tp_wild (f t) = tp_wild t \<and> tp_state_listener (f t) = tp_state_listener t"
  shows "same_tabs s (snd (on_tport k f s))"
  using assms by (auto simp: on_tport_def split: option.split intro!: same_put tab_rules)

lemma same_settings:
  "same_tabs s (snd (set_batch_size k n s))" "same_tabs s (snd (set_batch_dispatch_flush k b s))"
  "same_tabs s (snd (set_wait_limit k n s))" "same_tabs s (snd (set_description k d s))"
  by (simp_all add: set_batch_size_def set_batch_dispatch_flush_def set_wait_limit_def set_description_def same_on_tport)

lemma same_batch_mode: "same_tabs s (snd (set_batch_mode k mode s))"
  by (auto simp: set_batch_mode_def Let_def alloc_ctx_def same_tabs_def fun_upd_idem get_tabs split: option.split)

lemma same_batch_interval: "same_tabs s (snd (set_batch_interval k secs s))"
  by (auto simp: set_batch_interval_def Let_def start_batch_timer_def stop_batch_timer_def same_tabs_def fun_upd_idem
      get_tabs split: option.split)

lemma same_inbox: "same_tabs s (snd (snd (create_inbox E k n s)))"
  by (auto simp: create_inbox_def split: option.split intro!: same_put tab_rules)

lemma same_free_ctxs: "same_tabs s (free_ctxs as s)" "get_tport k (free_ctxs as s) = get_tport k s"
  by (simp_all add: free_ctxs_def same_tabs_def)

lemma same_free_writers:
  assumes "free_transport_writers E k s = Some s'"
  shows "same_tabs s s'"
proof -
  obtain s1 t where "drain_transport E k s = Some s1" "get_tport k s1 = Some t"
    "s' = free_ctxs (tp_writers t) (put_tport k (t\<lparr>tp_writers := []\<rparr>) s1)"
    using assms by (auto simp: free_transport_writers_def bind_eq_Some_conv)
  then show ?thesis by (auto intro!: same_trans [OF _ same_free_ctxs(1)] same_after(1) [OF same_drain])
qed

lemma same_stop_timer: "get_tport k s = Some t \<Longrightarrow> same_tabs s (stop_batch_timer k t s)"
  by (auto simp: stop_batch_timer_def intro!: same_after(1) [OF same_emit(1)])

lemma same_free_buf:
  assumes "free_send_buf E k s = Some s'"
  shows "same_tabs s s'"
proof -
  obtain t0 s1 t where t0: "get_tport k s = Some t0"
    "drain_transport E k (if tp_sb_timer_active t0 then stop_batch_timer k t0 s else s) = Some s1"
    "get_tport k s1 = Some t"
    "s' = free_ctxs (map the (filter (\<lambda>x. x \<noteq> None) [tp_sb_fill t, tp_sb_spare t]))
       (put_tport k (t\<lparr>tp_sb_fill := None, tp_sb_spare := None\<rparr>) s1)"
    using assms unfolding free_send_buf_def bind_eq_Some_conv by blast
  have "same_tabs s (if tp_sb_timer_active t0 then stop_batch_timer k t0 s else s)"
    using same_stop_timer [OF t0(1)] by (auto intro: tab_rules)
  then have "same_tabs s s1" using same_drain [OF t0(2)] by (rule same_trans)
  then have "same_tabs s (put_tport k (t\<lparr>tp_sb_fill := None, tp_sb_spare := None\<rparr>) s1)"
    by (rule same_after(1) [OF _ t0(3)]) simp_all
  then show ?thesis unfolding t0(4) by (rule same_trans [OF _ same_free_ctxs(1)])
qed

lemma same_destroy_transport: "destroy_transport E k s = Some (st, s') \<Longrightarrow> same_tabs s s'"
  by (auto simp: destroy_transport_def bind_eq_Some_conv split: if_splits
      intro!: tab_rules elim!: same_trans [OF _ same_close, rotated]
      intro!: same_after(1) [OF same_trans [OF same_free_writers same_free_buf]])

lemma same_on_queue: "same_tabs s (snd (on_queue q f s))"
  by (auto simp: on_queue_def same_tabs_def fun_upd_idem get_tabs split: option.split)

lemma same_queue_settings:
  "same_tabs s (snd (set_queue_priority q prio s))" "same_tabs s (snd (set_queue_limit_policy q p m d s))"
  "same_tabs s (snd (set_queue_name q nm s))" "same_tabs s (snd (set_queue_hook q h s))"
  using same_on_queue [of s q]
  by (auto simp: set_queue_priority_def set_queue_limit_policy_def set_queue_name_def set_queue_hook_def Let_def
      case_prod_unfold split: option.split intro: same_after(2))

section \<open>Operations that change the tables\<close>

lemma reg_tport:
  assumes "reg_ok E v" "v k = VTport ht w st"
  shows "tabs_ok E ht w" "\<And>l. l \<in> set (lh_all ht) \<Longrightarrow> v (ls_id l) = VListener l \<and> ls_tport l = k"
    "\<And>l. st = Some l \<Longrightarrow> v (ls_id l) = VListener l \<and> ls_is_state l \<and> ls_tport l = k"
  using assms by (auto simp: reg_ok_def)

lemma reg_listener:
  assumes "reg_ok E v" "v i = VListener l"
  shows "ls_id l = i" "i \<noteq> 0" "\<exists>ht w st. v (ls_tport l) = VTport ht w st \<and> (\<not> ls_is_state l \<longrightarrow> l \<in> set (lh_all ht))"
  using assms by (auto simp: reg_ok_def)

lemma tabs_not_state: "tabs_ok E ht w \<Longrightarrow> l \<in> set (lh_all ht) \<Longrightarrow> \<not> ls_is_state l"
  using listener_new_facts(5) by (fastforce simp: tabs_ok_def)

lemma reg_okI:
  assumes "\<And>i l. v i = VListener l \<Longrightarrow> ls_id l = i \<and> i \<noteq> 0 \<and>
      (\<exists>ht w st. v (ls_tport l) = VTport ht w st \<and> (\<not> ls_is_state l \<longrightarrow> l \<in> set (lh_all ht)))"
    and "\<And>k ht w st. v k = VTport ht w st \<Longrightarrow> tabs_ok E ht w"
    and "\<And>k ht w st l. v k = VTport ht w st \<Longrightarrow> l \<in> set (lh_all ht) \<Longrightarrow> v (ls_id l) = VListener l \<and> ls_tport l = k"
    and "\<And>k ht w l. v k = VTport ht w (Some l) \<Longrightarrow> v (ls_id l) = VListener l \<and> ls_is_state l \<and> ls_tport l = k"
  shows "reg_ok E v"
  using assms unfolding reg_ok_def by blast

text \<open>There are fewer listeners than ids.\<close>

lemma listeners_bound:
  assumes "reg_ok E v" "v k = VTport ht w st" "v i = VOther" "i \<noteq> 0"
  shows "length (lh_all ht) < 2 ^ 32 - 1"
proof -
  have sub: "set (map ls_id (lh_all ht)) \<subseteq> UNIV - {0, i}"
    using reg_tport(2) [OF assms(1,2)] reg_listener(2) [OF assms(1)] assms(3) by force
  have "length (lh_all ht) = card (set (map ls_id (lh_all ht)))"
    using reg_tport(1) [OF assms(1,2)] by (metis distinct_card length_map tabs_ok_def)
  also have "\<dots> \<le> card (UNIV - {0, i} :: u32 set)" by (rule card_mono [OF _ sub]) simp
  also have "\<dots> = CARD(u32) - 2" using assms(4) by (simp add: card_Diff_subset)
  finally show ?thesis by (simp add: card_word)
qed

lemma reg_add:
  assumes r: "reg_ok E v" and k: "v k = VTport ht w st" and i: "v i = VOther" "i \<noteq> 0"
    and l: "listener_new E i q k subj = Some l" and p: "lh_push l ht = Some ht'"
    and w': "w' = (if is_rv_wildcard subj \<noteq> None then tp_add_wildcard (ls_wild l) w else w)"
  shows "reg_ok E (v(i := VListener l, k := VTport ht' w' st))"
proof -
  note lf = listener_new_facts [OF l] and t = reg_tport [OF r k]
  have ok: "lh_ok ht" "distinct (map ls_id (lh_all ht))" "wild_ok w (lh_all ht)" using t(1) by (simp_all add: tabs_ok_def)
  have ht': "lh_ok ht'" "mset (lh_all ht') = add_mset l (mset (lh_all ht))" using lt.push_law [OF ok(1), of l] p by auto
  have set: "set (lh_all ht') = insert l (set (lh_all ht))" using ht'(2) by (metis set_mset_mset set_mset_add_mset_insert)
  have new: "i \<notin> set (map ls_id (lh_all ht))" using t(2) i(1) by force
  have "mset (map ls_id (lh_all ht')) = mset (i # map ls_id (lh_all ht))" using ht'(2) lf(1) by simp
  then have "distinct (map ls_id (lh_all ht'))" using new ok(2) by (metis distinct.simps(2) mset_eq_imp_distinct_iff)
  moreover have "wild_ok w' (lh_all ht')"
  proof (cases "ls_wild l = 0")
    case True
    then have "length (filter (at_wild p) (lh_all ht')) = length (filter (at_wild p) (lh_all ht))" for p
      using ht'(2) by (simp add: filter_length_mset at_wild_def)
    then show ?thesis using ok(3) True lf(6) w' by (simp add: wild_ok_def)
  next
    case False
    then show ?thesis using wild_ok_add [OF ok(3) ht'(2) False listeners_bound [OF r k i]] lf(6) w' by simp
  qed
  moreover have "\<forall>x\<in>set (lh_all ht'). listener_new E (ls_id x) (ls_queue x) (ls_tport x) (ls_subject x) = Some x"
    using t(1) l lf set by (auto simp: tabs_ok_def)
  ultimately have tab: "tabs_ok E ht' w'" using ht'(1) by (simp add: tabs_ok_def)
  let ?v = "v(i := VListener l, k := VTport ht' w' st)"
  have ik: "i \<noteq> k" using i k by auto
  have keep: "?v j = VListener x" if "v j = VListener x" for j x using that i k by auto
  have inv: "j = i \<and> x = l \<or> v j = VListener x" if "?v j = VListener x" for j x using that ik by (auto split: if_splits)
  have tinv: "j = k \<and> a = ht' \<and> b = w' \<and> c = st \<or> j \<noteq> k \<and> v j = VTport a b c" if "?v j = VTport a b c" for j a b c
    using that ik by (auto split: if_splits)
  show ?thesis
  proof (rule reg_okI)
    fix j x assume "?v j = VListener x"
    then consider "j = i" "x = l" | "v j = VListener x" using inv by blast
    then show "ls_id x = j \<and> j \<noteq> 0 \<and> (\<exists>a b c. ?v (ls_tport x) = VTport a b c \<and> (\<not> ls_is_state x \<longrightarrow> x \<in> set (lh_all a)))"
    proof cases
      case 1
      then show ?thesis using lf i set by auto
    next
      case 2
      obtain a b c where "v (ls_tport x) = VTport a b c" "\<not> ls_is_state x \<longrightarrow> x \<in> set (lh_all a)"
        using reg_listener(3) [OF r 2] by blast
      then show ?thesis using reg_listener(1,2) [OF r 2] i k set by (cases "ls_tport x = k") auto
    qed
  next
    fix j a b c assume "?v j = VTport a b c"
    then show "tabs_ok E a b" using tinv tab reg_tport(1) [OF r] by blast
  next
    fix j a b c x assume x: "?v j = VTport a b c" "x \<in> set (lh_all a)"
    then consider "j = k" "x = l" | "j = k" "x \<in> set (lh_all ht)" | "v j = VTport a b c" using tinv set by blast
    then show "?v (ls_id x) = VListener x \<and> ls_tport x = j"
      by cases (use lf ik keep t(2) reg_tport(2) [OF r _ x(2)] in auto)
  next
    fix j a b x assume "?v j = VTport a b (Some x)"
    then show "?v (ls_id x) = VListener x \<and> ls_is_state x \<and> ls_tport x = j"
      using tinv [of j a b "Some x"] k reg_tport(3) [OF r] keep by blast
  qed
qed

lemma reg_del:
  assumes r: "reg_ok E v" and k: "v k = VTport ht w st" and l: "l \<in> set (lh_all ht)"
    and p: "lh_remove l ht = Some ht'" and w': "w' = (if ls_wild l \<noteq> 0 then tp_remove_wildcard (ls_wild l) w else w)"
  shows "reg_ok E (v(ls_id l := VOther, k := VTport ht' w' st))"
proof -
  note t = reg_tport [OF r k]
  have ok: "lh_ok ht" "distinct (map ls_id (lh_all ht))" "wild_ok w (lh_all ht)" using t(1) by (simp_all add: tabs_ok_def)
  have d: "inj_on ls_id (set (lh_all ht))" "distinct (lh_all ht)" using ok(2) by (simp_all add: distinct_map)
  have ht': "lh_ok ht'" "mset (lh_all ht') = mset (lh_all ht) - {#l#}" using lh_remove_ok [OF ok(1) l d] p by auto
  have m: "mset (lh_all ht) = add_mset l (mset (lh_all ht'))" using ht'(2) l by simp
  have "mset (map ls_id (lh_all ht)) = mset (ls_id l # map ls_id (lh_all ht'))" using m by simp
  then have dist: "distinct (ls_id l # map ls_id (lh_all ht'))" using ok(2) by (metis mset_eq_imp_distinct_iff)
  have set: "set (lh_all ht) = insert l (set (lh_all ht'))" using m by (metis set_mset_mset set_mset_add_mset_insert)
  have "wild_ok w' (lh_all ht')"
  proof (cases "ls_wild l = 0")
    case True
    then have "length (filter (at_wild p) (lh_all ht)) = length (filter (at_wild p) (lh_all ht'))" for p
      using m by (simp add: filter_length_mset at_wild_def)
    then show ?thesis using ok(3) True w' by (simp add: wild_ok_def)
  next
    case False
    then show ?thesis using wild_ok_remove [OF ok(3) m False] w' by simp
  qed
  then have tab: "tabs_ok E ht' w'" using ht'(1) dist t(1) set by (simp add: tabs_ok_def)
  have lv: "v (ls_id l) = VListener l" "ls_tport l = k" "\<not> ls_is_state l" using t(2) l tabs_not_state [OF t(1) l] by auto
  let ?v = "v(ls_id l := VOther, k := VTport ht' w' st)"
  have ik: "ls_id l \<noteq> k" using lv k by auto
  have keep: "?v j = VListener x" if "v j = VListener x" "j \<noteq> ls_id l" for j x using that k by auto
  have inv: "j \<noteq> ls_id l \<and> v j = VListener x" if "?v j = VListener x" for j x using that ik by (auto split: if_splits)
  have tinv: "j = k \<and> a = ht' \<and> b = w' \<and> c = st \<or> j \<noteq> k \<and> v j = VTport a b c" if "?v j = VTport a b c" for j a b c
    using that ik by (auto split: if_splits)
  show ?thesis
  proof (rule reg_okI)
    fix j x assume "?v j = VListener x"
    from inv [OF this] have x: "j \<noteq> ls_id l" "v j = VListener x" by blast+
    obtain a b c where y: "v (ls_tport x) = VTport a b c" "\<not> ls_is_state x \<longrightarrow> x \<in> set (lh_all a)"
      using reg_listener(3) [OF r x(2)] by blast
    have id: "ls_id x = j" "j \<noteq> 0" by (rule reg_listener [OF r x(2)])+
    show "ls_id x = j \<and> j \<noteq> 0 \<and> (\<exists>a b c. ?v (ls_tport x) = VTport a b c \<and> (\<not> ls_is_state x \<longrightarrow> x \<in> set (lh_all a)))"
    proof (cases "ls_tport x = k")
      case True
      then have "a = ht" using y(1) k by simp
      moreover have "x \<noteq> l" using id(1) x(1) by blast
      ultimately have "\<not> ls_is_state x \<longrightarrow> x \<in> set (lh_all ht')" using y(2) set by simp
      then show ?thesis using True id by simp
    next
      case False
      moreover have "ls_tport x \<noteq> ls_id l" using y(1) lv(1) by auto
      ultimately show ?thesis using y id by simp
    qed
  next
    fix j a b c assume "?v j = VTport a b c"
    from tinv [OF this] show "tabs_ok E a b" using tab reg_tport(1) [OF r, of j a b c] by blast
  next
    fix j a b c x assume x: "?v j = VTport a b c" "x \<in> set (lh_all a)"
    consider "j = k" "a = ht'" | "j \<noteq> k" "v j = VTport a b c" using tinv [OF x(1)] by argo
    then have "v (ls_id x) = VListener x \<and> ls_tport x = j \<and> ls_id x \<noteq> ls_id l"
    proof cases
      case 1
      have "x \<in> set (lh_all ht)" using x(2) 1(2) set by simp
      moreover have "ls_id x \<noteq> ls_id l" using x(2) 1(2) dist by (metis distinct.simps(2) image_eqI list.set_map)
      ultimately show ?thesis using t(2) 1(1) by blast
    next
      case 2
      have "v (ls_id x) = VListener x" "ls_tport x = j" using reg_tport(2) [OF r 2(2) x(2)] by blast+
      then show ?thesis using lv(1,2) 2(1) by (metis tab_view.inject(1))
    qed
    then show "?v (ls_id x) = VListener x \<and> ls_tport x = j" using keep by blast
  next
    fix j a b x assume "?v j = VTport a b (Some x)"
    from tinv [OF this] have x: "v (ls_id x) = VListener x" "ls_is_state x" "ls_tport x = j"
      using t(3) [of x] reg_tport(3) [OF r, of j a b "Some x" x] by blast+
    then have "ls_id x \<noteq> ls_id l" using lv(1,3) by (metis tab_view.inject(1))
    then show "?v (ls_id x) = VListener x \<and> ls_is_state x \<and> ls_tport x = j" using keep [OF x(1)] x by blast
  qed
qed

lemma reg_put_state:
  assumes r: "reg_ok E v" and k: "v k = VTport ht w st" and i: "v i = VOther" "i \<noteq> 0"
    and l: "ls_id l = i" "ls_is_state l" "ls_tport l = k"
    and v': "v' = v(i := VListener l, k := VTport ht w (Some l))"
  shows "reg_ok E (case st of None \<Rightarrow> v' | Some old \<Rightarrow> v'(ls_id old := VOther))"
proof -
  define v2 where "v2 = (case st of None \<Rightarrow> v' | Some old \<Rightarrow> v'(ls_id old := VOther))"
  have ik: "i \<noteq> k" using i k by auto
  have old: "v (ls_id x) = VListener x \<and> ls_is_state x \<and> ls_tport x = k" if "st = Some x" for x
    using reg_tport(3) [OF r k that] .
  have at: "v2 j = (if \<exists>x. st = Some x \<and> ls_id x = j then VOther else v' j)" for j
    by (simp add: v2_def split: option.split)
  have live: "v2 j = VListener x" if "v j = VListener x" "\<not> ls_is_state x \<or> ls_tport x \<noteq> k" for j x
    using that old i k ik by (auto simp: at v')
  have tp: "v2 j = VTport a b c \<longleftrightarrow> (if j = k then a = ht \<and> b = w \<and> c = Some l else v j = VTport a b c)" for j a b c
    using old i k ik by (auto simp: at v')
  have ls: "j = i \<and> x = l \<or> v j = VListener x" if "v2 j = VListener x" for j x
    using that ik by (auto simp: at v' split: if_splits)
  have "reg_ok E v2"
  proof (rule reg_okI)
    fix j x assume "v2 j = VListener x"
    from ls [OF this] consider "j = i" "x = l" | "v j = VListener x" by blast
    then show "ls_id x = j \<and> j \<noteq> 0 \<and> (\<exists>a b c. v2 (ls_tport x) = VTport a b c \<and> (\<not> ls_is_state x \<longrightarrow> x \<in> set (lh_all a)))"
    proof cases
      case 1
      then show ?thesis using l i tp [of k] by auto
    next
      case 2
      obtain a b c where y: "v (ls_tport x) = VTport a b c" "\<not> ls_is_state x \<longrightarrow> x \<in> set (lh_all a)"
        using reg_listener(3) [OF r 2] by blast
      then have "\<exists>c. v2 (ls_tport x) = VTport a b c" using tp k by (cases "ls_tport x = k") auto
      then show ?thesis using y(2) reg_listener(1,2) [OF r 2] by blast
    qed
  next
    fix j a b c assume "v2 j = VTport a b c"
    then show "tabs_ok E a b" using tp reg_tport(1) [OF r] k by (auto split: if_splits)
  next
    fix j a b c x assume x: "v2 j = VTport a b c" "x \<in> set (lh_all a)"
    then obtain c0 where j: "v j = VTport a b c0" using tp k by (auto split: if_splits)
    from reg_tport(2) [OF r j x(2)] tabs_not_state [OF reg_tport(1) [OF r j] x(2)]
    show "v2 (ls_id x) = VListener x \<and> ls_tport x = j" using live by blast
  next
    fix j a b x assume "v2 j = VTport a b (Some x)"
    then consider "j = k" "x = l" | "j \<noteq> k" "v j = VTport a b (Some x)" using tp by (auto split: if_splits)
    then show "v2 (ls_id x) = VListener x \<and> ls_is_state x \<and> ls_tport x = j"
    proof cases
      case 1
      have "\<not> (\<exists>y. st = Some y \<and> ls_id y = i)" using old i by auto
      then show ?thesis using 1 l ik by (simp add: at v')
    next
      case 2
      then show ?thesis using reg_tport(3) [OF r 2(2) refl] live by blast
    qed
  qed
  then show ?thesis by (simp add: v2_def)
qed

lemma reg_drop_state:
  assumes r: "reg_ok E v" and k: "v k = VTport ht w st" and l: "v i = VListener l" "ls_is_state l" "ls_tport l = k"
    and st: "st' = (if map_option ls_id st = Some i then None else st)"
  shows "reg_ok E (v(i := VOther, k := VTport ht w st'))"
proof -
  let ?v = "v(i := VOther, k := VTport ht w st')"
  have ik: "i \<noteq> k" using l k by auto
  have keep: "?v j = VListener x" if "v j = VListener x" "j \<noteq> i" for j x using that k by auto
  have tinv: "j = k \<and> a = ht \<and> b = w \<and> c = st' \<or> j \<noteq> k \<and> v j = VTport a b c" if "?v j = VTport a b c" for j a b c
    using that ik by (auto split: if_splits)
  have plain: "j \<noteq> i" if "v j = VListener x" "\<not> ls_is_state x \<or> ls_tport x \<noteq> k" for j x
    using that l by (metis tab_view.inject(1))
  show ?thesis
  proof (rule reg_okI)
    fix j x assume "?v j = VListener x"
    then have x: "j \<noteq> i" "v j = VListener x" using ik by (auto split: if_splits)
    obtain a b c where y: "v (ls_tport x) = VTport a b c" "\<not> ls_is_state x \<longrightarrow> x \<in> set (lh_all a)"
      using reg_listener(3) [OF r x(2)] by blast
    then have "\<exists>c. ?v (ls_tport x) = VTport a b c" using k l(1) by auto
    then show "ls_id x = j \<and> j \<noteq> 0 \<and> (\<exists>a b c. ?v (ls_tport x) = VTport a b c \<and> (\<not> ls_is_state x \<longrightarrow> x \<in> set (lh_all a)))"
      using y(2) reg_listener(1,2) [OF r x(2)] by blast
  next
    fix j a b c assume "?v j = VTport a b c"
    from tinv [OF this] show "tabs_ok E a b" using reg_tport(1) [OF r k] reg_tport(1) [OF r, of j a b c] by blast
  next
    fix j a b c x assume x: "?v j = VTport a b c" "x \<in> set (lh_all a)"
    obtain c0 where j: "v j = VTport a b c0" using tinv [OF x(1)] k by blast
    from reg_tport(2) [OF r j x(2)] tabs_not_state [OF reg_tport(1) [OF r j] x(2)]
    show "?v (ls_id x) = VListener x \<and> ls_tport x = j" using keep plain by blast
  next
    fix j a b x assume "?v j = VTport a b (Some x)"
    from tinv [OF this] consider "j = k" "st = Some x" "ls_id x \<noteq> i" | "j \<noteq> k" "v j = VTport a b (Some x)"
      using st by (auto split: if_splits)
    then show "?v (ls_id x) = VListener x \<and> ls_is_state x \<and> ls_tport x = j"
    proof cases
      case 1
      then show ?thesis using reg_tport(3) [OF r k] keep by blast
    next
      case 2
      then show ?thesis using reg_tport(3) [OF r 2(2) refl] keep plain by blast
    qed
  qed
qed

lemma tabs_ok_empty: "tabs_ok E \<lparr>lh_buckets = [], lh_count = 0\<rparr> []"
  by (simp add: tabs_ok_def lh_ok_def lh_placed_def lh_all_def lh_mask_def wild_ok_def)

lemma reg_new_tport:
  assumes "reg_ok E v" "v k = VOther"
  shows "reg_ok E (v(k := VTport \<lparr>lh_buckets = [], lh_count = 0\<rparr> [] None))"
proof -
  let ?v = "v(k := VTport \<lparr>lh_buckets = [], lh_count = 0\<rparr> [] None)"
  have keep: "?v j = x" if "v j = x" "x \<noteq> VOther" for j x using that assms(2) by auto
  have inv: "j = k \<and> a = \<lparr>lh_buckets = [], lh_count = 0\<rparr> \<and> b = [] \<and> c = None \<or> v j = VTport a b c"
    if "?v j = VTport a b c" for j a b c using that by (auto split: if_splits)
  show ?thesis
  proof (rule reg_okI)
    fix j l assume "?v j = VListener l"
    then have l: "v j = VListener l" by (simp split: if_splits)
    obtain a b c where "v (ls_tport l) = VTport a b c" "\<not> ls_is_state l \<longrightarrow> l \<in> set (lh_all a)"
      using reg_listener(3) [OF assms(1) l] by blast
    then have "?v (ls_tport l) = VTport a b c \<and> (\<not> ls_is_state l \<longrightarrow> l \<in> set (lh_all a))" using keep by blast
    then show "ls_id l = j \<and> j \<noteq> 0 \<and> (\<exists>a b c. ?v (ls_tport l) = VTport a b c \<and> (\<not> ls_is_state l \<longrightarrow> l \<in> set (lh_all a)))"
      using reg_listener(1,2) [OF assms(1) l] by blast
  next
    fix j a b c assume "?v j = VTport a b c"
    from inv [OF this] show "tabs_ok E a b" using tabs_ok_empty reg_tport(1) [OF assms(1)] by blast
  next
    fix j a b c l assume l: "?v j = VTport a b c" "l \<in> set (lh_all a)"
    then have "v j = VTport a b c" using inv [OF l(1)] by (auto simp: lh_all_def)
    from reg_tport(2) [OF assms(1) this l(2)] show "?v (ls_id l) = VListener l \<and> ls_tport l = j" using keep by blast
  next
    fix j a b l assume "?v j = VTport a b (Some l)"
    then have "v j = VTport a b (Some l)" using inv by blast
    from reg_tport(3) [OF assms(1) this refl] show "?v (ls_id l) = VListener l \<and> ls_is_state l \<and> ls_tport l = j"
      using keep by blast
  qed
qed

end
