(* ===== verification/Api_Delivery.thy ===== *)
theory Api_Delivery
  imports Api_Steps Cli_Run
begin

text \<open>
  What the transports of the interface guarantee: a message is given once to every listener that it
  matches and to no other one, and no operation on the tables fails.
\<close>

section \<open>The invariant of the registry\<close>

lemma same_subscribe:
  assumes "get_tport k s = Some t"
  shows "same_tabs s (pipe_subscribe E k l t s)" "same_tabs s (pipe_unsubscribe E k l t s)"
    "\<exists>t'. get_tport k (pipe_unsubscribe E k l t s) = Some t' \<and> tp_ht t' = tp_ht t \<and> tp_wild t' = tp_wild t"
  using assms
  by (auto simp: pipe_subscribe_def pipe_unsubscribe_def Let_def split: option.split intro!: same_put [OF assms] tab_rules)

lemma fresh_view: "ap_objs s i = None \<Longrightarrow> tabs s i = VOther"
  by (simp add: tabs_def)

lemma reg_create:
  assumes r: "reg_ok E (tabs s)" and i: "ap_objs s i = None" "i \<noteq> 0"
    and c: "create_listener E i q k subj s = Some (st, j, s')"
  shows "reg_ok E (tabs s')"
proof (cases "\<exists>t. valid_subject subj \<and> get_queue q s \<noteq> None \<and> get_tport k s = Some t")
  case False
  then show ?thesis using r c by (auto simp: create_listener_def split: if_splits option.splits)
next
  case True
  then obtain t where t: "get_tport k s = Some t" "valid_subject subj" "get_queue q s \<noteq> None" by blast
  obtain l ht where l: "listener_new E i q k subj = Some l" "lh_push l (tp_ht t) = Some ht"
    using c t by (auto simp: create_listener_def bind_eq_Some_conv)
  define w where "w = (if is_rv_wildcard subj \<noteq> None then tp_add_wildcard (ls_wild l) (tp_wild t) else tp_wild t)"
  define t1 where "t1 = t\<lparr>tp_wild := w, tp_ht := ht\<rparr>"
  define s1 where "s1 = put_tport k t1 (put_obj i (Some (OListener l)) s)"
  have s': "s' = (if tp_is_inbox E l t1 then s1 else pipe_subscribe E k l t1 s1)"
    using c t l by (auto simp: create_listener_def s1_def t1_def w_def Let_def split: if_splits)
  have "get_tport k s1 = Some t1" by (simp add: s1_def)
  then have "tabs s' = tabs s1" using same_subscribe(1) [of k s1 t1 E l] s' by (simp add: same_tabs_def)
  also have "\<dots> = (tabs s)(i := VListener l, k := VTport ht w (tp_state_listener t))" by (simp add: s1_def t1_def)
  finally show ?thesis
    using reg_add [OF r get_tabs(1) [OF t(1)] fresh_view [OF i(1)] i(2) l w_def] by simp
qed

lemma reg_destroy_listener:
  assumes r: "reg_ok E (tabs s)" and l: "get_listener i s = Some l" and d: "destroy_listener E l s = Some s'"
  shows "reg_ok E (tabs s')"
proof -
  let ?k = "ls_tport l" and ?s = "put_obj i None s"
  note lv = get_tabs(2) [OF l]
  have id: "ls_id l = i" by (rule reg_listener(1) [OF r lv])
  obtain ht w st where v: "tabs s ?k = VTport ht w st" "\<not> ls_is_state l \<longrightarrow> l \<in> set (lh_all ht)"
    using reg_listener(3) [OF r lv] by blast
  then obtain t where t: "get_tport ?k s = Some t" "tp_ht t = ht" "tp_wild t = w" "tp_state_listener t = st"
    using tabs_get(2) by blast
  have ik: "i \<noteq> ?k" using lv v(1) by auto
  then have ts: "get_tport ?k ?s = Some t" using t(1) by (simp add: get_tport_def put_obj_def)
  show ?thesis
  proof (cases "ls_is_state l")
    case True
    define st' where "st' = (if map_option ls_id st = Some i then None else st)"
    have "s' = (if map_option ls_id st = Some i then put_tport ?k (t\<lparr>tp_state_listener := None\<rparr>) ?s else ?s)"
      using d ts True t id by (simp add: destroy_listener_def Let_def)
    then have "tabs s' = (tabs s)(i := VOther, ?k := VTport ht w st')"
      using t v(1) ik by (auto simp: st'_def fun_upd_idem fun_upd_twist)
    then show ?thesis using reg_drop_state [OF r v(1) lv True refl st'_def] by simp
  next
    case False
    define s1 where "s1 = (if tp_is_inbox E l t then ?s else pipe_unsubscribe E ?k l t ?s)"
    have same: "same_tabs ?s s1" using same_subscribe(2) [OF ts, of E l] by (simp add: s1_def tab_rules)
    have "\<exists>t1. get_tport ?k s1 = Some t1 \<and> tp_ht t1 = ht \<and> tp_wild t1 = w"
      using same_subscribe(3) [OF ts, of E l] ts t by (cases "tp_is_inbox E l t") (auto simp: s1_def)
    then obtain t1 where t1: "get_tport ?k s1 = Some t1" "tp_ht t1 = ht" "tp_wild t1 = w" by blast
    then have st1: "tp_state_listener t1 = st"
      using get_tabs(1) [OF t1(1)] same v(1) ik by (simp add: same_tabs_def)
    define w' where "w' = (if ls_wild l \<noteq> 0 then tp_remove_wildcard (ls_wild l) w else w)"
    obtain ht' where p: "lh_remove l ht = Some ht'" and s': "s' = put_tport ?k (t1\<lparr>tp_wild := w', tp_ht := ht'\<rparr>) s1"
      using d ts False t1 id by (auto simp: destroy_listener_def Let_def bind_eq_Some_conv w'_def simp flip: s1_def)
    have "tabs s' = (tabs s)(i := VOther, ?k := VTport ht' w' st)"
      using same st1 by (simp add: s' same_tabs_def)
    then show ?thesis using reg_del [OF r v(1) _ p w'_def] v(2) False id by simp
  qed
qed

text \<open>The listener that is destroyed is in its bucket.\<close>

lemma destroy_listener_returns:
  assumes r: "reg_ok E (tabs s)" and l: "get_listener i s = Some l"
  shows "\<exists>s'. destroy_listener E l s = Some s'"
proof -
  let ?k = "ls_tport l" and ?s = "put_obj i None s"
  note lv = get_tabs(2) [OF l]
  have id: "ls_id l = i" by (rule reg_listener(1) [OF r lv])
  obtain ht w st where v: "tabs s ?k = VTport ht w st" "\<not> ls_is_state l \<longrightarrow> l \<in> set (lh_all ht)"
    using reg_listener(3) [OF r lv] by blast
  then obtain t where t: "get_tport ?k s = Some t" "tp_ht t = ht" using tabs_get(2) by blast
  have "i \<noteq> ?k" using lv v(1) by auto
  then have ts: "get_tport ?k ?s = Some t" using t(1) by (simp add: get_tport_def put_obj_def)
  show ?thesis
  proof (cases "ls_is_state l")
    case True
    then show ?thesis using ts id by (simp add: destroy_listener_def Let_def)
  next
    case False
    have ok: "tabs_ok E ht w" by (rule reg_tport(1) [OF r v(1)])
    then have "inj_on ls_id (set (lh_all ht))" "distinct (lh_all ht)" "lh_ok ht" by (simp_all add: tabs_ok_def distinct_map)
    then obtain ht' where "lh_remove l ht = Some ht'" using lh_remove_ok v(2) False by blast
    moreover have "\<exists>t1. get_tport ?k (if tp_is_inbox E l t then ?s else pipe_unsubscribe E ?k l t ?s) = Some t1 \<and> tp_ht t1 = ht"
      using same_subscribe(3) [OF ts, of E l] ts t(2) by (cases "tp_is_inbox E l t") auto
    ultimately show ?thesis using ts id False by (auto simp: destroy_listener_def Let_def)
  qed
qed

lemma reg_destroy:
  assumes "reg_ok E (tabs s)" "destroy_event E i cb s = Some (st, s')"
  shows "reg_ok E (tabs s')"
proof (cases "get_listener i s")
  case None
  then have "tabs s' = tabs s"
    using assms(2) by (auto simp: destroy_event_def Let_def get_listener_def tabs_def put_obj_def ap_emit_def fun_eq_iff
        split: option.splits api_obj.splits if_splits)
  then show ?thesis using assms(1) by simp
next
  case (Some l)
  then obtain s1 where "destroy_listener E l s = Some s1" "tabs s' = tabs s1"
    using assms(2) by (auto simp: destroy_event_def Let_def get_listener_def bind_eq_Some_conv split: option.splits api_obj.splits if_splits)
  then show ?thesis using reg_destroy_listener [OF assms(1) Some] by simp
qed

lemma reg_state_listener:
  assumes r: "reg_ok E (tabs s)" and i: "ap_objs s i = None" "i \<noteq> 0"
    and c: "set_state_listener E i k q s = (st, j, s')"
  shows "reg_ok E (tabs s')"
proof (cases "get_queue q s = None \<or> get_tport k s = None")
  case True
  then show ?thesis using r c by (auto simp: set_state_listener_def Let_def split: if_splits option.splits)
next
  case False
  then obtain t where t: "get_tport k s = Some t" by auto
  define l where "l = state_listener_new E i q k"
  define v where "v = (tabs s)(i := VListener l, k := VTport (tp_ht t) (tp_wild t) (Some l))"
  have "s' = (case tp_state_listener t of
      None \<Rightarrow> put_tport k (t\<lparr>tp_state_listener := Some l\<rparr>) (put_obj i (Some (OListener l)) s)
    | Some old \<Rightarrow> put_obj (ls_id old) None (put_tport k (t\<lparr>tp_state_listener := Some l\<rparr>) (put_obj i (Some (OListener l)) s)))"
    using c t False unfolding l_def by (auto simp: set_state_listener_def Let_def)
  then have "tabs s' = (case tp_state_listener t of None \<Rightarrow> v | Some old \<Rightarrow> v(ls_id old := VOther))"
    by (auto simp: v_def split: option.split)
  moreover have "tabs s i = VOther" using i(1) by (simp add: tabs_def)
  ultimately show ?thesis
    using reg_put_state [OF r get_tabs(1) [OF t] _ i(2) _ _ _ v_def] by (simp add: l_def state_listener_new_def Let_def)
qed

section \<open>Steps\<close>

inductive api_step :: "('r, 'f) api_env \<Rightarrow> api \<Rightarrow> api \<Rightarrow> bool" for E where
  s_listen: "ap_objs s i = None \<Longrightarrow> i \<noteq> 0 \<Longrightarrow> create_listener E i q k subj s = Some (st, j, s') \<Longrightarrow> api_step E s s'"
| s_destroy: "destroy_event E i cb s = Some (st, s') \<Longrightarrow> api_step E s s'"
| s_state: "ap_objs s i = None \<Longrightarrow> i \<noteq> 0 \<Longrightarrow> set_state_listener E i k q s = (st, j, s') \<Longrightarrow> api_step E s s'"
| s_transport: "ap_objs s k = None \<Longrightarrow> create_transport E k c svc net dm sock s = Some s' \<Longrightarrow> api_step E s s'"
| s_connected: "create_transport_end k s = Some (st, j, s') \<Longrightarrow> api_step E s s'"
| s_close: "close_tport k s = Some s' \<Longrightarrow> api_step E s s'"
| s_end: "destroy_transport E k s = Some (st, s') \<Longrightarrow> api_step E s s'"
| s_msg: "on_rv_msg E k pub s = Some s' \<Longrightarrow> api_step E s s'"
| s_connect: "tp_on_connect E k s = Some s' \<Longrightarrow> api_step E s s'"
| s_shutdown: "tp_on_shutdown E k err s = Some s' \<Longrightarrow> api_step E s s'"
| s_reconnect: "reconnect_timer E k sock s = Some (b, s') \<Longrightarrow> api_step E s s'"
| s_send: "api_sendv E th d k ms s = Some (st, s') \<Longrightarrow> api_step E s s'"
| s_flush: "api_flush E k s = Some (st, s') \<Longrightarrow> api_step E s s'"
| s_dispatched: "flush_dispatch_sends E th s = Some s' \<Longrightarrow> api_step E s s'"
| s_batch: "batch_timer E k s = Some (b, s') \<Longrightarrow> api_step E s s'"
| s_request: "send_request E k key m s = Some (st, m', s') \<Longrightarrow> api_step E s s'"
| s_answer: "end_request k key s = Some (st, r, s') \<Longrightarrow> api_step E s s'"
| s_reply: "send_reply E k m r s = Some (st, s') \<Longrightarrow> api_step E s s'"
| s_inbox: "create_inbox E k n s = (st, r, s') \<Longrightarrow> api_step E s s'"
| s_mode: "api_step E s (snd (set_batch_mode k mode s))"
| s_interval: "api_step E s (snd (set_batch_interval k secs s))"
| s_setting: "f \<in> {set_batch_size k n, set_batch_dispatch_flush k b, set_wait_limit k n, set_description k dd} \<Longrightarrow>
    api_step E s (snd (f s))"
| s_queue: "ap_objs s i = None \<Longrightarrow> create_queue i s = (st, j, s') \<Longrightarrow> api_step E s s'"
| s_queue_setting: "f \<in> {set_queue_priority q n, set_queue_limit_policy q p m dc, set_queue_name q nm, set_queue_hook q h} \<Longrightarrow>
    api_step E s (snd (f s))"
| s_other: "obj_view (ap_objs s i) = VOther \<Longrightarrow> obj_view x = VOther \<Longrightarrow> api_step E s (put_obj i x s)"
| s_client: "get_tport k s = Some t \<Longrightarrow> api_step E s (put_tport k (t\<lparr>tp_client := c\<rparr>) s)"

text \<open>
  The last two rules are what the libraries do: objects of raikv come and go, and the client of a
  transport goes its own way.
\<close>

lemma same_reg: "same_tabs s s' \<Longrightarrow> reg_ok E (tabs s) \<Longrightarrow> reg_ok E (tabs s')"
  by (simp add: same_tabs_def)

lemma step_reg:
  assumes "api_step E s s'" "reg_ok E (tabs s)"
  shows "reg_ok E (tabs s')"
  using assms
proof (cases rule: api_step.cases)
  case (s_transport k c svc net dm sock)
  then have "tabs s' = (tabs s)(k := VTport \<lparr>lh_buckets = [], lh_count = 0\<rparr> [] None)"
    by (auto simp: create_transport_def bind_eq_Some_conv tport_new_def)
  then show ?thesis using reg_new_tport [OF assms(2)] s_transport(1) by (simp add: tabs_def)
next
  case (s_other i x)
  then show ?thesis using assms(2) by (simp add: fun_upd_idem tabs_def)
next
  case (s_queue i st j)
  then show ?thesis using assms(2) by (auto simp: create_queue_def fun_upd_idem tabs_def)
next
  case (s_client k t c)
  then show ?thesis using assms(2) same_put [OF s_client(2), of "t\<lparr>tp_client := c\<rparr>"] by (simp add: same_tabs_def)
next
  case (s_flush k st)
  then have "same_tabs s s'" by (auto simp: api_flush_def split: if_splits intro: tab_rules same_drain)
  then show ?thesis using assms(2) by (simp add: same_tabs_def)
next
  case (s_inbox k n st r)
  then have "same_tabs s s'" using same_inbox [of s E k n] by simp
  then show ?thesis using assms(2) by (simp add: same_tabs_def)
qed (use assms(2) in \<open>auto dest: reg_create reg_destroy reg_state_listener
      intro: same_reg same_create_end same_close same_destroy_transport same_on_rv_msg same_on_connect same_on_shutdown
      same_reconnect same_sendv_api same_flush_dispatch same_batch_timer same_request same_end_request same_reply
      same_batch_mode same_batch_interval same_settings same_queue_settings\<close>)

section \<open>Delivery\<close>

inductive api_reach :: "('r, 'f) api_env \<Rightarrow> api \<Rightarrow> bool" for E where
  r_open: "api_open E c sock = Some s \<Longrightarrow> api_reach E s"
| r_step: "api_reach E s \<Longrightarrow> api_step E s s' \<Longrightarrow> api_reach E s'"

lemma reach_reg: "api_reach E s \<Longrightarrow> reg_ok E (tabs s)"
proof (induction rule: api_reach.induct)
  case (r_open c sock s)
  then have "tabs s = (\<lambda>i. VOther)(TIBRV_PROCESS_TRANSPORT := VTport \<lparr>lh_buckets = [], lh_count = 0\<rparr> [] None)"
    by (auto simp: api_open_def bind_eq_Some_conv Let_def tabs_def ap_emit_def fun_eq_iff tport_new_def TIBRV_PROCESS_TRANSPORT_def)
  moreover have "reg_ok E ((\<lambda>i. VOther)(TIBRV_PROCESS_TRANSPORT := VTport \<lparr>lh_buckets = [], lh_count = 0\<rparr> [] None))"
    by (rule reg_new_tport) (simp_all add: reg_ok_def)
  ultimately show ?case by (simp only:)
qed (rule step_reg)

text \<open>The copies of a message that a listener gets.\<close>

definition copies :: "u32 \<Rightarrow> api_event list \<Rightarrow> nat" where
  "copies i es = length (filter (\<lambda>e. case e of Delivered q j m \<Rightarrow> j = i | _ \<Rightarrow> False) es)"

lemma deliver_fold:
  "ap_objs (fold (deliver_msg E pub) ls s) = ap_objs s \<and>
   (\<exists>es. ap_out (fold (deliver_msg E pub) ls s) = ap_out s @ es \<and>
      copies i es = length (filter (\<lambda>l. ls_id l = i \<and> get_queue (ls_queue l) s \<noteq> None) ls))"
proof (induction ls arbitrary: s)
  case (Cons l ls)
  let ?s = "deliver_msg E pub l s"
  have o: "ap_objs ?s = ap_objs s" by (simp add: deliver_msg_def ap_emit_def)
  then have q: "get_queue j ?s = get_queue j s" for j by (simp add: get_queue_def)
  define e0 where "e0 = (if get_queue (ls_queue l) s \<noteq> None then [Delivered (ls_queue l) (ls_id l) (msg_of_pub E pub)] else [])"
  have e0: "ap_out ?s = ap_out s @ e0" "copies i e0 = (if ls_id l = i \<and> get_queue (ls_queue l) s \<noteq> None then 1 else 0)"
    by (auto simp: deliver_msg_def ap_emit_def copies_def e0_def)
  obtain es where "ap_out (fold (deliver_msg E pub) ls ?s) = ap_out ?s @ es"
    "copies i es = length (filter (\<lambda>l. ls_id l = i \<and> get_queue (ls_queue l) ?s \<noteq> None) ls)"
    using Cons.IH [of ?s] by blast
  then show ?case using Cons.IH [of ?s] o e0 q by (auto simp: copies_def)
qed (simp add: copies_def)

lemma no_rpc: "\<forall>r\<in>set rs. rq_subject r \<noteq> pb_subject pub \<Longrightarrow> rpc_answer pub m rs = None"
  by (induction rs) (auto simp: rpc_waits_def)

lemma hits_listeners: "all_hits E pub t = Some hs \<Longrightarrow> tabs_ok E (tp_ht t) (tp_wild t) \<Longrightarrow> set hs \<subseteq> set (lh_all (tp_ht t))"
  using lt.chain_filter [of "tp_ht t", THEN arg_cong [where f = set_mset]]
  by (auto simp: all_hits_found tabs_ok_def plain_hits_def wild_found_def lh_chain_def Let_def split: if_splits)

text \<open>A listener is created whenever its subject, queue and transport are valid.\<close>

lemma create_listener_returns:
  assumes r: "reg_ok E (tabs s)" and v: "valid_subject subj" "get_queue q s \<noteq> None" "get_tport k s = Some t" "ap_objs s i = None"
    and l: "listener_new E i q k subj = Some l"
  shows "\<exists>s' t'. create_listener E i q k subj s = Some (TIBRV_OK, i, s') \<and> get_listener i s' = Some l \<and>
    get_queue q s' \<noteq> None \<and> get_tport k s' = Some t' \<and> tp_rpcs t' = tp_rpcs t"
proof -
  have "lh_ok (tp_ht t)" using reg_tport(1) [OF r get_tabs(1) [OF v(3)]] by (simp add: tabs_ok_def)
  then obtain ht where ht: "lh_push l (tp_ht t) = Some ht" using lt.push_law by blast
  have "i \<noteq> k" "i \<noteq> q" "k \<noteq> q" using v(2-4) by (auto simp: get_tport_def get_queue_def split: option.splits api_obj.splits)
  then have g: "get_listener i (put_tport k t1 (put_obj i (Some (OListener l)) s)) = Some l \<and>
      get_queue q (put_tport k t1 (put_obj i (Some (OListener l)) s)) \<noteq> None" for t1
    using v(2) by (simp add: get_listener_def get_queue_def put_tport_def put_obj_def)
  have twice: "put_tport k t2 (put_tport k t1 x) = put_tport k t2 x" for t1 t2 x by (simp add: put_tport_def put_obj_def)
  have e: "get_listener i (ap_emit e x) = get_listener i x" "get_queue q (ap_emit e x) = get_queue q x" for e x
    by (simp_all add: get_listener_def get_queue_def ap_emit_def)
  show ?thesis
    using v l g ht by (auto simp: create_listener_def pipe_subscribe_def Let_def twice e split: option.split)
qed

text \<open>
  C60: A message that comes to a transport, and for which no request waits, is given to a listener once if the
  listener's subject matches it, and not at all otherwise; the handler does not fail.
\<close>

theorem delivery_exact:
  assumes "api_reach E s" "get_tport k s = Some t" "get_listener i s = Some l" "ls_tport l = k" "\<not> ls_is_state l"
    and "length (ls_subject l) < 2 ^ 16" "get_queue (ls_queue l) s \<noteq> None"
    and "pb_hash pub = ae_crc E (pb_subject pub) 0" "make_rv_msg (ae_cl E) (pb_enc pub) (pb_msg pub) \<noteq> None"
    and "\<forall>r\<in>set (tp_rpcs t). rq_subject r \<noteq> pb_subject pub"
  shows "\<exists>s' es. on_rv_msg E k pub s = Some s' \<and> ap_out s' = ap_out s @ es \<and>
    copies i es = (if match_rv_wildcard (ls_subject l) (pb_subject pub) then 1 else 0)"
proof -
  have r: "reg_ok E (tabs s)" by (rule reach_reg [OF assms(1)])
  have t: "tabs_ok E (tp_ht t) (tp_wild t)" by (rule reg_tport(1) [OF r get_tabs(1) [OF assms(2)]])
  have id: "ls_id l = i" by (rule reg_listener(1) [OF r get_tabs(2) [OF assms(3)]])
  have l: "l \<in> set (lh_all (tp_ht t))"
    using reg_listener(3) [OF r get_tabs(2) [OF assms(3)]] get_tabs(1) [OF assms(2)] assms(4,5) by auto
  obtain hs where hs: "all_hits E pub t = Some hs" "count_list hs l = (if match_rv_wildcard (ls_subject l) (pb_subject pub) then 1 else 0)"
    using hits_once [OF t l assms(6,8)] by blast
  have "x = l" if "x \<in> set hs" "ls_id x = i" for x
  proof -
    have "x \<in> set (lh_all (tp_ht t))" using hits_listeners [OF hs(1) t] that by blast
    moreover have "inj_on ls_id (set (lh_all (tp_ht t)))" using t by (simp add: tabs_ok_def distinct_map)
    ultimately show ?thesis using l id that(2) by (metis inj_onD)
  qed
  then have "filter (\<lambda>x. ls_id x = i \<and> get_queue (ls_queue x) s \<noteq> None) hs = filter (\<lambda>x. l = x) hs"
    using id assms(7) by (intro filter_cong) auto
  then have "length (filter (\<lambda>x. ls_id x = i \<and> get_queue (ls_queue x) s \<noteq> None) hs) = count_list hs l"
    by (simp add: count_list_eq_length_filter)
  then show ?thesis
    using deliver_fold [of E pub hs s i] hs assms(2,9) no_rpc [OF assms(10)] by (auto simp: on_rv_msg_def)
qed

definition sample_api :: "(unit, sync_val) api_env" where
  "sample_api = \<lparr>ae_cl = sample_cli, ae_string_u64 = (\<lambda>s. 0), ae_text_msg = (\<lambda>fs. [])\<rparr>"

definition sample_opened :: api where
  "sample_opened = the (api_open sample_api (client_new False (0, 0, 0) 0 False) None)"

lemma sample_opened:
  "api_open sample_api (client_new False (0, 0, 0) 0 False) None = Some sample_opened"
  "get_queue 1 sample_opened \<noteq> None" "\<exists>t. get_tport 10 sample_opened = Some t \<and> tp_rpcs t = []" "ap_objs sample_opened 20 = None"
proof -
  have "map_option (\<lambda>s. ()) (api_open sample_api (client_new False (0, 0, 0) 0 False) None) = Some ()" by code_simp
  then show "api_open sample_api (client_new False (0, 0, 0) 0 False) None = Some sample_opened" by (auto simp: sample_opened_def)
  have "map_option aq_done (get_queue 1 sample_opened) = Some False" by code_simp
  then show "get_queue 1 sample_opened \<noteq> None" by auto
  have "map_option tp_rpcs (get_tport 10 sample_opened) = Some []" by code_simp
  then show "\<exists>t. get_tport 10 sample_opened = Some t \<and> tp_rpcs t = []" by auto
  have "map_option (\<lambda>x. ()) (ap_objs sample_opened 20) = None" by code_simp
  then show "ap_objs sample_opened 20 = None" by simp
qed

theorem delivery_exact_witness:
  "\<exists>s s' es. on_rv_msg sample_api 10 ((query_pub sample_cli ''A.B'' [] [] None)\<lparr>pb_hash := 3\<rparr>) s = Some s' \<and>
     ap_out s' = ap_out s @ es \<and> copies 20 es = 1"
proof -
  let ?pub = "(query_pub sample_cli ''A.B'' [] [] None)\<lparr>pb_hash := 3\<rparr>"
  have r: "api_reach sample_api sample_opened" by (rule r_open [OF sample_opened(1)])
  obtain t where t: "get_tport 10 sample_opened = Some t" "tp_rpcs t = []" using sample_opened(3) by blast
  have "map_option ls_id (listener_new sample_api 20 1 10 ''A.>'') = Some 20" by code_simp
  then obtain l where l: "listener_new sample_api 20 1 10 ''A.>'' = Some l" by auto
  have "valid_subject ''A.>''" by code_simp
  from create_listener_returns [OF reach_reg [OF r] this sample_opened(2) t(1) sample_opened(4) l]
  obtain s t' where s: "create_listener sample_api 20 1 10 ''A.>'' sample_opened = Some (TIBRV_OK, 20, s)"
    "get_listener 20 s = Some l" "get_tport 10 s = Some t'" "tp_rpcs t' = []" and q: "get_queue 1 s \<noteq> None" using t(2) by auto
  have rs: "api_reach sample_api s" by (rule r_step [OF r s_listen [OF sample_opened(4) _ s(1)]]) simp
  have "match_rv_wildcard ''A.>'' ''A.B''" by code_simp
  moreover have "pb_hash ?pub = ae_crc sample_api (pb_subject ?pub) 0" by code_simp
  moreover have "make_rv_msg (ae_cl sample_api) (pb_enc ?pub) (pb_msg ?pub) \<noteq> None"
    by (simp add: make_rv_msg_def sample_api_def sample_cli_sel)
  ultimately have "\<exists>s' es. on_rv_msg sample_api 10 ?pub s = Some s' \<and> ap_out s' = ap_out s @ es \<and> copies 20 es = 1"
    using delivery_exact [OF rs s(3,2), of ?pub] listener_new_facts [OF l] q s(4) by (simp add: query_pub_def)
  then show ?thesis by blast
qed

end
