(* ===== verification/Api_Batch.thy ===== *)
theory Api_Batch
  imports Api_Delivery
begin

text \<open>
  Batches of messages to send. What a transport has published and what waits in its accumulators are together what
  direct sends would have published: the view \<open>settled\<close> of a state is the client and the events after all
  that waits is sent, and a send in a batch acts on it as a direct send. The accumulators are kept by
  address, as the chains of the threads and the transports share them.
\<close>

section \<open>Sending as a function\<close>

definition send1 :: "('r, 'f) api_env \<Rightarrow> u32 \<Rightarrow> ev_pub \<Rightarrow> client \<times> api_event list \<Rightarrow> client \<times> api_event list" where
  "send1 E k pub = (\<lambda>(c, out).
     if k \<noteq> TIBRV_PROCESS_TRANSPORT then (snd (publish (ae_cl E) pub c), out)
     else (c, out @ [Forwarded k (pub\<lparr>pb_hash := ae_crc E (pb_subject pub) 0\<rparr>)]))"

definition put_sent :: "u32 \<Rightarrow> tport \<Rightarrow> client \<times> api_event list \<Rightarrow> api \<Rightarrow> api" where
  "put_sent k t co s = (put_tport k (t\<lparr>tp_client := fst co\<rparr>) s)\<lparr>ap_out := snd co\<rparr>"

lemma put_tport_again [simp]: "put_tport k t' (put_tport k t s) = put_tport k t' s"
  by (simp add: put_tport_def put_obj_def)

lemma put_tport_id: "get_tport k s = Some t \<Longrightarrow> put_tport k t s = s"
  by (auto simp: put_tport_def put_obj_def get_tport_def fun_upd_idem split: option.splits api_obj.splits)

lemma put_tport_sel [simp]:
  "ap_out (put_tport k t s) = ap_out s" "ap_ctx (put_tport k t s) = ap_ctx s" "ap_tls (put_tport k t s) = ap_tls s"
  "ap_dirty (put_tport k t s) = ap_dirty s" "ap_next (put_tport k t s) = ap_next s"
  by (simp_all add: put_tport_def put_obj_def)

lemma sendv_fold:
  "get_tport k s = Some t \<Longrightarrow> tport_sendv E k ps s = Some (put_sent k t (fold (send1 E k) ps (tp_client t, ap_out s)) s)"
proof (induction ps arbitrary: s t)
  case Nil
  then show ?case by (simp add: put_sent_def put_tport_id)
next
  case (Cons p ps)
  let ?co = "send1 E k p (tp_client t, ap_out s)" and ?t = "t\<lparr>tp_client := fst (send1 E k p (tp_client t, ap_out s))\<rparr>"
  have "tport_send E k p s = Some (put_sent k t ?co s)"
    using Cons.prems put_tport_id [OF Cons.prems]
    by (cases "k = TIBRV_PROCESS_TRANSPORT") (auto simp: tport_send_def send1_def put_sent_def ap_emit_def)
  moreover have "get_tport k (put_sent k t ?co s) = Some ?t" "ap_out (put_sent k t ?co s) = snd ?co"
    by (simp_all add: put_sent_def get_tport_def put_tport_def put_obj_def)
  moreover have "put_sent k ?t co (put_sent k t ?co s) = put_sent k t co s" for co
    by (simp add: put_sent_def put_tport_def put_obj_def)
  ultimately show ?case using Cons.IH [of "put_sent k t ?co s" ?t] by simp
qed

section \<open>Accumulators\<close>

definition tp_ctxs :: "tport \<Rightarrow> nat list" where
  "tp_ctxs t = tp_writers t @ (case tp_sb_fill t of None \<Rightarrow> [] | Some a \<Rightarrow> [a]) @ (case tp_sb_spare t of None \<Rightarrow> [] | Some a \<Rightarrow> [a])"

definition pubs_at :: "api \<Rightarrow> nat \<Rightarrow> ev_pub list" where
  "pubs_at s a = (case ap_ctx s a of None \<Rightarrow> [] | Some c \<Rightarrow> sc_pubs c)"

text \<open>The messages that wait, in the order in which they are drained.\<close>

definition fill_pubs :: "tport \<Rightarrow> api \<Rightarrow> ev_pub list" where
  "fill_pubs t s = (case tp_sb_fill t of None \<Rightarrow> [] | Some a \<Rightarrow> pubs_at s a)"

definition waiting :: "u32 \<Rightarrow> api \<Rightarrow> ev_pub list" where
  "waiting k s = (case get_tport k s of
     None \<Rightarrow> [] | Some t \<Rightarrow> concat (map (pubs_at s) (tp_writers t)) @ fill_pubs t s)"

definition settled :: "('r, 'f) api_env \<Rightarrow> u32 \<Rightarrow> api \<Rightarrow> (client \<times> api_event list) option" where
  "settled E k s = map_option (\<lambda>t. fold (send1 E k) (waiting k s) (tp_client t, ap_out s)) (get_tport k s)"

text \<open>
  The accumulators that a transport names are its own and live, the shared pair is there in its mode, and
  the spare one is empty. Those in the chain of a thread are freed or belong to a transport.
\<close>

definition own_ok :: "u32 \<Rightarrow> tport \<Rightarrow> api \<Rightarrow> bool" where
  "own_ok k t s \<longleftrightarrow> distinct (tp_ctxs t) \<and> (tp_sb_fill t = None) = (tp_sb_spare t = None) \<and>
     (tp_batch_mode t = SINGLE_BATCH \<and> \<not> tp_is_destroyed t \<longrightarrow> tp_sb_fill t \<noteq> None) \<and>
     (\<forall>a\<in>set (tp_ctxs t). \<exists>c. ap_ctx s a = Some c \<and> sc_tport c = k) \<and>
     (\<forall>a. tp_sb_spare t = Some a \<longrightarrow> pubs_at s a = [])"

definition ctxs_ok :: "api \<Rightarrow> bool" where
  "ctxs_ok s \<longleftrightarrow>
     (\<forall>k t. get_tport k s = Some t \<longrightarrow> own_ok k t s) \<and>
     (\<forall>th. \<forall>a\<in>set (ap_tls s th). \<forall>c. ap_ctx s a = Some c \<longrightarrow>
        (\<exists>t. get_tport (sc_tport c) s = Some t \<and> a \<in> set (tp_writers t))) \<and>
     (\<forall>a c. ap_ctx s a = Some c \<longrightarrow> a < ap_next s) \<and> (\<forall>th. \<forall>a\<in>set (ap_tls s th). a < ap_next s)"

lemma ctxs_okD:
  assumes "ctxs_ok s"
  shows "get_tport k s = Some t \<Longrightarrow> own_ok k t s"
    and "a \<in> set (ap_tls s th) \<Longrightarrow> ap_ctx s a = Some c \<Longrightarrow> \<exists>t. get_tport (sc_tport c) s = Some t \<and> a \<in> set (tp_writers t)"
    and "ap_ctx s a = Some c \<Longrightarrow> a < ap_next s" and "a \<in> set (ap_tls s th) \<Longrightarrow> a < ap_next s"
  using assms unfolding ctxs_ok_def by blast+

lemma own_okD:
  assumes "own_ok k t s"
  shows "distinct (tp_ctxs t)" "(tp_sb_fill t = None) = (tp_sb_spare t = None)"
    and "tp_batch_mode t = SINGLE_BATCH \<Longrightarrow> \<not> tp_is_destroyed t \<Longrightarrow> tp_sb_fill t \<noteq> None"
    and "a \<in> set (tp_ctxs t) \<Longrightarrow> \<exists>c. ap_ctx s a = Some c \<and> sc_tport c = k"
    and "tp_sb_spare t = Some a \<Longrightarrow> pubs_at s a = []"
  using assms unfolding own_ok_def by blast+

lemma in_ctxs:
  "tp_sb_spare t = Some a \<Longrightarrow> a \<in> set (tp_ctxs t)" "tp_sb_fill t = Some a \<Longrightarrow> a \<in> set (tp_ctxs t)"
  "a \<in> set (tp_writers t) \<Longrightarrow> a \<in> set (tp_ctxs t)"
  by (auto simp: tp_ctxs_def)

lemma own_ok_cong:
  assumes "own_ok k t s" "\<And>a. a \<in> set (tp_ctxs t) \<Longrightarrow> ap_ctx s' a = ap_ctx s a"
  shows "own_ok k t s'"
  using assms in_ctxs(1) [of t] by (auto simp: own_ok_def pubs_at_def)

text \<open>What the state of the accumulators depends on.\<close>

definition tp_bufs :: "tport \<Rightarrow> nat list \<times> nat option \<times> nat option \<times> batch_mode \<times> bool" where
  "tp_bufs t = (tp_writers t, tp_sb_fill t, tp_sb_spare t, tp_batch_mode t, tp_is_destroyed t)"

lemma bufs_own:
  assumes "tp_bufs u = tp_bufs t" "own_ok k t s"
  shows "own_ok k u s"
proof -
  have "tp_ctxs u = tp_ctxs t" using assms(1) by (simp add: tp_bufs_def tp_ctxs_def)
  then show ?thesis using assms by (auto simp only: own_ok_def tp_bufs_def prod.inject)
qed

text \<open>A change of one transport and of the accumulators that are its own.\<close>

lemma ctxs_change:
  assumes ok: "ctxs_ok s"
    and k: "get_tport k s' = Some t'" "\<And>j. j \<noteq> k \<Longrightarrow> get_tport j s' = get_tport j s" "own_ok k t' s'"
    and others: "\<And>a c. sc_tport c \<noteq> k \<Longrightarrow> ap_ctx s' a = Some c \<longleftrightarrow> ap_ctx s a = Some c"
    and tls: "\<And>th a c. a \<in> set (ap_tls s' th) \<Longrightarrow> ap_ctx s' a = Some c \<Longrightarrow>
      if sc_tport c = k then a \<in> set (tp_writers t') else a \<in> set (ap_tls s th)"
    and bound: "\<And>a c. ap_ctx s' a = Some c \<Longrightarrow> a < ap_next s'" "\<And>th a. a \<in> set (ap_tls s' th) \<Longrightarrow> a < ap_next s'"
  shows "ctxs_ok s'"
  unfolding ctxs_ok_def
proof (intro conjI allI impI ballI)
  fix j u assume u: "get_tport j s' = Some u"
  show "own_ok j u s'"
  proof (cases "j = k")
    case False
    then have "own_ok j u s" using u k(2) ctxs_okD(1) [OF ok] by simp
    then show ?thesis
    proof (rule own_ok_cong)
      fix a assume "a \<in> set (tp_ctxs u)"
      then obtain c where "ap_ctx s a = Some c" "sc_tport c = j" using own_okD(4) [OF \<open>own_ok j u s\<close>] by blast
      then show "ap_ctx s' a = ap_ctx s a" using others [of c a] False by simp
    qed
  qed (use u k in simp)
next
  fix th a c assume a: "a \<in> set (ap_tls s' th)" "ap_ctx s' a = Some c"
  show "\<exists>t. get_tport (sc_tport c) s' = Some t \<and> a \<in> set (tp_writers t)"
  proof (cases "sc_tport c = k")
    case False
    then have "a \<in> set (ap_tls s th)" "ap_ctx s a = Some c" using tls [OF a] others [of c a] a(2) by simp_all
    then show ?thesis using ctxs_okD(2) [OF ok] k(2) [OF False] by auto
  qed (use tls [OF a] k(1) in simp)
qed (rule bound, assumption)+

section \<open>Draining\<close>

definition drained :: "nat list \<Rightarrow> api \<Rightarrow> api" where
  "drained as s = s\<lparr>ap_ctx := (\<lambda>a. if a \<in> set as then map_option (\<lambda>c. c\<lparr>sc_pubs := [], sc_bytes := 0\<rparr>) (ap_ctx s a) else ap_ctx s a)\<rparr>"

lemma drained_sel [simp]:
  "get_tport j (drained as s) = get_tport j s" "pubs_at (drained as s) a = (if a \<in> set as then [] else pubs_at s a)"
  "ap_out (drained as s) = ap_out s" "ap_tls (drained as s) = ap_tls s" "ap_next (drained as s) = ap_next s" "ap_dirty (drained as s) = ap_dirty s"
  by (auto simp: drained_def get_tport_def pubs_at_def split: option.split)

lemma drained_live [simp]: "ap_ctx (drained as s) a = None \<longleftrightarrow> ap_ctx s a = None"
  by (simp add: drained_def)

lemma put_tport_get: "get_tport j (put_tport k t s) = (if j = k then Some t else get_tport j s)"
  and put_tport_pubs [simp]: "pubs_at (put_tport k t s) = pubs_at s"
  by (auto simp: get_tport_def put_tport_def put_obj_def pubs_at_def fun_eq_iff)

lemma put_sent_sel [simp]:
  "get_tport j (put_sent k t co s) = (if j = k then Some (t\<lparr>tp_client := fst co\<rparr>) else get_tport j s)"
  "ap_ctx (put_sent k t co s) = ap_ctx s" "pubs_at (put_sent k t co s) = pubs_at s" "ap_out (put_sent k t co s) = snd co"
  "ap_tls (put_sent k t co s) = ap_tls s" "ap_next (put_sent k t co s) = ap_next s" "ap_dirty (put_sent k t co s) = ap_dirty s"
  by (auto simp: put_sent_def get_tport_def put_tport_def put_obj_def pubs_at_def fun_eq_iff)

lemma drain_ctx_fold:
  assumes "get_tport k s = Some t" "ap_ctx s a \<noteq> None"
  shows "drain_ctx E k a s = Some (drained [a] (put_sent k t (fold (send1 E k) (pubs_at s a) (tp_client t, ap_out s)) s))"
  using assms(2) sendv_fold [OF assms(1), of E "pubs_at s a"]
  by (auto simp: drain_ctx_def drained_def put_sent_def pubs_at_def fun_eq_iff)

lemma drain_all_fold:
  assumes "get_tport k s = Some t" "\<forall>a\<in>set as. ap_ctx s a \<noteq> None" "distinct as"
  shows "drain_all E k as s =
    Some (drained as (put_sent k t (fold (send1 E k) (concat (map (pubs_at s) as)) (tp_client t, ap_out s)) s))"
  using assms
proof (induction as arbitrary: s t)
  case Nil
  then show ?case by (simp add: drained_def put_sent_def put_tport_id)
next
  case (Cons a as)
  define co where "co = fold (send1 E k) (pubs_at s a) (tp_client t, ap_out s)"
  define s1 where "s1 = drained [a] (put_sent k t co s)"
  have d: "drain_ctx E k a s = Some s1"
    unfolding s1_def co_def by (rule drain_ctx_fold [OF Cons.prems(1)]) (use Cons.prems(2) in simp)
  have t: "get_tport k s1 = Some (t\<lparr>tp_client := fst co\<rparr>)" "ap_out s1 = snd co" by (simp_all add: s1_def)
  have pubs: "concat (map (pubs_at s1) as) = concat (map (pubs_at s) as)"
    using Cons.prems(3) by (intro arg_cong [where f = concat] map_cong) (auto simp: s1_def)
  have "\<forall>b\<in>set as. ap_ctx s1 b \<noteq> None" using Cons.prems(2) by (simp add: s1_def)
  then have "drain_all E k as s1 =
      Some (drained as (put_sent k (t\<lparr>tp_client := fst co\<rparr>) (fold (send1 E k) (concat (map (pubs_at s) as)) co) s1))"
    using Cons.IH [OF t(1)] Cons.prems(3) t(2) pubs by simp
  moreover have "drained as (put_sent k (t\<lparr>tp_client := fst co\<rparr>) co' s1) = drained (a # as) (put_sent k t co' s)" for co'
    by (auto simp: s1_def drained_def put_sent_def put_tport_def put_obj_def fun_eq_iff option.map_comp comp_def)
  ultimately show ?case using d by (simp add: co_def)
qed

text \<open>The accumulators that a drain empties, and the transport after it.\<close>

definition to_drain :: "tport \<Rightarrow> api \<Rightarrow> nat list" where
  "to_drain t s = tp_writers t @ (if fill_pubs t s = [] then [] else [the (tp_sb_fill t)])"

definition swapped :: "tport \<Rightarrow> api \<Rightarrow> tport" where
  "swapped t s = (if fill_pubs t s = [] then t\<lparr>tp_sb_pending := False\<rparr>
     else t\<lparr>tp_sb_pending := False, tp_sb_fill := tp_sb_spare t, tp_sb_spare := tp_sb_fill t\<rparr>)"

definition drain_result :: "('r, 'f) api_env \<Rightarrow> u32 \<Rightarrow> tport \<Rightarrow> api \<Rightarrow> api" where
  "drain_result E k t s = drained (to_drain t s) (put_sent k (swapped t s) (fold (send1 E k) (waiting k s) (tp_client t, ap_out s)) s)"

lemma drain_form:
  assumes ok: "own_ok k t s" and t: "get_tport k s = Some t"
  shows "drain_transport E k s = Some (drain_result E k t s)"
proof -
  let ?ws = "tp_writers t"
  have live: "\<forall>a\<in>set ?ws. ap_ctx s a \<noteq> None" using own_okD(4) [OF ok] in_ctxs(3) by blast
  have dw: "distinct ?ws" using own_okD(1) [OF ok] by (simp add: tp_ctxs_def)
  define co where "co = fold (send1 E k) (concat (map (pubs_at s) ?ws)) (tp_client t, ap_out s)"
  define s1 where "s1 = drained ?ws (put_sent k t co s)"
  define t1 where "t1 = t\<lparr>tp_client := fst co\<rparr>"
  have g: "get_tport k s1 = Some t1" by (simp add: s1_def t1_def)
  have all: "drain_all E k ?ws s = Some s1" using drain_all_fold [OF t live dw] by (simp add: s1_def co_def)
  have result: "drain_result E k t s = drained (to_drain t s) (put_sent k (swapped t s) (fold (send1 E k) (fill_pubs t s) co) s)"
    by (simp add: drain_result_def waiting_def t co_def)
  show ?thesis
  proof (cases "fill_pubs t s = []")
    case True
    have "drain_transport E k s = Some (put_tport k (t1\<lparr>tp_sb_pending := False\<rparr>) s1)"
    proof (cases "tp_sb_fill t")
      case (Some f)
      then have "ap_ctx s1 f \<noteq> None" "pubs_at s1 f = []"
        using own_okD(4) [OF ok in_ctxs(2)] True by (auto simp: s1_def fill_pubs_def simp del: not_None_eq)
      then show ?thesis using t all g Some by (auto simp: drain_transport_def Let_def t1_def pubs_at_def)
    qed (use t all g in \<open>simp add: drain_transport_def Let_def t1_def\<close>)
    then show ?thesis
      using True by (auto simp: result to_drain_def swapped_def s1_def t1_def drained_def put_sent_def put_tport_def put_obj_def fun_eq_iff)
  next
    case False
    then obtain f where f: "tp_sb_fill t = Some f" "pubs_at s f \<noteq> []" by (auto simp: fill_pubs_def split: option.splits)
    have fw: "f \<notin> set ?ws" using own_okD(1) [OF ok] f(1) by (auto simp: tp_ctxs_def)
    define t2 where "t2 = t1\<lparr>tp_sb_pending := False, tp_sb_fill := tp_sb_spare t, tp_sb_spare := Some f\<rparr>"
    have c: "ap_ctx s1 f \<noteq> None" "pubs_at s1 f = pubs_at s f"
      using own_okD(4) [OF ok in_ctxs(2) [OF f(1)]] fw by (auto simp: s1_def simp del: not_None_eq)
    then have "drain_transport E k s = drain_ctx E k f (put_tport k t2 s1)"
      using t all g f by (auto simp: drain_transport_def Let_def t1_def t2_def pubs_at_def split: option.splits)
    also have "\<dots> = Some (drained [f] (put_sent k t2 (fold (send1 E k) (pubs_at s f) co) (put_tport k t2 s1)))"
      using drain_ctx_fold [of k "put_tport k t2 s1" t2 f E] c by (simp add: t2_def t1_def s1_def)
    also have "\<dots> = Some (drain_result E k t s)"
      using f by (auto simp: result to_drain_def swapped_def s1_def t1_def t2_def drained_def put_sent_def put_tport_def put_obj_def
          fill_pubs_def fun_eq_iff option.map_comp comp_def)
    finally show ?thesis .
  qed
qed

lemma swapped_ctxs:
  "tp_writers (swapped t s) = tp_writers t" "tp_batch_mode (swapped t s) = tp_batch_mode t" "tp_is_destroyed (swapped t s) = tp_is_destroyed t"
  "set (tp_ctxs (swapped t s)) = set (tp_ctxs t)" "distinct (tp_ctxs (swapped t s)) = distinct (tp_ctxs t)"
  by (auto simp: swapped_def tp_ctxs_def split: option.splits)

lemma swapped_ok:
  assumes "own_ok k t s"
  shows "own_ok k (swapped t s) (drained (to_drain t s) s)"
proof -
  have c: "\<exists>c. ap_ctx (drained as s) a = Some c \<and> sc_tport c = k" if "a \<in> set (tp_ctxs t)" for a as
    using own_okD(4) [OF assms that] by (auto simp: drained_def)
  have pair: "(tp_sb_fill (swapped t s), tp_sb_spare (swapped t s)) =
      (if fill_pubs t s = [] then (tp_sb_fill t, tp_sb_spare t) else (tp_sb_spare t, tp_sb_fill t))"
    by (simp add: swapped_def)
  have "pubs_at (drained (to_drain t s) s) a = []" if "tp_sb_spare (swapped t s) = Some a" for a
    using that own_okD(5) [OF assms] by (cases "fill_pubs t s = []") (simp_all add: swapped_def to_drain_def)
  moreover have "(tp_sb_fill (swapped t s) = None) = (tp_sb_spare (swapped t s) = None)"
    "(tp_sb_fill (swapped t s) = None) = (tp_sb_fill t = None)"
    using own_okD(2) [OF assms] pair by (cases "fill_pubs t s = []"; simp)+
  ultimately show ?thesis using own_okD(1,3) [OF assms] c by (simp add: own_ok_def swapped_ctxs)
qed

text \<open>A drain publishes all that waits and leaves nothing.\<close>

lemma drain_settles:
  assumes ok: "ctxs_ok s" and t: "get_tport k s = Some t"
  shows "drain_transport E k s = Some (drain_result E k t s)" "waiting k (drain_result E k t s) = []"
    "settled E k (drain_result E k t s) = settled E k s" "ctxs_ok (drain_result E k t s)"
proof -
  let ?s = "drain_result E k t s"
  have own: "own_ok k t s" by (rule ctxs_okD(1) [OF ok t])
  show "drain_transport E k s = Some ?s" by (rule drain_form [OF own t])
  show p: "waiting k ?s = []"
  proof (cases "fill_pubs t s = []")
    case True
    then have "fill_pubs (swapped t s) ?s = []"
      by (cases "tp_sb_fill t") (simp_all add: fill_pubs_def swapped_def drain_result_def)
    then show ?thesis by (simp add: waiting_def drain_result_def fill_pubs_def swapped_ctxs to_drain_def)
  next
    case False
    then have "fill_pubs (swapped t s) ?s = []"
      using own_okD(5) [OF own] by (cases "tp_sb_spare t") (simp_all add: fill_pubs_def swapped_def drain_result_def)
    then show ?thesis by (simp add: waiting_def drain_result_def fill_pubs_def swapped_ctxs to_drain_def)
  qed
  then show "settled E k ?s = settled E k s"
    by (simp add: settled_def) (simp add: drain_result_def t)
  have ctx: "ap_ctx ?s = ap_ctx (drained (to_drain t s) s)" by (simp add: drain_result_def drained_def cong: if_cong)
  have dr: "set (to_drain t s) \<subseteq> set (tp_ctxs t)"
    by (auto simp: to_drain_def fill_pubs_def tp_ctxs_def split: option.splits)
  show "ctxs_ok ?s"
  proof (rule ctxs_change [OF ok])
    show g: "get_tport k ?s = Some ((swapped t s)\<lparr>tp_client := fst (fold (send1 E k) (waiting k s) (tp_client t, ap_out s))\<rparr>)"
      by (simp add: drain_result_def)
    show "get_tport j ?s = get_tport j s" if "j \<noteq> k" for j using that by (simp add: drain_result_def)
    show "own_ok k ((swapped t s)\<lparr>tp_client := c\<rparr>) ?s" for c
      by (rule bufs_own [OF _ own_ok_cong [OF swapped_ok [OF own]]]) (simp_all add: tp_bufs_def ctx)
    show "ap_ctx ?s a = Some c \<longleftrightarrow> ap_ctx s a = Some c" if "sc_tport c \<noteq> k" for a c
      using own_okD(4) [OF own, of a] that dr unfolding ctx by (auto simp: drained_def)
    show "a < ap_next ?s" if "a \<in> set (ap_tls ?s th)" for th a
      using that ctxs_okD(4) [OF ok] by (simp add: drain_result_def)
    fix a c assume a: "ap_ctx ?s a = Some c"
    then obtain c' where c': "ap_ctx s a = Some c'" "sc_tport c' = sc_tport c" unfolding ctx by (auto simp: drained_def split: if_splits)
    show "a < ap_next ?s" using ctxs_okD(3) [OF ok c'(1)] by (simp add: drain_result_def)
    fix th assume "a \<in> set (ap_tls ?s th)"
    then have th: "a \<in> set (ap_tls s th)" by (simp add: drain_result_def)
    then show "if sc_tport c = k then a \<in> set (tp_writers ((swapped t s)\<lparr>tp_client := x\<rparr>)) else a \<in> set (ap_tls s th)" for x
      using ctxs_okD(2) [OF ok th c'(1)] c'(2) t by (auto simp: swapped_ctxs)
  qed
qed

end
