(* ===== verification/Api_Accum.thy ===== *)
theory Api_Accum
  imports Api_Batch
begin

text \<open>
  The accumulators in every state that the interface reaches: each belongs to one transport and lives as long as
  the transport names it, and the chains of the threads name no live one of another owner.
\<close>

section \<open>Operations that leave the accumulators alone\<close>

definition same_ctxs :: "api \<Rightarrow> api \<Rightarrow> bool" where
  "same_ctxs s s' \<longleftrightarrow> ap_ctx s' = ap_ctx s \<and> ap_tls s' = ap_tls s \<and> ap_next s' = ap_next s \<and>
     (\<forall>k. map_option tp_bufs (get_tport k s') = map_option tp_bufs (get_tport k s))"

interpretation cx: frame_rel same_ctxs
  by unfold_locales (simp_all add: same_ctxs_def)

lemma same_ctxs_ok:
  assumes "same_ctxs s s'" "ctxs_ok s"
  shows "ctxs_ok s'"
proof -
  have g: "\<exists>t. get_tport k s = Some t \<and> tp_bufs u = tp_bufs t" if "get_tport k s' = Some u" for k u
    using assms(1) that unfolding same_ctxs_def by (metis map_option_eq_Some)
  have g': "\<exists>u. get_tport k s' = Some u \<and> tp_writers u = tp_writers t" if "get_tport k s = Some t" for k t
    using assms(1) that unfolding same_ctxs_def tp_bufs_def by (auto dest: spec [of _ k] simp: map_option_case split: option.splits)
  have same: "ap_ctx s' = ap_ctx s" "ap_tls s' = ap_tls s" "ap_next s' = ap_next s" using assms(1) by (auto simp: same_ctxs_def)
  have own: "own_ok k u s'" if "get_tport k s' = Some u" for k u
  proof -
    obtain t where "get_tport k s = Some t" "tp_bufs u = tp_bufs t" using g \<open>get_tport k s' = Some u\<close> by blast
    then show ?thesis using ctxs_okD(1) [OF assms(2)] bufs_own own_ok_cong [of k u s s'] same(1) by auto
  qed
  have "\<exists>t. get_tport (sc_tport c) s' = Some t \<and> a \<in> set (tp_writers t)" if "a \<in> set (ap_tls s th)" "ap_ctx s a = Some c" for th a c
  proof -
    obtain t where "get_tport (sc_tport c) s = Some t" "a \<in> set (tp_writers t)" using ctxs_okD(2) [OF assms(2)] \<open>a \<in> set (ap_tls s th)\<close> \<open>ap_ctx s a = Some c\<close> by blast
    then show ?thesis using g' by fastforce
  qed
  then show ?thesis using own ctxs_okD(3,4) [OF assms(2)] unfolding ctxs_ok_def same by blast
qed

lemma cx_put: "same_ctxs s a \<Longrightarrow> get_tport k a = Some t \<Longrightarrow> tp_bufs t' = tp_bufs t \<Longrightarrow> same_ctxs s (put_tport k t' a)"
  by (simp add: same_ctxs_def put_tport_get) (metis option.simps(9))

lemma cx_emit: "same_ctxs s a \<Longrightarrow> same_ctxs s (ap_emit e a)" "same_ctxs s a \<Longrightarrow> same_ctxs s (a\<lparr>ap_dirty := d\<rparr>)"
  by (auto simp: same_ctxs_def ap_emit_def get_tport_def)

lemma cx_obj:
  assumes "same_ctxs s a" "get_tport i a = None" "\<And>t. x \<noteq> Some (OTransport t)"
  shows "same_ctxs s (put_obj i x a)"
proof -
  have "get_tport j (put_obj i x a) = get_tport j a" for j
    using assms(2,3) by (cases "j = i") (auto simp: get_tport_def put_obj_def split: option.split api_obj.split)
  then show ?thesis using assms(1) by (simp add: same_ctxs_def put_obj_def)
qed

lemmas cx_rules = cx.frefl cx_emit cx_put

lemma cx_trans: "same_ctxs a b \<Longrightarrow> same_ctxs b c \<Longrightarrow> same_ctxs a c"
  by (rule cx.ftrans)

lemma cx_deliver: "same_ctxs s a \<Longrightarrow> same_ctxs s (deliver_msg E pub l a)"
  by (simp add: deliver_msg_def cx_emit)

lemma cx_msg: "on_rv_msg E k pub s = Some s' \<Longrightarrow> same_ctxs s s'"
  by (auto simp: on_rv_msg_def bind_eq_Some_conv tp_bufs_def split: if_splits option.splits
      intro!: cx_rules cx.ffold cx_deliver)

lemma cx_push_state: "push_state E k cl nm de s = Some s' \<Longrightarrow> same_ctxs s s'"
  by (auto simp: push_state_def bind_eq_Some_conv Let_def split: if_splits option.splits
      elim!: cx_trans [OF _ cx_msg, rotated] intro!: cx_rules cx_deliver)

lemma cx_arm: "arm_reconnect k s = Some s' \<Longrightarrow> same_ctxs s s'"
  by (auto simp: arm_reconnect_def bind_eq_Some_conv tp_bufs_def split: if_splits intro!: cx_rules)

lemma cx_connect: "tp_on_connect E k s = Some s' \<Longrightarrow> same_ctxs s s'"
  by (auto simp: tp_on_connect_def bind_eq_Some_conv resubscribe_def tp_bufs_def split: if_splits
      elim!: cx_trans [OF _ cx_push_state, rotated] intro!: cx_rules)

lemma cx_shutdown: "tp_on_shutdown E k err s = Some s' \<Longrightarrow> same_ctxs s s'"
  by (auto simp: tp_on_shutdown_def bind_eq_Some_conv split: if_splits intro: cx_arm cx_trans [OF cx_push_state cx_arm])

lemma cx_reconnect: "reconnect_timer E k sock s = Some (b, s') \<Longrightarrow> same_ctxs s s'"
  by (auto simp: reconnect_timer_def bind_eq_Some_conv Let_def tp_bufs_def split: if_splits prod.splits intro!: cx_rules)

lemma cx_create_end: "create_transport_end k s = Some (st, j, s') \<Longrightarrow> same_ctxs s s'"
  by (auto simp: create_transport_end_def bind_eq_Some_conv Let_def tp_bufs_def split: if_splits intro!: cx_rules)

lemma cx_close: "close_tport k s = Some s' \<Longrightarrow> same_ctxs s s'"
  by (auto simp: close_tport_def bind_eq_Some_conv Let_def tp_bufs_def split: if_splits intro!: cx_rules)

lemma cx_send: "tport_send E k pub s = Some s' \<Longrightarrow> same_ctxs s s'"
  by (auto simp: tport_send_def bind_eq_Some_conv tp_bufs_def split: if_splits intro!: cx_rules)

lemma cx_end_request: "end_request k key s = Some (st, r, s') \<Longrightarrow> same_ctxs s s'"
  by (auto simp: end_request_def bind_eq_Some_conv tp_bufs_def intro!: cx_rules)

lemma cx_subscribe:
  "same_ctxs s a \<Longrightarrow> get_tport k a = Some t \<Longrightarrow> same_ctxs s (pipe_subscribe E k l t a)"
  "same_ctxs s a \<Longrightarrow> get_tport k a = Some t \<Longrightarrow> same_ctxs s (pipe_unsubscribe E k l t a)"
  by (auto simp: pipe_subscribe_def pipe_unsubscribe_def Let_def tp_bufs_def split: option.split intro!: cx_rules)

lemma fresh_tport: "ap_objs s i = None \<Longrightarrow> get_tport i s = None"
  by (simp add: get_tport_def)

lemma cx_create:
  assumes "create_listener E i q k subj s = Some (st, j, s')" "ap_objs s i = None"
  shows "same_ctxs s s'"
proof -
  have put: "same_ctxs s (put_tport k t1 (put_obj i (Some (OListener l)) s))"
    if "get_tport k s = Some t" "tp_bufs t1 = tp_bufs t" for t t1 l
  proof (rule cx_put [OF cx_obj [OF cx.frefl fresh_tport [OF assms(2)]]])
    have "i \<noteq> k" using assms(2) that(1) by (auto simp: get_tport_def)
    then show "get_tport k (put_obj i (Some (OListener l)) s) = Some t" using that(1) by (simp add: get_tport_def put_obj_def)
  qed (use that(2) in simp_all)
  have inner: "same_ctxs s (if b then put_tport k t1 (put_obj i (Some (OListener l)) s)
      else pipe_subscribe E k l t1 (put_tport k t1 (put_obj i (Some (OListener l)) s)))"
    if "get_tport k s = Some t" "tp_bufs t1 = tp_bufs t" for t t1 l b
    using put [OF that] cx_subscribe(1) [OF put [OF that, of l], of k t1 E l] by (simp add: put_tport_get)
  show ?thesis
  proof (cases "valid_subject subj \<and> get_queue q s \<noteq> None \<and> get_tport k s \<noteq> None")
    case True
    then obtain t where t: "get_tport k s = Some t" by auto
    then obtain l ht where l: "listener_new E i q k subj = Some l" "lh_push l (tp_ht t) = Some ht"
      using assms(1) True by (auto simp: create_listener_def bind_eq_Some_conv)
    define t1 where "t1 = t\<lparr>tp_wild := (if is_rv_wildcard subj \<noteq> None then tp_add_wildcard (ls_wild l) (tp_wild t) else tp_wild t), tp_ht := ht\<rparr>"
    have "tp_bufs t1 = tp_bufs t" by (simp add: t1_def tp_bufs_def)
    moreover have "s' = (if tp_is_inbox E l t1 then put_tport k t1 (put_obj i (Some (OListener l)) s)
        else pipe_subscribe E k l t1 (put_tport k t1 (put_obj i (Some (OListener l)) s)))"
      using assms(1) True t l by (auto simp: create_listener_def t1_def Let_def split: if_splits)
    ultimately show ?thesis using inner [OF t] by simp
  qed (use assms(1) in \<open>auto simp: create_listener_def split: if_splits option.splits intro: cx.frefl\<close>)
qed

lemma cx_destroy_listener:
  assumes "destroy_listener E l s = Some s'" "get_tport (ls_id l) s = None"
  shows "same_ctxs s s'"
proof -
  let ?s = "put_obj (ls_id l) None s"
  have o: "same_ctxs s ?s" using cx_obj [OF cx.frefl assms(2), of None] by simp
  show ?thesis
    using assms(1) o
    by (auto simp: destroy_listener_def Let_def bind_eq_Some_conv tp_bufs_def split: option.splits if_splits
        intro!: cx_rules cx_subscribe)
qed

lemma cx_destroy:
  assumes "destroy_event E i cb s = Some (st, s')" "reg_ok E (tabs s)"
  shows "same_ctxs s s'"
proof (cases "get_listener i s")
  case (Some l)
  have "ls_id l = i" by (rule reg_listener(1) [OF assms(2) get_tabs(2) [OF Some]])
  then have n: "get_tport (ls_id l) s = None" using Some by (auto simp: get_listener_def get_tport_def split: option.splits api_obj.splits)
  show ?thesis using assms(1) Some
    by (auto simp: destroy_event_def Let_def get_listener_def bind_eq_Some_conv split: option.splits api_obj.splits if_splits
        dest: cx_destroy_listener [OF _ n] intro!: cx_emit)
next
  case None
  then show ?thesis using assms(1)
    by (auto simp: destroy_event_def Let_def get_listener_def get_tport_def split: option.splits api_obj.splits if_splits
        intro!: cx_emit cx_obj cx.frefl)
qed

lemma cx_state_listener:
  assumes "set_state_listener E i k q s = (st, j, s')" "ap_objs s i = None" "reg_ok E (tabs s)"
  shows "same_ctxs s s'"
proof (cases "get_queue q s = None \<or> get_tport k s = None")
  case True
  then show ?thesis using assms(1) by (auto simp: set_state_listener_def Let_def split: if_splits option.splits intro: cx.frefl)
next
  case False
  then obtain t where t: "get_tport k s = Some t" by auto
  define l where "l = state_listener_new E i q k"
  define s1 where "s1 = put_tport k (t\<lparr>tp_state_listener := Some l\<rparr>) (put_obj i (Some (OListener l)) s)"
  have ik: "i \<noteq> k" using assms(2) t by (auto simp: get_tport_def)
  have s1: "same_ctxs s s1"
    unfolding s1_def using t ik
    by (intro cx_put [where t = t] cx_obj cx.frefl fresh_tport assms(2)) (auto simp: get_tport_def put_obj_def tp_bufs_def)
  have s': "s' = (case tp_state_listener t of None \<Rightarrow> s1 | Some old \<Rightarrow> put_obj (ls_id old) None s1)"
    using assms(1) t False unfolding s1_def l_def by (auto simp: set_state_listener_def Let_def)
  show ?thesis
  proof (cases "tp_state_listener t")
    case (Some old)
    have "tabs s (ls_id old) = VListener old" using reg_tport(3) [OF assms(3) get_tabs(1) [OF t] Some] by blast
    then have "get_listener (ls_id old) s = Some old" by (rule tabs_get(1))
    then have "get_tport (ls_id old) s1 = None" using ik t
      by (auto simp: s1_def get_listener_def get_tport_def put_tport_def put_obj_def split: option.splits api_obj.splits)
    then show ?thesis using cx_obj [OF s1] s' Some by simp
  qed (use s1 s' in simp)
qed

section \<open>Operations on the accumulators\<close>

lemma cx_setting: "same_ctxs s (snd (on_tport k f s))" if "\<And>t. tp_bufs (f t) = tp_bufs t"
  using that by (auto simp: on_tport_def split: option.split intro!: cx_rules)

lemma cx_settings:
  "f \<in> {set_batch_size k n, set_batch_dispatch_flush k b, set_wait_limit k n, set_description k dd} \<Longrightarrow> same_ctxs s (snd (f s))"
  by (auto simp: set_batch_size_def set_batch_dispatch_flush_def set_wait_limit_def set_description_def tp_bufs_def intro!: cx_setting)

lemma cx_queue: "same_ctxs s (snd (on_queue q f s))"
  by (auto simp: on_queue_def get_queue_def get_tport_def split: option.split api_obj.split intro!: cx.frefl cx_obj)

lemma cx_queue_settings:
  "f \<in> {set_queue_priority q n, set_queue_limit_policy q p m dc, set_queue_name q nm, set_queue_hook q h} \<Longrightarrow> same_ctxs s (snd (f s))"
  by (auto simp: set_queue_priority_def set_queue_limit_policy_def set_queue_name_def set_queue_hook_def Let_def case_prod_unfold
      split: option.split intro!: cx_queue cx_emit)

lemma cx_inbox: "create_inbox E k n s = (st, r, s') \<Longrightarrow> same_ctxs s s'"
  by (auto simp: create_inbox_def tp_bufs_def split: option.splits intro!: cx_rules)

lemma cx_timer:
  "same_ctxs s a \<Longrightarrow> get_tport k a = Some t \<Longrightarrow> same_ctxs s (start_batch_timer k t a)"
  "same_ctxs s a \<Longrightarrow> get_tport k a = Some t \<Longrightarrow> same_ctxs s (stop_batch_timer k t a)"
  by (auto simp: start_batch_timer_def stop_batch_timer_def tp_bufs_def intro!: cx_rules)

lemma cx_interval: "same_ctxs s (snd (set_batch_interval k secs s))"
  by (auto simp: set_batch_interval_def Let_def tp_bufs_def split: option.split intro!: cx_rules cx_timer)

lemma cx_sendv: "tport_sendv E k ps s = Some s' \<Longrightarrow> same_ctxs s s'"
  by (induction ps arbitrary: s) (auto simp: bind_eq_Some_conv intro: cx.frefl cx_trans [OF cx_send])

text \<open>A drain of any transport, also of one that does not exist.\<close>

lemma ok_drain: "ctxs_ok s \<Longrightarrow> drain_transport E k s = Some s' \<Longrightarrow> ctxs_ok s'"
  using drain_settles(1,4) [of s k _ E] by (cases "get_tport k s") (auto simp: drain_transport_def)

lemma ok_flush_ids: "ctxs_ok s \<Longrightarrow> flush_ids E ks s = Some s' \<Longrightarrow> ctxs_ok s'"
  by (induction ks arbitrary: s) (auto simp: bind_eq_Some_conv split: option.splits if_splits dest: ok_drain)

lemma ok_note: "ctxs_ok s \<Longrightarrow> note_dispatch_send E th d k s = Some s' \<Longrightarrow> ctxs_ok s'"
  by (auto simp: note_dispatch_send_def split: if_splits dest: ok_drain intro: same_ctxs_ok [OF cx_emit(2) [OF cx.frefl]])

lemma ok_flush_unless: "ctxs_ok s \<Longrightarrow> flush_unless_default E k t s = Some s' \<Longrightarrow> ctxs_ok s'"
  by (auto simp: flush_unless_default_def split: if_splits dest: ok_drain)

text \<open>More messages in an accumulator that is not the spare one of its transport.\<close>

lemma ctx_add_fold: "sc_tport (fold ctx_add ms c) = sc_tport c" "sc_pubs (fold ctx_add ms c) = sc_pubs c @ map pub_of_msg ms"
  by (induction ms arbitrary: c) (simp_all add: ctx_add_def)

lemma append_form:
  assumes "send_ctx_append (Some a) t ms s = Some (full, s')"
  shows "\<exists>c. ap_ctx s a = Some c \<and> s' = s\<lparr>ap_ctx := (ap_ctx s)(a \<mapsto> fold ctx_add ms c)\<rparr>"
  using assms by (auto simp: send_ctx_append_def bind_eq_Some_conv Let_def)

lemma ok_append:
  assumes ok: "ctxs_ok s" and t: "get_tport k s = Some t" and a: "a \<in> set (tp_ctxs t)" "tp_sb_spare t \<noteq> Some a"
    and s': "send_ctx_append (Some a) u ms s = Some (full, s')"
  shows "ctxs_ok s'"
proof -
  obtain c where c: "ap_ctx s a = Some c" "s' = s\<lparr>ap_ctx := (ap_ctx s)(a \<mapsto> fold ctx_add ms c)\<rparr>"
    using append_form [OF s'] by blast
  have own: "own_ok k t s" by (rule ctxs_okD(1) [OF ok t])
  have k: "sc_tport c = k" using own_okD(4) [OF own a(1)] c(1) by simp
  have g: "get_tport j s' = get_tport j s" for j by (simp add: c(2) get_tport_def)
  have same: "map_option sc_tport (ap_ctx s' b) = map_option sc_tport (ap_ctx s b)" for b using c by (simp add: ctx_add_fold)
  show ?thesis
  proof (rule ctxs_change [OF ok])
    show "get_tport k s' = Some t" using g t by simp
    show "own_ok k t s'"
      using own a(2) c k by (auto simp: own_ok_def pubs_at_def ctx_add_fold)
    show "ap_ctx s' b = Some x \<longleftrightarrow> ap_ctx s b = Some x" if "sc_tport x \<noteq> k" for b x
      using that c k by (auto simp: ctx_add_fold)
    fix b x assume b: "ap_ctx s' b = Some x"
    then obtain y where y: "ap_ctx s b = Some y" "sc_tport y = sc_tport x" using same [of b] by (cases "ap_ctx s b") auto
    show "b < ap_next s'" using ctxs_okD(3) [OF ok y(1)] c(2) by simp
    fix th assume "b \<in> set (ap_tls s' th)"
    then have "b \<in> set (ap_tls s th)" using c(2) by simp
    then show "if sc_tport x = k then b \<in> set (tp_writers t) else b \<in> set (ap_tls s th)"
      using ctxs_okD(2) [OF ok _ y(1)] y(2) t by auto
  qed (use g ctxs_okD(4) [OF ok] c(2) in simp_all)
qed

text \<open>Accumulators that are allocated.\<close>

lemma alloc_sel [simp]:
  "fst (alloc_ctx k s) = ap_next s" "get_tport j (snd (alloc_ctx k s)) = get_tport j s" "ap_tls (snd (alloc_ctx k s)) = ap_tls s"
  "ap_next (snd (alloc_ctx k s)) = Suc (ap_next s)" "ap_ctx (snd (alloc_ctx k s)) = (ap_ctx s)(ap_next s \<mapsto> ctx_new k)"
  by (simp_all add: alloc_ctx_def get_tport_def)

lemma find_ctx_found: "find_ctx k as s = Some (Some a) \<Longrightarrow> a \<in> set as \<and> (\<exists>c. ap_ctx s a = Some c \<and> sc_tport c = k)"
  by (induction as) (auto split: option.splits if_splits)

lemma fresh_ctx: "ctxs_ok s \<Longrightarrow> own_ok k t s \<Longrightarrow> ap_next s \<notin> set (tp_ctxs t)" "ctxs_ok s \<Longrightarrow> ap_ctx s (ap_next s) = None"
  using ctxs_okD(3) own_okD(4) by (fastforce, metis less_irrefl not_Some_eq)

lemma get_send_ctx_form:
  assumes "get_tport k s = Some t" "find_ctx k (ap_tls s th) s = Some None"
  shows "get_send_ctx th k s = Some (ap_next s, (put_tport k (t\<lparr>tp_writers := tp_writers t @ [ap_next s]\<rparr>) (snd (alloc_ctx k s)))
      \<lparr>ap_tls := (ap_tls s)(th := ap_next s # ap_tls s th)\<rparr>)"
  using assms by (simp add: get_send_ctx_def alloc_ctx_def get_tport_def)

lemma ok_get_send_ctx:
  assumes ok: "ctxs_ok s" and t: "get_tport k s = Some t" and g: "get_send_ctx th k s = Some (a, s')"
  shows "ctxs_ok s' \<and> (\<exists>t'. get_tport k s' = Some t' \<and> a \<in> set (tp_writers t'))"
proof -
  obtain f where found: "find_ctx k (ap_tls s th) s = Some f" using g by (auto simp: get_send_ctx_def bind_eq_Some_conv)
  show ?thesis
  proof (cases f)
    case (Some b)
    then have "b = a" "s' = s" using g found by (simp_all add: get_send_ctx_def)
    moreover obtain c where "a \<in> set (ap_tls s th)" "ap_ctx s a = Some c" "sc_tport c = k"
      using find_ctx_found [of k "ap_tls s th" s a] found Some \<open>b = a\<close> by auto
    ultimately show ?thesis using ctxs_okD(2) [OF ok] ok by blast
  next
    case None
    then have 2: "find_ctx k (ap_tls s th) s = Some None" using found by simp
    let ?n = "ap_next s" and ?t = "t\<lparr>tp_writers := tp_writers t @ [ap_next s]\<rparr>"
    have own: "own_ok k t s" by (rule ctxs_okD(1) [OF ok t])
    note f = fresh_ctx(1) [OF ok own] fresh_ctx(2) [OF ok]
    have s': "a = ?n" "s' = (put_tport k ?t (snd (alloc_ctx k s)))\<lparr>ap_tls := (ap_tls s)(th := ?n # ap_tls s th)\<rparr>"
      using get_send_ctx_form [OF t 2] g by simp_all
    have ctx: "ap_ctx s' = (ap_ctx s)(?n \<mapsto> ctx_new k)" by (simp add: s'(2))
    have gt: "get_tport j s' = (if j = k then Some ?t else get_tport j s)" for j
      by (simp add: s'(2) put_tport_def put_obj_def get_tport_def alloc_ctx_def)
    have set: "set (tp_ctxs ?t) = insert ?n (set (tp_ctxs t))" "distinct (tp_ctxs ?t)"
      using f(1) own_okD(1) [OF own] by (auto simp: tp_ctxs_def)
    have "pubs_at s' b = pubs_at s b" if "b \<noteq> ?n" for b using that by (simp add: pubs_at_def ctx)
    then have "pubs_at s' b = []" if "tp_sb_spare t = Some b" for b
      using that own_okD(5) [OF own] in_ctxs(1) [OF that] f(1) by metis
    then have "own_ok k ?t s'"
      using own_okD(1-4) [OF own] f(1) set unfolding own_ok_def by (simp add: ctx ctx_new_def)
    then have "ctxs_ok s'"
    proof (rule ctxs_change [OF ok _ _, rotated 2])
      show "get_tport k s' = Some ?t" using gt by simp
      show "get_tport j s' = get_tport j s" if "j \<noteq> k" for j using gt that by simp
      show "ap_ctx s' b = Some c \<longleftrightarrow> ap_ctx s b = Some c" if "sc_tport c \<noteq> k" for b c
        using that f(2) by (auto simp: ctx ctx_new_def)
      show "b < ap_next s'" if "ap_ctx s' b = Some c" for b c
        using that ctxs_okD(3) [OF ok, of b c] by (auto simp: ctx s'(2) split: if_splits)
      show "b < ap_next s'" if "b \<in> set (ap_tls s' i)" for i b
        using that ctxs_okD(4) [OF ok, of b i] by (auto simp: s'(2) split: if_splits)
      show "if sc_tport c = k then b \<in> set (tp_writers ?t) else b \<in> set (ap_tls s i)"
        if "b \<in> set (ap_tls s' i)" "ap_ctx s' b = Some c" for i b c
      proof (cases "b = ?n")
        case False
        then have "b \<in> set (ap_tls s i)" "ap_ctx s b = Some c" using that by (auto simp: ctx s'(2) split: if_splits)
        then show ?thesis using ctxs_okD(2) [OF ok] t by fastforce
      qed (use that in \<open>auto simp: ctx ctx_new_def\<close>)
    qed
    then show ?thesis using gt s'(1) by simp
  qed
qed

lemma ok_batch_mode:
  assumes ok: "ctxs_ok s"
  shows "ctxs_ok (snd (set_batch_mode k mode s))"
proof (cases "get_tport k s")
  case (Some t)
  have own: "own_ok k t s" by (rule ctxs_okD(1) [OF ok Some])
  have tls: "if sc_tport c = k then a \<in> set (tp_writers t) else a \<in> set (ap_tls s th)" if "a \<in> set (ap_tls s th)" "ap_ctx s a = Some c" for th a c
    using ctxs_okD(2) [OF ok that] that(1) Some by auto
  show ?thesis
  proof (cases "mode = SINGLE_BATCH \<and> tp_sb_fill t = None")
    case False
    then have "own_ok k (t\<lparr>tp_batch_mode := mode\<rparr>) s" using own by (auto simp: own_ok_def tp_ctxs_def)
    then have "own_ok k (t\<lparr>tp_batch_mode := mode\<rparr>) (put_tport k (t\<lparr>tp_batch_mode := mode\<rparr>) s)" by (rule own_ok_cong) simp
    then have "ctxs_ok (put_tport k (t\<lparr>tp_batch_mode := mode\<rparr>) s)"
      by (rule ctxs_change [OF ok _ _, rotated 2]) (use tls ctxs_okD(3,4) [OF ok] in \<open>auto simp: put_tport_get\<close>)
    then show ?thesis using False Some by (auto simp: set_batch_mode_def Let_def)
  next
    case True
    let ?n = "ap_next s" and ?s = "snd (alloc_ctx k (snd (alloc_ctx k s)))"
    let ?t = "t\<lparr>tp_batch_mode := mode, tp_sb_fill := Some ?n, tp_sb_spare := Some (Suc ?n)\<rparr>"
    have s': "snd (set_batch_mode k mode s) = put_tport k ?t ?s"
      using True Some by (simp add: set_batch_mode_def Let_def alloc_ctx_def)
    have n: "tp_sb_fill t = None" "tp_sb_spare t = None" using own_okD(2) [OF own] True by auto
    have ctx: "ap_ctx ?s = (ap_ctx s)(?n \<mapsto> ctx_new k, Suc ?n \<mapsto> ctx_new k)" by simp
    have less: "a < ?n" if "ap_ctx s a = Some c" for a c using ctxs_okD(3) [OF ok that] .
    have w: "a < ?n" if "a \<in> set (tp_writers t)" for a using own_okD(4) [OF own in_ctxs(3) [OF that]] less by blast
    have set: "tp_ctxs ?t = tp_writers t @ [?n, Suc ?n]" "tp_ctxs t = tp_writers t" by (simp_all add: tp_ctxs_def n)
    have "own_ok k ?t (put_tport k ?t ?s)"
      unfolding own_ok_def set using own_okD(1,4) [OF own] w
      by (fastforce simp: set pubs_at_def ctx ctx_new_def)
    then have "ctxs_ok (put_tport k ?t ?s)"
    proof (rule ctxs_change [OF ok _ _, rotated 2])
      show "ap_ctx (put_tport k ?t ?s) a = Some c \<longleftrightarrow> ap_ctx s a = Some c" if "sc_tport c \<noteq> k" for a c
        using that less [of a c] by (auto simp: ctx ctx_new_def)
      fix a c assume a: "ap_ctx (put_tport k ?t ?s) a = Some c"
      then show "a < ap_next (put_tport k ?t ?s)" using less [of a c] by (auto simp: ctx split: if_splits)
      fix th assume th: "a \<in> set (ap_tls (put_tport k ?t ?s) th)"
      show "if sc_tport c = k then a \<in> set (tp_writers ?t) else a \<in> set (ap_tls s th)"
        using a th tls [of a th c] ctxs_okD(4) [OF ok, of a th] by (simp add: ctx)
    qed (use ctxs_okD(4) [OF ok] in \<open>auto simp: put_tport_get less_Suc_eq\<close>)
    then show ?thesis using s' by simp
  qed
qed (use ok in \<open>simp add: set_batch_mode_def\<close>)

text \<open>Accumulators that are freed: some of those of a transport, which names them no more.\<close>

lemma ok_free:
  assumes ok: "ctxs_ok s" and t: "get_tport k s = Some t" and as: "set as \<subseteq> set (tp_ctxs t)"
    and t': "tp_ctxs t' = filter (\<lambda>a. a \<notin> set as) (tp_ctxs t)" "(tp_sb_fill t' = None) = (tp_sb_spare t' = None)"
      "tp_batch_mode t' = SINGLE_BATCH \<longrightarrow> \<not> tp_is_destroyed t' \<longrightarrow> tp_sb_fill t' \<noteq> None"
      "tp_sb_spare t' \<in> {None, tp_sb_spare t}" "set (tp_writers t) - set as \<subseteq> set (tp_writers t')"
  shows "ctxs_ok (free_ctxs as (put_tport k t' s))"
proof (rule ctxs_change [OF ok])
  let ?s = "free_ctxs as (put_tport k t' s)"
  have own: "own_ok k t s" by (rule ctxs_okD(1) [OF ok t])
  have ctx: "ap_ctx ?s a = (if a \<in> set as then None else ap_ctx s a)" for a by (simp add: free_ctxs_def)
  show "get_tport k ?s = Some t'" by (simp add: free_ctxs_def get_tport_def put_tport_def put_obj_def)
  show "get_tport j ?s = get_tport j s" if "j \<noteq> k" for j
    using that by (simp add: free_ctxs_def get_tport_def put_tport_def put_obj_def)
  have "pubs_at ?s a = []" if "tp_sb_spare t' = Some a" for a
    using that t'(4) own_okD(5) [OF own, of a] by (auto simp: pubs_at_def ctx)
  then show "own_ok k t' ?s"
    using own_okD(1,4) [OF own] t'(2,3) unfolding own_ok_def t'(1) by (simp add: ctx)
  show "ap_ctx ?s a = Some c \<longleftrightarrow> ap_ctx s a = Some c" if "sc_tport c \<noteq> k" for a c
    using own_okD(4) [OF own, of a] that as by (auto simp: ctx)
  show "a < ap_next ?s" if "ap_ctx ?s a = Some c" for a c
    using that ctxs_okD(3) [OF ok] by (auto simp: ctx free_ctxs_def split: if_splits)
  show "a < ap_next ?s" if "a \<in> set (ap_tls ?s th)" for a th
    using that ctxs_okD(4) [OF ok] by (simp add: free_ctxs_def)
  fix th a c assume a: "a \<in> set (ap_tls ?s th)" "ap_ctx ?s a = Some c"
  then have "a \<in> set (ap_tls s th)" "ap_ctx s a = Some c" "a \<notin> set as" by (auto simp: ctx free_ctxs_def split: if_splits)
  then show "if sc_tport c = k then a \<in> set (tp_writers t') else a \<in> set (ap_tls s th)"
    using ctxs_okD(2) [OF ok] t t'(5) by fastforce
qed

lemma ok_free_writers:
  assumes ok: "ctxs_ok s" and s': "free_transport_writers E k s = Some s'"
  shows "ctxs_ok s'"
proof -
  obtain s1 t where s1: "drain_transport E k s = Some s1" "get_tport k s1 = Some t"
    "s' = free_ctxs (tp_writers t) (put_tport k (t\<lparr>tp_writers := []\<rparr>) s1)"
    using s' by (auto simp: free_transport_writers_def bind_eq_Some_conv)
  have ok1: "ctxs_ok s1" by (rule ok_drain [OF ok s1(1)])
  note own = ctxs_okD(1) [OF ok1 s1(2)]
  have "tp_ctxs (t\<lparr>tp_writers := []\<rparr>) = filter (\<lambda>a. a \<notin> set (tp_writers t)) (tp_ctxs t)"
    using own_okD(1) [OF own] by (cases "tp_sb_fill t"; cases "tp_sb_spare t") (auto simp: tp_ctxs_def filter_empty_conv)
  then show ?thesis
    unfolding s1(3) using own_okD(2,3) [OF own] in_ctxs(3) by (intro ok_free [OF ok1 s1(2)]) auto
qed

text \<open>The shared pair of a transport is freed when it is destroyed.\<close>

lemma ok_destroy_transport:
  assumes ok: "ctxs_ok s" and s': "destroy_transport E k s = Some (st, s')"
  shows "ctxs_ok s'"
proof (cases "get_tport k s")
  case None
  then show ?thesis using ok s' by (simp add: destroy_transport_def)
next
  case Some
  obtain s1 s2 t where s1: "free_transport_writers E k s = Some s1" "free_send_buf E k s1 = Some s2" "get_tport k s2 = Some t"
    "close_tport k (put_tport k (t\<lparr>tp_is_destroyed := True\<rparr>) s2) = Some s'"
    using s' Some by (auto simp: destroy_transport_def bind_eq_Some_conv)
  have ok1: "ctxs_ok s1" by (rule ok_free_writers [OF ok s1(1)])
  obtain t1 s3 t3 where t3: "get_tport k s1 = Some t1" "get_tport k s3 = Some t3"
    "drain_transport E k (if tp_sb_timer_active t1 then stop_batch_timer k t1 s1 else s1) = Some s3"
    "s2 = free_ctxs (map the (filter (\<lambda>x. x \<noteq> None) [tp_sb_fill t3, tp_sb_spare t3]))
             (put_tport k (t3\<lparr>tp_sb_fill := None, tp_sb_spare := None\<rparr>) s3)"
    using s1(2) by (auto simp: free_send_buf_def bind_eq_Some_conv simp del: filter.simps)
  define fs where "fs = map the (filter (\<lambda>x. x \<noteq> None) [tp_sb_fill t3, tp_sb_spare t3])"
  have "ctxs_ok (if tp_sb_timer_active t1 then stop_batch_timer k t1 s1 else s1)"
    using ok1 same_ctxs_ok [OF cx_timer(2) [OF cx.frefl t3(1)] ok1] by simp
  from ok_drain [OF this t3(3)] have ok3: "ctxs_ok s3" .
  note own = ctxs_okD(1) [OF ok3 t3(2)]
  let ?t = "t3\<lparr>tp_sb_fill := None, tp_sb_spare := None, tp_is_destroyed := True\<rparr>"
  have t: "t = t3\<lparr>tp_sb_fill := None, tp_sb_spare := None\<rparr>"
    using s1(3) by (simp add: t3(4) free_ctxs_def get_tport_def put_tport_def put_obj_def)
  have ctxs: "tp_ctxs t3 = tp_writers t3 @ fs" "tp_ctxs ?t = tp_writers t3" unfolding tp_ctxs_def fs_def
    by (cases "tp_sb_fill t3"; cases "tp_sb_spare t3"; simp)+
  moreover have "filter (\<lambda>a. a \<notin> set fs) (tp_writers t3 @ fs) = tp_writers t3"
    using own_okD(1) [OF own] unfolding ctxs(1) by (auto simp: filter_id_conv)
  ultimately have "ctxs_ok (free_ctxs fs (put_tport k ?t s3))" by (intro ok_free [OF ok3 t3(2)]) auto
  moreover have "put_tport k (t\<lparr>tp_is_destroyed := True\<rparr>) s2 = free_ctxs fs (put_tport k ?t s3)"
    unfolding t t3(4) fs_def [symmetric] by (auto simp: free_ctxs_def put_tport_def put_obj_def fun_eq_iff)
  ultimately show ?thesis using same_ctxs_ok [OF cx_close [OF s1(4)]] by simp
qed

text \<open>Sends.\<close>

lemma fill_not_spare: "own_ok k t s \<Longrightarrow> tp_sb_fill t = Some a \<Longrightarrow> tp_sb_spare t \<noteq> Some a"
  and writer_not_spare: "own_ok k t s \<Longrightarrow> a \<in> set (tp_writers t) \<Longrightarrow> tp_sb_spare t \<noteq> Some a"
  by (auto simp: own_ok_def tp_ctxs_def)

lemma ok_sendv:
  assumes ok: "ctxs_ok s" and s': "api_sendv E th d k ms s = Some (st, s')"
  shows "ctxs_ok s'"
proof (cases "ms = [] \<or> get_tport k s = None")
  case True
  then show ?thesis using ok s' by (auto simp: api_sendv_def split: if_splits)
next
  case False
  then obtain t where t: "ms \<noteq> []" "get_tport k s = Some t" by auto
  have noted: "ctxs_ok s2" if "ctxs_ok s1" "(if tp_dispatch_flush t then note_dispatch_send E th d k s1 else Some s1) = Some s2" for s1 s2
    using that ok_note by (auto split: if_splits)
  show ?thesis
  proof (cases "tp_batch_mode t")
    case DEFAULT_BATCH
    then have "tport_sendv E k (map pub_of_msg ms) s = Some s'" using s' t by (simp add: api_sendv_def)
    then show ?thesis using same_ctxs_ok [OF cx_sendv] ok by blast
  next
    case TIMER_BATCH
    then obtain a s1 full s2 where s1: "get_send_ctx th k s = Some (a, s1)" "send_ctx_append (Some a) t ms s1 = Some (full, s2)"
      "(if full then drain_transport E k s2 else if tp_dispatch_flush t then note_dispatch_send E th d k s2 else Some s2) = Some s'"
      using s' t by (auto simp: api_sendv_def bind_eq_Some_conv Let_def split: if_splits)
    obtain t1 where t1: "ctxs_ok s1" "get_tport k s1 = Some t1" "a \<in> set (tp_writers t1)" using ok_get_send_ctx [OF ok t(2) s1(1)] by blast
    have "ctxs_ok s2"
      by (rule ok_append [OF t1(1,2) in_ctxs(3) [OF t1(3)] writer_not_spare [OF ctxs_okD(1) [OF t1(1,2)] t1(3)] s1(2)])
    then show ?thesis using s1(3) ok_drain noted by (auto split: if_splits)
  next
    case SINGLE_BATCH
    then obtain full s2 where s2: "send_ctx_append (tp_sb_fill t) t ms s = Some (full, s2)"
      "(if full \<and> \<not> tp_sb_pending t then drain_transport E k (put_tport k (t\<lparr>tp_sb_pending := True\<rparr>) s2)
        else if tp_dispatch_flush t then note_dispatch_send E th d k s2 else Some s2) = Some s'"
      using s' t by (auto simp: api_sendv_def bind_eq_Some_conv Let_def split: if_splits)
    have "ctxs_ok s2 \<and> get_tport k s2 = Some t"
    proof (cases "tp_sb_fill t")
      case None
      then show ?thesis using s2(1) ok t(2) by (simp add: send_ctx_append_def)
    next
      case (Some f)
      have "get_tport k s2 = Some t" using append_form [of f t ms s] s2(1) Some t(2) by (auto simp: get_tport_def)
      then show ?thesis
        using ok_append [OF ok t(2) in_ctxs(2) [OF Some] fill_not_spare [OF ctxs_okD(1) [OF ok t(2)] Some]] s2(1) Some by metis
    qed
    moreover from this have "ctxs_ok (put_tport k (t\<lparr>tp_sb_pending := True\<rparr>) s2)"
      by (auto intro!: same_ctxs_ok [of s2] cx_put [where t = t] cx.frefl simp: tp_bufs_def)
    ultimately show ?thesis using s2(2) ok_drain noted by (auto split: if_splits)
  qed
qed

lemma ok_request:
  assumes ok: "ctxs_ok s" and s': "send_request E k key m s = Some (st, m', s')"
  shows "ctxs_ok s'"
proof (cases "get_tport k s")
  case (Some t0)
  obtain s1 t where s1: "flush_unless_default E k t0 s = Some s1" "get_tport k s1 = Some t"
    using s' Some by (auto simp: send_request_def bind_eq_Some_conv)
  have "same_ctxs s1 s'"
    using s' Some s1 by (auto simp: send_request_def bind_eq_Some_conv Let_def tp_bufs_def split: if_splits
        elim!: cx_trans [OF _ cx_send, rotated] intro!: cx_put [OF cx.frefl s1(2)])
  then show ?thesis using same_ctxs_ok ok_flush_unless [OF ok s1(1)] by blast
qed (use ok s' in \<open>simp add: send_request_def\<close>)

lemma ok_reply: "ctxs_ok s \<Longrightarrow> send_reply E k m r s = Some (st, s') \<Longrightarrow> ctxs_ok s'"
  by (auto simp: send_reply_def bind_eq_Some_conv split: option.splits dest: ok_flush_unless same_ctxs_ok [OF cx_send])

lemma ok_flush: "ctxs_ok s \<Longrightarrow> api_flush E k s = Some (st, s') \<Longrightarrow> ctxs_ok s'"
  and ok_batch_timer: "ctxs_ok s \<Longrightarrow> batch_timer E k s = Some (b, s') \<Longrightarrow> ctxs_ok s'"
  by (auto simp: api_flush_def batch_timer_def bind_eq_Some_conv split: if_splits dest: ok_drain)

lemma ok_dispatched: "ctxs_ok s \<Longrightarrow> flush_dispatch_sends E th s = Some s' \<Longrightarrow> ctxs_ok s'"
  unfolding flush_dispatch_sends_def by (rule ok_flush_ids [OF same_ctxs_ok [OF cx_emit(2) [OF cx.frefl]]])

section \<open>The accumulators of reachable states\<close>

lemma ok_create_transport:
  assumes ok: "ctxs_ok s" and k: "ap_objs s k = None" and s': "create_transport E k c svc net dm sock s = Some s'"
  shows "ctxs_ok s'"
proof -
  obtain t where t: "s' = put_tport k t s" "tp_ctxs t = []" "tp_sb_fill t = None" "tp_sb_spare t = None" "tp_batch_mode t = DEFAULT_BATCH"
    using s' by (auto simp: create_transport_def bind_eq_Some_conv tport_new_def tp_ctxs_def)
  show ?thesis unfolding t(1)
  proof (rule ctxs_change [OF ok])
    show "get_tport k (put_tport k t s) = Some t" by simp
    show "own_ok k t (put_tport k t s)" by (simp add: own_ok_def t)
    show "if sc_tport c = k then a \<in> set (tp_writers t) else a \<in> set (ap_tls s th)"
      if "a \<in> set (ap_tls (put_tport k t s) th)" "ap_ctx (put_tport k t s) a = Some c" for th a c
      using ctxs_okD(2) [OF ok, of a th c] that fresh_tport [OF k] by auto
  qed (use ctxs_okD(3,4) [OF ok] in \<open>simp_all add: put_tport_get\<close>)
qed

lemma step_ctxs:
  assumes "api_step E s s'" "reg_ok E (tabs s)" "ctxs_ok s"
  shows "ctxs_ok s'"
  using assms
proof (cases rule: api_step.cases)
  case (s_other i x)
  then show ?thesis using assms(3)
    by (auto intro!: same_ctxs_ok [of s] cx_obj cx.frefl simp: get_tport_def split: option.splits api_obj.splits)
next
  case (s_queue i st j)
  then show ?thesis using assms(3)
    by (auto simp: create_queue_def intro!: same_ctxs_ok [of s] cx_obj cx.frefl fresh_tport)
next
  case (s_client k t c)
  then show ?thesis using assms(3) by (auto intro!: same_ctxs_ok [of s] cx_put [where t = t] cx.frefl simp: tp_bufs_def)
qed (use assms(3) in \<open>auto intro: same_ctxs_ok cx_create cx_destroy cx_state_listener ok_create_transport cx_create_end cx_close
      ok_destroy_transport cx_msg cx_connect cx_shutdown cx_reconnect ok_sendv ok_flush ok_dispatched ok_batch_timer ok_request
      cx_end_request ok_reply cx_inbox ok_batch_mode cx_interval cx_settings cx_queue_settings\<close>)

lemma reach_ctxs: "api_reach E s \<Longrightarrow> ctxs_ok s"
proof (induction rule: api_reach.induct)
  case (r_open c sock s)
  then have "\<exists>t. get_tport TIBRV_PROCESS_TRANSPORT s = Some t \<and> tp_ctxs t = [] \<and> tp_sb_fill t = None \<and> tp_sb_spare t = None \<and> tp_batch_mode t = DEFAULT_BATCH"
    "\<forall>k. k \<noteq> TIBRV_PROCESS_TRANSPORT \<longrightarrow> get_tport k s = None" "ap_ctx s = (\<lambda>a. None)" "ap_tls s = (\<lambda>t. [])"
    by (auto simp: api_open_def bind_eq_Some_conv Let_def get_tport_def ap_emit_def tport_new_def tp_ctxs_def TIBRV_PROCESS_TRANSPORT_def)
  moreover from this have "own_ok k t s" if "get_tport k s = Some t" for k t
    using that by (cases "k = TIBRV_PROCESS_TRANSPORT") (auto simp: own_ok_def)
  ultimately show ?case by (simp add: ctxs_ok_def)
qed (blast intro: step_ctxs reach_reg)

end
