(* ===== verification/Api_Properties.thy ===== *)
theory Api_Properties
  imports Api_Accum
begin

text \<open>
  What batches of messages guarantee: a send in a shared batch followed by a flush publishes what direct sends publish, and
  what goes wrong in a batch of a thread after its transport is destroyed.
\<close>

section \<open>Batches as direct sends\<close>

lemma append_pending:
  assumes ok: "ctxs_ok s" and t: "get_tport k s = Some t" and f: "tp_sb_fill t = Some f"
  shows "\<exists>full s'. send_ctx_append (Some f) t ms s = Some (full, s') \<and> get_tport k s' = Some t \<and> ctxs_ok s' \<and>
    waiting k s' = waiting k s @ map pub_of_msg ms \<and> ap_out s' = ap_out s"
proof -
  have own: "own_ok k t s" by (rule ctxs_okD(1) [OF ok t])
  obtain c where c: "ap_ctx s f = Some c" using own_okD(4) [OF own in_ctxs(2) [OF f]] by blast
  define s' where "s' = s\<lparr>ap_ctx := (ap_ctx s)(f \<mapsto> fold ctx_add ms c)\<rparr>"
  have a: "\<exists>full. send_ctx_append (Some f) t ms s = Some (full, s')" using c by (simp add: send_ctx_append_def Let_def s'_def)
  have g: "get_tport k s' = Some t" "ap_out s' = ap_out s" using t by (simp_all add: s'_def get_tport_def)
  have "f \<notin> set (tp_writers t)" using own_okD(1) [OF own] f by (auto simp: tp_ctxs_def)
  then have "concat (map (pubs_at s') (tp_writers t)) = concat (map (pubs_at s) (tp_writers t))"
    by (intro arg_cong [where f = concat] map_cong) (auto simp: pubs_at_def s'_def)
  moreover have "fill_pubs t s' = fill_pubs t s @ map pub_of_msg ms"
    using c f by (simp add: fill_pubs_def pubs_at_def s'_def ctx_add_fold)
  ultimately have "waiting k s' = waiting k s @ map pub_of_msg ms" using t g by (simp add: waiting_def)
  then show ?thesis using a g ok_append [OF ok t in_ctxs(2) [OF f] fill_not_spare [OF own f]] by blast
qed

lemma settled_append:
  "get_tport k s = Some t \<Longrightarrow> get_tport k s' = Some t' \<Longrightarrow> tp_client t' = tp_client t \<Longrightarrow> ap_out s' = ap_out s \<Longrightarrow>
   waiting k s' = waiting k s @ ps \<Longrightarrow> settled E k s' = map_option (fold (send1 E k) ps) (settled E k s)"
  by (simp add: settled_def)

lemma note_settled:
  assumes "ctxs_ok s" "get_tport k s = Some t"
  shows "\<exists>s' t'. note_dispatch_send E th d k s = Some s' \<and> get_tport k s' = Some t' \<and> settled E k s' = settled E k s \<and> ctxs_ok s'"
proof -
  have d: "get_tport k (s\<lparr>ap_dirty := x\<rparr>) = Some t" "settled E k (s\<lparr>ap_dirty := x\<rparr>) = settled E k s" "ctxs_ok (s\<lparr>ap_dirty := x\<rparr>)" for x
    using assms same_ctxs_ok [OF cx_emit(2) [OF cx.frefl]]
    by (simp_all add: settled_def waiting_def get_tport_def fill_pubs_def pubs_at_def cong: option.case_cong map_cong)
  have "\<exists>t'. get_tport k (drain_result E k t s) = Some t'" by (simp add: drain_result_def)
  then show ?thesis using d drain_settles [OF assms, of E] assms by (auto simp: note_dispatch_send_def)
qed

lemma flush_settled:
  assumes "ctxs_ok s" "get_tport k s = Some t"
  shows "\<exists>s' t'. api_flush E k s = Some (TIBRV_OK, s') \<and> get_tport k s' = Some t' \<and> waiting k s' = [] \<and>
    settled E k s = Some (tp_client t', ap_out s')"
proof -
  let ?s = "drain_result E k t s"
  obtain t' where t': "get_tport k ?s = Some t'" by (simp add: drain_result_def)
  then have "settled E k ?s = Some (tp_client t', ap_out ?s)" using drain_settles(2) [OF assms, of E] by (simp add: settled_def)
  then show ?thesis using t' assms(2) drain_settles [OF assms, of E] by (auto simp: api_flush_def)
qed

lemma sendv_settled:
  assumes ok: "ctxs_ok s" and t: "get_tport k s = Some t" "\<not> tp_is_destroyed t"
    and m: "tp_batch_mode t = SINGLE_BATCH \<or> tp_batch_mode t = DEFAULT_BATCH \<and> waiting k s = []"
  shows "\<exists>s' t'. api_sendv E th d k ms s = Some (TIBRV_OK, s') \<and> get_tport k s' = Some t' \<and> ctxs_ok s' \<and>
    settled E k s' = map_option (fold (send1 E k) (map pub_of_msg ms)) (settled E k s)"
proof (cases "ms = []")
  case True
  then show ?thesis using t ok by (simp add: api_sendv_def settled_def)
next
  case False
  show ?thesis
  proof (cases "tp_batch_mode t = SINGLE_BATCH")
    case True
    obtain f where f: "tp_sb_fill t = Some f" using own_okD(3) [OF ctxs_okD(1) [OF ok t(1)] True t(2)] by auto
    obtain full s1 where s1: "send_ctx_append (Some f) t ms s = Some (full, s1)" "get_tport k s1 = Some t" "ctxs_ok s1"
      and p: "waiting k s1 = waiting k s @ map pub_of_msg ms" "ap_out s1 = ap_out s"
      using append_pending [OF ok t(1) f] by blast
    have settled: "settled E k s1 = map_option (fold (send1 E k) (map pub_of_msg ms)) (settled E k s)"
      by (rule settled_append [OF t(1) s1(2) refl p(2,1)])
    let ?t = "t\<lparr>tp_sb_pending := True\<rparr>" and ?s = "put_tport k (t\<lparr>tp_sb_pending := True\<rparr>) s1"
    have put: "ctxs_ok ?s" "settled E k ?s = settled E k s1" "get_tport k ?s = Some ?t"
      using s1 f same_ctxs_ok [OF cx_put [OF cx.frefl s1(2)] s1(3)] by (simp_all add: tp_bufs_def settled_def waiting_def fill_pubs_def)
    have "\<exists>t'. get_tport k (drain_result E k ?t ?s) = Some t'" by (simp add: drain_result_def)
    then have drain: "\<exists>s' t'. drain_transport E k ?s = Some s' \<and> get_tport k s' = Some t' \<and> ctxs_ok s' \<and> settled E k s' = settled E k s1"
      using drain_settles [OF put(1,3), of E] put(2) by auto
    have noted: "\<exists>s' t'. (if tp_dispatch_flush t then note_dispatch_send E th d k s1 else Some s1) = Some s' \<and>
        get_tport k s' = Some t' \<and> ctxs_ok s' \<and> settled E k s' = settled E k s1"
      using note_settled [OF s1(3,2), of E th d] s1 by auto
    show ?thesis
    proof (cases "full \<and> \<not> tp_sb_pending t")
      case full: True
      then show ?thesis using False True t(1) f s1(1) drain settled by (auto simp: api_sendv_def Let_def)
    next
      case False
      then show ?thesis using \<open>ms \<noteq> []\<close> True t(1) f s1(1) noted settled
        by (cases "tp_dispatch_flush t") (auto simp: api_sendv_def Let_def)
    qed
  next
    case direct: False
    then have p: "waiting k s = []" using m by simp
    define s' where "s' = put_sent k t (fold (send1 E k) (map pub_of_msg ms) (tp_client t, ap_out s)) s"
    have sv: "tport_sendv E k (map pub_of_msg ms) s = Some s'" unfolding s'_def by (rule sendv_fold [OF t(1)])
    have g: "get_tport k s' = Some (t\<lparr>tp_client := fst (fold (send1 E k) (map pub_of_msg ms) (tp_client t, ap_out s))\<rparr>)" by (simp add: s'_def)
    have "waiting k s' = []"
      using p t(1) g by (cases "tp_sb_fill t") (simp_all add: waiting_def s'_def fill_pubs_def)
    then have "settled E k s' = map_option (fold (send1 E k) (map pub_of_msg ms)) (settled E k s)"
      using p t(1) g by (simp add: settled_def) (simp add: s'_def)
    moreover have "api_sendv E th d k ms s = Some (TIBRV_OK, s')"
      using \<open>ms \<noteq> []\<close> direct m t(1) sv by (auto simp: api_sendv_def)
    ultimately show ?thesis using g same_ctxs_ok [OF cx_sendv [OF sv] ok] by blast
  qed
qed

text \<open>
  C61: With one batch for all threads, or with none while nothing waits, a send and a later flush publish all
  that had waited and then the messages, in their order, as direct sends do, and nothing waits.
\<close>

theorem batch_refines:
  assumes "api_reach E s" "get_tport k s = Some t" "\<not> tp_is_destroyed t"
    and "tp_batch_mode t = SINGLE_BATCH \<or> tp_batch_mode t = DEFAULT_BATCH \<and> waiting k s = []"
  shows "\<exists>s1 s2 t2. api_sendv E th d k ms s = Some (TIBRV_OK, s1) \<and> api_flush E k s1 = Some (TIBRV_OK, s2) \<and>
    get_tport k s2 = Some t2 \<and> waiting k s2 = [] \<and>
    (tp_client t2, ap_out s2) = fold (send1 E k) (waiting k s @ map pub_of_msg ms) (tp_client t, ap_out s)"
proof -
  obtain s1 t1 where s1: "api_sendv E th d k ms s = Some (TIBRV_OK, s1)" "get_tport k s1 = Some t1" "ctxs_ok s1"
    "settled E k s1 = map_option (fold (send1 E k) (map pub_of_msg ms)) (settled E k s)"
    using sendv_settled [OF reach_ctxs [OF assms(1)] assms(2-4)] by metis
  obtain s2 t2 where "api_flush E k s1 = Some (TIBRV_OK, s2)" "get_tport k s2 = Some t2" "waiting k s2 = []"
    "settled E k s1 = Some (tp_client t2, ap_out s2)"
    using flush_settled [OF s1(3,2)] by metis
  then show ?thesis using s1(1,4) assms(2) by (auto simp: settled_def)
qed

section \<open>Accumulators that have been freed\<close>

lemma drain_keeps:
  assumes "ctxs_ok s" "drain_transport E k s = Some s'"
  shows "ap_ctx s' a = None \<longleftrightarrow> ap_ctx s a = None" "ap_tls s' = ap_tls s"
    "map_option tp_writers (get_tport k s') = map_option tp_writers (get_tport k s)"
proof -
  obtain t where t: "get_tport k s = Some t" using assms(2) by (auto simp: drain_transport_def bind_eq_Some_conv)
  then have "s' = drain_result E k t s" using drain_settles(1) [OF assms(1) t, of E] assms(2) by simp
  then show "ap_ctx s' a = None \<longleftrightarrow> ap_ctx s a = None" "ap_tls s' = ap_tls s"
    "map_option tp_writers (get_tport k s') = map_option tp_writers (get_tport k s)"
    by (simp_all add: drain_result_def swapped_ctxs t)
qed

lemma free_writers_freed:
  assumes ok: "ctxs_ok s" and t: "get_tport k s = Some t" and s': "free_transport_writers E k s = Some s'"
  shows "a \<in> set (tp_writers t) \<Longrightarrow> ap_ctx s' a = None" "ap_tls s' = ap_tls s"
proof -
  obtain s1 t1 where s1: "drain_transport E k s = Some s1" "get_tport k s1 = Some t1"
    "s' = free_ctxs (tp_writers t1) (put_tport k (t1\<lparr>tp_writers := []\<rparr>) s1)"
    using s' by (auto simp: free_transport_writers_def bind_eq_Some_conv)
  have "tp_writers t1 = tp_writers t" using drain_keeps(3) [OF ok s1(1)] s1(2) t by simp
  then show "a \<in> set (tp_writers t) \<Longrightarrow> ap_ctx s' a = None" by (simp add: s1(3) free_ctxs_def)
  show "ap_tls s' = ap_tls s" using drain_keeps(2) [OF ok s1(1)] by (simp add: s1(3) free_ctxs_def)
qed

lemma free_send_buf_keeps:
  assumes ok: "ctxs_ok s" and s': "free_send_buf E k s = Some s'"
  shows "ap_ctx s a = None \<Longrightarrow> ap_ctx s' a = None" "ap_tls s' = ap_tls s"
proof -
  obtain t0 s1 t as where s1: "get_tport k s = Some t0" "s' = free_ctxs as (put_tport k t s1)"
    "drain_transport E k (if tp_sb_timer_active t0 then stop_batch_timer k t0 s else s) = Some s1"
    using s' by (auto simp: free_send_buf_def bind_eq_Some_conv simp del: filter.simps)
  let ?s = "if tp_sb_timer_active t0 then stop_batch_timer k t0 s else s"
  have c: "same_ctxs s ?s" using cx_timer(2) [OF cx.frefl s1(1)] cx.frefl by simp
  note d = drain_keeps [OF same_ctxs_ok [OF c ok] s1(3)]
  show "ap_ctx s a = None \<Longrightarrow> ap_ctx s' a = None" using d(1) [of a] c by (simp add: s1(2) free_ctxs_def same_ctxs_def)
  show "ap_tls s' = ap_tls s" using d(2) c by (simp add: s1(2) free_ctxs_def same_ctxs_def)
qed

lemma destroy_frees:
  assumes ok: "ctxs_ok s" and t: "get_tport k s = Some t" "a \<in> set (tp_writers t)" and s': "destroy_transport E k s = Some (st, s')"
  shows "ap_ctx s' a = None" "ap_tls s' = ap_tls s"
proof -
  obtain s1 s2 u where s1: "free_transport_writers E k s = Some s1" "free_send_buf E k s1 = Some s2" "get_tport k s2 = Some u"
    "close_tport k (put_tport k (u\<lparr>tp_is_destroyed := True\<rparr>) s2) = Some s'"
    using s' t(1) by (auto simp: destroy_transport_def bind_eq_Some_conv)
  note keep = free_send_buf_keeps [OF ok_free_writers [OF ok s1(1)] s1(2)]
  have "same_ctxs (put_tport k (u\<lparr>tp_is_destroyed := True\<rparr>) s2) s'" by (rule cx_close [OF s1(4)])
  then have "ap_ctx s' = ap_ctx s2" "ap_tls s' = ap_tls s2" by (simp_all add: same_ctxs_def)
  then show "ap_ctx s' a = None" "ap_tls s' = ap_tls s" using keep free_writers_freed [OF ok t(1) s1(1)] t(2) by simp_all
qed

text \<open>
  C62: The accumulators of a transport are freed when it is destroyed, but the chain of a thread still names them: the
  next send of the thread in a batch of its own, on any transport, reads freed memory, when the thread's newest accumulator was
  one of them.
\<close>

theorem freed_batch_read:
  assumes "api_reach E s" "get_tport k s = Some t" "ap_tls s th = a # as" "a \<in> set (tp_writers t)"
    and "destroy_transport E k s = Some (st, s')" "get_tport j s' = Some u" "tp_batch_mode u = TIMER_BATCH" "ms \<noteq> []"
  shows "api_sendv E th d j ms s' = None"
proof -
  have "ap_ctx s' a = None" "ap_tls s' th = a # as"
    using destroy_frees [OF reach_ctxs [OF assms(1)] assms(2,4,5)] assms(3) by simp_all
  then have "get_send_ctx th j s' = None" by (simp add: get_send_ctx_def)
  then show ?thesis using assms(6-8) by (simp add: api_sendv_def)
qed

section \<open>Samples\<close>

definition sample_msg :: api_msg where
  "sample_msg = \<lparr>am_subject = ''A.B'', am_reply = [], am_data = []\<rparr>"

definition sample_mode :: "batch_mode \<Rightarrow> api" where
  "sample_mode mode = snd (set_batch_mode 10 mode sample_opened)"

lemma sample_mode_reach: "api_reach sample_api (sample_mode mode)"
  unfolding sample_mode_def by (rule r_step [OF r_open [OF sample_opened(1)] s_mode])

theorem batch_refines_witness:
  "\<exists>t s1 s2 t2. get_tport 10 (sample_mode SINGLE_BATCH) = Some t \<and>
     api_sendv sample_api 0 False 10 [sample_msg] (sample_mode SINGLE_BATCH) = Some (TIBRV_OK, s1) \<and>
     api_flush sample_api 10 s1 = Some (TIBRV_OK, s2) \<and> get_tport 10 s2 = Some t2 \<and> waiting 10 s2 = [] \<and>
     (tp_client t2, ap_out s2) = fold (send1 sample_api 10) (waiting 10 (sample_mode SINGLE_BATCH) @ map pub_of_msg [sample_msg])
       (tp_client t, ap_out (sample_mode SINGLE_BATCH))"
proof -
  have "map_option (\<lambda>t. (tp_is_destroyed t, tp_batch_mode t)) (get_tport 10 (sample_mode SINGLE_BATCH)) = Some (False, SINGLE_BATCH)"
    by code_simp
  then obtain t where t: "get_tport 10 (sample_mode SINGLE_BATCH) = Some t" "\<not> tp_is_destroyed t" "tp_batch_mode t = SINGLE_BATCH"
    by auto
  then show ?thesis using batch_refines [OF sample_mode_reach t(1,2) disjI1 [OF t(3)]] by blast
qed

definition sample_batched :: api where
  "sample_batched = snd (the (api_sendv sample_api 0 False 10 [sample_msg] (sample_mode TIMER_BATCH)))"

definition sample_freed :: api where
  "sample_freed = snd (the (destroy_transport sample_api 10 sample_batched))"

theorem freed_batch_read_witness:
  "api_sendv sample_api 0 False 10 [sample_msg] sample_freed = None"
proof -
  have "map_option fst (api_sendv sample_api 0 False 10 [sample_msg] (sample_mode TIMER_BATCH)) = Some TIBRV_OK" by code_simp
  then have s: "api_sendv sample_api 0 False 10 [sample_msg] (sample_mode TIMER_BATCH) = Some (TIBRV_OK, sample_batched)"
    by (auto simp: sample_batched_def)
  have "map_option fst (destroy_transport sample_api 10 sample_batched) = Some TIBRV_OK" by code_simp
  then have d: "destroy_transport sample_api 10 sample_batched = Some (TIBRV_OK, sample_freed)" by (auto simp: sample_freed_def)
  have "map_option tp_writers (get_tport 10 sample_batched) = Some [0]" "map_option tp_batch_mode (get_tport 10 sample_freed) = Some TIMER_BATCH"
    and th: "ap_tls sample_batched 0 = [0]" by code_simp+
  then obtain t u where t: "get_tport 10 sample_batched = Some t" "0 \<in> set (tp_writers t)" "get_tport 10 sample_freed = Some u" "tp_batch_mode u = TIMER_BATCH"
    by auto
  show ?thesis
    using freed_batch_read [OF r_step [OF sample_mode_reach s_send [OF s]] t(1) th t(2) d t(3,4), of "[sample_msg]" False] by simp
qed

end
