(* ===== verification/Spec2Isabelle.thy ===== *)
theory Spec2Isabelle
  imports Ft_Properties Rv_Subject Trdp_Properties Svc_Monitor Cli_Properties Api_Properties
begin

text \<open>
  A verification library for sassrv, a C++ implementation of a message daemon and of clients for the
  Rendezvous protocol. The file names below are relative to the sources.

  \<^bold>\<open>The program.\<close>  Clients connect to a daemon (\<open>src/ev_rv.cpp\<close>, \<open>src/rv_host.cpp\<close>), which groups them
  by network and service into hosts, routes their publications, and announces hosts, sessions and
  subscriptions by advisory messages. A monitor (\<open>src/submgr.cpp\<close>) reads these advisories and keeps a
  database of who subscribes to what. A group of clients elects a primary with the fault tolerance
  protocol (\<open>src/ft.cpp\<close>). Datagrams of the reliable transport are put in order and reassembled by
  \<open>src/mc.cpp\<close>. All of them run in one thread, driven by messages and timers; so every component here
  is a state, its handlers as functions of the state, and a relation whose steps are the handlers.

  \<^bold>\<open>Conventions.\<close>  A machine integer is a word of its width and its arithmetic wraps. A structure is a
  record, an enum a datatype. A handler returns an option: \<open>None\<close> is a run that does not come back, or
  that leaves the defined behaviour of C++ (a null pointer, an index out of range); errors that the code
  reports are values. Loops that may not end are \<open>partial_function (option)\<close>, so that not returning is
  \<open>None\<close>; the others are \<open>fun\<close> with their measure, and no definition has fuel. What a component does to
  its surroundings (messages sent, routes added, timers, callbacks) is a list of events in its state.
  Printing and logging are left out.

  The libraries raikv (hashes, routing, timers) and raimd (reading and writing of messages) are not part
  of the sources. They are arguments of the definitions: the records \<open>ft_env\<close>, \<open>sdb_env\<close>, \<open>svc_env\<close> and
  the decimal conversions of \<open>Rv_Subject\<close>. What a theorem needs of them is a named hypothesis
  (\<open>env_ok\<close>, \<open>compiles\<close>, \<open>roomy\<close> and others), and each has an instance in the witness of the theorem.

  \<^bold>\<open>Theories.\<close>

  \<^item> \<open>Sass_Prelude\<close>: types, theorem collections, array accesses with bounds, lists.

  \<^item> \<open>Ft_Queue\<close>, \<open>Ft_Member\<close> (\<open>include/sassrv/ft.h\<close>, \<open>src/ft.cpp\<close>): \<open>FtPeer\<close>, \<open>FtQueue\<close>, \<open>FtStateCount\<close>,
    \<open>FtPeerFree\<close> and \<open>RvFt\<close> with all handlers and timers. \<open>Ft_Invariant\<close> and \<open>Ft_Steps\<close> hold the invariant
    and its preservation, \<open>Ft_Properties\<close> what the protocol promises: the queue, its stored positions, the
    index and the allocator agree in every reachable state; no handler reads outside of them; members
    with the same view agree on the order and on the primary; a primary leads; the head of the queue
    takes over when its time is over; the in-place operations refine ranked insertion and deletion.

  \<^item> \<open>Rv_Subject\<close> (\<open>include/sassrv/ev_rv_client.h\<close>, \<open>ev_rv.h\<close>): wildcards, restricted subjects, inboxes; the
    one-pass matcher decides the meaning of a pattern by segments.

  \<^item> \<open>Trdp_Window\<close>, \<open>Trdp_Properties\<close> (\<open>src/mc.cpp\<close>): headers, windows, merging, reassembly and delivery,
    and the counts of lost messages. Messages are delivered in order, whole and once; the inputs on which
    the receiver does not return or reads past a datagram are characterised.

  \<^item> \<open>Sub_Entries\<close>, \<open>Sub_Db\<close>, \<open>Sub_Message\<close> (\<open>src/submgr.cpp\<close>): the entries of the monitor's database, its
    operations, and the messages and the timer that drive it. \<open>Sub_Invariant\<close>, \<open>Sub_Steps\<close> and \<open>Sub_Reach\<close>
    prove its invariant for every sequence of messages, \<open>Sub_Properties\<close> states it in terms of the
    tables: reference counts are exact, and the collection of garbage never frees a subscription in use.

  \<^item> \<open>Svc_Wire\<close> (\<open>RvMsgIn\<close>: envelopes and the encoding of subjects), \<open>Svc_Host\<close> (networks, services, host
    ids), \<open>Svc_Names\<close> (session names), \<open>Svc_Loss\<close> (\<open>RvPubLoss\<close>, \<open>RvLossArray\<close>), \<open>Svc_Tables\<close> (\<open>RvSubMap\<close>,
    \<open>RvPatternMap\<close>), \<open>Svc_Daemon\<close> (\<open>RvHost\<close>, \<open>RvFwdAdv\<close>), \<open>Svc_Service\<close> (\<open>EvRvService\<close>, \<open>EvRvListen\<close>) and
    \<open>Svc_Rpc\<close> (\<open>RvDaemonRpc\<close>): the daemon. \<open>Svc_Frame\<close>, \<open>Svc_Routes\<close> and \<open>Svc_Reach\<close> say which parts of the
    state an operation changes; \<open>Svc_Properties\<close> has the steps of a whole daemon with many connections:
    its states are well formed, the router holds exactly the routes of the connections' tables, and a
    closed connection leaves none. \<open>subject_round_trip\<close> and \<open>loss_reported_once\<close> are with their
    components.

  \<^item> \<open>Svc_Monitor\<close>: the daemon and the monitor together. The advisories that one publishes are the ones the
    other understands, with the same names, hosts and subjects.

  \<^item> \<open>Cli_Client\<close> (\<open>include/sassrv/ev_rv_client.h\<close>, \<open>src/ev_rv_client.cpp\<close>): \<open>EvRvClient\<close>, the other end of a
    connection: connecting, the handshake, saved and sent messages, its own database of subscriptions, and
    the subscriptions of others that it passes on. \<open>Cli_Flow\<close> has the steps of a client and what they keep;
    \<open>Cli_Handshake\<close> puts the client and the daemon together; \<open>Cli_Run\<close> is a run of both, from which the
    witnesses are taken. \<open>Cli_Properties\<close> and \<open>Cli_Mirror\<close>: the two agree on the session, no message is
    lost while a client connects, it hears the replies to its inboxes, and its subscriptions at the daemon
    mirror those of the router.

  \<^bold>\<open>Interfaces.\<close>  \<open>frame_rel\<close> of \<open>Svc_Frame\<close> is the contract of a relation between the state before and
  after an operation that composition keeps; its interpretations, three for the daemon, three for the
  client and one for both, carry the proofs over loops and option binds. The other locales stand with the components that provide them.

  \<^bold>\<open>Not modelled.\<close>  The
  interfaces \<open>src/rv7_api.cpp\<close>, \<open>rv7_msg.cpp\<close>, \<open>rv7_ft.cpp\<close> and \<open>rv5_api.cpp\<close>: they wrap the client with
  threads, pipes and condition variables, and raimd with accessors. Sockets (\<open>TrdpSvc::create\<close>,
  \<open>EvRvListen::listen\<close>), lookups of hosts and devices, which are system calls and arguments where their
  result is used. The test programs and the Go bindings.
\<close>

end
